(* ===== verification/Go_Prelude.thy ===== *)
theory Go_Prelude
  imports Main "HOL-Library.Word" "HOL-Library.Signed_Division"
begin

text \<open>
  Shared ground of the development: Go strings and byte slices as lists of 8-bit
  \<open>char\<close>s, the functions of Go's \<open>strings\<close>, \<open>bytes\<close> and \<open>strconv\<close> packages that the
  sources call, the sum type used for \<open>(T, error)\<close> results, 64-bit integer wrap-around,
  and the lemmas about them that the component theories share.
\<close>

named_theorems go_simps \<open>unfolding equations of the small Go library functions\<close>
named_theorems render \<open>length and membership facts of rendered texts\<close>

type_synonym byte = char
type_synonym bytes = "char list"

abbreviation code :: "byte \<Rightarrow> nat" where
  "code c \<equiv> of_char c"

lemma code_less_256 [simp]: "code c < 256"
  by (metis nat_of_char_less_256)

lemma code_inject [simp]: "code c = code d \<longleftrightarrow> c = d"
  by simp

lemma char_of_code: "n < 256 \<Longrightarrow> code (char_of n) = n"
  by (simp add: of_char_of)

subsection \<open>Fallible results\<close>

text \<open>A Go function with results \<open>(T, error)\<close> returns \<open>Inl e\<close> when the error is not nil and
  \<open>Inr v\<close> otherwise; the zero value that accompanies an error is never read by the sources.\<close>

definition bind_res :: "'e + 'a \<Rightarrow> ('a \<Rightarrow> 'e + 'b) \<Rightarrow> 'e + 'b" where
  "bind_res r f = (case r of Inl e \<Rightarrow> Inl e | Inr v \<Rightarrow> f v)"

lemma bind_res_simps [simp]:
  "bind_res (Inl e) f = Inl e" "bind_res (Inr v) f = f v"
  by (simp_all add: bind_res_def)

lemma bind_res_Inr_iff: "bind_res r f = Inr w \<longleftrightarrow> (\<exists>v. r = Inr v \<and> f v = Inr w)"
  by (cases r) simp_all

fun map_res :: "('a \<Rightarrow> 'e + 'b) \<Rightarrow> 'a list \<Rightarrow> 'e + 'b list" where
  "map_res f [] = Inr []"
| "map_res f (x # xs) = bind_res (f x) (\<lambda>y. bind_res (map_res f xs) (\<lambda>ys. Inr (y # ys)))"

lemma map_res_Inr_list_all2:
  "map_res f xs = Inr ys \<longleftrightarrow> list_all2 (\<lambda>x y. f x = Inr y) xs ys"
  by (induction xs arbitrary: ys) (auto simp: bind_res_Inr_iff list_all2_Cons1)

lemma map_res_map:
  "(\<And>x. x \<in> set xs \<Longrightarrow> f x = Inr (g x)) \<Longrightarrow> map_res f xs = Inr (map g xs)"
  by (induction xs) simp_all

subsection \<open>Integers of width 64\<close>

definition i64 :: "int \<Rightarrow> int" where
  "i64 x = (x + 2 ^ 63) mod 2 ^ 64 - 2 ^ 63"

abbreviation int64_range :: "int \<Rightarrow> bool" where
  "int64_range x \<equiv> - (2 ^ 63) \<le> x \<and> x < 2 ^ 63"

lemma i64_id [simp]: "int64_range x \<Longrightarrow> i64 x = x"
  by (simp add: i64_def)

lemma i64_range: "int64_range (i64 x)"
proof -
  have "0 \<le> (x + 2 ^ 63) mod 2 ^ 64" and "(x + 2 ^ 63) mod 2 ^ 64 < (2 ^ 64 :: int)"
    by (rule pos_mod_sign, simp, rule pos_mod_bound, simp)
  then show ?thesis by (simp add: i64_def)
qed

subsection \<open>Prefixes, suffixes, cutting and splitting\<close>

fun has_prefix :: "'a list \<Rightarrow> 'a list \<Rightarrow> bool" where
  "has_prefix s [] = True"
| "has_prefix [] (x # p) = False"
| "has_prefix (y # s) (x # p) = (y = x \<and> has_prefix s p)"

lemma has_prefix_iff: "has_prefix s p \<longleftrightarrow> (\<exists>t. s = p @ t)"
  by (induction s p rule: has_prefix.induct) auto

lemma has_prefix_append [simp]: "has_prefix (p @ t) p"
  by (auto simp: has_prefix_iff)

lemma has_prefix_take: "has_prefix s p \<longleftrightarrow> take (length p) s = p"
  by (induction s p rule: has_prefix.induct) auto

lemma has_prefix_drop: "has_prefix s p \<Longrightarrow> s = p @ drop (length p) s"
  by (auto simp: has_prefix_iff)

definition has_suffix :: "'a list \<Rightarrow> 'a list \<Rightarrow> bool" where
  "has_suffix s p = has_prefix (rev s) (rev p)"

lemma has_suffix_iff: "has_suffix s p \<longleftrightarrow> (\<exists>t. s = t @ p)"
  unfolding has_suffix_def has_prefix_iff
  by (metis rev_append rev_rev_ident)

definition trim_suffix :: "'a list \<Rightarrow> 'a list \<Rightarrow> 'a list" where
  "trim_suffix s p = (if has_suffix s p then take (length s - length p) s else s)"

lemma trim_suffix_append [simp]: "trim_suffix (s @ p) p = s"
  by (auto simp: trim_suffix_def has_suffix_iff)

lemma trim_suffix_none: "\<not> has_suffix s p \<Longrightarrow> trim_suffix s p = s"
  by (simp add: trim_suffix_def)

definition trim_prefix :: "'a list \<Rightarrow> 'a list \<Rightarrow> 'a list" where
  "trim_prefix s p = (if has_prefix s p then drop (length p) s else s)"

text \<open>\<open>strings.CutPrefix\<close>: the rest after a prefix, if it is there.\<close>

definition cut_prefix :: "'a list \<Rightarrow> 'a list \<Rightarrow> 'a list option" where
  "cut_prefix s p = (if has_prefix s p then Some (drop (length p) s) else None)"

lemma cut_prefix_append [simp]: "cut_prefix (p @ t) p = Some t"
  by (simp add: cut_prefix_def)

lemma cut_prefix_Some_iff: "cut_prefix s p = Some t \<longleftrightarrow> s = p @ t"
  by (auto simp: cut_prefix_def has_prefix_iff)

text \<open>\<open>strings.Cut\<close>: the text before and after the first occurrence of a separator.\<close>

fun find_sub :: "'a list \<Rightarrow> 'a list \<Rightarrow> ('a list \<times> 'a list) option" where
  "find_sub sep [] = (if sep = [] then Some ([], []) else None)"
| "find_sub sep (c # s) =
     (if has_prefix (c # s) sep then Some ([], drop (length sep) (c # s))
      else map_option (\<lambda>(a, b). (c # a, b)) (find_sub sep s))"

definition cut :: "'a list \<Rightarrow> 'a list \<Rightarrow> 'a list \<times> 'a list \<times> bool" where
  "cut s sep = (case find_sub sep s of Some (a, b) \<Rightarrow> (a, b, True) | None \<Rightarrow> (s, [], False))"

lemma find_sub_Some: "find_sub sep s = Some (a, b) \<Longrightarrow> s = a @ sep @ b"
  by (induction s arbitrary: a)
     (auto split: if_splits simp: has_prefix_iff)

lemma find_sub_fresh_head:
  "x \<notin> set a \<Longrightarrow> find_sub (x # sep) (a @ x # sep @ b) = Some (a, b)"
  by (induction a) (auto simp: has_prefix_iff)

lemma find_sub_byte_None: "x \<notin> set s \<Longrightarrow> find_sub [x] s = None"
  by (induction s) auto

lemma cut_fresh_head: "x \<notin> set a \<Longrightarrow> cut (a @ x # sep @ b) (x # sep) = (a, b, True)"
  by (simp add: cut_def find_sub_fresh_head)

lemma cut_byte: "x \<notin> set a \<Longrightarrow> cut (a @ x # b) [x] = (a, b, True)"
  using cut_fresh_head [of x a "[]" b] by simp

lemma cut_byte_None: "x \<notin> set s \<Longrightarrow> cut s [x] = (s, [], False)"
  by (simp add: cut_def find_sub_byte_None)

lemma cut_found: "cut s sep = (a, b, True) \<Longrightarrow> s = a @ sep @ b"
  by (auto simp: cut_def split: option.splits dest: find_sub_Some)

text \<open>\<open>strings.Contains\<close> and \<open>strings.ContainsAny\<close> (for ASCII character sets).\<close>

definition contains_sub :: "'a list \<Rightarrow> 'a list \<Rightarrow> bool" where
  "contains_sub s sep = (find_sub sep s \<noteq> None)"

definition contains_any :: "bytes \<Rightarrow> bytes \<Rightarrow> bool" where
  "contains_any s cs = list_ex (\<lambda>c. c \<in> set cs) s"

text \<open>\<open>strings.Split\<close> on a one-byte separator: never empty.\<close>

fun split_byte :: "'a \<Rightarrow> 'a list \<Rightarrow> 'a list list" where
  "split_byte x [] = [[]]"
| "split_byte x (c # s) =
     (if c = x then [] # split_byte x s
      else case split_byte x s of [] \<Rightarrow> [[c]] | p # ps \<Rightarrow> (c # p) # ps)"

lemma split_byte_not_Nil [simp]: "split_byte x s \<noteq> []"
  by (induction s) (auto split: list.splits)

lemma split_byte_fresh: "x \<notin> set s \<Longrightarrow> split_byte x s = [s]"
  by (induction s) auto

lemma split_byte_append: "x \<notin> set a \<Longrightarrow> split_byte x (a @ x # b) = a # split_byte x b"
  by (induction a) auto

text \<open>\<open>strings.Join\<close>.\<close>

fun join_with :: "'a list \<Rightarrow> 'a list list \<Rightarrow> 'a list" where
  "join_with sep [] = []"
| "join_with sep [p] = p"
| "join_with sep (p # q # ps) = p @ sep @ join_with sep (q # ps)"

lemma join_with_Cons: "ps \<noteq> [] \<Longrightarrow> join_with sep (p # ps) = p @ sep @ join_with sep ps"
  by (cases ps) simp_all

lemma split_join:
  "ps \<noteq> [] \<Longrightarrow> (\<And>p. p \<in> set ps \<Longrightarrow> x \<notin> set p) \<Longrightarrow> split_byte x (join_with [x] ps) = ps"
  by (induction "[x]" ps rule: join_with.induct)
     (auto simp: split_byte_fresh split_byte_append)

lemma join_with_Cons_head: "join_with sep ((c # p) # ps) = c # join_with sep (p # ps)"
  by (cases ps) simp_all

lemma join_split: "join_with [x] (split_byte x s) = s"
proof (induction s)
  case (Cons c s)
  then show ?case
    by (cases "split_byte x s") (auto simp: join_with_Cons join_with_Cons_head)
qed simp

text \<open>\<open>strings.LastIndexByte\<close>.\<close>

fun last_index :: "'a list \<Rightarrow> 'a \<Rightarrow> nat option" where
  "last_index [] x = None"
| "last_index (c # s) x =
     (case last_index s x of Some i \<Rightarrow> Some (Suc i) | None \<Rightarrow> if c = x then Some 0 else None)"

lemma last_index_None: "last_index s x = None \<longleftrightarrow> x \<notin> set s"
  by (induction s) (auto split: option.splits)

lemma last_index_append: "x \<notin> set b \<Longrightarrow> last_index (a @ x # b) x = Some (length a)"
proof (induction a)
  case Nil
  then show ?case by (simp add: last_index_None [THEN iffD2])
qed simp

lemma last_index_Some:
  "last_index s x = Some i \<Longrightarrow> i < length s \<and> s ! i = x \<and> x \<notin> set (drop (Suc i) s)"
proof (induction s arbitrary: i)
  case (Cons c s)
  then show ?case
    by (cases "last_index s x") (auto split: if_splits simp: last_index_None)
qed simp

subsection \<open>Decimal numbers\<close>

definition is_digit :: "byte \<Rightarrow> bool" where
  "is_digit c \<longleftrightarrow> 48 \<le> code c \<and> code c \<le> 57"

definition digit_val :: "byte \<Rightarrow> nat" where
  "digit_val c = code c - 48"

definition digit_char :: "nat \<Rightarrow> byte" where
  "digit_char d = char_of (48 + d)"

lemma code_digit_char [simp]: "d < 10 \<Longrightarrow> code (digit_char d) = 48 + d"
  by (simp add: digit_char_def char_of_code)

lemma is_digit_digit_char [simp]: "d < 10 \<Longrightarrow> is_digit (digit_char d)"
  by (simp add: is_digit_def)

lemma digit_val_digit_char [simp]: "d < 10 \<Longrightarrow> digit_val (digit_char d) = d"
  by (simp add: digit_val_def)

lemma digit_char_digit_val: "is_digit c \<Longrightarrow> digit_char (digit_val c) = c"
  by (simp add: is_digit_def digit_val_def digit_char_def)

lemma digit_val_less: "is_digit c \<Longrightarrow> digit_val c < 10"
  by (auto simp: is_digit_def digit_val_def)

lemma digit_val_0_iff: "is_digit c \<Longrightarrow> digit_val c = 0 \<longleftrightarrow> c = CHR ''0''"
proof -
  assume d: "is_digit c"
  have "digit_val c = 0 \<longleftrightarrow> code c = code (CHR ''0'')"
    using d by (auto simp: digit_val_def is_digit_def)
  then show ?thesis by (simp only: code_inject)
qed

text \<open>\<open>strconv.Itoa\<close> and \<open>strconv.FormatInt\<close> in base 10.\<close>

fun itoa_nat :: "nat \<Rightarrow> bytes" where
  "itoa_nat n = (if n < 10 then [digit_char n] else itoa_nat (n div 10) @ [digit_char (n mod 10)])"

declare itoa_nat.simps [simp del]

definition itoa :: "int \<Rightarrow> bytes" where
  "itoa z = (if z < 0 then CHR ''-'' # itoa_nat (nat (- z)) else itoa_nat (nat z))"

lemma itoa_of_nat [simp]: "itoa (int n) = itoa_nat n"
  by (simp add: itoa_def)

text \<open>The digit loop of \<open>strconv.ParseUint\<close> in base 10, on unbounded numbers.\<close>

definition digits_val :: "bytes \<Rightarrow> nat" where
  "digits_val s = foldl (\<lambda>n c. n * 10 + digit_val c) 0 s"

lemma digits_val_snoc [simp]: "digits_val (s @ [c]) = digits_val s * 10 + digit_val c"
  by (simp add: digits_val_def)

lemma itoa_nat_induct [case_names small step]:
  fixes P :: "nat \<Rightarrow> bool"
  assumes "\<And>n. n < 10 \<Longrightarrow> P n" and "\<And>n. \<not> n < 10 \<Longrightarrow> P (n div 10) \<Longrightarrow> P n"
  shows "P n"
  by (induction n rule: itoa_nat.induct) (metis assms)

lemma itoa_nat_small: "n < 10 \<Longrightarrow> itoa_nat n = [digit_char n]"
  by (simp add: itoa_nat.simps)

lemma itoa_nat_step: "\<not> n < 10 \<Longrightarrow> itoa_nat n = itoa_nat (n div 10) @ [digit_char (n mod 10)]"
  by (subst itoa_nat.simps) simp

lemma itoa_nat_not_Nil [simp]: "itoa_nat n \<noteq> []"
  by (subst itoa_nat.simps) simp

lemma digits_val_itoa_nat [simp]: "digits_val (itoa_nat n) = n"
proof (induction n rule: itoa_nat_induct)
  case (small n)
  then show ?case by (simp add: itoa_nat_small digits_val_def)
next
  case (step n)
  then show ?case by (simp add: itoa_nat_step)
qed

lemma list_all_itoa_nat [simp]: "list_all is_digit (itoa_nat n)"
proof (induction n rule: itoa_nat_induct)
  case (small n)
  then show ?case by (simp add: itoa_nat_small)
next
  case (step n)
  then show ?case by (simp add: itoa_nat_step)
qed

lemma set_itoa_nat: "c \<in> set (itoa_nat n) \<Longrightarrow> is_digit c"
  using list_all_itoa_nat [of n] by (auto simp: list_all_iff)

lemma itoa_nat_inject [simp]: "itoa_nat m = itoa_nat n \<longleftrightarrow> m = n"
  by (metis digits_val_itoa_nat)

lemma itoa_nat_hd_zero: "hd (itoa_nat n) = CHR ''0'' \<longleftrightarrow> n = 0"
proof (induction n rule: itoa_nat_induct)
  case (small n)
  then show ?case
    using digit_val_0_iff [of "digit_char n"] by (simp add: itoa_nat_small)
next
  case (step n)
  then show ?case by (simp add: itoa_nat_step)
qed

lemma length_itoa_nat_1: "length (itoa_nat n) = 1 \<longleftrightarrow> n < 10"
  by (subst itoa_nat.simps) simp

lemma itoa_nat_no_leading_zero: "1 < length (itoa_nat n) \<Longrightarrow> hd (itoa_nat n) \<noteq> CHR ''0''"
  using length_itoa_nat_1 [of n] by (auto simp: itoa_nat_hd_zero itoa_nat_small)

lemma length_itoa_nat_mono: "m \<le> n \<Longrightarrow> length (itoa_nat m) \<le> length (itoa_nat n)"
proof (induction m arbitrary: n rule: itoa_nat_induct)
  case (small m)
  then show ?case by (simp add: itoa_nat_small Suc_le_eq)
next
  case (step m)
  then have "\<not> n < 10" and "m div 10 \<le> n div 10" by (auto intro: div_le_mono)
  with step show ?case by (simp add: itoa_nat_step)
qed

text \<open>A digit string without a superfluous leading zero is the rendering of its value, so the
  decimal syntax that rejects leading zeros is canonical.\<close>

lemma itoa_nat_digits_val:
  assumes "list_all is_digit s" and "s \<noteq> []" and "length s = 1 \<or> hd s \<noteq> CHR ''0''"
  shows "itoa_nat (digits_val s) = s"
  using assms
proof (induction s rule: rev_induct)
  case Nil
  then show ?case by simp
next
  case (snoc c s)
  have d: "digit_val c < 10" using snoc.prems by (simp add: digit_val_less)
  show ?case
  proof (cases "s = []")
    case True
    with d snoc.prems show ?thesis
      by (simp add: digits_val_def itoa_nat_small digit_char_digit_val)
  next
    case False
    with snoc.prems have nz: "hd s \<noteq> CHR ''0''" by auto
    with False snoc have IH: "itoa_nat (digits_val s) = s" by simp
    have "digits_val s \<noteq> 0" using IH nz itoa_nat_hd_zero [of "digits_val s"] by auto
    then have "\<not> digits_val s * 10 + digit_val c < 10" by simp
    with d IH snoc.prems show ?thesis
      by (simp add: itoa_nat_step digit_char_digit_val)
  qed
qed

lemma digits_val_append: "digits_val (s @ t) = digits_val s * 10 ^ length t + digits_val t"
proof (induction t rule: rev_induct)
  case Nil
  then show ?case by (simp add: digits_val_def)
next
  case (snoc c t)
  have "digits_val (s @ t @ [c]) = digits_val (s @ t) * 10 + digit_val c"
    by (metis append.assoc digits_val_snoc)
  with snoc show ?case by (simp add: algebra_simps)
qed

lemma digits_val_prefix: "digits_val s \<le> digits_val (s @ t)"
proof -
  have "digits_val s * 1 \<le> digits_val s * 10 ^ length t" by (intro mult_le_mono2) simp
  then show ?thesis unfolding digits_val_append by linarith
qed

lemma digits_val_Nil [simp]: "digits_val [] = 0"
  by (simp add: digits_val_def)

lemma length_itoa_nat_le: "n < 10 ^ k \<Longrightarrow> 0 < k \<Longrightarrow> length (itoa_nat n) \<le> k"
proof (induction n arbitrary: k rule: itoa_nat_induct)
  case (small n)
  then show ?case by (simp add: itoa_nat_small)
next
  case (step n)
  then obtain j where k: "k = Suc j" by (cases k) auto
  with step.prems have "n div 10 < 10 ^ j" by (simp add: less_mult_imp_div_less mult.commute)
  moreover from step.hyps k step.prems have "0 < j" by (cases j) auto
  ultimately show ?case using step k by (simp add: itoa_nat_step)
qed

text \<open>\<open>strconv.ParseUint(s, 10, bits)\<close>: \<open>None\<close> on a syntax or range error. (Of the clamped value
  that Go returns beside a range error, the sources use only what \<open>ParseVersion\<close> stores; see there.)\<close>

definition parse_uint :: "nat \<Rightarrow> bytes \<Rightarrow> nat option" where
  "parse_uint bits s =
     (if s = [] \<or> \<not> list_all is_digit s then None
      else if digits_val s < 2 ^ bits then Some (digits_val s) else None)"

lemma parse_uint_itoa [simp]: "n < 2 ^ bits \<Longrightarrow> parse_uint bits (itoa_nat n) = Some n"
  by (simp add: parse_uint_def)

text \<open>\<open>strconv.ParseInt(s, 10, bits)\<close>: an optional sign, then the unsigned syntax.\<close>

definition parse_int :: "nat \<Rightarrow> bytes \<Rightarrow> int option" where
  "parse_int bits s =
     (let neg = has_prefix s ''-'';
          body = (if neg \<or> has_prefix s ''+'' then tl s else s)
      in case parse_uint 64 body of
           None \<Rightarrow> None
         | Some n \<Rightarrow>
             if \<not> neg \<and> 2 ^ (bits - 1) \<le> n \<or> neg \<and> 2 ^ (bits - 1) < n then None
             else Some (if neg then - int n else int n))"

abbreviation atoi :: "bytes \<Rightarrow> int option" where
  "atoi \<equiv> parse_int 64"

lemma has_prefix_byte: "has_prefix s [x] \<longleftrightarrow> (\<exists>t. s = x # t)"
  by (cases s) auto

lemma not_sign_itoa_nat [simp]:
  "\<not> has_prefix (itoa_nat n) ''-''" "\<not> has_prefix (itoa_nat n) ''+''"
  using list_all_itoa_nat [of n]
  by (auto simp: has_prefix_byte is_digit_def simp del: list_all_itoa_nat)

lemma parse_int_itoa_nat:
  assumes "bits \<le> 64" and "0 < bits" and "n < 2 ^ (bits - 1)"
  shows "parse_int bits (itoa_nat n) = Some (int n)"
proof -
  have "(2::nat) ^ (bits - 1) \<le> 2 ^ 64" using assms(1) by (intro power_increasing) auto
  then have "n < 2 ^ 64" using assms(3) by linarith
  then show ?thesis using assms(3) by (simp add: parse_int_def)
qed

lemma atoi_itoa_nat: "n < 2 ^ 63 \<Longrightarrow> atoi (itoa_nat n) = Some (int n)"
  by (rule parse_int_itoa_nat) simp_all

lemma atoi_itoa: "- (2 ^ 63) \<le> z \<Longrightarrow> z < 2 ^ 63 \<Longrightarrow> atoi (itoa z) = Some z"
proof (cases "z < 0")
  case True
  assume "- (2 ^ 63) \<le> z"
  then have "nat (- z) \<le> 2 ^ 63" by simp
  with True show ?thesis by (simp add: itoa_def parse_int_def)
next
  case False
  assume "z < 2 ^ 63"
  then have "nat z < 2 ^ 63" by simp
  with False show ?thesis by (simp add: itoa_def atoi_itoa_nat)
qed

end
