(* ===== verification/Tmux_Values.thy ===== *)
theory Tmux_Values
  imports Go_Prelude
begin

text \<open>
  The plain data of the library that other components carry around: optional values
  (\<open>tmux/value.go\<close>), endpoints and daemon identities (\<open>tmux/server.go\<close>, \<open>tmux/identity.go\<close>),
  versions, object kinds, command results and the outcome vocabulary of \<open>tmux/errors.go\<close>.
  A \<open>time.Time\<close> is its number of Unix seconds; the zero time of Go is the first of January
  of year 1.
\<close>

type_synonym time = int

definition zero_time :: time where
  "zero_time = - 62135596800"

text \<open>\<open>Value[T]\<close>: the payload is the zero value of \<open>T\<close> unless the state is present.\<close>

datatype 'a gvalue = Unavailable | Present 'a | Unsupported

datatype value_state = ValueStateUnavailable | ValueStatePresent | ValueStateUnsupported

definition value_get :: "'a gvalue \<Rightarrow> 'a option" where
  "value_get v = (case v of Present x \<Rightarrow> Some x | Unavailable \<Rightarrow> None | Unsupported \<Rightarrow> None)"

definition value_state :: "'a gvalue \<Rightarrow> value_state" where
  "value_state v = (case v of Unavailable \<Rightarrow> ValueStateUnavailable
     | Present _ \<Rightarrow> ValueStatePresent | Unsupported \<Rightarrow> ValueStateUnsupported)"

lemma value_get_simps [simp]:
  "value_get (Present x) = Some x" "value_get Unavailable = None" "value_get Unsupported = None"
  by (simp_all add: value_get_def)

lemma value_get_Some_iff: "value_get v = Some x \<longleftrightarrow> v = Present x"
  by (cases v) auto

datatype transport = TransportSubprocess | TransportControl

record endpoint =
  socket_path :: bytes
  socket_name :: bytes
  temp_dir :: bytes
  ep_uid :: int

record server_identity =
  id_endpoint :: endpoint
  id_socket :: bytes
  id_pid :: int
  id_started :: time
  id_generation :: nat

record version =
  v_raw :: bytes
  v_major :: int
  v_minor :: int
  v_patch :: bytes
  v_suffix :: bytes
  v_recognized :: bool

definition zero_version :: version where
  "zero_version = \<lparr>v_raw = [], v_major = 0, v_minor = 0, v_patch = [], v_suffix = [],
     v_recognized = False\<rparr>"

text \<open>\<open>ObjectKind\<close> is a Go string; the constructors are its named constants and \<open>KindOther\<close> any
  other text a caller may pass.\<close>

datatype object_kind =
    ObjectKindSession | ObjectKindWindow | ObjectKindPane | ObjectKindClient
  | ObjectKindWindowLink | KindOther bytes

fun kind_text :: "object_kind \<Rightarrow> bytes" where
  "kind_text ObjectKindSession = ''session''"
| "kind_text ObjectKindWindow = ''window''"
| "kind_text ObjectKindPane = ''pane''"
| "kind_text ObjectKindClient = ''client''"
| "kind_text ObjectKindWindowLink = ''window-link''"
| "kind_text (KindOther s) = s"

record result =
  res_stdout :: bytes
  res_stderr :: bytes
  exit_code :: int

datatype effect =
    EffectUnspecified | EffectNotSent | EffectUnknown | EffectConfirmed | EffectRejected

definition effect_string :: "effect \<Rightarrow> bytes" where
  "effect_string e = (case e of
      EffectUnspecified \<Rightarrow> ''unspecified'' | EffectNotSent \<Rightarrow> ''not-sent''
    | EffectUnknown \<Rightarrow> ''unknown'' | EffectConfirmed \<Rightarrow> ''confirmed''
    | EffectRejected \<Rightarrow> ''rejected'')"

record step_outcome =
  step_index :: nat
  step_effect :: effect

record created_object =
  co_kind :: object_kind
  co_raw_id :: bytes
  co_identity :: "server_identity gvalue"
  co_session :: "bytes gvalue"
  co_window_index :: "int gvalue"

record outcome =
  oc_effect :: effect
  oc_steps :: "step_outcome list"
  oc_created :: "created_object list"

datatype timeout_source = TimeoutSourceNone | TimeoutSourceCaller | TimeoutSourceLibrary

definition failedResult :: result where
  "failedResult = \<lparr>res_stdout = [], res_stderr = [], exit_code = -1\<rparr>"

definition notSentOutcome :: outcome where
  "notSentOutcome = \<lparr>oc_effect = EffectNotSent, oc_steps = [], oc_created = []\<rparr>"

definition plainOutcome :: "effect \<Rightarrow> outcome" where
  "plainOutcome e = \<lparr>oc_effect = e, oc_steps = [], oc_created = []\<rparr>"

lemma oc_effect_plain [simp]: "oc_effect (plainOutcome e) = e" "oc_effect notSentOutcome = EffectNotSent"
  by (simp_all add: plainOutcome_def notSentOutcome_def)

subsection \<open>Identities\<close>

definition endpoint_isZero :: "endpoint \<Rightarrow> bool" where
  "endpoint_isZero e \<longleftrightarrow>
     socket_path e = [] \<and> socket_name e = [] \<and> temp_dir e = [] \<and> ep_uid e = 0"

definition zero_endpoint :: endpoint where
  "zero_endpoint = \<lparr>socket_path = [], socket_name = [], temp_dir = [], ep_uid = 0\<rparr>"

definition zero_identity :: server_identity where
  "zero_identity = \<lparr>id_endpoint = zero_endpoint, id_socket = [], id_pid = 0,
     id_started = zero_time, id_generation = 0\<rparr>"

definition sameDaemon :: "server_identity \<Rightarrow> server_identity \<Rightarrow> bool" where
  "sameDaemon i other \<longleftrightarrow>
     id_endpoint i = id_endpoint other \<and> id_socket i = id_socket other \<and>
     id_pid i = id_pid other \<and> id_started i = id_started other"

definition identity_Equal :: "server_identity \<Rightarrow> server_identity \<Rightarrow> bool" where
  "identity_Equal i other \<longleftrightarrow> sameDaemon i other \<and> id_generation i = id_generation other"

definition identity_valid :: "server_identity \<Rightarrow> bool" where
  "identity_valid i \<longleftrightarrow> 0 < id_pid i \<and> id_started i \<noteq> zero_time \<and> id_socket i \<noteq> []"

definition identity_isZero :: "server_identity \<Rightarrow> bool" where
  "identity_isZero i \<longleftrightarrow>
     id_pid i = 0 \<and> id_started i = zero_time \<and> id_socket i = [] \<and>
     endpoint_isZero (id_endpoint i) \<and> id_generation i = 0"

lemma identity_Equal_iff [simp]: "identity_Equal i j \<longleftrightarrow> i = j"
  by (auto simp: identity_Equal_def sameDaemon_def)

lemma sameDaemon_refl [simp]: "sameDaemon i i"
  by (simp add: sameDaemon_def)

lemma sameDaemon_sym: "sameDaemon i j \<Longrightarrow> sameDaemon j i"
  by (simp add: sameDaemon_def)

lemma sameDaemon_trans: "sameDaemon i j \<Longrightarrow> sameDaemon j k \<Longrightarrow> sameDaemon i k"
  by (simp add: sameDaemon_def)

lemma identity_isZero_iff: "identity_isZero i \<longleftrightarrow> i = zero_identity"
  by (cases i, cases "id_endpoint i")
     (auto simp: identity_isZero_def endpoint_isZero_def zero_identity_def zero_endpoint_def)

end
