(* ===== verification/Go_Errors.thy ===== *)
theory Go_Errors
  imports Tmux_Values
begin

text \<open>
  Errors as values: the error tree that the sources build with \<open>errors.New\<close>,
  \<open>fmt.Errorf("%w")\<close>, \<open>errors.Join\<close> and the structured errors of \<open>tmux/errors.go\<close>, the
  walks \<open>errors.Is\<close> and \<open>errors.As\<close> over it, and the labelling functions \<open>opError\<close>,
  \<open>afterError\<close> and \<open>outcomeOf\<close>. A nil \<open>error\<close> is \<open>None\<close>.
\<close>

datatype sentinel =
    ErrNotInsideTmux | ErrNoServer | ErrNotFound | ErrAlreadyExists | ErrAmbiguousTarget
  | ErrInvalidHandle | ErrInvalidArgument | ErrServerChanged | ErrLinkChanged | ErrClientChanged
  | ErrUnsupported | ErrTransportUnsupported | ErrOutputLimit | ErrInputLimit | ErrResourceLimit
  | ErrProtocol | ErrEventsLost | ErrClosed | ErrShutdownIncomplete | ErrConcurrentRead
  | ErrInconsistent | ErrControlCommandFailed
  | ErrNULCommandText | ErrEncodedSizeLimit | ErrRecord | ErrCommandText
  | IoEOF | IoErrUnexpectedEOF | ContextCanceled | ContextDeadlineExceeded | OsErrPermission

text \<open>\<open>Opaque\<close> is an error of the operating system or of a package outside the sources.\<close>

datatype goerr =
    Sentinel sentinel
  | Opaque bytes
  | Wrapf bytes goerr
  | JoinErr "goerr list"
  | OperationError bytes outcome goerr
  | CommandError bytes result outcome timeout_source goerr
  | DecodeError bytes bytes goerr
  | UnsupportedError bytes version transport "goerr option"
  | DiscoveryError goerr

text \<open>\<open>errors.Join\<close> drops nil errors and is nil when nothing is left.\<close>

fun somes :: "'a option list \<Rightarrow> 'a list" where
  "somes [] = []"
| "somes (None # xs) = somes xs"
| "somes (Some x # xs) = x # somes xs"

lemma set_somes [simp]: "set (somes xs) = {x. Some x \<in> set xs}"
  by (induction xs rule: somes.induct) auto

definition join_errs :: "goerr option list \<Rightarrow> goerr option" where
  "join_errs es = (if somes es = [] then None else Some (JoinErr (somes es)))"

text \<open>The preorder walk of \<open>errors.Is\<close> and \<open>errors.As\<close>: the first error of the tree, itself
  included, that satisfies a test. \<open>UnsupportedError.Unwrap\<close> yields \<open>ErrUnsupported\<close> when it
  holds no other error.\<close>

fun find_err :: "(goerr \<Rightarrow> bool) \<Rightarrow> goerr \<Rightarrow> goerr option"
  and find_errs :: "(goerr \<Rightarrow> bool) \<Rightarrow> goerr list \<Rightarrow> goerr option" where
  "find_err P (Sentinel s) = (if P (Sentinel s) then Some (Sentinel s) else None)"
| "find_err P (Opaque m) = (if P (Opaque m) then Some (Opaque m) else None)"
| "find_err P (Wrapf m e) = (if P (Wrapf m e) then Some (Wrapf m e) else find_err P e)"
| "find_err P (JoinErr es) = (if P (JoinErr es) then Some (JoinErr es) else find_errs P es)"
| "find_err P (OperationError n oc e) =
     (if P (OperationError n oc e) then Some (OperationError n oc e) else find_err P e)"
| "find_err P (CommandError n r oc t e) =
     (if P (CommandError n r oc t e) then Some (CommandError n r oc t e) else find_err P e)"
| "find_err P (DecodeError k f e) =
     (if P (DecodeError k f e) then Some (DecodeError k f e) else find_err P e)"
| "find_err P (UnsupportedError f v t None) =
     (if P (UnsupportedError f v t None) then Some (UnsupportedError f v t None)
      else if P (Sentinel ErrUnsupported) then Some (Sentinel ErrUnsupported) else None)"
| "find_err P (UnsupportedError f v t (Some e)) =
     (if P (UnsupportedError f v t (Some e)) then Some (UnsupportedError f v t (Some e))
      else find_err P e)"
| "find_err P (DiscoveryError e) =
     (if P (DiscoveryError e) then Some (DiscoveryError e) else find_err P e)"
| "find_errs P [] = None"
| "find_errs P (e # es) = (case find_err P e of Some x \<Rightarrow> Some x | None \<Rightarrow> find_errs P es)"

lemma find_err_sat:
  "find_err P e = Some x \<Longrightarrow> P x"
  "find_errs P es = Some x \<Longrightarrow> P x"
  by (induction P e and P es rule: find_err_find_errs.induct) (auto split: if_splits option.splits)

definition err_is :: "goerr \<Rightarrow> sentinel \<Rightarrow> bool" where
  "err_is e s = (find_err (\<lambda>x. x = Sentinel s) e \<noteq> None)"

fun is_operation :: "goerr \<Rightarrow> bool" where
  "is_operation (OperationError n oc e) = True"
| "is_operation _ = False"

fun is_command :: "goerr \<Rightarrow> bool" where
  "is_command (CommandError n r oc t e) = True"
| "is_command _ = False"

fun is_discovery :: "goerr \<Rightarrow> bool" where
  "is_discovery (DiscoveryError e) = True"
| "is_discovery _ = False"

fun error_outcome :: "goerr \<Rightarrow> outcome" where
  "error_outcome (OperationError n oc e) = oc"
| "error_outcome (CommandError n r oc t e) = oc"
| "error_outcome _ = notSentOutcome"

text \<open>\<open>errors.AsType\<close> for the three structured errors the labelling code asks for.\<close>

definition as_operation :: "goerr \<Rightarrow> goerr option" where
  "as_operation = find_err is_operation"

definition as_command :: "goerr \<Rightarrow> goerr option" where
  "as_command = find_err is_command"

definition as_discovery :: "goerr \<Rightarrow> goerr option" where
  "as_discovery = find_err is_discovery"

subsection \<open>Constructors\<close>

definition invalid :: "bytes \<Rightarrow> goerr" where
  "invalid field = Wrapf field (Sentinel ErrInvalidArgument)"

definition decodeError :: "bytes \<Rightarrow> bytes \<Rightarrow> goerr \<Rightarrow> goerr" where
  "decodeError kind field e = DecodeError kind field e"

definition unsupported :: "bytes \<Rightarrow> goerr" where
  "unsupported feature = UnsupportedError feature zero_version TransportSubprocess None"

definition unsupportedVersion :: "bytes \<Rightarrow> version \<Rightarrow> goerr" where
  "unsupportedVersion feature v = UnsupportedError feature v TransportSubprocess None"

definition unsupportedControl :: "bytes \<Rightarrow> goerr \<Rightarrow> goerr" where
  "unsupportedControl feature e = UnsupportedError feature zero_version TransportControl (Some e)"

subsection \<open>Labelling and outcomes\<close>

fun operation_named :: "bytes \<Rightarrow> goerr \<Rightarrow> bool" where
  "operation_named name (OperationError n oc e) = (n = name)"
| "operation_named name _ = False"

definition opError :: "bytes \<Rightarrow> goerr option \<Rightarrow> goerr option" where
  "opError name err =
     (case err of
        None \<Rightarrow> None
      | Some e \<Rightarrow>
          if operation_named name e then Some e
          else if as_discovery e \<noteq> None \<and> name \<noteq> ''Server.Probe''
            then Some (OperationError name (plainOutcome EffectNotSent) e)
          else (case as_operation e of
                  Some ope \<Rightarrow> Some (OperationError name (error_outcome ope) e)
                | None \<Rightarrow>
                    (case as_command e of
                       Some ce \<Rightarrow> Some (OperationError name (error_outcome ce) e)
                     | None \<Rightarrow> Some (OperationError name (plainOutcome EffectNotSent) e))))"

definition afterError :: "bytes \<Rightarrow> goerr option \<Rightarrow> created_object list \<Rightarrow> goerr option" where
  "afterError name err created =
     (case err of
        None \<Rightarrow> None
      | Some e \<Rightarrow> Some (OperationError name
          \<lparr>oc_effect = EffectConfirmed, oc_steps = [], oc_created = created\<rparr> e))"

definition outcomeOf :: "goerr \<Rightarrow> outcome" where
  "outcomeOf e =
     (case as_operation e of
        Some ope \<Rightarrow> error_outcome ope
      | None \<Rightarrow> (case as_command e of Some ce \<Rightarrow> error_outcome ce
                 | None \<Rightarrow> plainOutcome EffectNotSent))"

text \<open>\<open>callerDone\<close> is whether the caller's context is done when the source is classified.\<close>

definition contextSource :: "bool \<Rightarrow> goerr option \<Rightarrow> timeout_source" where
  "contextSource callerDone err =
     (case err of
        None \<Rightarrow> TimeoutSourceNone
      | Some e \<Rightarrow> if \<not> err_is e ContextDeadlineExceeded then TimeoutSourceNone
          else if callerDone then TimeoutSourceCaller else TimeoutSourceLibrary)"

subsection \<open>Facts about the walks\<close>

lemma err_is_simps [simp]:
  "err_is (Sentinel a) s \<longleftrightarrow> a = s"
  "\<not> err_is (Opaque m) s"
  "err_is (Wrapf m e) s \<longleftrightarrow> err_is e s"
  "err_is (OperationError n oc e) s \<longleftrightarrow> err_is e s"
  "err_is (CommandError n r oc t e) s \<longleftrightarrow> err_is e s"
  "err_is (DecodeError k f e) s \<longleftrightarrow> err_is e s"
  "err_is (UnsupportedError f v tr None) s \<longleftrightarrow> s = ErrUnsupported"
  "err_is (UnsupportedError f v tr (Some e)) s \<longleftrightarrow> err_is e s"
  "err_is (DiscoveryError e) s \<longleftrightarrow> err_is e s"
  by (auto simp: err_is_def)

lemma err_is_Join [simp]: "err_is (JoinErr es) s \<longleftrightarrow> (\<exists>e \<in> set es. err_is e s)"
proof -
  have "find_errs P es \<noteq> None \<longleftrightarrow> (\<exists>e \<in> set es. find_err P e \<noteq> None)" for P
    by (induction es) (auto split: option.splits)
  then show ?thesis by (simp add: err_is_def)
qed

lemma err_is_constructors [simp]:
  "err_is (invalid f) s \<longleftrightarrow> s = ErrInvalidArgument"
  "err_is (decodeError k f e) s \<longleftrightarrow> err_is e s"
  "err_is (unsupported f) s \<longleftrightarrow> s = ErrUnsupported"
  "err_is (unsupportedVersion f v) s \<longleftrightarrow> s = ErrUnsupported"
  "err_is (unsupportedControl f e) s \<longleftrightarrow> err_is e s"
  by (auto simp: invalid_def decodeError_def unsupported_def unsupportedVersion_def
      unsupportedControl_def)

lemma somes_Nil_iff: "somes xs = [] \<longleftrightarrow> (\<forall>x \<in> set xs. x = None)"
  by (induction xs rule: somes.induct) auto

lemma join_errs_None_iff [simp]: "join_errs es = None \<longleftrightarrow> (\<forall>e \<in> set es. e = None)"
  by (simp add: join_errs_def somes_Nil_iff)

lemma join_errs_is:
  "join_errs es = Some e \<Longrightarrow> err_is e s \<longleftrightarrow> (\<exists>x. Some x \<in> set es \<and> err_is x s)"
  by (auto simp: join_errs_def split: if_splits)

lemma as_operation_Some: "as_operation e = Some x \<Longrightarrow> \<exists>n oc e'. x = OperationError n oc e'"
  unfolding as_operation_def by (drule find_err_sat) (cases x; simp)

lemma as_command_Some: "as_command e = Some x \<Longrightarrow> \<exists>n r oc t e'. x = CommandError n r oc t e'"
  unfolding as_command_def by (drule find_err_sat) (cases x; simp)

lemma operation_named_iff: "operation_named name e \<longleftrightarrow> (\<exists>oc e0. e = OperationError name oc e0)"
  by (cases e) auto

lemma opError_None_iff [simp]: "opError name err = None \<longleftrightarrow> err = None"
  by (auto simp: opError_def split: option.splits)

lemma opError_is: "opError name (Some e) = Some e' \<Longrightarrow> err_is e' s = err_is e s"
  by (auto simp: opError_def split: option.splits if_splits)

lemma outcomeOf_Operation [simp]: "outcomeOf (OperationError n oc e) = oc"
  by (simp add: outcomeOf_def as_operation_def)

lemma outcomeOf_Command [simp]:
  "as_operation e = None \<Longrightarrow> outcomeOf (CommandError n r oc t e) = oc"
  by (simp add: outcomeOf_def as_operation_def as_command_def)

lemma outcomeOf_opError:
  assumes "opError name (Some e) = Some e'"
  shows "outcomeOf e' =
    (if \<not> operation_named name e \<and> as_discovery e \<noteq> None \<and> name \<noteq> ''Server.Probe''
     then plainOutcome EffectNotSent else outcomeOf e)"
proof (cases "operation_named name e")
  case True
  with assms show ?thesis by (simp add: opError_def)
next
  case False
  with assms show ?thesis
    by (auto simp: opError_def outcomeOf_def [of e] split: option.splits if_splits)
qed

text \<open>Labelling an error neither hides what it is nor what it did: \<open>errors.Is\<close> answers as
  before, and the effect that \<open>outcomeOf\<close> reports is unchanged unless a discovery failure is
  relabelled, which reports that nothing was sent.\<close>

theorem opError_transparent:
  assumes "opError name (Some e) = Some e'"
  shows "(\<forall>s. err_is e' s = err_is e s) \<and>
    (outcomeOf e' = outcomeOf e \<or> as_discovery e \<noteq> None \<and> oc_effect (outcomeOf e') = EffectNotSent)"
proof
  show "\<forall>s. err_is e' s = err_is e s"
    using opError_is [OF assms] by blast
  show "outcomeOf e' = outcomeOf e \<or> as_discovery e \<noteq> None \<and> oc_effect (outcomeOf e') = EffectNotSent"
    using outcomeOf_opError [OF assms] by (auto split: if_splits)
qed

theorem opError_transparent_witness:
  "outcomeOf (the (opError ''Server.Panes'' (Some (CommandError ''list-panes'' failedResult
     (plainOutcome EffectUnknown) TimeoutSourceNone (Sentinel ErrProtocol))))) = plainOutcome EffectUnknown"
proof -
  let ?e = "CommandError ''list-panes'' failedResult (plainOutcome EffectUnknown) TimeoutSourceNone
    (Sentinel ErrProtocol)"
  let ?e' = "OperationError ''Server.Panes'' (plainOutcome EffectUnknown) ?e"
  have h: "opError ''Server.Panes'' (Some ?e) = Some ?e'"
    by (simp add: opError_def as_discovery_def as_operation_def as_command_def)
  have "as_discovery ?e = None" by (simp add: as_discovery_def)
  with opError_transparent [OF h] h show ?thesis
    by (simp add: outcomeOf_def as_operation_def as_command_def)
qed

end
