(* ===== verification/Wire_Argv.thy ===== *)
theory Wire_Argv
  imports Go_Errors
begin

text \<open>
  \<open>internal/wire/argv.go\<close>: argument escaping, command-name and string validation, format
  literals, the quoting writer and the byte counter. An \<open>io.Writer\<close> is a function from the
  bytes and its state to \<open>(n, err)\<close> and the new state; the locale \<open>byte_sink\<close> is the contract
  that the writers of this library share, and \<open>QuoteWriter\<close> keeps it.
\<close>

definition NUL :: byte where "NUL = CHR 0x00"
definition LF :: byte where "LF = CHR 0x0A"
definition CR :: byte where "CR = CHR 0x0D"
definition HT :: byte where "HT = CHR 0x09"
definition ESC :: byte where "ESC = CHR 0x1B"
definition backslash :: byte where "backslash = CHR 0x5C"
definition dquote :: byte where "dquote = CHR 0x22"
definition squote :: byte where "squote = CHR 0x27"

lemmas byte_defs = NUL_def LF_def CR_def HT_def ESC_def backslash_def dquote_def squote_def

subsection \<open>Validation and escaping\<close>

definition EscapeArg :: "bytes \<Rightarrow> bytes" where
  "EscapeArg s = (if has_suffix s '';'' then take (length s - 1) s @ [backslash, CHR '';''] else s)"

definition ValidString :: "bytes \<Rightarrow> bool" where
  "ValidString s = (\<not> list_ex (\<lambda>c. c = NUL) s)"

definition isLetter :: "byte \<Rightarrow> bool" where
  "isLetter b \<longleftrightarrow> code CHR ''a'' \<le> code b \<and> code b \<le> code CHR ''z'' \<or>
     code CHR ''A'' \<le> code b \<and> code b \<le> code CHR ''Z''"

definition isCommandChar :: "byte \<Rightarrow> bool" where
  "isCommandChar b \<longleftrightarrow> isLetter b \<or> is_digit b \<or> b = CHR ''-'' \<or> b = CHR ''_''"

definition ValidCommand :: "bytes \<Rightarrow> bool" where
  "ValidCommand s = (case s of [] \<Rightarrow> False | c # cs \<Rightarrow> isLetter c \<and> list_all isCommandChar cs)"

definition LiteralFormat :: "bytes \<Rightarrow> bytes" where
  "LiteralFormat s = concat (map (\<lambda>c. if c = CHR ''#'' then ''#{a:35}'' else [c]) s)"

definition isSafeQuoteByte :: "byte \<Rightarrow> bool" where
  "isSafeQuoteByte b \<longleftrightarrow>
     \<not> (code b < 0x20 \<or> 0x7f \<le> code b) \<and>
     \<not> (b = dquote \<or> b = backslash \<or> b = CHR ''$'' \<or> b = CHR 0x60 \<or> b = CHR ''~'')"

lemma ValidString_iff: "ValidString s \<longleftrightarrow> NUL \<notin> set s"
  by (auto simp: ValidString_def list_ex_iff)

lemma ValidString_simps [simp]:
  "ValidString []" "ValidString (c # s) \<longleftrightarrow> c \<noteq> NUL \<and> ValidString s"
  "ValidString (s @ t) \<longleftrightarrow> ValidString s \<and> ValidString t"
  by (auto simp: ValidString_iff)

lemma isCommandChar_safe: "isCommandChar c \<Longrightarrow> isSafeQuoteByte c"
  by (auto simp: isCommandChar_def isSafeQuoteByte_def isLetter_def is_digit_def byte_defs)

lemma ValidCommand_chars: "ValidCommand s \<Longrightarrow> s \<noteq> [] \<and> list_all isCommandChar s"
  by (auto simp: ValidCommand_def isCommandChar_def split: list.splits)

subsection \<open>Writers\<close>

type_synonym 'w writer = "bytes \<Rightarrow> 'w \<Rightarrow> (nat \<times> goerr option) \<times> 'w"

text \<open>\<open>strings.Builder\<close> never fails.\<close>

definition builder_write :: "bytes writer" where
  "builder_write p w = ((length p, None), w @ p)"

text \<open>\<open>Counter\<close>. The test subtracts on the side of the limit, so with a limit and a count that are
  not negative no \<open>int64\<close> operation here can overflow and plain integers are exact.\<close>

record counter =
  cn_N :: int
  cn_Limit :: int
  cn_Err :: "goerr option"

definition counter_write :: "counter writer" where
  "counter_write b c =
     (case cn_Err c of
        Some e \<Rightarrow> ((0, Some e), c)
      | None \<Rightarrow>
          let n = int (length b) in
          if cn_Limit c - n < cn_N c
          then ((0, Some (Sentinel ErrEncodedSizeLimit)),
                c\<lparr>cn_Err := Some (Sentinel ErrEncodedSizeLimit)\<rparr>)
          else ((length b, None), c\<lparr>cn_N := cn_N c + n\<rparr>))"

definition octal_escape :: "byte \<Rightarrow> bytes" where
  "octal_escape b =
     [backslash, char_of (48 + code b div 64), char_of (48 + code b div 8 mod 8),
      char_of (48 + code b mod 8)]"

definition writeOctalEscape :: "'w writer \<Rightarrow> byte \<Rightarrow> 'w \<Rightarrow> goerr option \<times> 'w" where
  "writeOctalEscape wr b w = (case wr (octal_escape b) w of ((_, err), w') \<Rightarrow> (err, w'))"

definition slice :: "nat \<Rightarrow> nat \<Rightarrow> 'a list \<Rightarrow> 'a list" where
  "slice i j xs = take (j - i) (drop i xs)"

text \<open>The loop of \<open>QuoteWriter.Write\<close>: \<open>start\<close> is the first byte not yet written, \<open>i\<close> the
  current index and the list argument the bytes from \<open>i\<close> on.\<close>

fun quote_loop :: "'w writer \<Rightarrow> bytes \<Rightarrow> nat \<Rightarrow> nat \<Rightarrow> bytes \<Rightarrow> 'w \<Rightarrow> (nat \<times> goerr option) \<times> 'w" where
  "quote_loop wr p start i [] w =
     (if start < length p
      then (case wr (drop start p) w of
              ((_, Some e), w') \<Rightarrow> ((start, Some e), w')
            | ((_, None), w') \<Rightarrow> ((length p, None), w'))
      else ((length p, None), w))"
| "quote_loop wr p start i (b # bs) w =
     (if isSafeQuoteByte b then quote_loop wr p start (Suc i) bs w
      else if b = NUL then ((i, Some (Sentinel ErrNULCommandText)), w)
      else
        (case (if start < i then wr (slice start i p) w else ((0, None), w)) of
           ((_, Some e), w') \<Rightarrow> ((start, Some e), w')
         | ((_, None), w') \<Rightarrow>
             (case writeOctalEscape wr b w' of
                (Some e, w'') \<Rightarrow> ((i, Some e), w'')
              | (None, w'') \<Rightarrow> quote_loop wr p (Suc i) (Suc i) bs w'')))"

definition quote_write :: "'w writer \<Rightarrow> 'w writer" where
  "quote_write wr p w = quote_loop wr p 0 0 p w"

definition write_string :: "'w writer \<Rightarrow> bytes \<Rightarrow> 'w \<Rightarrow> goerr option \<times> 'w" where
  "write_string wr s w = (case wr s w of ((_, err), w') \<Rightarrow> (err, w'))"

text \<open>The \<open>if err != nil { return err }\<close> between two writes.\<close>

definition then_write ::
  "goerr option \<times> 'w \<Rightarrow> ('w \<Rightarrow> goerr option \<times> 'w) \<Rightarrow> goerr option \<times> 'w" where
  "then_write r k = (case r of (Some e, w) \<Rightarrow> (Some e, w) | (None, w) \<Rightarrow> k w)"

lemma then_write_simps [simp]:
  "then_write (None, w) k = k w" "then_write (Some e, w) k = (Some e, w)"
  by (simp_all add: then_write_def)

definition WriteQuoted :: "'w writer \<Rightarrow> bytes \<Rightarrow> 'w \<Rightarrow> goerr option \<times> 'w" where
  "WriteQuoted wr s w =
     then_write (write_string wr [dquote] w)
       (\<lambda>w1. then_write (write_string (quote_write wr) s w1)
         (\<lambda>w2. write_string wr [dquote] w2))"

definition Quote :: "bytes \<Rightarrow> bytes \<times> goerr option" where
  "Quote s = (case WriteQuoted builder_write s [] of (e, b) \<Rightarrow> (b, e))"

subsection \<open>What quoting produces\<close>

definition quote_byte :: "byte \<Rightarrow> bytes" where
  "quote_byte b = (if isSafeQuoteByte b then [b] else octal_escape b)"

definition quote_bytes :: "bytes \<Rightarrow> bytes" where
  "quote_bytes s = concat (map quote_byte s)"

lemma quote_bytes_simps [simp]:
  "quote_bytes [] = []" "quote_bytes (b # s) = quote_byte b @ quote_bytes s"
  "quote_bytes (s @ t) = quote_bytes s @ quote_bytes t"
  by (simp_all add: quote_bytes_def)

lemma quote_bytes_safe: "list_all isSafeQuoteByte s \<Longrightarrow> quote_bytes s = s"
  by (induction s) (simp_all add: quote_byte_def)

text \<open>The bytes a quoted text is made of: printable, and neither \<open>$\<close> nor a backquote nor \<open>~\<close>.\<close>

lemma octal_digit_code:
  "(n::nat) < 8 \<Longrightarrow> code (char_of (48 + n)) = 48 + n"
  by (simp add: char_of_code)

lemma isSafeQuoteByte_code:
  "isSafeQuoteByte c \<longleftrightarrow> 32 \<le> code c \<and> code c < 127 \<and> code c \<notin> {34, 92, 36, 96, 126}"
proof -
  have "c = d \<longleftrightarrow> code c = code d" for d by simp
  from this [of dquote] this [of backslash] this [of "CHR ''$''"] this [of "CHR 0x60"]
    this [of "CHR ''~''"]
  show ?thesis unfolding isSafeQuoteByte_def by (auto simp: byte_defs)
qed

lemma octal_digit_safe: "(n::nat) < 8 \<Longrightarrow> isSafeQuoteByte (char_of (48 + n))"
  by (simp add: isSafeQuoteByte_code octal_digit_code)

lemma set_quote_bytes:
  "c \<in> set (quote_bytes s) \<Longrightarrow> c = backslash \<or> isSafeQuoteByte c"
proof (induction s)
  case (Cons b s)
  have "code b div 64 < 8" using code_less_256 [of b] by linarith
  then have "c \<in> set (octal_escape b) \<Longrightarrow> c = backslash \<or> isSafeQuoteByte c"
    by (auto simp: octal_escape_def intro: octal_digit_safe)
  with Cons show ?case by (auto simp: quote_byte_def split: if_splits)
qed simp

lemma quote_byte_unsafe: "\<not> isSafeQuoteByte b \<Longrightarrow> quote_byte b = octal_escape b"
  by (simp add: quote_byte_def)

lemma slice_full: "length p \<le> i \<Longrightarrow> slice start i p = drop start p"
  by (simp add: slice_def)

lemma slice_empty [simp]: "i \<le> start \<Longrightarrow> slice start i p = []"
  by (simp add: slice_def)

lemma slice_snoc:
  "start \<le> i \<Longrightarrow> i < length p \<Longrightarrow> slice start (Suc i) p = slice start i p @ [p ! i]"
  by (simp add: slice_def Suc_diff_le take_Suc_conv_app_nth)

subsection \<open>The contract of a byte sink\<close>

text \<open>
  \<open>fits w p\<close> says whether writing \<open>p\<close> in state \<open>w\<close> succeeds and \<open>acc w p\<close> is the state after
  it; writing in pieces is writing the concatenation. \<open>ok\<close> holds of the states reached by
  successful writes.
\<close>

locale byte_sink =
  fixes wr :: "'w writer"
    and fits :: "'w \<Rightarrow> bytes \<Rightarrow> bool"
    and acc :: "'w \<Rightarrow> bytes \<Rightarrow> 'w"
    and ok :: "'w \<Rightarrow> bool"
  assumes write_fits: "ok w \<Longrightarrow> fits w p \<Longrightarrow> wr p w = ((length p, None), acc w p) \<and> ok (acc w p)"
    and write_not_fits: "ok w \<Longrightarrow> \<not> fits w p \<Longrightarrow> \<exists>n e w'. wr p w = ((n, Some e), w')"
    and fits_Nil: "ok w \<Longrightarrow> fits w []"
    and acc_Nil: "ok w \<Longrightarrow> acc w [] = w"
    and fits_append: "ok w \<Longrightarrow> fits w (p @ q) \<longleftrightarrow> fits w p \<and> fits (acc w p) q"
    and acc_append: "ok w \<Longrightarrow> fits w (p @ q) \<Longrightarrow> acc w (p @ q) = acc (acc w p) q"
begin

lemma ok_acc: "ok w \<Longrightarrow> fits w p \<Longrightarrow> ok (acc w p)"
  using write_fits by blast

lemma write_string_fits:
  "ok w \<Longrightarrow> fits w p \<Longrightarrow> write_string wr p w = (None, acc w p)"
  using write_fits by (simp add: write_string_def)

lemma write_string_not_fits:
  "ok w \<Longrightarrow> \<not> fits w p \<Longrightarrow> \<exists>e w'. write_string wr p w = (Some e, w')"
  by (drule (1) write_not_fits) (auto simp: write_string_def)

lemma write_string_None:
  assumes "ok w" and "write_string wr p w = (None, w')"
  shows "fits w p \<and> w' = acc w p"
  using assms write_string_fits [of w p] write_string_not_fits [of w p] by (cases "fits w p") auto

lemma fits_prefix: "ok w \<Longrightarrow> fits w (p @ q) \<Longrightarrow> fits w p"
  by (simp add: fits_append)

lemma writeOctalEscape_eq: "writeOctalEscape wr b w = write_string wr (octal_escape b) w"
  by (simp add: writeOctalEscape_def write_string_def)

text \<open>The loop invariant of the quoting writer: the pending segment from \<open>start\<close> to \<open>i\<close> is safe,
  so the loop writes the pending bytes and the quoted rest, or fails.\<close>

definition quote_outcome :: "'w \<Rightarrow> bytes \<Rightarrow> bool \<Rightarrow> nat \<Rightarrow> (nat \<times> goerr option) \<times> 'w \<Rightarrow> bool" where
  "quote_outcome w q valid n r \<longleftrightarrow>
     (if valid \<and> fits w q then r = ((n, None), acc w q)
      else \<exists>m e w'. r = ((m, Some e), w'))"

lemma quote_outcome_write:
  "ok w \<Longrightarrow> quote_outcome w q True (length q) (wr q w)"
  using write_fits [of w q] write_not_fits [of w q] by (auto simp: quote_outcome_def)

lemma quote_outcome_more:
  assumes "ok w" and "fits w q1" and "quote_outcome (acc w q1) q2 v n r"
  shows "quote_outcome w (q1 @ q2) v n r"
  using assms by (auto simp: quote_outcome_def fits_append acc_append split: if_splits)

lemma quote_outcome_fail:
  "ok w \<Longrightarrow> \<not> fits w q1 \<Longrightarrow> quote_outcome w (q1 @ q2) v n ((m, Some e), w')"
  by (auto simp: quote_outcome_def fits_append)

lemma quote_loop_outcome:
  assumes "ok w" and "start \<le> i" and "i \<le> length p" and "bs = drop i p"
  shows "quote_outcome w (slice start i p @ quote_bytes bs) (ValidString bs) (length p)
    (quote_loop wr p start i bs w)"
  using assms
proof (induction bs arbitrary: start i w)
  case Nil
  then have i: "i = length p" by simp
  show ?case
  proof (cases "start < length p")
    case True
    with Nil i quote_outcome_write [of w "drop start p"] show ?thesis
      by (auto simp: slice_full quote_outcome_def)
  next
    case False
    with Nil i show ?thesis by (simp add: quote_outcome_def fits_Nil acc_Nil)
  qed
next
  case (Cons b bs)
  from Cons.prems(4) have i: "i < length p"
    by (metis drop_eq_Nil2 leI list.distinct(1))
  with Cons.prems(4) have bs: "bs = drop (Suc i) p" and b: "p ! i = b"
    by (simp_all add: Cons_nth_drop_Suc [symmetric])
  have snoc: "slice start (Suc i) p = slice start i p @ [b]"
    using Cons.prems(2) i b by (simp add: slice_snoc)
  consider (safe) "isSafeQuoteByte b" | (nul) "b = NUL" "\<not> isSafeQuoteByte b"
    | (escape) "b \<noteq> NUL" "\<not> isSafeQuoteByte b" by blast
  then show ?case
  proof cases
    case safe
    then have nz: "b \<noteq> NUL" by (auto simp: isSafeQuoteByte_def byte_defs)
    from Cons.IH [of w start "Suc i"] Cons.prems(1,2) i bs safe nz show ?thesis
      by (simp add: snoc quote_byte_def)
  next
    case nul
    have "\<not> ValidString (b # bs)" using nul by simp
    moreover have "quote_loop wr p start i (b # bs) w = ((i, Some (Sentinel ErrNULCommandText)), w)"
      using nul by simp
    ultimately show ?thesis unfolding quote_outcome_def by auto
  next
    case escape
    let ?sl = "slice start i p" and ?o = "octal_escape b"
    obtain n1 e1 w1 where
      w1: "(if start < i then wr ?sl w else ((0, None), w)) = ((n1, e1), w1)"
      by (metis prod.exhaust)
    show ?thesis
    proof (cases "fits w ?sl")
      case False
      then have "start < i" using Cons.prems(1) fits_Nil by (metis not_le slice_empty)
      with False w1 Cons.prems(1) write_not_fits [of w ?sl] obtain e where "e1 = Some e" by auto
      with escape w1 False Cons.prems(1) show ?thesis by (simp add: quote_outcome_fail)
    next
      case True
      then have w1': "e1 = None" "w1 = acc w ?sl"
        using w1 Cons.prems(1) write_fits [of w ?sl] acc_Nil [of w] by (auto split: if_splits)
      have ok1: "ok (acc w ?sl)" using True Cons.prems(1) by (rule ok_acc [rotated])
      show ?thesis
      proof (cases "fits (acc w ?sl) ?o")
        case False
        with ok1 write_string_not_fits obtain e w2 where
          "writeOctalEscape wr b (acc w ?sl) = (Some e, w2)"
          unfolding writeOctalEscape_eq by blast
        with escape w1 w1' False ok1 Cons.prems(1) True show ?thesis
          by (simp add: quote_byte_unsafe quote_outcome_fail quote_outcome_more)
      next
        case fo: True
        with ok1 have w2: "writeOctalEscape wr b (acc w ?sl) = (None, acc (acc w ?sl) ?o)"
          unfolding writeOctalEscape_eq by (rule write_string_fits)
        have "ok (acc (acc w ?sl) ?o)" using ok1 fo by (rule ok_acc)
        from Cons.IH [of _ "Suc i" "Suc i", OF this] i bs
        have "quote_outcome (acc (acc w ?sl) ?o) (quote_bytes bs) (ValidString bs) (length p)
          (quote_loop wr p (Suc i) (Suc i) bs (acc (acc w ?sl) ?o))" by simp
        from quote_outcome_more [OF Cons.prems(1) True quote_outcome_more [OF ok1 fo this]]
        show ?thesis using escape w1 w1' w2 by (simp add: quote_byte_unsafe)
      qed
    qed
  qed
qed

lemma quote_write_outcome:
  "ok w \<Longrightarrow> quote_outcome w (quote_bytes p) (ValidString p) (length p) (quote_write wr p w)"
  using quote_loop_outcome [of w 0 0 p p] by (simp add: quote_write_def)

end

text \<open>The quoting writer over a byte sink is a byte sink: it accepts a text without NUL whose quoted
  form the sink below accepts. This is what lets command text nest.\<close>

lemma byte_sink_quote:
  assumes "byte_sink wr fits acc ok"
  shows "byte_sink (quote_write wr) (\<lambda>w p. ValidString p \<and> fits w (quote_bytes p))
    (\<lambda>w p. acc w (quote_bytes p)) ok"
proof -
  note L = byte_sink.quote_write_outcome [OF assms] byte_sink.quote_outcome_def [OF assms]
    byte_sink.ok_acc [OF assms] byte_sink.fits_append [OF assms] byte_sink.acc_append [OF assms]
    byte_sink.fits_Nil [OF assms] byte_sink.acc_Nil [OF assms]
  show ?thesis
  proof
    fix w p
    assume ok: "ok w"
    show "ValidString p \<and> fits w (quote_bytes p) \<Longrightarrow>
      quote_write wr p w = ((length p, None), acc w (quote_bytes p)) \<and> ok (acc w (quote_bytes p))"
      using L(1) [OF ok, of p] ok by (simp add: L(2,3))
    show "\<not> (ValidString p \<and> fits w (quote_bytes p)) \<Longrightarrow>
      \<exists>n e w'. quote_write wr p w = ((n, Some e), w')"
      using L(1) [OF ok, of p] by (simp add: L(2) split: if_splits)
  qed (auto simp: L(4-7))
qed

text \<open>Both concrete writers keep the contract: the builder accepts everything, the counter exactly
  the texts that stay within its limit.\<close>

interpretation builder: byte_sink builder_write "\<lambda>w p. True" "(@)" "\<lambda>w. True"
  by unfold_locales (auto simp: builder_write_def)

definition counter_ok :: "counter \<Rightarrow> bool" where
  "counter_ok c \<longleftrightarrow> cn_Err c = None \<and> 0 \<le> cn_N c \<and> cn_N c \<le> cn_Limit c"

definition counter_acc :: "counter \<Rightarrow> bytes \<Rightarrow> counter" where
  "counter_acc c p = c\<lparr>cn_N := cn_N c + int (length p)\<rparr>"

definition counter_fits :: "counter \<Rightarrow> bytes \<Rightarrow> bool" where
  "counter_fits c p \<longleftrightarrow> cn_N c + int (length p) \<le> cn_Limit c"

lemmas counter_defs = counter_ok_def counter_acc_def counter_fits_def

interpretation counting: byte_sink counter_write counter_fits counter_acc counter_ok
  by unfold_locales (auto simp: counter_write_def counter_defs Let_def)

subsection \<open>Composed writes\<close>

text \<open>\<open>emits\<close>: the outcome \<open>r\<close> is that of writing \<open>q\<close> when the text is valid and fits, and an error
  otherwise. Sequenced writes emit the concatenation.\<close>

definition emits ::
  "('w \<Rightarrow> bytes \<Rightarrow> bool) \<Rightarrow> ('w \<Rightarrow> bytes \<Rightarrow> 'w) \<Rightarrow> 'w \<Rightarrow> bytes \<Rightarrow> bool \<Rightarrow> goerr option \<times> 'w \<Rightarrow> bool"
where
  "emits fits acc w q valid r \<longleftrightarrow>
     (if valid \<and> fits w q then r = (None, acc w q) else \<exists>e w'. r = (Some e, w'))"

context byte_sink
begin

lemma emits_write: "ok w \<Longrightarrow> emits fits acc w q True (write_string wr q w)"
  by (simp add: emits_def write_string_fits write_string_not_fits)

lemma emits_Nil: "ok w \<Longrightarrow> emits fits acc w [] True (None, w)"
  by (simp add: emits_def fits_Nil acc_Nil)

lemma emits_fail: "emits fits acc w q False (Some e, w')"
  by (simp add: emits_def)

lemma emits_then:
  assumes "ok w" and "emits fits acc w q1 v1 r"
    and "\<And>w1. ok w1 \<Longrightarrow> emits fits acc w1 q2 v2 (k w1)"
  shows "emits fits acc w (q1 @ q2) (v1 \<and> v2) (then_write r k)"
proof (cases "v1 \<and> fits w q1")
  case True
  with assms(2) have r: "r = (None, acc w q1)" by (simp add: emits_def)
  from True assms(1) have "ok (acc w q1)" by (blast intro: ok_acc)
  then have "emits fits acc (acc w q1) q2 v2 (k (acc w q1))" by (rule assms(3))
  with True r assms(1) show ?thesis
    by (auto simp: emits_def fits_append acc_append split: if_splits)
next
  case False
  with assms(2) obtain e w' where "r = (Some e, w')" by (auto simp: emits_def)
  with False assms(1) show ?thesis by (auto simp: emits_def fits_append)
qed

lemma emits_quoted:
  "ok w \<Longrightarrow> emits fits acc w (quote_bytes s) (ValidString s) (write_string (quote_write wr) s w)"
  using quote_write_outcome [of w s]
  by (auto simp: emits_def quote_outcome_def write_string_def split: if_splits)

lemma emits_WriteQuoted:
  assumes "ok w"
  shows "emits fits acc w (dquote # quote_bytes s @ [dquote]) (ValidString s) (WriteQuoted wr s w)"
proof -
  have "emits fits acc w ([dquote] @ (quote_bytes s @ [dquote])) (True \<and> (ValidString s \<and> True))
    (WriteQuoted wr s w)"
    unfolding WriteQuoted_def by (intro emits_then emits_write emits_quoted assms)
  then show ?thesis by simp
qed

end

lemma Quote_eq:
  "ValidString s \<Longrightarrow> Quote s = (dquote # quote_bytes s @ [dquote], None)"
  using builder.emits_WriteQuoted [of "[]" s] by (auto simp: Quote_def emits_def)

lemma Quote_error_iff: "snd (Quote s) = None \<longleftrightarrow> ValidString s"
  using builder.emits_WriteQuoted [of "[]" s]
  by (auto simp: Quote_def emits_def split: if_splits prod.splits)

end
