(* ===== verification/Tmux_Ids.thy ===== *)
theory Tmux_Ids
  imports Go_Errors Wire_Argv
begin

text \<open>
  Identifiers and the environment of a tmux client: the id syntax of \<open>tmux/handles.go\<close> and the
  parser of \<open>$TMUX\<close> and \<open>$TMUX_PANE\<close> in \<open>tmux/current.go\<close>.
\<close>

subsection \<open>Identifiers\<close>

definition validID :: "bytes \<Rightarrow> byte \<Rightarrow> bool" where
  "validID s prefix =
     (if length s < 2 \<or> hd s \<noteq> prefix then False
      else if \<not> list_all is_digit (tl s) then False
      else if 2 < length s \<and> s ! 1 = CHR ''0'' then False
      else parse_uint 32 (tl s) \<noteq> None)"

definition SessionID_Valid :: "bytes \<Rightarrow> bool" where
  "SessionID_Valid i = validID i (CHR ''$'')"

definition WindowID_Valid :: "bytes \<Rightarrow> bool" where
  "WindowID_Valid i = validID i (CHR ''@'')"

definition PaneID_Valid :: "bytes \<Rightarrow> bool" where
  "PaneID_Valid i = validID i (CHR 0x25)"

definition ClientName_Valid :: "bytes \<Rightarrow> bool" where
  "ClientName_Valid n = (n \<noteq> [] \<and> \<not> list_ex (\<lambda>c. c = NUL \<or> c = LF \<or> c = CR) n)"

text \<open>The ids are exactly the prefix followed by a canonical 32-bit decimal.\<close>

lemma validID_iff: "validID s prefix \<longleftrightarrow> (\<exists>n < 2 ^ 32. s = prefix # itoa_nat n)"
proof
  assume v: "validID s prefix"
  then obtain t where s: "s = prefix # t" "t \<noteq> []"
    by (cases s) (auto simp: validID_def split: if_splits)
  with v have t: "list_all is_digit t" "length t = 1 \<or> hd t \<noteq> CHR ''0''" "digits_val t < 2 ^ 32"
    by (cases "tl t"; cases t; auto simp: validID_def parse_uint_def split: if_splits)+
  then have "itoa_nat (digits_val t) = t" using s(2) by (intro itoa_nat_digits_val)
  with s t show "\<exists>n < 2 ^ 32. s = prefix # itoa_nat n" by metis
next
  assume "\<exists>n < 2 ^ 32. s = prefix # itoa_nat n"
  then obtain n where n: "n < 2 ^ 32" "s = prefix # itoa_nat n" by blast
  moreover have "0 < length (itoa_nat n)" by simp
  moreover have "2 < length s \<Longrightarrow> s ! 1 \<noteq> CHR ''0''"
    using n itoa_nat_no_leading_zero [of n] by (simp add: hd_conv_nth)
  ultimately show "validID s prefix" by (auto simp: validID_def)
qed

lemmas id_valid_defs = SessionID_Valid_def WindowID_Valid_def PaneID_Valid_def

lemma validID_no_NUL: "validID s prefix \<Longrightarrow> prefix \<noteq> NUL \<Longrightarrow> ValidString s"
  by (auto simp: validID_iff ValidString_iff is_digit_def NUL_def dest!: set_itoa_nat)

subsection \<open>The environment of a client\<close>

record tmux_vars =
  tv_TMUX :: bytes
  tv_TMUXPane :: bytes

record tmux_vars_info =
  ti_SocketPath :: bytes
  ti_PID :: int
  ti_SessionID :: bytes
  ti_PaneID :: "bytes gvalue"

definition isNumeric :: "bytes \<Rightarrow> bool" where
  "isNumeric s = (s \<noteq> [] \<and> list_all is_digit s)"

text \<open>\<open>filepath.IsAbs\<close> on Unix.\<close>

definition isAbs :: "bytes \<Rightarrow> bool" where
  "isAbs p = has_prefix p ''/''"

text \<open>\<open>None\<close> when the text does not have three parts.\<close>

definition parseTmux3Part :: "bytes \<Rightarrow> nat \<Rightarrow> nat \<Rightarrow> (goerr + bytes \<times> int \<times> bytes) option" where
  "parseTmux3Part raw start end' =
     (let pid = slice (start + 1) end' raw; sid = CHR ''$'' # drop (end' + 1) raw;
          sock = take start raw in
      if \<not> isNumeric pid then None
      else Some (case parse_int 32 pid of
          None \<Rightarrow> Inl (invalid ''TMUX socket or PID'')
        | Some p \<Rightarrow>
            if p \<le> 0 \<or> \<not> isAbs sock then Inl (invalid ''TMUX socket or PID'')
            else if \<not> SessionID_Valid sid then Inl (invalid ''TMUX session ID'')
            else Inr (sock, p, sid)))"

definition parseTmux2Part :: "bytes \<Rightarrow> nat option \<Rightarrow> nat \<Rightarrow> goerr + bytes \<times> int" where
  "parseTmux2Part raw start end' =
     (let pStr = drop (end' + 1) raw; sock = take end' raw;
          refused = Inl (if start = None then invalid ''TMUX trailing PID''
                         else invalid ''TMUX socket or PID'') in
      case parse_int 32 pStr of
        None \<Rightarrow> refused
      | Some p \<Rightarrow> if p \<le> 0 \<or> \<not> isAbs sock \<or> itoa p \<noteq> pStr then refused else Inr (sock, p))"

definition parse_tmux_text :: "bytes \<Rightarrow> goerr + bytes \<times> int \<times> bytes" where
  "parse_tmux_text raw =
     (case last_index raw (CHR '','') of
        None \<Rightarrow> Inl (invalid ''TMUX trailing session'')
      | Some end' \<Rightarrow>
          let start = last_index (take end' raw) (CHR '','');
              two = bind_res (parseTmux2Part raw start end') (\<lambda>(sock, p). Inr (sock, p, [])) in
          (case start of
             None \<Rightarrow> two
           | Some st \<Rightarrow> (case parseTmux3Part raw st end' of Some r \<Rightarrow> r | None \<Rightarrow> two)))"

definition ParseTmuxVars :: "tmux_vars \<Rightarrow> goerr + tmux_vars_info" where
  "ParseTmuxVars vars =
     (if tv_TMUX vars = [] then Inl (Sentinel ErrNotInsideTmux)
      else if NUL \<in> set (tv_TMUX vars) then Inl (invalid ''TMUX environment'')
      else bind_res (parse_tmux_text (tv_TMUX vars)) (\<lambda>(socket, pid, sid).
        if tv_TMUXPane vars \<noteq> [] then
          if \<not> PaneID_Valid (tv_TMUXPane vars) then Inl (invalid ''TMUX_PANE'')
          else Inr \<lparr>ti_SocketPath = socket, ti_PID = pid, ti_SessionID = sid,
                    ti_PaneID = Present (tv_TMUXPane vars)\<rparr>
        else Inr \<lparr>ti_SocketPath = socket, ti_PID = pid, ti_SessionID = sid,
                  ti_PaneID = Unavailable\<rparr>))"

lemma no_comma_itoa [simp]: "CHR '','' \<notin> set (itoa_nat n)"
  by (auto dest!: set_itoa_nat simp: is_digit_def)

lemma NUL_itoa [simp]: "NUL \<notin> set (itoa_nat n)"
  by (auto dest!: set_itoa_nat simp: is_digit_def NUL_def)

lemma comma_not_NUL [simp]: "CHR '','' \<noteq> NUL" "NUL \<noteq> CHR '',''"
  by (simp_all add: NUL_def)

lemma slice_middle: "slice (length a + 1) (length a + 1 + length b) (a @ x # b @ c) = b"
  by (simp add: slice_def)

lemma parse_pid: "pid < 2 ^ 31 \<Longrightarrow> parse_int 32 (itoa_nat pid) = Some (int pid)"
  by (rule parse_int_itoa_nat) simp_all

text \<open>What tmux exports: the socket path, the pid and the number of the session.\<close>

definition tmux_env3 :: "bytes \<Rightarrow> nat \<Rightarrow> nat \<Rightarrow> bytes" where
  "tmux_env3 socket pid n = socket @ CHR '','' # itoa_nat pid @ CHR '','' # itoa_nat n"

definition tmux_env2 :: "bytes \<Rightarrow> nat \<Rightarrow> bytes" where
  "tmux_env2 socket pid = socket @ CHR '','' # itoa_nat pid"

lemma parse_tmux_env3:
  assumes "isAbs socket" and "0 < pid" and "pid < 2 ^ 31" and "n < 2 ^ 32"
  shows "parse_tmux_text (tmux_env3 socket pid n) = Inr (socket, int pid, CHR ''$'' # itoa_nat n)"
proof -
  let ?raw = "tmux_env3 socket pid n"
  let ?fin = "length socket + 1 + length (itoa_nat pid)"
  have e: "last_index ?raw (CHR '','') = Some ?fin"
    using last_index_append [of "CHR '',''" "itoa_nat n" "socket @ CHR '','' # itoa_nat pid"]
    by (simp add: tmux_env3_def)
  have "take ?fin ?raw = socket @ CHR '','' # itoa_nat pid" by (simp add: tmux_env3_def)
  then have s: "last_index (take ?fin ?raw) (CHR '','') = Some (length socket)"
    by (simp add: last_index_append)
  have "slice (length socket + 1) ?fin ?raw = itoa_nat pid"
    using slice_middle [of socket "itoa_nat pid"] by (simp add: tmux_env3_def)
  moreover have "drop (?fin + 1) ?raw = itoa_nat n" "take (length socket) ?raw = socket"
    by (simp_all add: tmux_env3_def)
  moreover have "SessionID_Valid (CHR ''$'' # itoa_nat n)"
    using assms(4) by (auto simp: SessionID_Valid_def validID_iff)
  ultimately have "parseTmux3Part ?raw (length socket) ?fin = Some (Inr (socket, int pid, CHR ''$'' # itoa_nat n))"
    using assms parse_pid [of pid] by (simp add: parseTmux3Part_def isNumeric_def)
  with e s show ?thesis by (simp add: parse_tmux_text_def)
qed

lemma parse_tmux_env2:
  assumes "isAbs socket" and "0 < pid" and "pid < 2 ^ 31"
    and "\<And>a b. socket = a @ CHR '','' # b \<Longrightarrow> \<not> isNumeric b"
  shows "parse_tmux_text (tmux_env2 socket pid) = Inr (socket, int pid, [])"
proof -
  let ?raw = "tmux_env2 socket pid"
  have e: "last_index ?raw (CHR '','') = Some (length socket)"
    by (simp add: tmux_env2_def last_index_append)
  have two: "parseTmux2Part ?raw st (length socket) = Inr (socket, int pid)" for st
    using assms parse_pid [of pid] by (simp add: parseTmux2Part_def tmux_env2_def)
  have t: "take (length socket) ?raw = socket" by (simp add: tmux_env2_def)
  show ?thesis
  proof (cases "last_index socket (CHR '','')")
    case None
    with e t two show ?thesis by (simp add: parse_tmux_text_def)
  next
    case (Some i)
    then have i: "i < length socket" "socket ! i = CHR '',''" using last_index_Some [OF Some] by auto
    then have "socket = take i socket @ CHR '','' # drop (Suc i) socket" using id_take_nth_drop [OF i(1)] by simp
    then have "\<not> isNumeric (drop (Suc i) socket)" using assms(4) by blast
    moreover have "slice (i + 1) (length socket) ?raw = drop (Suc i) socket"
      using i by (simp add: slice_def tmux_env2_def)
    ultimately have "parseTmux3Part ?raw i (length socket) = None" by (simp add: parseTmux3Part_def)
    with Some e t two show ?thesis by (simp add: parse_tmux_text_def)
  qed
qed

text \<open>The environment of a tmux client is read back exactly: whatever absolute socket path, commas
  included, the pid, the session id and the pane id that tmux exported are recovered; and in the
  short form without a session the same holds as long as the path does not itself end in a comma and
  a number, which the long form means.\<close>

theorem ParseTmuxVars_roundtrip:
  assumes "isAbs socket" and "NUL \<notin> set socket" and "0 < pid" and "pid < 2 ^ 31"
    and "pane = [] \<or> PaneID_Valid pane"
  shows "(\<forall>n < 2 ^ 32. ParseTmuxVars \<lparr>tv_TMUX = tmux_env3 socket pid n, tv_TMUXPane = pane\<rparr> =
      Inr \<lparr>ti_SocketPath = socket, ti_PID = int pid, ti_SessionID = CHR ''$'' # itoa_nat n,
           ti_PaneID = (if pane = [] then Unavailable else Present pane)\<rparr>) \<and>
    ((\<forall>a b. socket = a @ CHR '','' # b \<longrightarrow> \<not> isNumeric b) \<longrightarrow>
      ParseTmuxVars \<lparr>tv_TMUX = tmux_env2 socket pid, tv_TMUXPane = pane\<rparr> =
      Inr \<lparr>ti_SocketPath = socket, ti_PID = int pid, ti_SessionID = [],
           ti_PaneID = (if pane = [] then Unavailable else Present pane)\<rparr>)"
  using assms parse_tmux_env3 [OF assms(1,3,4)] parse_tmux_env2 [OF assms(1,3,4)]
  by (auto simp: ParseTmuxVars_def tmux_env3_def tmux_env2_def)

lemma ParseTmuxVars_roundtrip_witness:
  "ParseTmuxVars \<lparr>tv_TMUX = ''/tmp/a,b,7,0'', tv_TMUXPane = []\<rparr> =
     Inr \<lparr>ti_SocketPath = ''/tmp/a,b'', ti_PID = 7, ti_SessionID = ''$0'', ti_PaneID = Unavailable\<rparr>"
proof -
  have "tmux_env3 ''/tmp/a,b'' 7 0 = ''/tmp/a,b,7,0''" "itoa_nat 0 = ''0''"
    by code_simp+
  with ParseTmuxVars_roundtrip [of "''/tmp/a,b''" 7 "[]"] show ?thesis
    by (force simp: isAbs_def NUL_def)
qed

end
