(* ===== verification/Tmux_Config.thy ===== *)
theory Tmux_Config
  imports Tmux_Ids "HOL-Library.AList"
begin

text \<open>
  \<open>tmux/config.go\<close> and \<open>tmux/server.go\<close>: the configuration, its validation and the construction of
  a server handle. What the operating system answers (working directory, \<open>stat\<close>, environment, user
  id) is the record \<open>host\<close>, a parameter of the definitions.
\<close>

subsection \<open>Configuration\<close>

record limits =
  lim_CommandTimeout :: int
  lim_OutputBytes :: int
  lim_InputBytes :: int
  lim_Concurrent :: int

text \<open>The \<open>uint8\<close> enumerations keep out-of-range values, which \<open>New\<close> has to refuse.\<close>

definition UTF8Default :: nat where "UTF8Default = 0"
definition UTF8Force :: nat where "UTF8Force = 1"
definition UTF8Omit :: nat where "UTF8Omit = 2"
definition LogLevelNone :: nat where "LogLevelNone = 0"
definition LogLevelVerbose :: nat where "LogLevelVerbose = 1"
definition LogLevelDebug :: nat where "LogLevelDebug = 2"

lemmas mode_defs = UTF8Default_def UTF8Force_def UTF8Omit_def
  LogLevelNone_def LogLevelVerbose_def LogLevelDebug_def

record config =
  cfg_Binary :: bytes
  cfg_SocketPath :: bytes
  cfg_SocketName :: bytes
  cfg_ConfigFile :: bytes
  cfg_Env :: "bytes list option"
  cfg_Dir :: bytes
  cfg_Limits :: limits
  cfg_UTF8 :: nat
  cfg_Colors256 :: bool
  cfg_TerminalFeatures :: "bytes list"
  cfg_LogLevel :: nat
  cfg_LoginShell :: bool

definition DefaultLimits :: limits where
  "DefaultLimits = \<lparr>lim_CommandTimeout = 5 * 10 ^ 9, lim_OutputBytes = push_bit 20 4,
     lim_InputBytes = push_bit 20 1, lim_Concurrent = 8\<rparr>"

definition zero_config :: config where
  "zero_config = \<lparr>cfg_Binary = [], cfg_SocketPath = [], cfg_SocketName = [], cfg_ConfigFile = [],
     cfg_Env = None, cfg_Dir = [],
     cfg_Limits = \<lparr>lim_CommandTimeout = 0, lim_OutputBytes = 0, lim_InputBytes = 0, lim_Concurrent = 0\<rparr>,
     cfg_UTF8 = UTF8Default, cfg_Colors256 = False, cfg_TerminalFeatures = [],
     cfg_LogLevel = LogLevelNone, cfg_LoginShell = False\<rparr>"

definition normalizeLimits :: "limits \<Rightarrow> goerr + limits" where
  "normalizeLimits l =
     (if lim_CommandTimeout l < 0 \<or> lim_OutputBytes l < 0 \<or> lim_InputBytes l < 0 \<or> lim_Concurrent l < 0
      then Inl (invalid ''negative limit'')
      else
        let d = DefaultLimits;
            l' = \<lparr>lim_CommandTimeout = if lim_CommandTimeout l = 0 then lim_CommandTimeout d else lim_CommandTimeout l,
                  lim_OutputBytes = if lim_OutputBytes l = 0 then lim_OutputBytes d else lim_OutputBytes l,
                  lim_InputBytes = if lim_InputBytes l = 0 then lim_InputBytes d else lim_InputBytes l,
                  lim_Concurrent = if lim_Concurrent l = 0 then lim_Concurrent d else lim_Concurrent l\<rparr>
        in if 2 ^ 40 < lim_OutputBytes l' \<or> 2 ^ 40 < lim_InputBytes l' \<or> 2 ^ 20 < lim_Concurrent l'
           then Inl (invalid ''nonsensical resource limit'') else Inr l')"

subsection \<open>Environments\<close>

type_synonym env_vars = "(bytes \<times> bytes) list"

fun parse_env_from :: "env_vars \<Rightarrow> bytes list \<Rightarrow> goerr + env_vars" where
  "parse_env_from vars [] = Inr vars"
| "parse_env_from vars (entry # env) =
     (let (name, v, ok) = cut entry ''='' in
      if \<not> ok \<or> name = [] \<or> NUL \<in> set entry then Inl (invalid ''malformed environment entry'')
      else if map_of vars name \<noteq> None then Inl (invalid ''duplicate environment key'')
      else parse_env_from (vars @ [(name, v)]) env)"

definition parseEnvList :: "bytes list \<Rightarrow> goerr + env_vars" where
  "parseEnvList env = parse_env_from [] env"

text \<open>Reading a Go map: the zero value for a key that is absent.\<close>

definition var :: "env_vars \<Rightarrow> bytes \<Rightarrow> bytes" where
  "var vars name = (case map_of vars name of None \<Rightarrow> [] | Some v \<Rightarrow> v)"

fun replaceEnv :: "bytes list \<Rightarrow> bytes \<Rightarrow> bytes \<Rightarrow> bytes list" where
  "replaceEnv [] key v = [key @ ''='' @ v]"
| "replaceEnv (e # env) key v =
     (if has_prefix e (key @ ''='') then (key @ ''='' @ v) # env else e # replaceEnv env key v)"

subsection \<open>Paths\<close>

text \<open>\<open>filepath.Clean\<close> and \<open>filepath.Join\<close> on Unix; the components are kept in reverse.\<close>

fun clean_parts :: "bool \<Rightarrow> bytes list \<Rightarrow> bytes list \<Rightarrow> bytes list" where
  "clean_parts rooted out [] = rev out"
| "clean_parts rooted out (c # cs) =
     (if c = [] \<or> c = ''.'' then clean_parts rooted out cs
      else if c = ''..'' then
        (case out of
           [] \<Rightarrow> clean_parts rooted (if rooted then [] else [c]) cs
         | t # ts \<Rightarrow> clean_parts rooted (if t = ''..'' then c # out else ts) cs)
      else clean_parts rooted (c # out) cs)"

definition path_Clean :: "bytes \<Rightarrow> bytes" where
  "path_Clean p =
     (let rooted = has_prefix p ''/'';
          s = (if rooted then ''/'' else []) @ join_with ''/'' (clean_parts rooted [] (split_byte (CHR ''/'') p))
      in if s = [] then ''.'' else s)"

definition path_Join :: "bytes list \<Rightarrow> bytes" where
  "path_Join elems =
     (case dropWhile (\<lambda>e. e = []) elems of [] \<Rightarrow> [] | es \<Rightarrow> path_Clean (join_with ''/'' es))"

record file_stat =
  st_IsDir :: bool
  st_Executable :: bool

text \<open>\<open>st_Executable\<close> is \<open>Mode() & 0o111 != 0\<close>.\<close>

record host =
  host_getwd :: "goerr + bytes"
  host_stat :: "bytes \<Rightarrow> goerr + file_stat"
  host_uid :: int
  host_environ :: "bytes list"

definition check_binary :: "host \<Rightarrow> bytes \<Rightarrow> bytes \<Rightarrow> goerr + bytes" where
  "check_binary h dir p0 =
     (let p = (if isAbs p0 then p0 else path_Join [dir, p0]) in
      case host_stat h p of
        Inl e \<Rightarrow> Inl (Wrapf ''stat binary'' e)
      | Inr st \<Rightarrow> if st_IsDir st \<or> \<not> st_Executable st then Inl (Sentinel OsErrPermission) else Inr p)"

fun look_in :: "host \<Rightarrow> bytes \<Rightarrow> bytes \<Rightarrow> bytes list \<Rightarrow> goerr + bytes" where
  "look_in h name dir [] = Inl (Opaque (''exec: '' @ name @ '': executable file not found in $PATH''))"
| "look_in h name dir (p # ps) =
     (case check_binary h dir (path_Join [if p = [] then dir else p, name]) of
        Inr r \<Rightarrow> Inr r
      | Inl _ \<Rightarrow> look_in h name dir ps)"

definition lookPath :: "host \<Rightarrow> bytes \<Rightarrow> bytes \<Rightarrow> bytes \<Rightarrow> goerr + bytes" where
  "lookPath h name path dir =
     (if contains_any name [CHR ''/'', backslash] then check_binary h dir name
      else look_in h name dir (if path = [] then [] else split_byte (CHR '':'') path))"

definition resolveDir :: "host \<Rightarrow> bytes \<Rightarrow> goerr + bytes" where
  "resolveDir h dir =
     bind_res
       (if dir = [] then
          (case host_getwd h of Inl e \<Rightarrow> Inl (Wrapf ''working directory'' e) | Inr d \<Rightarrow> Inr d)
        else if isAbs dir then Inr (path_Clean dir)
        else (case host_getwd h of Inl e \<Rightarrow> Inl (Wrapf ''absolute directory'' e)
              | Inr wd \<Rightarrow> Inr (path_Join [wd, dir])))
       (\<lambda>d. case host_stat h d of
          Inl e \<Rightarrow> Inl (Wrapf ''stat directory'' e)
        | Inr st \<Rightarrow> if \<not> st_IsDir st then Inl (invalid ''Dir is not a directory'') else Inr d)"

subsection \<open>Building a server\<close>

definition feature_ok :: "bytes \<Rightarrow> bool" where
  "feature_ok f \<longleftrightarrow> f \<noteq> [] \<and> ValidString f \<and>
     \<not> contains_any f [CHR '' '', HT, CR, LF, CHR '','', NUL]"

definition validateRootConfig :: "config \<Rightarrow> goerr option" where
  "validateRootConfig cfg =
     (if cfg_SocketPath cfg \<noteq> [] \<and> cfg_SocketName cfg \<noteq> []
        then Some (invalid ''choose SocketPath or SocketName'')
      else if UTF8Omit < cfg_UTF8 cfg then Some (invalid ''utf8 mode'')
      else if LogLevelDebug < cfg_LogLevel cfg then Some (invalid ''log level'')
      else if \<not> list_all feature_ok (cfg_TerminalFeatures cfg) then Some (invalid ''terminal feature'')
      else None)"

definition validSocketName :: "bytes \<Rightarrow> bool" where
  "validSocketName name \<longleftrightarrow>
     \<not> contains_any name [CHR ''/'', NUL] \<and> name \<noteq> ''.'' \<and> name \<noteq> ''..''"

definition resolveTempDir :: "bytes \<Rightarrow> bytes \<Rightarrow> bytes" where
  "resolveTempDir dir tmp0 =
     (let tmp = (if tmp0 = [] then ''/tmp'' else tmp0) in
      if isAbs tmp then tmp else path_Join [dir, tmp])"

definition choose_socket :: "host \<Rightarrow> config \<Rightarrow> env_vars \<Rightarrow> goerr + endpoint" where
  "choose_socket h cfg vars =
     (let e = zero_endpoint\<lparr>ep_uid := host_uid h\<rparr> in
      if cfg_SocketPath cfg \<noteq> [] then
        if \<not> isAbs (cfg_SocketPath cfg) \<or> NUL \<in> set (cfg_SocketPath cfg)
        then Inl (invalid ''absolute SocketPath required'')
        else Inr (e\<lparr>socket_path := cfg_SocketPath cfg\<rparr>)
      else if cfg_SocketName cfg \<noteq> [] then
        if \<not> validSocketName (cfg_SocketName cfg) then Inl (invalid ''SocketName'')
        else Inr (e\<lparr>socket_name := cfg_SocketName cfg\<rparr>)
      else if var vars ''TMUX'' \<noteq> [] then
        bind_res (ParseTmuxVars \<lparr>tv_TMUX = var vars ''TMUX'', tv_TMUXPane = var vars ''TMUX_PANE''\<rparr>)
          (\<lambda>hint. Inr (e\<lparr>socket_path := ti_SocketPath hint\<rparr>))
      else Inr (e\<lparr>socket_name := ''default''\<rparr>))"

definition resolveEndpoint ::
  "host \<Rightarrow> config \<Rightarrow> env_vars \<Rightarrow> bytes \<Rightarrow> bytes list \<Rightarrow> goerr + endpoint \<times> bytes list" where
  "resolveEndpoint h cfg vars dir env =
     bind_res (choose_socket h cfg vars) (\<lambda>e.
       if socket_name e \<noteq> [] then
         let tmp = resolveTempDir dir (var vars ''TMUX_TMPDIR'')
         in Inr (e\<lparr>temp_dir := tmp\<rparr>, replaceEnv env ''TMUX_TMPDIR'' tmp)
       else Inr (e, env))"

definition resolveConfigFile :: "bytes \<Rightarrow> bytes \<Rightarrow> goerr + bytes" where
  "resolveConfigFile file dir =
     (if file = [] then Inr []
      else if NUL \<in> set file then Inl (invalid ''ConfigFile'')
      else Inr (if isAbs file then file else path_Join [dir, file]))"

text \<open>A server handle. \<open>srv_conn\<close> is the generation of its control connection, if \<open>conn\<close> is set; the runner is set in every server
  that \<open>New\<close> returns and nil in the zero value.\<close>

record server =
  srv_config :: config
  srv_endpoint :: endpoint
  srv_runner :: bool
  srv_conn :: "nat option"
  srv_bound :: "server_identity option"
  srv_lifetime :: "nat option"

definition New :: "host \<Rightarrow> config \<Rightarrow> goerr + server" where
  "New h cfg0 =
     bind_res (normalizeLimits (cfg_Limits cfg0)) (\<lambda>limits.
     let cfg = cfg0\<lparr>cfg_Limits := limits\<rparr> in
     case validateRootConfig cfg of Some e \<Rightarrow> Inl e | None \<Rightarrow>
     let env = (case cfg_Env cfg of None \<Rightarrow> host_environ h | Some env \<Rightarrow> env) in
     bind_res (parseEnvList env) (\<lambda>vars.
     bind_res (resolveDir h (cfg_Dir cfg)) (\<lambda>dir.
     bind_res (lookPath h (if cfg_Binary cfg = [] then ''tmux'' else cfg_Binary cfg) (var vars ''PATH'') dir) (\<lambda>binary.
     bind_res (resolveEndpoint h cfg vars dir env) (\<lambda>(ep, env').
     bind_res (resolveConfigFile (cfg_ConfigFile cfg) dir) (\<lambda>configFile.
       Inr \<lparr>srv_config = cfg\<lparr>cfg_Binary := binary, cfg_Dir := dir, cfg_Env := Some env',
                             cfg_ConfigFile := configFile\<rparr>,
            srv_endpoint = ep, srv_runner = True, srv_conn = None, srv_bound = None, srv_lifetime = None\<rparr>))))))"

definition endpoint_String :: "endpoint \<Rightarrow> bytes" where
  "endpoint_String e =
     (if socket_path e \<noteq> [] then socket_path e
      else path_Join [temp_dir e, ''tmux-'' @ itoa (ep_uid e), socket_name e])"

definition server_Transport :: "server option \<Rightarrow> transport" where
  "server_Transport s =
     (case s of Some srv \<Rightarrow> if srv_conn srv \<noteq> None then TransportControl else TransportSubprocess
      | None \<Rightarrow> TransportSubprocess)"

definition server_Support :: "server option \<Rightarrow> bool" where
  "server_Support s = (case s of Some srv \<Rightarrow> srv_runner srv \<and> srv_conn srv = None | None \<Rightarrow> False)"

definition baseArgs :: "server \<Rightarrow> bool \<Rightarrow> bytes list" where
  "baseArgs s allowStart =
     (let c = srv_config s in
      (if cfg_UTF8 c \<noteq> UTF8Omit then [''-u''] else []) @
      (if cfg_Colors256 c then [''-2''] else []) @
      (if cfg_LoginShell c then [''-l''] else []) @
      (if cfg_LogLevel c = LogLevelVerbose then [''-v'']
       else if cfg_LogLevel c = LogLevelDebug then [''-vv''] else []) @
      (if cfg_TerminalFeatures c \<noteq> [] then [''-T'', join_with '','' (cfg_TerminalFeatures c)] else []) @
      (if \<not> allowStart \<or> srv_bound s \<noteq> None then [''-N''] else []) @
      (if socket_path (srv_endpoint s) \<noteq> [] then [''-S'', socket_path (srv_endpoint s)]
       else [''-L'', socket_name (srv_endpoint s)]) @
      (if cfg_ConfigFile c \<noteq> [] then [''-f'', cfg_ConfigFile c] else []))"

subsection \<open>Environment lists as finite maps\<close>

definition env_entry :: "bytes \<times> bytes \<Rightarrow> bytes" where
  "env_entry kv = fst kv @ CHR ''='' # snd kv"

definition env_key_ok :: "bytes \<Rightarrow> bool" where
  "env_key_ok k \<longleftrightarrow> k \<noteq> [] \<and> CHR ''='' \<notin> set k \<and> NUL \<notin> set k"

definition env_pair_ok :: "bytes \<times> bytes \<Rightarrow> bool" where
  "env_pair_ok kv \<longleftrightarrow> env_key_ok (fst kv) \<and> NUL \<notin> set (snd kv)"

lemma cut_entry: "cut entry ''='' = (name, v, True) \<Longrightarrow> entry = env_entry (name, v)"
  using cut_found [of entry "''=''" name v] by (simp add: env_entry_def)

lemma find_sub_byte_fresh: "find_sub [x] s = Some (a, b) \<Longrightarrow> x \<notin> set a"
  by (induction s arbitrary: a) (auto split: if_splits)

lemma cut_entry_fresh: "cut entry [x] = (name, v, True) \<Longrightarrow> x \<notin> set name"
  by (auto simp: cut_def split: option.splits dest: find_sub_byte_fresh)

lemma equals_not_NUL [simp]: "CHR ''='' \<noteq> NUL" "NUL \<noteq> CHR ''=''"
  by (simp_all add: NUL_def)

lemma env_entry_cut: "env_pair_ok kv \<Longrightarrow> cut (env_entry kv) ''='' = (fst kv, snd kv, True)"
  by (simp add: env_entry_def env_pair_ok_def env_key_ok_def cut_byte)

lemma env_entry_NUL: "env_pair_ok kv \<Longrightarrow> NUL \<notin> set (env_entry kv)"
  by (simp add: env_entry_def env_pair_ok_def env_key_ok_def)

lemma parse_env_from_iff:
  "parse_env_from vars env = Inr vars' \<longleftrightarrow>
   (\<exists>kvs. env = map env_entry kvs \<and> vars' = vars @ kvs \<and> list_all env_pair_ok kvs \<and>
      distinct (map fst kvs) \<and> fst ` set kvs \<inter> fst ` set vars = {})"
proof (induction vars env rule: parse_env_from.induct)
  case (1 vars)
  then show ?case by auto
next
  case (2 vars entry env)
  show ?case
  proof
    assume L: "parse_env_from vars (entry # env) = Inr vars'"
    obtain name v ok where c: "cut entry ''='' = (name, v, ok)" by (metis prod.exhaust)
    with L have ok: "ok" "name \<noteq> []" "NUL \<notin> set entry" "map_of vars name = None"
        "parse_env_from (vars @ [(name, v)]) env = Inr vars'"
      by (auto split: if_splits)
    with c have e: "entry = env_entry (name, v)" "CHR ''='' \<notin> set name"
      using cut_entry [of entry name v] cut_entry_fresh [of entry _ name v] by auto
    from ok(5) obtain kvs where kvs: "env = map env_entry kvs" "vars' = (vars @ [(name, v)]) @ kvs"
        "list_all env_pair_ok kvs" "distinct (map fst kvs)"
        "fst ` set kvs \<inter> fst ` set (vars @ [(name, v)]) = {}"
      using "2.IH" [OF c [symmetric] refl refl] ok by auto
    have p: "env_pair_ok (name, v)"
      using e ok(2,3) by (auto simp: env_pair_ok_def env_key_ok_def env_entry_def)
    have "name \<notin> fst ` set vars" using ok(4) by (simp add: map_of_eq_None_iff)
    with kvs e p show "\<exists>kvs. entry # env = map env_entry kvs \<and> vars' = vars @ kvs \<and>
        list_all env_pair_ok kvs \<and> distinct (map fst kvs) \<and> fst ` set kvs \<inter> fst ` set vars = {}"
      by (intro exI [of _ "(name, v) # kvs"]) auto
  next
    assume "\<exists>kvs. entry # env = map env_entry kvs \<and> vars' = vars @ kvs \<and>
        list_all env_pair_ok kvs \<and> distinct (map fst kvs) \<and> fst ` set kvs \<inter> fst ` set vars = {}"
    then obtain kv kvs where kvs: "entry = env_entry kv" "env = map env_entry kvs"
        "vars' = (vars @ [kv]) @ kvs" "env_pair_ok kv" "list_all env_pair_ok kvs"
        "distinct (map fst (kv # kvs))" "fst ` set (kv # kvs) \<inter> fst ` set vars = {}"
      by (auto simp: Cons_eq_map_conv)
    have c: "cut entry ''='' = (fst kv, snd kv, True)" using kvs(1,4) by (simp add: env_entry_cut)
    have n: "map_of vars (fst kv) = None" using kvs(7) by (auto simp: map_of_eq_None_iff)
    have ne: "fst kv \<noteq> []" using kvs(4) by (simp add: env_pair_ok_def env_key_ok_def)
    have "parse_env_from (vars @ [(fst kv, snd kv)]) env = Inr vars'"
      using "2.IH" [OF c [symmetric] refl refl] kvs n ne env_entry_NUL [OF kvs(4)] by auto
    with c n ne kvs(1) env_entry_NUL [OF kvs(4)] show "parse_env_from vars (entry # env) = Inr vars'"
      by auto
  qed
qed

lemma parseEnvList_iff:
  "parseEnvList env = Inr vars \<longleftrightarrow>
     env = map env_entry vars \<and> list_all env_pair_ok vars \<and> distinct (map fst vars)"
  by (auto simp: parseEnvList_def parse_env_from_iff)

lemma has_prefix_key:
  "env_pair_ok kv \<Longrightarrow> env_key_ok key \<Longrightarrow> has_prefix (env_entry kv) (key @ ''='') \<longleftrightarrow> fst kv = key"
proof -
  assume a: "env_pair_ok kv" "env_key_ok key"
  have "fst kv = key" if "fst kv @ CHR ''='' # snd kv = (key @ ''='') @ t" for t
  proof -
    have "fst kv @ CHR ''='' # snd kv = key @ CHR ''='' # t" using that by simp
    then have "cut (fst kv @ CHR ''='' # snd kv) ''='' = cut (key @ CHR ''='' # t) ''=''" by simp
    then show ?thesis using a by (simp add: env_pair_ok_def env_key_ok_def cut_byte)
  qed
  then show ?thesis by (auto simp: has_prefix_iff env_entry_def)
qed

lemma replaceEnv_update:
  "list_all env_pair_ok vars \<Longrightarrow> env_key_ok key \<Longrightarrow>
   replaceEnv (map env_entry vars) key v = map env_entry (AList.update key v vars)"
  by (induction vars) (auto simp: has_prefix_key env_entry_def [of "(key, v)"])

lemma parseEnvList_replaceEnv:
  assumes "parseEnvList env = Inr vars" and "env_key_ok key" and "NUL \<notin> set v"
  shows "parseEnvList (replaceEnv env key v) = Inr (AList.update key v vars)"
proof -
  have vars: "env = map env_entry vars" "list_all env_pair_ok vars" "distinct (map fst vars)"
    using assms(1) by (auto simp: parseEnvList_iff)
  have "list_all env_pair_ok (AList.update key v vars)"
    using vars(2) assms(2,3)
    by (induction vars) (auto simp: env_pair_ok_def)
  with vars assms(2) show ?thesis
    by (auto simp: parseEnvList_iff replaceEnv_update distinct_update)
qed

text \<open>Setting one variable in the environment of the tmux processes keeps the list well formed
  (each entry with a name, no name twice) and changes the value of that variable only.\<close>

theorem replaceEnv_sets_one_variable:
  assumes "parseEnvList env = Inr vars"
    and "key \<noteq> []" and "CHR ''='' \<notin> set key" and "NUL \<notin> set key" and "NUL \<notin> set v"
  shows "\<exists>vars'. parseEnvList (replaceEnv env key v) = Inr vars' \<and>
    (\<forall>k. var vars' k = (if k = key then v else var vars k)) \<and>
    length env \<le> length (replaceEnv env key v)"
proof -
  have "parseEnvList (replaceEnv env key v) = Inr (AList.update key v vars)"
    using assms by (intro parseEnvList_replaceEnv) (simp_all add: env_key_ok_def)
  moreover have "length env \<le> length (replaceEnv env key v)"
    by (induction env) auto
  ultimately show ?thesis by (auto simp: var_def update_conv')
qed

lemma replaceEnv_sets_one_variable_witness:
  "\<exists>vars'. parseEnvList (replaceEnv [''A=1'', ''TMUX_TMPDIR=/x''] ''TMUX_TMPDIR'' ''/tmp'') = Inr vars' \<and>
     var vars' ''A'' = ''1'' \<and> var vars' ''TMUX_TMPDIR'' = ''/tmp''"
  using replaceEnv_sets_one_variable [of "[''A=1'', ''TMUX_TMPDIR=/x'']"
      "[(''A'', ''1''), (''TMUX_TMPDIR'', ''/x'')]" "''TMUX_TMPDIR''" "''/tmp''"]
  by (fastforce simp: parseEnvList_iff env_entry_def env_pair_ok_def env_key_ok_def NUL_def var_def)

subsection \<open>What \<open>New\<close> guarantees\<close>

definition limits_ok :: "limits \<Rightarrow> bool" where
  "limits_ok l \<longleftrightarrow> 0 < lim_CommandTimeout l \<and> 0 < lim_OutputBytes l \<and> lim_OutputBytes l \<le> 2 ^ 40 \<and>
     0 < lim_InputBytes l \<and> lim_InputBytes l \<le> 2 ^ 40 \<and> 0 < lim_Concurrent l \<and> lim_Concurrent l \<le> 2 ^ 20"

lemma normalizeLimits_ok: "normalizeLimits l = Inr l' \<Longrightarrow> limits_ok l'"
  by (auto simp: normalizeLimits_def limits_ok_def DefaultLimits_def Let_def split: if_splits)

definition endpoint_ok :: "endpoint \<Rightarrow> bool" where
  "endpoint_ok e \<longleftrightarrow>
     (socket_path e \<noteq> [] \<longleftrightarrow> socket_name e = []) \<and>
     (socket_path e \<noteq> [] \<longrightarrow> isAbs (socket_path e) \<and> NUL \<notin> set (socket_path e)) \<and>
     (socket_name e \<noteq> [] \<longrightarrow> validSocketName (socket_name e))"

lemma isAbs_not_Nil: "isAbs p \<Longrightarrow> p \<noteq> []"
  by (auto simp: isAbs_def)

lemma parse_tmux_text_socket:
  "parse_tmux_text raw = Inr (sock, p, sid) \<Longrightarrow> isAbs sock \<and> set sock \<subseteq> set raw"
  by (auto simp: parse_tmux_text_def parseTmux3Part_def parseTmux2Part_def Let_def bind_res_Inr_iff
      dest!: in_set_takeD split: option.splits if_splits)

lemma ParseTmuxVars_socket:
  "ParseTmuxVars vars = Inr info \<Longrightarrow> isAbs (ti_SocketPath info) \<and> NUL \<notin> set (ti_SocketPath info)"
  by (auto simp: ParseTmuxVars_def bind_res_Inr_iff dest!: parse_tmux_text_socket split: if_splits)

lemma choose_socket_ok: "choose_socket h cfg vars = Inr e \<Longrightarrow> endpoint_ok e"
  by (auto simp: choose_socket_def Let_def endpoint_ok_def zero_endpoint_def bind_res_Inr_iff
      validSocketName_def contains_any_def NUL_def isAbs_not_Nil
      dest: ParseTmuxVars_socket split: if_splits)

lemma resolveEndpoint_ok: "resolveEndpoint h cfg vars dir env = Inr (e, env') \<Longrightarrow> endpoint_ok e"
  by (auto simp: resolveEndpoint_def bind_res_Inr_iff Let_def endpoint_ok_def
      dest!: choose_socket_ok split: if_splits)

text \<open>A server that \<open>New\<close> returns addresses its socket in exactly one way, by an absolute path
  without NUL or by a name that cannot leave the socket directory; its limits are positive and
  bounded; its modes and terminal features are ones tmux accepts; and it is not yet bound to a daemon.\<close>

theorem New_well_formed:
  assumes "New h cfg = Inr s"
  shows "endpoint_ok (srv_endpoint s) \<and> limits_ok (cfg_Limits (srv_config s)) \<and>
    cfg_UTF8 (srv_config s) \<le> UTF8Omit \<and> cfg_LogLevel (srv_config s) \<le> LogLevelDebug \<and>
    list_all feature_ok (cfg_TerminalFeatures (srv_config s)) \<and>
    srv_bound s = None \<and> srv_conn s = None"
  using assms
  by (auto simp: New_def bind_res_Inr_iff Let_def validateRootConfig_def
      dest: normalizeLimits_ok resolveEndpoint_ok split: option.splits if_splits)

definition tiny_host :: host where
  "tiny_host = \<lparr>host_getwd = Inr ''/w'', host_stat = (\<lambda>p. Inr \<lparr>st_IsDir = (p = ''/w''), st_Executable = True\<rparr>),
     host_uid = 1, host_environ = [''PATH=/bin'']\<rparr>"

lemma New_well_formed_witness:
  "\<exists>s. New tiny_host zero_config = Inr s \<and> endpoint_ok (srv_endpoint s)"
proof -
  have "isl (New tiny_host zero_config) = False" by code_simp
  then obtain s where "New tiny_host zero_config = Inr s" by (cases "New tiny_host zero_config") auto
  with New_well_formed show ?thesis by blast
qed

end
