(* ===== verification/Wire_Words.thy ===== *)
theory Wire_Words
  imports Wire_Argv
begin

text \<open>
  \<open>internal/wire/words.go\<close>: \<open>ParseWords\<close> reads tmux's serialised argument form and
  \<open>SplitSequence\<close> cuts command text at its separators. An index \<open>i\<close> into the text is modelled by
  the suffix that starts there; a function that returns the next index returns the suffix after
  it. The value 0 of the Go variable \<open>quote\<close> is \<open>NUL\<close>.
\<close>

subsection \<open>Character classes\<close>

definition isSpace :: "byte \<Rightarrow> bool" where
  "isSpace c \<longleftrightarrow> c = CHR '' '' \<or> c = HT"

definition isWordSeparator :: "byte \<Rightarrow> bool" where
  "isWordSeparator c \<longleftrightarrow> c = LF \<or> c = CHR '';'' \<or> c = CHR ''{'' \<or> c = CHR ''}''"

definition isSequenceInvalid :: "byte \<Rightarrow> bool" where
  "isSequenceInvalid c \<longleftrightarrow> c = CHR ''{'' \<or> c = CHR ''}'' \<or> c = LF"

definition isWordComment :: "byte \<Rightarrow> byte \<Rightarrow> bool \<Rightarrow> bool" where
  "isWordComment c quote started \<longleftrightarrow> c = CHR ''#'' \<and> quote = NUL \<and> \<not> started"

definition canEscape :: "byte \<Rightarrow> byte \<Rightarrow> bool" where
  "canEscape c quote \<longleftrightarrow> c = backslash \<and> quote \<noteq> squote"

definition toggleQuote :: "byte \<Rightarrow> byte \<Rightarrow> byte \<times> bool" where
  "toggleQuote c quote =
     (if c = squote \<and> quote \<noteq> dquote then (if quote = squote then (NUL, True) else (squote, True))
      else if c = dquote \<and> quote \<noteq> squote then (if quote = dquote then (NUL, True) else (dquote, True))
      else (quote, False))"

definition startsVariable :: "byte \<Rightarrow> bool" where
  "startsVariable c \<longleftrightarrow> c = CHR ''{'' \<or> c = CHR ''_'' \<or> isLetter c"

text \<open>\<open>refusedWordByte(text, i, quote, fresh)\<close> on the suffix \<open>c # rest\<close> at \<open>i\<close>.\<close>

definition refusedWordByte :: "byte \<Rightarrow> bytes \<Rightarrow> byte \<Rightarrow> bool \<Rightarrow> bool" where
  "refusedWordByte c rest quote fresh =
     (if c = NUL then True
      else if quote = squote then False
      else if c = CHR ''$'' then (case rest of [] \<Rightarrow> False | d # _ \<Rightarrow> startsVariable d)
      else c = CHR ''~'' \<and> fresh)"

subsection \<open>Escapes\<close>

definition is_octal_digit :: "byte \<Rightarrow> bool" where
  "is_octal_digit c \<longleftrightarrow> 48 \<le> code c \<and> code c \<le> 55"

text \<open>\<open>parseOctalEscape\<close> on the suffix that starts at the first digit.\<close>

fun parseOctalEscape :: "bytes \<Rightarrow> goerr + (byte \<times> bytes)" where
  "parseOctalEscape (a # b # c # rest) =
     (if \<not> (is_octal_digit a \<and> is_octal_digit b \<and> is_octal_digit c) then Inl (Sentinel ErrCommandText)
      else let n = (digit_val a * 8 + digit_val b) * 8 + digit_val c in
        if 256 \<le> n \<or> n = 0 then Inl (Sentinel ErrCommandText) else Inr (char_of n, rest))"
| "parseOctalEscape _ = Inl (Sentinel ErrCommandText)"

definition mapEscapeChar :: "byte \<Rightarrow> byte \<times> bool" where
  "mapEscapeChar c =
     (if c = CHR ''n'' then (LF, True)
      else if c = CHR ''r'' then (CR, True)
      else if c = CHR ''t'' then (HT, True)
      else if c = CHR ''b'' then (CHR 0x08, True)
      else if c = CHR ''f'' then (CHR 0x0C, True)
      else if c = CHR ''v'' then (CHR 0x0B, True)
      else if c = CHR ''a'' then (CHR 0x07, True)
      else if c = CHR ''e'' then (ESC, True)
      else if c = CHR ''s'' then (CHR '' '', True)
      else if c = LF then (NUL, False)
      else (c, True))"

text \<open>\<open>parseEscape\<close> on the suffix after the backslash: the byte, whether there is one, and the
  suffix after the escape.\<close>

fun parseEscape :: "bytes \<Rightarrow> goerr + (byte \<times> bytes \<times> bool)" where
  "parseEscape [] = Inl (Sentinel ErrCommandText)"
| "parseEscape (c # rest) =
     (if is_octal_digit c
      then bind_res (parseOctalEscape (c # rest)) (\<lambda>(b, rest'). Inr (b, rest', True))
      else let (b, ok) = mapEscapeChar c in Inr (b, rest, ok))"

definition handleEscape :: "bytes \<Rightarrow> bytes \<Rightarrow> bool \<Rightarrow> goerr + (bytes \<times> bytes \<times> bool)" where
  "handleEscape b rest started =
     bind_res (parseEscape rest) (\<lambda>(bval, rest', ok).
       if ok then Inr (b @ [bval], rest', True) else Inr (b, rest', started))"

lemma parseOctalEscape_length:
  "parseOctalEscape s = Inr (b, rest) \<Longrightarrow> length rest < length s"
  by (induction s rule: parseOctalEscape.induct) (auto simp: Let_def split: if_splits)

lemma parseEscape_length: "parseEscape s = Inr (b, rest, ok) \<Longrightarrow> length rest < length s"
  by (cases s) (auto simp: bind_res_Inr_iff dest: parseOctalEscape_length split: if_splits prod.splits)

lemma handleEscape_length:
  "handleEscape b s st = Inr (b', rest, st') \<Longrightarrow> length rest < length s"
  by (auto simp: handleEscape_def bind_res_Inr_iff dest: parseEscape_length split: if_splits)

subsection \<open>ParseWords\<close>

definition flushWord :: "bytes list \<Rightarrow> bytes \<Rightarrow> bool \<Rightarrow> bytes list \<times> bytes \<times> bool" where
  "flushWord words b started = (if started then (words @ [b], [], False) else (words, b, started))"

function parse_words_loop ::
  "bytes list \<Rightarrow> bytes \<Rightarrow> byte \<Rightarrow> bool \<Rightarrow> bool \<Rightarrow> bytes \<Rightarrow> goerr + bytes list" where
  "parse_words_loop words b quote started fresh [] =
     (if quote \<noteq> NUL then Inl (Sentinel ErrCommandText)
      else let (words', _, _) = flushWord words b started in Inr words')"
| "parse_words_loop words b quote started fresh (c # rest) =
     (if quote = NUL \<and> isSpace c then
        (let (words', b', started') = flushWord words b started
         in parse_words_loop words' b' quote started' True rest)
      else if isWordComment c quote started then
        (if quote \<noteq> NUL then Inl (Sentinel ErrCommandText)
         else let (words', _, _) = flushWord words b started in Inr words')
      else if quote = NUL \<and> isWordSeparator c then Inl (Sentinel ErrCommandText)
      else if snd (toggleQuote c quote) then
        parse_words_loop words b (fst (toggleQuote c quote)) True True rest
      else if canEscape c quote then
        (case handleEscape b rest started of
           Inl e \<Rightarrow> Inl e
         | Inr (b', rest', started') \<Rightarrow> parse_words_loop words b' quote started' False rest')
      else if refusedWordByte c rest quote fresh then Inl (Sentinel ErrCommandText)
      else parse_words_loop words (b @ [c]) quote True False rest)"
  by pat_completeness auto
termination
  by (relation "measure (\<lambda>(words, b, quote, started, fresh, s). length s)")
     (auto dest: handleEscape_length)

definition ParseWords :: "bytes \<Rightarrow> goerr + bytes list" where
  "ParseWords text = parse_words_loop [] [] NUL False True text"

subsection \<open>SplitSequence\<close>

definition is_blank :: "byte \<Rightarrow> bool" where
  "is_blank c \<longleftrightarrow> c = CHR '' '' \<or> c = HT"

text \<open>\<open>strings.Trim(s, " \t")\<close>.\<close>

definition trim_blanks :: "bytes \<Rightarrow> bytes" where
  "trim_blanks s = rev (dropWhile is_blank (rev (dropWhile is_blank s)))"

definition extractPart :: "bytes \<Rightarrow> goerr + bytes" where
  "extractPart s = (let part = trim_blanks s in
     if part = [] then Inl (Sentinel ErrCommandText) else Inr part)"

definition skipEscape :: "bytes \<Rightarrow> goerr + (byte \<times> bytes)" where
  "skipEscape rest = (case rest of [] \<Rightarrow> Inl (Sentinel ErrCommandText) | c # r \<Rightarrow> Inr (c, r))"

text \<open>The loop of \<open>splitSequence\<close>: \<open>out\<close> the parts found, \<open>pend\<close> the text from \<open>start\<close> to \<open>i\<close>.
  \<open>handleUnquotedSequenceChar\<close> and \<open>parseSequencePart\<close> are the branch outside quotes; with
  \<open>escapedSeparator\<close> (the form key bindings are listed in) a backslash before the semicolon
  belongs to the separator.\<close>

datatype unquoted_step = StepError goerr | StepHandled "bytes list" bytes | StepNot

definition handleUnquotedSequenceChar ::
  "bytes list \<Rightarrow> bytes \<Rightarrow> byte \<Rightarrow> bytes \<Rightarrow> bool \<Rightarrow> unquoted_step" where
  "handleUnquotedSequenceChar out pend c rest escapedSeparator =
     (if isSequenceInvalid c then StepError (Sentinel ErrCommandText)
      else if c = CHR '';'' then
        (case extractPart pend of Inl e \<Rightarrow> StepError e | Inr part \<Rightarrow> StepHandled (out @ [part]) rest)
      else if escapedSeparator \<and> c = backslash \<and> has_prefix rest '';'' then
        (case extractPart pend of Inl e \<Rightarrow> StepError e | Inr part \<Rightarrow> StepHandled (out @ [part]) (tl rest))
      else StepNot)"

definition finish_sequence :: "bytes list \<Rightarrow> bytes \<Rightarrow> byte \<Rightarrow> goerr + bytes list" where
  "finish_sequence out pend quote =
     (if quote \<noteq> NUL then Inl (Sentinel ErrCommandText)
      else let part = trim_blanks pend in Inr (if part = [] then out else out @ [part]))"

lemma handleUnquoted_length:
  "handleUnquotedSequenceChar out pend c rest es = StepHandled out' rest' \<Longrightarrow> length rest' \<le> length rest"
  by (auto simp: handleUnquotedSequenceChar_def split: if_splits sum.splits)

function split_sequence_loop ::
  "bool \<Rightarrow> bytes list \<Rightarrow> bytes \<Rightarrow> byte \<Rightarrow> bool \<Rightarrow> bytes \<Rightarrow> goerr + bytes list" where
  "split_sequence_loop es out pend quote wordStarted [] = finish_sequence out pend quote"
| "split_sequence_loop es out pend quote wordStarted (c # rest) =
     (if isWordComment c quote wordStarted then finish_sequence out pend quote
      else
        (case (if quote = NUL then handleUnquotedSequenceChar out pend c rest es else StepNot) of
           StepError e \<Rightarrow> Inl e
         | StepHandled out' rest' \<Rightarrow> split_sequence_loop es out' [] quote False rest'
         | StepNot \<Rightarrow>
             if canEscape c quote then
               (case skipEscape rest of
                  Inl e \<Rightarrow> Inl e
                | Inr (d, rest') \<Rightarrow> split_sequence_loop es out (pend @ [c, d]) quote True rest')
             else
               (let quote' = fst (toggleQuote c quote)
                in split_sequence_loop es out (pend @ [c]) quote' (quote' \<noteq> NUL \<or> \<not> isSpace c) rest)))"
  by pat_completeness auto
termination
  by (relation "measure (\<lambda>(es, out, pend, quote, ws, s). length s)")
     (auto simp: skipEscape_def le_imp_less_Suc split: if_splits list.splits
       dest: handleUnquoted_length)

definition splitSequence :: "bytes \<Rightarrow> bool \<Rightarrow> goerr + bytes list" where
  "splitSequence text escapedSeparator = split_sequence_loop escapedSeparator [] [] NUL False text"

definition SplitSequence :: "bytes \<Rightarrow> goerr + bytes list" where
  "SplitSequence text = splitSequence text False"

definition SplitBindingSequence :: "bytes \<Rightarrow> goerr + bytes list" where
  "SplitBindingSequence text = splitSequence text True"

declare parse_words_loop.simps [simp del] split_sequence_loop.simps [simp del]

lemmas parse_words_step = parse_words_loop.simps(2)
lemmas split_seq_step = split_sequence_loop.simps(2)

subsection \<open>Reading back what the quoting writer wrote\<close>

lemmas word_class_defs = isSpace_def isWordSeparator_def isWordComment_def toggleQuote_def
  canEscape_def refusedWordByte_def isSequenceInvalid_def

lemma octal_digits_of_byte:
  fixes n :: nat
  assumes "n < 256"
  shows "(n div 64 * 8 + n div 8 mod 8) * 8 + n mod 8 = n"
proof -
  have "n div 64 = n div 8 div 8" by (simp add: div_mult2_eq [symmetric])
  then have "n div 64 * 8 + n div 8 mod 8 = n div 8" by simp
  then show ?thesis by simp
qed

lemma code_NUL: "code NUL = 0"
  by (simp add: NUL_def)

lemma code_NUL_iff: "code b = 0 \<longleftrightarrow> b = NUL"
  unfolding code_NUL [symmetric] by (rule code_inject)

lemma parseEscape_octal:
  assumes "b \<noteq> NUL"
  shows "parseEscape (tl (octal_escape b) @ rest) = Inr (b, rest, True)"
proof -
  have lt: "code b < 256" by (rule code_less_256)
  then have n: "code b div 64 < 4" "code b div 8 mod 8 < 8" "code b mod 8 < 8" by linarith+
  then have le: "code b div 64 \<le> 7" "code b div 8 mod 8 \<le> 7" "code b mod 8 \<le> 7" by linarith+
  show ?thesis
    using lt n le assms octal_digits_of_byte [OF lt]
    by (simp add: octal_escape_def is_octal_digit_def digit_val_def octal_digit_code code_NUL_iff
        of_char_of)
qed

lemma not_isSafeQuoteByte:
  "\<not> isSafeQuoteByte NUL" "\<not> isSafeQuoteByte dquote" "\<not> isSafeQuoteByte backslash"
  "\<not> isSafeQuoteByte CHR ''$''" "\<not> isSafeQuoteByte CHR ''~''" "\<not> isSafeQuoteByte HT"
  "\<not> isSafeQuoteByte LF"
  by (simp_all add: isSafeQuoteByte_code byte_defs)

lemma isSafeQuoteByte_classes:
  assumes "isSafeQuoteByte c"
  shows "c \<noteq> NUL" "c \<noteq> dquote" "c \<noteq> backslash" "c \<noteq> CHR ''$''" "c \<noteq> CHR ''~''" "c \<noteq> HT" "c \<noteq> LF"
  using assms not_isSafeQuoteByte by metis+

lemma quote_consts [simp]:
  "dquote \<noteq> NUL" "NUL \<noteq> dquote" "squote \<noteq> NUL" "NUL \<noteq> squote" "dquote \<noteq> squote"
  "squote \<noteq> dquote" "backslash \<noteq> dquote" "backslash \<noteq> squote" "backslash \<noteq> NUL"
  "dquote \<noteq> backslash" "squote \<noteq> backslash" "NUL \<noteq> backslash"
  by (simp_all add: byte_defs)

lemma octal_escape_Cons: "octal_escape b = backslash # tl (octal_escape b)"
  by (simp add: octal_escape_def)

text \<open>One quoted byte inside double quotes adds itself to the word.\<close>

lemma parse_words_quote_byte:
  assumes "b \<noteq> NUL"
  shows "parse_words_loop ws w dquote st fr (quote_byte b @ rest) =
    parse_words_loop ws (w @ [b]) dquote True False rest"
proof (cases "isSafeQuoteByte b")
  case True
  note c = isSafeQuoteByte_classes [OF True]
  from True c show ?thesis
    by (simp add: quote_byte_def parse_words_step word_class_defs)
next
  case False
  have "handleEscape w (tl (octal_escape b) @ rest) st = Inr (w @ [b], rest, True)"
    using assms by (simp add: handleEscape_def parseEscape_octal)
  with False show ?thesis
    unfolding quote_byte_def
    by (subst octal_escape_Cons) (simp add: parse_words_step word_class_defs)
qed

lemma parse_words_quote_bytes:
  "ValidString s \<Longrightarrow> \<exists>st' fr'. parse_words_loop ws w dquote st fr (quote_bytes s @ rest) =
     parse_words_loop ws (w @ s) dquote st' fr' rest"
proof (induction s arbitrary: w st fr)
  case (Cons b s)
  then show ?case
    using Cons.IH [of "w @ [b]" True False] by (simp add: parse_words_quote_byte)
qed auto

definition render_word :: "bytes \<Rightarrow> bytes" where
  "render_word s = dquote # quote_bytes s @ [dquote]"

lemma parse_words_render_word:
  assumes "ValidString s"
  shows "parse_words_loop ws w NUL st fr (render_word s @ rest) =
    parse_words_loop ws (w @ s) NUL True True rest"
proof -
  obtain st' fr' where run: "parse_words_loop ws w dquote True True (quote_bytes s @ dquote # rest) =
      parse_words_loop ws (w @ s) dquote st' fr' (dquote # rest)"
    using parse_words_quote_bytes [OF assms] by blast
  have "dquote \<noteq> CHR '' ''" "dquote \<noteq> HT" "dquote \<noteq> CHR ''#''" "\<not> isWordSeparator dquote"
    by (simp_all add: byte_defs isWordSeparator_def)
  with run show ?thesis
    by (simp add: render_word_def parse_words_step isSpace_def isWordComment_def toggleQuote_def)
qed

lemma parse_words_blank:
  "parse_words_loop ws w NUL st fr (CHR '' '' # rest) =
     (if st then parse_words_loop (ws @ [w]) [] NUL False True rest
      else parse_words_loop ws w NUL False True rest)"
  by (simp add: parse_words_step isSpace_def flushWord_def)

lemma isCommandChar_classes:
  assumes "isCommandChar c"
  shows "\<not> isSpace c" "\<not> isWordSeparator c" "c \<noteq> CHR ''#''" "c \<noteq> NUL" "c \<noteq> squote" "c \<noteq> dquote"
    "c \<noteq> backslash" "c \<noteq> CHR ''$''" "c \<noteq> CHR ''~''" "\<not> isSequenceInvalid c" "c \<noteq> CHR '';''"
  using assms
  by (auto simp: isCommandChar_def isLetter_def is_digit_def isSpace_def isWordSeparator_def
      isSequenceInvalid_def byte_defs)

lemma parse_words_name:
  "list_all isCommandChar s \<Longrightarrow> s \<noteq> [] \<Longrightarrow>
   parse_words_loop ws w NUL st fr (s @ rest) = parse_words_loop ws (w @ s) NUL True False rest"
proof (induction s arbitrary: w st fr)
  case (Cons c s)
  then have "isCommandChar c" by simp
  note c = isCommandChar_classes [OF this]
  have step: "parse_words_loop ws w NUL st fr (c # s @ rest) =
      parse_words_loop ws (w @ [c]) NUL True False (s @ rest)"
    using c by (simp add: parse_words_step isWordComment_def toggleQuote_def canEscape_def refusedWordByte_def)
  show ?case
  proof (cases "s = []")
    case True
    with step show ?thesis by simp
  next
    case False
    with Cons step show ?thesis by simp
  qed
qed simp

definition render_args :: "bytes list \<Rightarrow> bytes" where
  "render_args args = concat (map (\<lambda>a. CHR '' '' # render_word a) args)"

lemma render_args_simps [simp]:
  "render_args [] = []" "render_args (a # as) = CHR '' '' # render_word a @ render_args as"
  by (simp_all add: render_args_def)

lemma parse_words_render_args:
  "list_all ValidString args \<Longrightarrow>
   parse_words_loop ws w NUL True fr (render_args args) = Inr (ws @ w # args)"
proof (induction args arbitrary: ws w fr)
  case Nil
  then show ?case by (simp add: parse_words_loop.simps flushWord_def)
next
  case (Cons a args)
  then show ?case
    by (simp add: parse_words_blank parse_words_render_word)
qed

lemma ParseWords_render:
  assumes "ValidCommand name" and "list_all ValidString args"
  shows "ParseWords (name @ render_args args) = Inr (name # args)"
  using assms ValidCommand_chars [OF assms(1)]
  by (simp add: ParseWords_def parse_words_name parse_words_render_args)

text \<open>Words without NUL bytes, each written by the quoting writer between double quotes and
  separated by blanks, are read back by \<open>ParseWords\<close> as exactly these words: no byte of an argument
  is expanded, ends its word, starts a comment or is lost.\<close>

theorem ParseWords_quoted_words:
  assumes "list_all ValidString ws" and "ws \<noteq> []"
  shows "ParseWords (join_with '' '' (map render_word ws)) = Inr ws"
proof -
  obtain w ws' where ws: "ws = w # ws'" using assms(2) by (cases ws) auto
  have join: "join_with '' '' (map render_word (w # ws')) = render_word w @ render_args ws'" for w ws'
    by (induction ws' arbitrary: w) simp_all
  show ?thesis
    using assms(1) unfolding ws join ParseWords_def
    by (simp add: parse_words_render_word parse_words_render_args)
qed

lemma ParseWords_quoted_words_witness:
  "ParseWords (join_with '' '' (map render_word [''a b'', [], [dquote, CHR ''$'']]))
     = Inr [''a b'', [], [dquote, CHR ''$'']]"
  by (rule ParseWords_quoted_words) (simp_all add: byte_defs)

subsection \<open>Cutting the sequence back into its commands\<close>

lemma split_seq_quote_char:
  assumes "isSafeQuoteByte c"
  shows "split_sequence_loop es out pend dquote ws (c # rest) =
    split_sequence_loop es out (pend @ [c]) dquote True rest"
  using isSafeQuoteByte_classes [OF assms]
  by (simp add: split_seq_step isWordComment_def canEscape_def toggleQuote_def Let_def)

lemma split_seq_escape:
  "split_sequence_loop es out pend dquote ws (backslash # d # rest) =
   split_sequence_loop es out (pend @ [backslash, d]) dquote True rest"
  by (simp add: split_seq_step isWordComment_def canEscape_def skipEscape_def)

lemma split_seq_quote_bytes:
  "\<exists>ws'. split_sequence_loop es out pend dquote ws (quote_bytes s @ rest) =
     split_sequence_loop es out (pend @ quote_bytes s) dquote ws' rest"
proof (induction s arbitrary: pend ws)
  case (Cons b s)
  have "\<exists>ws'. split_sequence_loop es out pend dquote ws (quote_byte b @ t) =
      split_sequence_loop es out (pend @ quote_byte b) dquote ws' t" for t
  proof (cases "isSafeQuoteByte b")
    case True
    then show ?thesis by (auto simp: quote_byte_def split_seq_quote_char)
  next
    case False
    have lt: "code b < 256" by (rule code_less_256)
    then have n: "code b div 64 < 8" "code b div 8 mod 8 < 8" "code b mod 8 < 8" by linarith+
    show ?thesis
      using False n [THEN octal_digit_safe]
      by (auto simp: quote_byte_def octal_escape_def split_seq_escape split_seq_quote_char)
  qed
  with Cons.IH show ?case by (metis append.assoc quote_bytes_simps(2))
qed auto

lemma split_seq_render_word:
  "split_sequence_loop es out pend NUL ws (render_word s @ rest) =
   split_sequence_loop es out (pend @ render_word s) NUL True rest"
proof -
  obtain ws' where "split_sequence_loop es out (pend @ [dquote]) dquote True
      (quote_bytes s @ dquote # rest) =
      split_sequence_loop es out ((pend @ [dquote]) @ quote_bytes s) dquote ws' (dquote # rest)"
    using split_seq_quote_bytes by metis
  then show ?thesis
    by (simp add: render_word_def split_seq_step isWordComment_def canEscape_def toggleQuote_def
        handleUnquotedSequenceChar_def isSequenceInvalid_def isSpace_def byte_defs)
qed

lemma split_seq_name:
  "list_all isCommandChar s \<Longrightarrow> s \<noteq> [] \<Longrightarrow>
   split_sequence_loop es out pend NUL ws (s @ rest) =
   split_sequence_loop es out (pend @ s) NUL True rest"
proof (induction s arbitrary: pend ws)
  case (Cons c s)
  then have "isCommandChar c" by simp
  note c = isCommandChar_classes [OF this]
  have step: "split_sequence_loop es out pend NUL ws (c # s @ rest) =
      split_sequence_loop es out (pend @ [c]) NUL True (s @ rest)"
    using c by (simp add: split_seq_step isWordComment_def canEscape_def toggleQuote_def
        handleUnquotedSequenceChar_def)
  show ?case
  proof (cases "s = []")
    case True
    with step show ?thesis by simp
  next
    case False
    with Cons step show ?thesis by simp
  qed
qed simp

lemma split_seq_blank:
  "split_sequence_loop es out pend NUL ws (CHR '' '' # rest) =
   split_sequence_loop es out (pend @ '' '') NUL False rest"
  by (simp add: split_seq_step isWordComment_def canEscape_def toggleQuote_def
      handleUnquotedSequenceChar_def isSequenceInvalid_def isSpace_def byte_defs)

lemma split_seq_render_args:
  "\<exists>ws'. split_sequence_loop es out pend NUL ws (render_args args @ rest) =
     split_sequence_loop es out (pend @ render_args args) NUL ws' rest"
proof (induction args arbitrary: pend ws)
  case (Cons a args)
  from Cons.IH [of "pend @ '' '' @ render_word a" True] show ?case
    by (simp add: split_seq_blank split_seq_render_word)
qed auto

text \<open>A command as it is rendered: its name and its quoted arguments.\<close>

definition render_command :: "bytes \<times> bytes list \<Rightarrow> bytes" where
  "render_command c = fst c @ render_args (snd c)"

definition well_named :: "bytes \<times> bytes list \<Rightarrow> bool" where
  "well_named c \<longleftrightarrow> ValidCommand (fst c) \<and> list_all ValidString (snd c)"

lemma split_seq_command:
  "well_named c \<Longrightarrow> \<exists>ws'. split_sequence_loop es out pend NUL ws (render_command c @ rest) =
     split_sequence_loop es out (pend @ render_command c) NUL ws' rest"
  using split_seq_render_args [of es out "pend @ fst c" True "snd c" rest] ValidCommand_chars [of "fst c"]
  by (auto simp: well_named_def render_command_def split_seq_name)

lemma last_render_args: "args \<noteq> [] \<Longrightarrow> last (render_args args) = dquote"
  by (induction args rule: rev_induct) (auto simp: render_args_def render_word_def)

lemma render_command_ends:
  assumes "well_named c"
  shows "render_command c \<noteq> []" "\<not> is_blank (hd (render_command c))"
    "\<not> is_blank (last (render_command c))"
proof -
  have n: "fst c \<noteq> []" "list_all isCommandChar (fst c)"
    using assms ValidCommand_chars by (auto simp: well_named_def)
  have nb: "\<not> is_blank x" if "isCommandChar x" for x
    using isCommandChar_classes(1) [OF that] by (simp add: is_blank_def isSpace_def)
  show "render_command c \<noteq> []" using n by (simp add: render_command_def)
  show "\<not> is_blank (hd (render_command c))"
    using n nb by (simp add: render_command_def list_all_iff)
  show "\<not> is_blank (last (render_command c))"
  proof (cases "snd c = []")
    case True
    with n nb show ?thesis by (simp add: render_command_def list_all_iff)
  next
    case False
    then have "render_args (snd c) \<noteq> []" by (cases "snd c") auto
    with False show ?thesis
      by (simp add: render_command_def last_render_args is_blank_def byte_defs)
  qed
qed

lemma dropWhile_all_prefix:
  "list_all P sp \<Longrightarrow> t \<noteq> [] \<Longrightarrow> \<not> P (hd t) \<Longrightarrow> dropWhile P (sp @ t) = t"
  by (induction sp) (auto simp: neq_Nil_conv)

lemma trim_blanks_pad:
  assumes "list_all is_blank sp" "list_all is_blank sp'" "t \<noteq> []" "\<not> is_blank (hd t)"
    "\<not> is_blank (last t)"
  shows "trim_blanks (sp @ t @ sp') = t"
proof -
  have "dropWhile is_blank (sp @ t @ sp') = t @ sp'"
    using assms by (intro dropWhile_all_prefix) auto
  moreover have "dropWhile is_blank (rev sp' @ rev t) = rev t"
    using assms by (intro dropWhile_all_prefix) (auto simp: list_all_iff hd_rev)
  ultimately show ?thesis by (simp add: trim_blanks_def)
qed

lemma trim_blanks_command:
  "well_named c \<Longrightarrow> list_all is_blank sp \<Longrightarrow> list_all is_blank sp' \<Longrightarrow>
   trim_blanks (sp @ render_command c @ sp') = render_command c"
  using render_command_ends [of c] by (intro trim_blanks_pad) auto

lemma split_seq_commands:
  assumes "list_all well_named (c # cs)" and "list_all is_blank sp"
  shows "split_sequence_loop es out sp NUL ws (join_with '' ; '' (map render_command (c # cs))) =
    Inr (out @ map render_command (c # cs))"
  using assms
proof (induction cs arbitrary: c out sp ws)
  case Nil
  then obtain ws' where "split_sequence_loop es out sp NUL ws (render_command c @ []) =
      split_sequence_loop es out (sp @ render_command c) NUL ws' []"
    using split_seq_command by (metis list.pred_inject(2))
  with Nil trim_blanks_command [of c sp "[]"] render_command_ends [of c] show ?case
    by (simp add: split_sequence_loop.simps finish_sequence_def)
next
  case (Cons d cs)
  let ?rest = "join_with '' ; '' (map render_command (d # cs))"
  from Cons.prems obtain ws' where run:
    "split_sequence_loop es out sp NUL ws (render_command c @ '' ; '' @ ?rest) =
     split_sequence_loop es out (sp @ render_command c) NUL ws' ('' ; '' @ ?rest)"
    using split_seq_command by (metis list.pred_inject(2))
  have blank: "list_all is_blank '' ''" by (simp add: is_blank_def)
  from Cons.prems have "extractPart (sp @ render_command c @ '' '') = Inr (render_command c)"
    using trim_blanks_command [of c sp "'' ''"] render_command_ends(1) [of c] blank
    by (simp add: extractPart_def Let_def)
  then have sep: "split_sequence_loop es out (sp @ render_command c @ '' '') NUL False ('';'' @ '' '' @ ?rest) =
      split_sequence_loop es (out @ [render_command c]) [] NUL False ('' '' @ ?rest)"
    by (simp add: split_seq_step handleUnquotedSequenceChar_def isWordComment_def
        isSequenceInvalid_def byte_defs del: join_with.simps)
  have "split_sequence_loop es (out @ [render_command c]) '' '' NUL False ?rest =
      Inr ((out @ [render_command c]) @ map render_command (d # cs))"
    using Cons.prems blank by (intro Cons.IH) simp_all
  moreover have "join_with '' ; '' (map render_command (c # d # cs)) = render_command c @ '' ; '' @ ?rest"
    by simp
  ultimately show ?case
    using run sep by (simp add: split_seq_blank del: join_with.simps)
qed

lemma splitSequence_commands:
  "list_all well_named cs \<Longrightarrow> splitSequence (join_with '' ; '' (map render_command cs)) es =
     Inr (map render_command cs)"
proof (cases cs)
  case Nil
  then show ?thesis by (simp add: splitSequence_def split_sequence_loop.simps finish_sequence_def trim_blanks_def)
next
  case (Cons c cs')
  assume "list_all well_named cs"
  with Cons split_seq_commands [of c cs' "[]" es "[]" False] show ?thesis
    by (simp add: splitSequence_def)
qed

end
