(* ===== verification/Command_Plan.thy ===== *)
theory Command_Plan
  imports Wire_Words
begin

text \<open>
  \<open>tmux/command.go\<close>, first part: commands and sequences, the tree of commands that a plan holds, and
  its three renderings: the control-mode text, its size, and the argument vector of a subprocess.
\<close>

subsection \<open>Commands\<close>

record command =
  cmd_name :: bytes
  cmd_args :: "bytes list"

definition command_Valid :: "command \<Rightarrow> bool" where
  "command_Valid c \<longleftrightarrow> ValidCommand (cmd_name c) \<and> list_all ValidString (cmd_args c)"

definition NewCommand :: "bytes \<Rightarrow> bytes list \<Rightarrow> goerr + command" where
  "NewCommand name args =
     (if \<not> ValidCommand name then Inl (invalid ''command name'')
      else if \<not> list_all ValidString args then Inl (invalid ''NUL argument'')
      else Inr \<lparr>cmd_name = name, cmd_args = args\<rparr>)"

text \<open>A \<open>CommandSequence\<close> is its list of commands.\<close>

definition Sequence :: "command list \<Rightarrow> goerr + command list" where
  "Sequence commands = (if list_all command_Valid commands then Inr commands else Inl (invalid ''command sequence''))"

fun parse_parts :: "bytes list \<Rightarrow> goerr + command list" where
  "parse_parts [] = Inr []"
| "parse_parts (part # parts) =
     bind_res (ParseWords part) (\<lambda>words.
       case words of
         [] \<Rightarrow> parse_parts parts
       | name # args \<Rightarrow>
           bind_res (NewCommand name args) (\<lambda>cmd. bind_res (parse_parts parts) (\<lambda>cmds. Inr (cmd # cmds))))"

text \<open>The errors of the parser are labelled with the operation; those of \<open>Sequence\<close> are not.\<close>

definition ParseSequence :: "bytes \<Rightarrow> goerr + command list" where
  "ParseSequence text =
     (case bind_res (SplitSequence text) parse_parts of
        Inl e \<Rightarrow> Inl (the (opError ''ParseSequence'' (Some e)))
      | Inr cmds \<Rightarrow> Sequence cmds)"

subsection \<open>Plans\<close>

datatype wireArg = WireArg bytes "wireNode list option"
  and wireNode = WireNode bytes "wireArg list"

datatype replyMode = replyRaw | replyRecords | replyEmpty

record plan =
  pl_nodes :: "wireNode list"
  pl_mode :: replyMode
  pl_allowStart :: bool

definition leaf :: "command \<Rightarrow> wireNode" where
  "leaf c = WireNode (cmd_name c) (map (\<lambda>s. WireArg s None) (cmd_args c))"

definition sequence_nodes :: "command list \<Rightarrow> wireNode list" where
  "sequence_nodes s = map leaf s"

definition commandStartsServer :: "bytes \<Rightarrow> bool" where
  "commandStartsServer name \<longleftrightarrow> name = ''new-session'' \<or> name = ''start-server''"

definition plainPlan :: "command \<Rightarrow> plan" where
  "plainPlan c = \<lparr>pl_nodes = [leaf c], pl_mode = replyRaw, pl_allowStart = commandStartsServer (cmd_name c)\<rparr>"

definition recordsPlan :: "command \<Rightarrow> plan" where
  "recordsPlan c = (plainPlan c)\<lparr>pl_mode := replyRecords\<rparr>"

definition emptyPlan :: "command \<Rightarrow> plan" where
  "emptyPlan c = (plainPlan c)\<lparr>pl_mode := replyEmpty\<rparr>"

subsection \<open>Writing a plan\<close>

text \<open>The writers over any \<open>io.Writer\<close>. A nested list is written through a quoting writer around the
  same writer; \<open>i\<close> is the index of the loop in \<open>writeNodes\<close>.\<close>

fun writeArg :: "'w writer \<Rightarrow> wireArg \<Rightarrow> 'w \<Rightarrow> goerr option \<times> 'w"
  and write_args :: "'w writer \<Rightarrow> wireArg list \<Rightarrow> 'w \<Rightarrow> goerr option \<times> 'w"
  and writeNode :: "'w writer \<Rightarrow> wireNode \<Rightarrow> 'w \<Rightarrow> goerr option \<times> 'w"
  and write_nodes :: "'w writer \<Rightarrow> nat \<Rightarrow> wireNode list \<Rightarrow> 'w \<Rightarrow> goerr option \<times> 'w" where
  "writeArg wr (WireArg text None) w = WriteQuoted wr text w"
| "writeArg wr (WireArg text (Some ns)) w =
     then_write (write_string wr [dquote] w) (\<lambda>w1.
     then_write (write_nodes (quote_write wr) 0 ns w1) (\<lambda>w2.
     write_string wr [dquote] w2))"
| "write_args wr [] w = (None, w)"
| "write_args wr (a # as) w =
     then_write (write_string wr '' '' w) (\<lambda>w1.
     then_write (writeArg wr a w1) (\<lambda>w2. write_args wr as w2))"
| "writeNode wr (WireNode name args) w =
     (if \<not> ValidCommand name then (Some (invalid ''command name''), w)
      else then_write (write_string wr name w) (\<lambda>w1. write_args wr args w1))"
| "write_nodes wr i [] w = (None, w)"
| "write_nodes wr i (n # ns) w =
     then_write (if 0 < i then write_string wr '' ; '' w else (None, w)) (\<lambda>w1.
     then_write (writeNode wr n w1) (\<lambda>w2. write_nodes wr (Suc i) ns w2))"

definition writeNodes :: "'w writer \<Rightarrow> wireNode list \<Rightarrow> 'w \<Rightarrow> goerr option \<times> 'w" where
  "writeNodes wr ns w = write_nodes wr 0 ns w"

definition plan_size :: "plan \<Rightarrow> int \<Rightarrow> goerr + int" where
  "plan_size p maxBytes =
     (case writeNodes counter_write (pl_nodes p) \<lparr>cn_N = 0, cn_Limit = maxBytes, cn_Err = None\<rparr> of
        (Some _, c) \<Rightarrow> Inl (Sentinel ErrInputLimit)
      | (None, c) \<Rightarrow> if maxBytes \<le> cn_N c then Inl (Sentinel ErrInputLimit) else Inr (cn_N c + 1))"

definition plan_text :: "plan \<Rightarrow> goerr + bytes" where
  "plan_text p =
     (case writeNodes builder_write (pl_nodes p) [] of
        (Some e, b) \<Rightarrow> Inl e
      | (None, b) \<Rightarrow> Inr (b @ [LF]))"

definition argv_string :: "wireArg \<Rightarrow> goerr + bytes" where
  "argv_string a =
     (case a of
        WireArg text None \<Rightarrow> Inr text
      | WireArg text (Some ns) \<Rightarrow>
          (case writeNodes builder_write ns [] of (Some e, b) \<Rightarrow> Inl e | (None, b) \<Rightarrow> Inr b))"

fun argv_args :: "wireArg list \<Rightarrow> goerr + bytes list" where
  "argv_args [] = Inr []"
| "argv_args (a # as) =
     bind_res (argv_string a) (\<lambda>s. bind_res (argv_args as) (\<lambda>ss. Inr (EscapeArg s # ss)))"

fun argv_from :: "nat \<Rightarrow> wireNode list \<Rightarrow> goerr + bytes list" where
  "argv_from i [] = Inr []"
| "argv_from i (WireNode name args # ns) =
     bind_res (argv_args args) (\<lambda>as. bind_res (argv_from (Suc i) ns) (\<lambda>out.
       Inr ((if 0 < i then ['';''] else []) @ name # as @ out)))"

definition plan_argv :: "plan \<Rightarrow> goerr + bytes list" where
  "plan_argv p = argv_from 0 (pl_nodes p)"

subsection \<open>The text of a plan, as a specification\<close>

fun render_arg :: "wireArg \<Rightarrow> bytes"
  and render_args_text :: "wireArg list \<Rightarrow> bytes"
  and render_node :: "wireNode \<Rightarrow> bytes"
  and render_nodes :: "nat \<Rightarrow> wireNode list \<Rightarrow> bytes" where
  "render_arg (WireArg text None) = text"
| "render_arg (WireArg text (Some ns)) = render_nodes 0 ns"
| "render_args_text [] = []"
| "render_args_text (a # as) = '' '' @ render_word (render_arg a) @ render_args_text as"
| "render_node (WireNode name args) = name @ render_args_text args"
| "render_nodes i [] = []"
| "render_nodes i (n # ns) = (if 0 < i then '' ; '' else []) @ render_node n @ render_nodes (Suc i) ns"

text \<open>What a node asks tmux to do: its name and the strings of its arguments, where a nested list is
  the text of its commands.\<close>

fun meaning :: "wireNode \<Rightarrow> bytes \<times> bytes list" where
  "meaning (WireNode name args) = (name, map render_arg args)"

fun valid_arg :: "wireArg \<Rightarrow> bool"
  and valid_args :: "wireArg list \<Rightarrow> bool"
  and valid_node :: "wireNode \<Rightarrow> bool"
  and valid_nodes :: "wireNode list \<Rightarrow> bool" where
  "valid_arg (WireArg text None) = ValidString text"
| "valid_arg (WireArg text (Some ns)) = valid_nodes ns"
| "valid_args [] = True"
| "valid_args (a # as) = (valid_arg a \<and> valid_args as)"
| "valid_node (WireNode name args) = (ValidCommand name \<and> valid_args args)"
| "valid_nodes [] = True"
| "valid_nodes (n # ns) = (valid_node n \<and> valid_nodes ns)"

lemma valid_args_iff: "valid_args as \<longleftrightarrow> list_all valid_arg as"
  by (induction as) auto

lemma valid_nodes_iff: "valid_nodes ns \<longleftrightarrow> list_all valid_node ns"
  by (induction ns) auto

lemma render_args_text_eq: "render_args_text as = render_args (map render_arg as)"
  by (induction as) simp_all

lemma render_node_eq: "render_node n = render_command (meaning n)"
  by (cases n) (simp add: render_command_def render_args_text_eq)

lemma render_nodes_eq:
  "render_nodes i ns = (if 0 < i \<and> ns \<noteq> [] then '' ; '' else []) @
     join_with '' ; '' (map (render_command \<circ> meaning) ns)"
proof (induction ns arbitrary: i)
  case (Cons n ns)
  show ?case
    by (simp add: Cons.IH render_node_eq join_with_Cons)
qed simp

text \<open>The bytes of a rendering: printable ASCII.\<close>

definition printable :: "byte \<Rightarrow> bool" where
  "printable c \<longleftrightarrow> 0x20 \<le> code c \<and> code c < 0x7f"

lemma printable_safe: "isSafeQuoteByte c \<Longrightarrow> printable c"
  by (auto simp: isSafeQuoteByte_def printable_def)

lemma printable_consts [simp]:
  "printable dquote" "printable backslash" "printable CHR '' ''" "printable CHR '';''"
  by (simp_all add: printable_def byte_defs)

lemma printable_not_control: "printable c \<Longrightarrow> c \<noteq> NUL \<and> c \<noteq> LF \<and> c \<noteq> CR"
  by (auto simp: printable_def byte_defs)

lemma printable_render_word: "list_all printable (render_word s)"
  by (auto simp: render_word_def list_all_iff dest!: set_quote_bytes intro: printable_safe)

lemma printable_name: "ValidCommand name \<Longrightarrow> list_all printable name"
  by (drule ValidCommand_chars) (auto simp: list_all_iff intro: printable_safe isCommandChar_safe)

lemma printable_rendered:
  "valid_node n \<Longrightarrow> list_all printable (render_node n)"
  "valid_nodes ns \<Longrightarrow> list_all printable (render_nodes i ns)"
proof -
  have args: "list_all printable (render_args ss)" for ss
    by (induction ss) (simp_all add: printable_render_word)
  show node: "valid_node n \<Longrightarrow> list_all printable (render_node n)" for n
    by (cases n) (simp add: render_args_text_eq args printable_name)
  show "valid_nodes ns \<Longrightarrow> list_all printable (render_nodes i ns)"
    by (induction ns arbitrary: i) (simp_all add: node)
qed

lemma printable_valid: "list_all printable s \<Longrightarrow> ValidString s \<and> LF \<notin> set s \<and> CR \<notin> set s"
  by (auto simp: ValidString_iff list_all_iff dest: printable_not_control)

lemma render_arg_valid: "valid_arg a \<Longrightarrow> ValidString (render_arg a)"
proof (cases a)
  case (WireArg t nested)
  then show "valid_arg a \<Longrightarrow> ValidString (render_arg a)"
    using printable_rendered(2) printable_valid by (cases nested) auto
qed

lemma meaning_well_named: "valid_node n \<Longrightarrow> well_named (meaning n)"
  by (cases n) (auto simp: well_named_def valid_args_iff list_all_iff intro: render_arg_valid)

subsection \<open>The writers emit the specified text\<close>

lemma emits_quote:
  assumes "emits (\<lambda>w p. ValidString p \<and> fits w (quote_bytes p)) (\<lambda>w p. acc w (quote_bytes p)) w q v r"
    and "v \<Longrightarrow> ValidString q"
  shows "emits fits acc w (quote_bytes q) v r"
  using assms by (auto simp: emits_def split: if_splits)

lemma write_emits:
  "byte_sink wr fits acc ok \<Longrightarrow> ok w \<Longrightarrow>
     emits fits acc w (render_word (render_arg a)) (valid_arg a) (writeArg wr a w)"
  "byte_sink wr fits acc ok \<Longrightarrow> ok w \<Longrightarrow>
     emits fits acc w (render_args_text ar) (valid_args ar) (write_args wr ar w)"
  "byte_sink wr fits acc ok \<Longrightarrow> ok w \<Longrightarrow>
     emits fits acc w (render_node n) (valid_node n) (writeNode wr n w)"
  "byte_sink wr fits acc ok \<Longrightarrow> ok w \<Longrightarrow>
     emits fits acc w (render_nodes i ns) (valid_nodes ns) (write_nodes wr i ns w)"
proof (induction wr a w and wr ar w and wr n w and wr i ns w arbitrary: fits acc and fits acc and fits acc and fits acc
    rule: writeArg_write_args_writeNode_write_nodes.induct)
  case (1 wr tx w)
  then show ?case using byte_sink.emits_WriteQuoted [OF 1] by (simp add: render_word_def)
next
  case (2 wr tx ns w)
  note S = \<open>byte_sink wr fits acc ok\<close>
  have "emits fits acc w ([dquote] @ quote_bytes (render_nodes 0 ns) @ [dquote])
      (True \<and> valid_nodes ns \<and> True)
      (then_write (write_string wr [dquote] w) (\<lambda>w1.
       then_write (write_nodes (quote_write wr) 0 ns w1) (\<lambda>w2. write_string wr [dquote] w2)))"
  proof (intro byte_sink.emits_then [OF S] byte_sink.emits_write [OF S] 2)
    fix w1 assume ok: "ok w1"
    show "emits fits acc w1 (quote_bytes (render_nodes 0 ns)) (valid_nodes ns) (write_nodes (quote_write wr) 0 ns w1)"
      using 2(1) [OF byte_sink_quote [OF S] ok] printable_rendered(2) printable_valid
      by (blast intro: emits_quote)
  qed
  then show ?case by (simp add: render_word_def)
next
  case (3 wr w)
  then show ?case using byte_sink.emits_Nil [OF 3] by simp
next
  case (4 wr a ar w)
  note S = \<open>byte_sink wr fits acc ok\<close>
  have "emits fits acc w ('' '' @ render_word (render_arg a) @ render_args_text ar)
      (True \<and> valid_arg a \<and> valid_args ar) (write_args wr (a # ar) w)"
    unfolding write_args.simps
    by (intro byte_sink.emits_then [OF S] byte_sink.emits_write [OF S] 4)
  then show ?case by simp
next
  case (5 wr name args w)
  note S = \<open>byte_sink wr fits acc ok\<close>
  have "ValidCommand name \<Longrightarrow> emits fits acc w (name @ render_args_text args)
      (True \<and> valid_args args) (then_write (write_string wr name w) (\<lambda>w1. write_args wr args w1))"
    by (intro byte_sink.emits_then [OF S] byte_sink.emits_write [OF S] 5) simp
  then show ?case by (auto simp: emits_def)
next
  case (6 wr i w)
  then show ?case using byte_sink.emits_Nil [OF 6] by simp
next
  case (7 wr i n ns w)
  note S = \<open>byte_sink wr fits acc ok\<close>
  have sep: "emits fits acc w (if 0 < i then '' ; '' else []) True
      (if 0 < i then write_string wr '' ; '' w else (None, w))"
    using byte_sink.emits_write [OF S 7(4)] byte_sink.emits_Nil [OF S 7(4)] by simp
  have "emits fits acc w ((if 0 < i then '' ; '' else []) @ render_node n @ render_nodes (Suc i) ns)
      (True \<and> valid_node n \<and> valid_nodes ns) (write_nodes wr i (n # ns) w)"
    unfolding write_nodes.simps
    by (intro byte_sink.emits_then [OF S] sep 7)
  then show ?case by simp
qed

lemma builder_nodes:
  "valid_nodes ns \<Longrightarrow> writeNodes builder_write ns b = (None, b @ render_nodes 0 ns)"
  "\<not> valid_nodes ns \<Longrightarrow> \<exists>e b'. writeNodes builder_write ns b = (Some e, b')"
  using write_emits(4) [OF builder.byte_sink_axioms, of b 0 ns]
  by (auto simp: emits_def writeNodes_def split: if_splits)

lemma plan_text_iff:
  "plan_text p = Inr t \<longleftrightarrow> valid_nodes (pl_nodes p) \<and> t = render_nodes 0 (pl_nodes p) @ [LF]"
proof (cases "valid_nodes (pl_nodes p)")
  case True
  then have "writeNodes builder_write (pl_nodes p) [] = (None, render_nodes 0 (pl_nodes p))"
    by (simp add: builder_nodes(1))
  with True show ?thesis by (auto simp: plan_text_def)
next
  case False
  then obtain e b where "writeNodes builder_write (pl_nodes p) [] = (Some e, b)"
    using builder_nodes(2) by blast
  with False show ?thesis by (simp add: plan_text_def)
qed

lemma meanings_well_named: "valid_nodes ns \<Longrightarrow> list_all well_named (map meaning ns)"
  by (auto simp: valid_nodes_iff list_all_iff intro: meaning_well_named)

subsection \<open>The properties of a plan\<close>

text \<open>The command line that a plan sends on a control connection is one line: whatever bytes the
  arguments hold, and however deep command lists nest in arguments, the text is printable ASCII
  followed by a single line feed, so an argument can never end the line or start another command line.\<close>

theorem plan_text_single_line:
  assumes "plan_text p = Inr t"
  shows "\<exists>line. t = line @ [LF] \<and> (\<forall>c \<in> set line. 0x20 \<le> code c \<and> code c < 0x7f) \<and> LF \<notin> set line"
proof -
  have "t = render_nodes 0 (pl_nodes p) @ [LF]" "list_all printable (render_nodes 0 (pl_nodes p))"
    using assms printable_rendered(2) by (auto simp: plan_text_iff)
  then show ?thesis
    using printable_valid by (auto simp: list_all_iff printable_def)
qed

lemma plan_text_single_line_witness:
  "\<exists>line. plan_text (plainPlan \<lparr>cmd_name = ''a'', cmd_args = [[LF]]\<rparr>) = Inr (line @ [LF]) \<and> LF \<notin> set line"
proof -
  have "valid_nodes (pl_nodes (plainPlan \<lparr>cmd_name = ''a'', cmd_args = [[LF]]\<rparr>))"
    by (simp add: plainPlan_def leaf_def byte_defs ValidCommand_def isLetter_def)
  then obtain t where t: "plan_text (plainPlan \<lparr>cmd_name = ''a'', cmd_args = [[LF]]\<rparr>) = Inr t"
    by (simp add: plan_text_iff)
  from plan_text_single_line [OF t] t show ?thesis by auto
qed

lemma plan_size_eq:
  assumes "0 \<le> maxBytes"
  shows "plan_size p maxBytes =
    (case plan_text p of
       Inl _ \<Rightarrow> Inl (Sentinel ErrInputLimit)
     | Inr t \<Rightarrow> if int (length t) \<le> maxBytes then Inr (int (length t)) else Inl (Sentinel ErrInputLimit))"
proof -
  let ?c = "\<lparr>cn_N = 0, cn_Limit = maxBytes, cn_Err = None\<rparr>" and ?t = "render_nodes 0 (pl_nodes p)"
  have ok: "counter_ok ?c" using assms by (simp add: counter_ok_def)
  note e = write_emits(4) [OF counting.byte_sink_axioms ok, of 0 "pl_nodes p"]
  show ?thesis
  proof (cases "valid_nodes (pl_nodes p)")
    case True
    then have t: "plan_text p = Inr (?t @ [LF])" by (simp add: plan_text_iff)
    show ?thesis
    proof (cases "int (length ?t) \<le> maxBytes")
      case fit: True
      then have "writeNodes counter_write (pl_nodes p) ?c = (None, counter_acc ?c ?t)"
        using e True by (simp add: emits_def counter_fits_def writeNodes_def)
      with t show ?thesis by (simp add: plan_size_def counter_acc_def)
    next
      case False
      then obtain er c where "writeNodes counter_write (pl_nodes p) ?c = (Some er, c)"
        using e by (auto simp: emits_def counter_fits_def writeNodes_def)
      with t False show ?thesis by (simp add: plan_size_def)
    qed
  next
    case False
    then obtain er c where "writeNodes counter_write (pl_nodes p) ?c = (Some er, c)"
      using e by (auto simp: emits_def writeNodes_def)
    moreover obtain e' where "plan_text p = Inl e'" using False plan_text_iff by (cases "plan_text p") auto
    ultimately show ?thesis by (simp add: plan_size_def)
  qed
qed

text \<open>C6: The size that a plan announces before it is written is the length of its text: it is refused
  exactly when the plan cannot be written or the text is longer than the limit.\<close>

theorem plan_size_is_text_length:
  assumes "0 \<le> maxBytes"
  shows "plan_size p maxBytes =
    (case plan_text p of
       Inl _ \<Rightarrow> Inl (Sentinel ErrInputLimit)
     | Inr t \<Rightarrow> if int (length t) \<le> maxBytes then Inr (int (length t)) else Inl (Sentinel ErrInputLimit))"
  by (rule plan_size_eq [OF assms])

lemma plan_size_is_text_length_witness:
  "plan_size (plainPlan \<lparr>cmd_name = ''ab'', cmd_args = []\<rparr>) 2 = Inl (Sentinel ErrInputLimit) \<and>
   plan_size (plainPlan \<lparr>cmd_name = ''ab'', cmd_args = []\<rparr>) 3 = Inr 3"
proof -
  have "plan_text (plainPlan \<lparr>cmd_name = ''ab'', cmd_args = []\<rparr>) = Inr (''ab'' @ [LF])"
    by (simp add: plan_text_iff plainPlan_def leaf_def ValidCommand_def isLetter_def isCommandChar_def)
  with plan_size_is_text_length [of 2 "plainPlan \<lparr>cmd_name = ''ab'', cmd_args = []\<rparr>"]
    plan_size_is_text_length [of 3 "plainPlan \<lparr>cmd_name = ''ab'', cmd_args = []\<rparr>"]
  show ?thesis by simp
qed

subsection \<open>Reading a plan back\<close>

definition command_of :: "bytes \<times> bytes list \<Rightarrow> command" where
  "command_of c = \<lparr>cmd_name = fst c, cmd_args = snd c\<rparr>"

lemma command_of_Valid: "well_named c \<Longrightarrow> command_Valid (command_of c)"
  by (simp add: well_named_def command_Valid_def command_of_def)

lemma parse_parts_commands:
  "list_all well_named cs \<Longrightarrow> parse_parts (map render_command cs) = Inr (map command_of cs)"
proof (induction cs)
  case (Cons c cs)
  then have "ParseWords (render_command c) = Inr (fst c # snd c)"
    using ParseWords_render by (simp add: well_named_def render_command_def)
  with Cons show ?case by (simp add: NewCommand_def well_named_def command_of_def)
qed simp

lemma ParseSequence_render:
  "valid_nodes ns \<Longrightarrow> ParseSequence (render_nodes 0 ns) = Inr (map (command_of \<circ> meaning) ns)"
proof -
  assume "valid_nodes ns"
  then have w: "list_all well_named (map meaning ns)" by (rule meanings_well_named)
  then have "SplitSequence (render_nodes 0 ns) = Inr (map render_command (map meaning ns))"
    using splitSequence_commands [OF w] by (simp add: SplitSequence_def render_nodes_eq comp_def)
  moreover have "list_all command_Valid (map command_of (map meaning ns))"
    using w by (simp add: list_all_iff command_of_Valid)
  ultimately show ?thesis
    using parse_parts_commands [OF w] by (simp add: ParseSequence_def Sequence_def)
qed

text \<open>C3: Reading the text of a plan with the library's own parser of tmux command sequences yields the
  commands of the plan: one command per node, with the node's name and its argument strings byte for
  byte, where a nested command list is the string that parses to its own commands in turn.\<close>

theorem plan_text_parses_back:
  assumes "plan_text p = Inr (t @ [LF])"
  shows "ParseSequence t = Inr (map (command_of \<circ> meaning) (pl_nodes p)) \<and>
    (\<forall>name args s ns. WireNode name args \<in> set (pl_nodes p) \<and> WireArg s (Some ns) \<in> set args \<longrightarrow>
       ParseSequence (render_arg (WireArg s (Some ns))) = Inr (map (command_of \<circ> meaning) ns))"
proof -
  have v: "valid_nodes (pl_nodes p)" "t = render_nodes 0 (pl_nodes p)"
    using assms by (auto simp: plan_text_iff)
  have "valid_nodes ns" if "WireNode name args \<in> set (pl_nodes p)" "WireArg s (Some ns) \<in> set args"
    for name args s ns
    using v(1) that by (force simp: valid_nodes_iff valid_args_iff list_all_iff)
  with v ParseSequence_render show ?thesis by auto
qed

lemma plan_text_parses_back_witness:
  "\<exists>t. plan_text \<lparr>pl_nodes = [WireNode ''if'' [WireArg ''1'' None, WireArg [] (Some [WireNode ''x'' [WireArg ''; y'' None]])]],
       pl_mode = replyRaw, pl_allowStart = False\<rparr> = Inr (t @ [LF]) \<and>
     (\<exists>inner. ParseSequence t = Inr [\<lparr>cmd_name = ''if'', cmd_args = [''1'', inner]\<rparr>] \<and>
        ParseSequence inner = Inr [\<lparr>cmd_name = ''x'', cmd_args = [''; y'']\<rparr>])"
proof -
  let ?ns = "[WireNode ''x'' [WireArg ''; y'' None]]"
  let ?p = "\<lparr>pl_nodes = [WireNode ''if'' [WireArg ''1'' None, WireArg [] (Some ?ns)]],
       pl_mode = replyRaw, pl_allowStart = False\<rparr>"
  let ?t = "render_nodes 0 (pl_nodes ?p)" and ?i = "render_nodes 0 ?ns"
  have t: "plan_text ?p = Inr (?t @ [LF])"
    by (simp add: plan_text_iff ValidCommand_def isLetter_def isCommandChar_def byte_defs
        del: render_nodes.simps)
  note r = plan_text_parses_back [OF t]
  have "ParseSequence ?t = Inr [\<lparr>cmd_name = ''if'', cmd_args = [''1'', ?i]\<rparr>]"
    using r by (simp add: command_of_def del: render_nodes.simps)
  moreover have "ParseSequence ?i = Inr [\<lparr>cmd_name = ''x'', cmd_args = [''; y'']\<rparr>]"
    using r [THEN conjunct2, rule_format, of "''if''" "[WireArg ''1'' None, WireArg [] (Some ?ns)]" "[]" ?ns]
    by (simp add: command_of_def del: render_nodes.simps)
  ultimately show ?thesis using t by blast
qed

end
