(* ===== verification/Command_Line.thy ===== *)
theory Command_Line
  imports Tmux_Config Command_Plan
begin

text \<open>
  \<open>tmux/command.go\<close>, second part: the parser of native tmux command lines (root flags, action and
  command words), the inverse of the argument vectors that \<open>baseArgs\<close> and \<open>plan_argv\<close> build.
\<close>

datatype CommandLineAction =
    CommandLineActionDefault | CommandLineActionCommand | CommandLineActionShell
  | CommandLineActionForeground | CommandLineActionHelp | CommandLineActionVersion
  | CommandLineActionControl

definition StartPolicyAllowStart :: nat where "StartPolicyAllowStart = 0"
definition StartPolicyExistingOnly :: nat where "StartPolicyExistingOnly = 1"

record parsed_command_line =
  pcl_Config :: config
  pcl_Action :: CommandLineAction
  pcl_Commands :: "command list"
  pcl_ShellCommand :: bytes
  pcl_ControlNoEcho :: bool
  pcl_StartPolicy :: nat

record rawParseState =
  ps_cfg :: config
  ps_action :: CommandLineAction
  ps_shellCmd :: bytes
  ps_controlCount :: int
  ps_verboseCount :: int
  ps_hasN :: bool

definition parsed_Command :: "parsed_command_line \<Rightarrow> command option" where
  "parsed_Command p =
     (case pcl_Commands p of
        [c] \<Rightarrow> if pcl_Action p = CommandLineActionCommand then Some c else None
      | _ \<Rightarrow> None)"

subsection \<open>Splitting the command words\<close>

text \<open>The source ranges over the runes of a flag bundle; every flag is ASCII, so ranging over bytes
  differs in the text of the error for an unknown non-ASCII flag only.\<close>

text \<open>One word: its text, and whether it ends its command. An unescaped trailing semicolon ends the
  command, an escaped one is a literal semicolon.\<close>

definition argv_word :: "bytes \<Rightarrow> bytes \<times> bool" where
  "argv_word a =
     (if a \<noteq> [] \<and> last a = CHR '';'' then
        let arg = butlast a in
        if arg \<noteq> [] \<and> last arg = backslash then (butlast arg @ '';'', False) else (arg, True)
      else (a, False))"

fun split_argv_from :: "bytes list list \<Rightarrow> bytes list \<Rightarrow> bytes list \<Rightarrow> bytes list list" where
  "split_argv_from cmds current [] = (if current \<noteq> [] then cmds @ [current] else cmds)"
| "split_argv_from cmds current (a # args) =
     (let (arg, end') = argv_word a;
          current' = (if \<not> end' \<or> arg \<noteq> [] then current @ [arg] else current)
      in if end' \<and> current' \<noteq> [] then split_argv_from (cmds @ [current']) [] args
         else split_argv_from cmds current' args)"

definition splitArgvCommands :: "bytes list \<Rightarrow> bytes list list" where
  "splitArgvCommands args = split_argv_from [] [] args"

fun argv_commands :: "bytes list list \<Rightarrow> goerr + command list" where
  "argv_commands [] = Inr []"
| "argv_commands ([] # grps) = argv_commands grps"
| "argv_commands ((name # args) # grps) =
     bind_res (NewCommand name args) (\<lambda>cmd. bind_res (argv_commands grps) (\<lambda>cmds. Inr (cmd # cmds)))"

definition parseCommandSequenceArgv :: "bytes list \<Rightarrow> CommandLineAction \<Rightarrow> goerr + command list" where
  "parseCommandSequenceArgv cmdArgs action =
     (if cmdArgs = [] \<or> action = CommandLineActionHelp \<or> action = CommandLineActionVersion then Inr []
      else let rawCmds = splitArgvCommands cmdArgs in
        if rawCmds = [] then Inr [] else bind_res (argv_commands rawCmds) Sequence)"

subsection \<open>Root flags\<close>

definition applySimpleFlag :: "byte \<Rightarrow> rawParseState \<Rightarrow> rawParseState option" where
  "applySimpleFlag ch s =
     (if ch = CHR ''2'' then Some (s\<lparr>ps_cfg := ps_cfg s\<lparr>cfg_Colors256 := True\<rparr>\<rparr>)
      else if ch = CHR ''u'' then Some (s\<lparr>ps_cfg := ps_cfg s\<lparr>cfg_UTF8 := UTF8Force\<rparr>\<rparr>)
      else if ch = CHR ''l'' then Some (s\<lparr>ps_cfg := ps_cfg s\<lparr>cfg_LoginShell := True\<rparr>\<rparr>)
      else if ch = CHR ''v'' then Some (s\<lparr>ps_verboseCount := ps_verboseCount s + 1\<rparr>)
      else if ch = CHR ''N'' then Some (s\<lparr>ps_hasN := True\<rparr>)
      else if ch = CHR ''D'' then Some (s\<lparr>ps_action := CommandLineActionForeground\<rparr>)
      else if ch = CHR ''h'' then Some (s\<lparr>ps_action := CommandLineActionHelp\<rparr>)
      else if ch = CHR ''V'' then Some (s\<lparr>ps_action := CommandLineActionVersion\<rparr>)
      else if ch = CHR ''C'' then Some (s\<lparr>ps_controlCount := ps_controlCount s + 1\<rparr>)
      else None)"

definition isValuedFlag :: "byte \<Rightarrow> bool" where
  "isValuedFlag ch \<longleftrightarrow> ch = CHR ''c'' \<or> ch = CHR ''f'' \<or> ch = CHR ''L'' \<or> ch = CHR ''S'' \<or> ch = CHR ''T''"

text \<open>The value of a flag: the rest of its bundle, or the next argument. The arguments after the
  bundle stand for the index into \<open>args\<close>.\<close>

definition extractFlagVal :: "byte \<Rightarrow> bytes \<Rightarrow> bytes list \<Rightarrow> goerr + bytes \<times> bytes list" where
  "extractFlagVal ch remaining rest =
     (let missing = Inl (invalid (''flag requires an argument: -'' @ [ch])) in
      if remaining \<noteq> [] then Inr (remaining, rest)
      else (case rest of [] \<Rightarrow> missing | v # rest' \<Rightarrow> if v = [] then missing else Inr (v, rest')))"

definition appendTerminalFeatures :: "bytes \<Rightarrow> config \<Rightarrow> goerr + config" where
  "appendTerminalFeatures val cfg =
     (let ps = split_byte (CHR '','') val in
      if list_all feature_ok ps
      then Inr (cfg\<lparr>cfg_TerminalFeatures := cfg_TerminalFeatures cfg @ ps\<rparr>)
      else Inl (invalid ''terminal feature''))"

definition applyValuedFlag ::
  "byte \<Rightarrow> bytes \<Rightarrow> bytes list \<Rightarrow> rawParseState \<Rightarrow> goerr + bytes list \<times> rawParseState" where
  "applyValuedFlag ch remaining rest s =
     bind_res (extractFlagVal ch remaining rest) (\<lambda>(val, rest').
       let cfg = ps_cfg s; both = Inl (invalid ''choose SocketPath or SocketName'') in
       if ch = CHR ''c'' then Inr (rest', s\<lparr>ps_action := CommandLineActionShell, ps_shellCmd := val\<rparr>)
       else if ch = CHR ''f'' then Inr (rest', s\<lparr>ps_cfg := cfg\<lparr>cfg_ConfigFile := val\<rparr>\<rparr>)
       else if ch = CHR ''L'' then
         if cfg_SocketPath cfg \<noteq> [] then both
         else Inr (rest', s\<lparr>ps_cfg := cfg\<lparr>cfg_SocketName := val\<rparr>\<rparr>)
       else if ch = CHR ''S'' then
         if cfg_SocketName cfg \<noteq> [] then both
         else Inr (rest', s\<lparr>ps_cfg := cfg\<lparr>cfg_SocketPath := val\<rparr>\<rparr>)
       else if ch = CHR ''T'' then
         bind_res (appendTerminalFeatures val cfg) (\<lambda>cfg'. Inr (rest', s\<lparr>ps_cfg := cfg'\<rparr>))
       else Inr (rest', s))"

fun flag_bundle :: "bytes \<Rightarrow> bytes list \<Rightarrow> rawParseState \<Rightarrow> goerr + bytes list \<times> rawParseState" where
  "flag_bundle [] rest s = Inr (rest, s)"
| "flag_bundle (ch # bundle) rest s =
     (case applySimpleFlag ch s of
        Some s' \<Rightarrow> flag_bundle bundle rest s'
      | None \<Rightarrow>
          if isValuedFlag ch then applyValuedFlag ch bundle rest s
          else Inl (invalid (''unknown option: -'' @ [ch])))"

lemma extractFlagVal_length: "extractFlagVal ch r rest = Inr (v, rest') \<Longrightarrow> length rest' \<le> length rest"
  by (auto simp: extractFlagVal_def Let_def split: if_splits list.splits)

lemma applyValuedFlag_length:
  "applyValuedFlag ch r rest s = Inr (rest', s') \<Longrightarrow> length rest' \<le> length rest"
  by (auto simp: applyValuedFlag_def Let_def bind_res_Inr_iff dest!: extractFlagVal_length split: if_splits)

lemma flag_bundle_length: "flag_bundle b rest s = Inr (rest', s') \<Longrightarrow> length rest' \<le> length rest"
  by (induction b rest s rule: flag_bundle.induct)
     (auto split: option.splits if_splits dest: applyValuedFlag_length)

text \<open>The loop of \<open>ParseCommandLine\<close>: the command words that are left and the state.\<close>

function parse_root :: "bytes list \<Rightarrow> rawParseState \<Rightarrow> goerr + bytes list \<times> rawParseState" where
  "parse_root [] s = Inr ([], s)"
| "parse_root (arg # rest) s =
     (if arg = ''--'' then Inr (rest, s)
      else if arg = ''-'' \<or> \<not> has_prefix arg ''-'' then Inr (arg # rest, s)
      else (case flag_bundle (tl arg) rest s of
              Inl e \<Rightarrow> Inl e
            | Inr (rest', s') \<Rightarrow> parse_root rest' s'))"
  by pat_completeness auto
termination
  by (relation "measure (\<lambda>(args, s). length args)")
     (auto dest!: sym [of _ "flag_bundle _ _ _"] flag_bundle_length)

definition validateCommandArgs :: "rawParseState \<Rightarrow> bytes list \<Rightarrow> goerr option" where
  "validateCommandArgs s cmdArgs =
     (if ps_action s = CommandLineActionForeground \<and> cmdArgs \<noteq> []
        then Some (invalid ''-D does not accept command arguments'')
      else if ps_action s = CommandLineActionShell \<and> cmdArgs \<noteq> []
        then Some (invalid ''-c does not accept command arguments'')
      else if 0 < ps_controlCount s \<and> ps_action s = CommandLineActionForeground
        then Some (invalid ''-D and -C are mutually exclusive'')
      else if 0 < ps_controlCount s \<and> ps_action s = CommandLineActionShell
        then Some (invalid ''-c and -C are mutually exclusive'')
      else None)"

definition applyVerbosityAndPolicy :: "rawParseState \<Rightarrow> rawParseState" where
  "applyVerbosityAndPolicy s =
     (let level = (if 2 \<le> ps_verboseCount s then LogLevelDebug
                   else if ps_verboseCount s = 1 then LogLevelVerbose else LogLevelNone)
      in s\<lparr>ps_cfg := ps_cfg s\<lparr>cfg_LogLevel := level\<rparr>,
           ps_action := (if 0 < ps_controlCount s \<and> ps_action s \<noteq> CommandLineActionHelp \<and>
                            ps_action s \<noteq> CommandLineActionVersion
                         then CommandLineActionControl else ps_action s)\<rparr>)"

definition finishCommandLineParse :: "rawParseState \<Rightarrow> bytes list \<Rightarrow> goerr + parsed_command_line" where
  "finishCommandLineParse s0 cmdArgs =
     (case validateCommandArgs s0 cmdArgs of
        Some e \<Rightarrow> Inl e
      | None \<Rightarrow>
          let s = applyVerbosityAndPolicy s0 in
          if cmdArgs \<noteq> [] \<and> splitArgvCommands cmdArgs = [] then Inl (invalid ''no command given'')
          else bind_res (parseCommandSequenceArgv cmdArgs (ps_action s)) (\<lambda>seq.
            Inr \<lparr>pcl_Config = ps_cfg s,
                 pcl_Action = (if cmdArgs \<noteq> [] \<and> ps_action s = CommandLineActionDefault
                               then CommandLineActionCommand else ps_action s),
                 pcl_Commands = seq, pcl_ShellCommand = ps_shellCmd s,
                 pcl_ControlNoEcho = (2 \<le> ps_controlCount s),
                 pcl_StartPolicy = (if ps_hasN s then StartPolicyExistingOnly else StartPolicyAllowStart)\<rparr>))"

definition initial_state :: rawParseState where
  "initial_state = \<lparr>ps_cfg = zero_config\<lparr>cfg_Limits := DefaultLimits\<rparr>,
     ps_action = CommandLineActionDefault, ps_shellCmd = [], ps_controlCount = 0,
     ps_verboseCount = 0, ps_hasN = False\<rparr>"

definition ParseCommandLine :: "bytes list \<Rightarrow> goerr + parsed_command_line" where
  "ParseCommandLine args =
     bind_res (parse_root args initial_state) (\<lambda>(cmdArgs, s). finishCommandLineParse s cmdArgs)"

subsection \<open>The argument vector of a plan is read back\<close>

lemma argv_word_EscapeArg: "argv_word (EscapeArg s) = (s, False)"
proof (cases s rule: rev_cases)
  case (snoc t c)
  then show ?thesis
    by (auto simp: EscapeArg_def argv_word_def has_suffix_iff Let_def butlast_append)
qed (auto simp: EscapeArg_def argv_word_def has_suffix_iff)

lemma split_argv_args:
  "split_argv_from cmds current (map EscapeArg ss @ rest) = split_argv_from cmds (current @ ss) rest"
  by (induction ss arbitrary: current) (simp_all add: argv_word_EscapeArg)

lemma argv_word_name: "ValidCommand name \<Longrightarrow> argv_word name = (name, False)"
proof -
  assume "ValidCommand name"
  then have "name \<noteq> []" "isCommandChar (last name)"
    using ValidCommand_chars by (auto simp: list_all_iff)
  then have "last name \<noteq> CHR '';''" by (auto simp: isCommandChar_def isLetter_def is_digit_def)
  then show ?thesis by (simp add: argv_word_def)
qed

definition words_of :: "bytes \<times> bytes list \<Rightarrow> bytes list" where
  "words_of c = fst c # snd c"

lemma argv_args_eq:
  "valid_args as \<Longrightarrow> argv_args as = Inr (map (EscapeArg \<circ> render_arg) as)"
proof (induction as)
  case (Cons a as)
  have "argv_string a = Inr (render_arg a)"
  proof (cases a)
    case (WireArg t nested)
    with Cons.prems show ?thesis
      using builder_nodes(1) by (cases nested) (auto simp: argv_string_def)
  qed
  with Cons show ?case by simp
qed simp

definition argv_words :: "bytes \<times> bytes list \<Rightarrow> bytes list" where
  "argv_words c = fst c # map EscapeArg (snd c)"

fun argv_spec :: "nat \<Rightarrow> (bytes \<times> bytes list) list \<Rightarrow> bytes list" where
  "argv_spec i [] = []"
| "argv_spec i (c # cs) = (if 0 < i then ['';''] else []) @ argv_words c @ argv_spec (Suc i) cs"

lemma argv_spec_Nil_iff [simp]: "argv_spec i cs = [] \<longleftrightarrow> cs = []"
  by (cases cs) (simp_all add: argv_words_def)

lemma argv_from_eq: "valid_nodes ns \<Longrightarrow> argv_from i ns = Inr (argv_spec i (map meaning ns))"
proof (induction ns arbitrary: i)
  case (Cons n ns)
  then show ?case by (cases n) (simp add: argv_args_eq argv_words_def comp_def)
qed simp

lemma split_argv_spec:
  "list_all well_named cs \<Longrightarrow> 0 < i \<Longrightarrow> current \<noteq> [] \<Longrightarrow>
   split_argv_from cmds current (argv_spec i cs) = cmds @ current # map words_of cs"
proof (induction cs arbitrary: cmds current i)
  case (Cons c cs)
  have semi: "argv_word '';'' = ([], True)" by (simp add: argv_word_def)
  have "split_argv_from (cmds @ [current]) [] (argv_words c @ argv_spec (Suc i) cs) =
      split_argv_from (cmds @ [current]) (words_of c) (argv_spec (Suc i) cs)"
    using Cons.prems(1) by (simp add: argv_words_def well_named_def argv_word_name split_argv_args words_of_def)
  with Cons semi show ?case by (simp add: words_of_def)
qed simp

lemma splitArgvCommands_spec:
  "list_all well_named cs \<Longrightarrow> splitArgvCommands (argv_spec 0 cs) = map words_of cs"
proof (cases cs)
  case (Cons c cs')
  assume "list_all well_named cs"
  with Cons split_argv_spec [of cs' 1 "words_of c" "[]"] show ?thesis
    by (simp add: splitArgvCommands_def argv_words_def well_named_def argv_word_name split_argv_args words_of_def)
qed (simp add: splitArgvCommands_def)

lemma argv_commands_spec:
  "list_all well_named cs \<Longrightarrow> argv_commands (map words_of cs) = Inr (map command_of cs)"
  by (induction cs) (simp_all add: words_of_def NewCommand_def well_named_def command_of_def)

lemma parseCommandSequenceArgv_spec:
  assumes "list_all well_named cs" and "action \<noteq> CommandLineActionHelp" and "action \<noteq> CommandLineActionVersion"
  shows "parseCommandSequenceArgv (argv_spec 0 cs) action = Inr (map command_of cs)"
proof -
  have "list_all command_Valid (map command_of cs)"
    using assms(1) by (simp add: list_all_iff command_of_Valid)
  with assms show ?thesis
    by (cases cs)
       (simp_all add: parseCommandSequenceArgv_def splitArgvCommands_spec argv_commands_spec Sequence_def
         del: list.simps(9) argv_commands.simps argv_spec.simps(2))
qed

text \<open>C4: The argument vector that a plan passes to a tmux subprocess is split back, by the rules by
  which tmux splits its own command line, into the commands of the plan with their argument strings
  byte for byte: an argument that is or ends in a semicolon never ends its command.\<close>

theorem plan_argv_splits_back:
  assumes "valid_nodes (pl_nodes p)"
  shows "\<exists>argv. plan_argv p = Inr argv \<and>
    splitArgvCommands argv = map (words_of \<circ> meaning) (pl_nodes p)"
  using splitArgvCommands_spec [OF meanings_well_named [OF assms]] argv_from_eq [OF assms]
  by (simp add: plan_argv_def)

lemma plan_argv_splits_back_witness:
  "\<exists>argv. plan_argv (plainPlan \<lparr>cmd_name = ''a'', cmd_args = ['';'', [backslash, CHR '';''], []]\<rparr>) = Inr argv \<and>
     splitArgvCommands argv = [[''a'', '';'', [backslash, CHR '';''], []]]"
  using plan_argv_splits_back [of "plainPlan \<lparr>cmd_name = ''a'', cmd_args = ['';'', [backslash, CHR '';''], []]\<rparr>"]
  by (simp add: plainPlan_def leaf_def words_of_def ValidCommand_def isLetter_def byte_defs)

subsection \<open>The root flags are read back\<close>

definition with_flags :: "config \<Rightarrow> endpoint \<Rightarrow> config" where
  "with_flags c e = zero_config\<lparr>cfg_Limits := DefaultLimits,
     cfg_UTF8 := (if cfg_UTF8 c \<noteq> UTF8Omit then UTF8Force else UTF8Default),
     cfg_Colors256 := cfg_Colors256 c, cfg_LoginShell := cfg_LoginShell c,
     cfg_LogLevel := cfg_LogLevel c, cfg_TerminalFeatures := cfg_TerminalFeatures c,
     cfg_SocketPath := socket_path e,
     cfg_SocketName := (if socket_path e \<noteq> [] then [] else socket_name e),
     cfg_ConfigFile := cfg_ConfigFile c\<rparr>"

lemma parse_simple:
  assumes "applySimpleFlag ch s = Some s'" and "ch \<noteq> CHR ''-''"
  shows "parse_root ([CHR ''-'', ch] # rest) s = parse_root rest s'"
  using assms by simp

lemma parse_valued:
  assumes "applySimpleFlag ch s = None" and "isValuedFlag ch" and "v \<noteq> []"
    and "applyValuedFlag ch [] (v # rest) s = Inr (rest, s')"
  shows "parse_root ([CHR ''-'', ch] # v # rest) s = parse_root rest s'"
  using assms by (auto simp: isValuedFlag_def)

lemma features_no_comma: "list_all feature_ok fs \<Longrightarrow> f \<in> set fs \<Longrightarrow> CHR '','' \<notin> set f"
  by (force simp: list_all_iff feature_ok_def contains_any_def list_ex_iff)

lemma join_not_Nil: "fs \<noteq> [] \<Longrightarrow> \<forall>f \<in> set fs. f \<noteq> [] \<Longrightarrow> join_with sep fs \<noteq> []"
  by (cases fs; cases "tl fs") (auto simp: join_with_Cons)

lemma parse_features:
  assumes "list_all feature_ok fs" and "cfg_TerminalFeatures (ps_cfg s) = []"
  shows "parse_root ((if fs \<noteq> [] then [''-T'', join_with '','' fs] else []) @ rest) s =
    parse_root rest (s\<lparr>ps_cfg := ps_cfg s\<lparr>cfg_TerminalFeatures := fs\<rparr>\<rparr>)"
proof (cases "fs = []")
  case True
  then show ?thesis using assms(2) by (cases s; cases "ps_cfg s") simp
next
  case False
  then have "split_byte (CHR '','') (join_with '','' fs) = fs"
    using features_no_comma [OF assms(1)] by (intro split_join) auto
  moreover have "join_with '','' fs \<noteq> []"
    using False assms(1) by (intro join_not_Nil) (auto simp: list_all_iff feature_ok_def)
  ultimately show ?thesis
    using False assms parse_valued [of "CHR ''T''" s "join_with '','' fs" rest]
    by (simp add: applySimpleFlag_def isValuedFlag_def applyValuedFlag_def extractFlagVal_def
        appendTerminalFeatures_def Let_def)
qed

lemma parse_flag_segments:
  "parse_root ((if b then [''-u''] else []) @ rest) s =
     parse_root rest (if b then s\<lparr>ps_cfg := ps_cfg s\<lparr>cfg_UTF8 := UTF8Force\<rparr>\<rparr> else s)"
  "parse_root ((if b then [''-2''] else []) @ rest) s =
     parse_root rest (if b then s\<lparr>ps_cfg := ps_cfg s\<lparr>cfg_Colors256 := True\<rparr>\<rparr> else s)"
  "parse_root ((if b then [''-l''] else []) @ rest) s =
     parse_root rest (if b then s\<lparr>ps_cfg := ps_cfg s\<lparr>cfg_LoginShell := True\<rparr>\<rparr> else s)"
  "parse_root ((if l = LogLevelVerbose then [''-v''] else if l = LogLevelDebug then [''-vv''] else []) @ rest) s =
     parse_root rest (s\<lparr>ps_verboseCount := ps_verboseCount s +
       (if l = LogLevelVerbose then 1 else if l = LogLevelDebug then 2 else 0)\<rparr>)"
  "parse_root ((if b then [''-N''] else []) @ rest) s =
     parse_root rest (if b then s\<lparr>ps_hasN := True\<rparr> else s)"
  by (auto simp: applySimpleFlag_def mode_defs add.commute)

lemma parse_socket_segment:
  assumes "cfg_SocketPath (ps_cfg s) = []" and "cfg_SocketName (ps_cfg s) = []"
    and "socket_path e \<noteq> [] \<or> socket_name e \<noteq> []"
  shows "parse_root ((if socket_path e \<noteq> [] then [''-S'', socket_path e] else [''-L'', socket_name e]) @ rest) s =
    parse_root rest (s\<lparr>ps_cfg := ps_cfg s\<lparr>cfg_SocketPath := socket_path e,
      cfg_SocketName := if socket_path e \<noteq> [] then [] else socket_name e\<rparr>\<rparr>)"
  using assms
  by (cases "ps_cfg s")
     (auto simp: applySimpleFlag_def isValuedFlag_def applyValuedFlag_def extractFlagVal_def Let_def)

lemma parse_file_segment:
  assumes "cfg_ConfigFile (ps_cfg s) = []"
  shows "parse_root ((if f \<noteq> [] then [''-f'', f] else []) @ rest) s =
    parse_root rest (s\<lparr>ps_cfg := ps_cfg s\<lparr>cfg_ConfigFile := f\<rparr>\<rparr>)"
  using assms
  by (cases s; cases "ps_cfg s")
     (auto simp: applySimpleFlag_def isValuedFlag_def applyValuedFlag_def extractFlagVal_def Let_def)

lemma parse_command_words:
  assumes "list_all well_named cs" and "cs \<noteq> []"
  shows "parse_root (argv_spec 0 cs) s = Inr (argv_spec 0 cs, s)"
proof -
  obtain c cs' where cs: "cs = c # cs'" using assms(2) by (cases cs) auto
  then obtain x xs where n: "fst c = x # xs" "isLetter x"
    using assms(1) by (auto simp: well_named_def ValidCommand_def split: list.splits)
  then have "x \<noteq> CHR ''-''" by (auto simp: isLetter_def)
  with n cs show ?thesis by (simp add: argv_words_def)
qed

lemma parse_baseArgs:
  assumes "endpoint_ok (srv_endpoint s)" and "list_all feature_ok (cfg_TerminalFeatures (srv_config s))"
    and "cfg_LogLevel (srv_config s) \<le> LogLevelDebug"
    and "parse_root rest = (\<lambda>st. Inr (rest, st))"
  shows "\<exists>n. parse_root (baseArgs s allowStart @ rest) initial_state =
      Inr (rest, \<lparr>ps_cfg = (with_flags (srv_config s) (srv_endpoint s))\<lparr>cfg_LogLevel := LogLevelNone\<rparr>,
        ps_action = CommandLineActionDefault, ps_shellCmd = [], ps_controlCount = 0,
        ps_verboseCount = n, ps_hasN = (\<not> allowStart \<or> srv_bound s \<noteq> None)\<rparr>) \<and>
      n = (if cfg_LogLevel (srv_config s) = LogLevelVerbose then 1
           else if cfg_LogLevel (srv_config s) = LogLevelDebug then 2 else 0)"
proof -
  have sock: "socket_path (srv_endpoint s) \<noteq> [] \<or> socket_name (srv_endpoint s) \<noteq> []"
    using assms(1) by (auto simp: endpoint_ok_def)
  show ?thesis
    unfolding baseArgs_def Let_def append_assoc
    apply (subst parse_flag_segments(1), subst parse_flag_segments(2), subst parse_flag_segments(3),
        subst parse_flag_segments(4), subst parse_features, rule assms(2))
     apply (simp add: initial_state_def zero_config_def)
    apply (subst parse_flag_segments(5), subst parse_socket_segment)
       apply (simp add: initial_state_def zero_config_def)
      apply (simp add: initial_state_def zero_config_def)
     apply (rule sock)
    apply (subst parse_file_segment)
     apply (simp add: initial_state_def zero_config_def)
    apply (simp add: assms(4) initial_state_def with_flags_def zero_config_def)
    done
qed

text \<open>C5: The argument vector of a subprocess (the root flags of \<open>baseArgs\<close> followed by the words of a
  plan) is parsed by \<open>ParseCommandLine\<close> back into the configuration it was built from: the socket,
  configuration file, terminal features, log level, colours and login shell, whether tmux may start a
  server, and exactly the commands of the plan.\<close>

theorem baseArgs_parse_back:
  assumes "endpoint_ok (srv_endpoint s)" and "list_all feature_ok (cfg_TerminalFeatures (srv_config s))"
    and "cfg_LogLevel (srv_config s) \<le> LogLevelDebug"
    and "plan_argv p = Inr words" and "valid_nodes (pl_nodes p)" and "pl_nodes p \<noteq> []"
  shows "ParseCommandLine (baseArgs s allowStart @ words) =
    Inr \<lparr>pcl_Config = with_flags (srv_config s) (srv_endpoint s),
         pcl_Action = CommandLineActionCommand,
         pcl_Commands = map (command_of \<circ> meaning) (pl_nodes p),
         pcl_ShellCommand = [], pcl_ControlNoEcho = False,
         pcl_StartPolicy = (if allowStart \<and> srv_bound s = None then StartPolicyAllowStart
                            else StartPolicyExistingOnly)\<rparr>"
proof -
  let ?c = "srv_config s" and ?e = "srv_endpoint s" and ?cs = "map meaning (pl_nodes p)"
  have cs: "list_all well_named ?cs" "?cs \<noteq> []" using assms(5,6) by (simp_all add: meanings_well_named)
  have words: "words = argv_spec 0 ?cs" using assms(4) argv_from_eq [OF assms(5), of 0] by (simp add: plan_argv_def)
  have level: "cfg_LogLevel ?c = LogLevelNone \<or> cfg_LogLevel ?c = LogLevelVerbose \<or> cfg_LogLevel ?c = LogLevelDebug"
    using assms(3) by (auto simp: mode_defs)
  have sock: "socket_path ?e \<noteq> [] \<or> socket_name ?e \<noteq> []" using assms(1) by (auto simp: endpoint_ok_def)
  obtain n where st: "parse_root (baseArgs s allowStart @ words) initial_state =
      Inr (words, \<lparr>ps_cfg = (with_flags ?c ?e)\<lparr>cfg_LogLevel := LogLevelNone\<rparr>,
        ps_action = CommandLineActionDefault, ps_shellCmd = [], ps_controlCount = 0,
        ps_verboseCount = n, ps_hasN = (\<not> allowStart \<or> srv_bound s \<noteq> None)\<rparr>)"
    and n: "n = (if cfg_LogLevel ?c = LogLevelVerbose then 1 else if cfg_LogLevel ?c = LogLevelDebug then 2 else 0)"
    using parse_baseArgs [OF assms(1-3), of words allowStart] parse_command_words [OF cs] words by blast
  have lv: "(if 2 \<le> n then LogLevelDebug else if n = 1 then LogLevelVerbose else LogLevelNone) = cfg_LogLevel ?c"
    using level n by (auto simp: mode_defs)
  have ne: "words \<noteq> []" "splitArgvCommands words \<noteq> []"
    using cs splitArgvCommands_spec [OF cs(1)] words by auto
  have "parseCommandSequenceArgv words CommandLineActionDefault = Inr (map (command_of \<circ> meaning) (pl_nodes p))"
    using parseCommandSequenceArgv_spec [OF cs(1)] words by simp
  moreover have "(with_flags ?c ?e)\<lparr>cfg_LogLevel := cfg_LogLevel ?c\<rparr> = with_flags ?c ?e"
    by (simp add: with_flags_def zero_config_def)
  ultimately show ?thesis
    using ne unfolding ParseCommandLine_def st
    by (simp only: bind_res_simps prod.case finishCommandLineParse_def validateCommandArgs_def
        applyVerbosityAndPolicy_def Let_def rawParseState.simps lv config.update_convs) auto
qed

lemma baseArgs_parse_back_witness:
  "ParseCommandLine [''-u'', ''-N'', ''-L'', ''w'', ''ls'', ''a''] =
    Inr \<lparr>pcl_Config = with_flags zero_config (zero_endpoint\<lparr>socket_name := ''w''\<rparr>),
         pcl_Action = CommandLineActionCommand,
         pcl_Commands = [\<lparr>cmd_name = ''ls'', cmd_args = [''a'']\<rparr>],
         pcl_ShellCommand = [], pcl_ControlNoEcho = False,
         pcl_StartPolicy = StartPolicyExistingOnly\<rparr>"
proof -
  let ?s = "\<lparr>srv_config = zero_config, srv_endpoint = zero_endpoint\<lparr>socket_name := ''w''\<rparr>,
    srv_runner = True, srv_conn = None, srv_bound = None, srv_lifetime = None\<rparr>"
  let ?p = "plainPlan \<lparr>cmd_name = ''ls'', cmd_args = [''a'']\<rparr>"
  have e: "endpoint_ok (srv_endpoint ?s)"
    by (simp add: endpoint_ok_def zero_endpoint_def validSocketName_def contains_any_def NUL_def)
  have f: "list_all feature_ok (cfg_TerminalFeatures (srv_config ?s))"
    "cfg_LogLevel (srv_config ?s) \<le> LogLevelDebug"
    by (simp_all add: zero_config_def mode_defs)
  have p: "plan_argv ?p = Inr [''ls'', ''a'']" "valid_nodes (pl_nodes ?p)" "pl_nodes ?p \<noteq> []"
    by (simp_all add: plan_argv_def plainPlan_def leaf_def argv_string_def EscapeArg_def has_suffix_def
        ValidCommand_def isLetter_def isCommandChar_def NUL_def)
  have "baseArgs ?s False = [''-u'', ''-N'', ''-L'', ''w'']"
    by (simp add: baseArgs_def zero_config_def zero_endpoint_def mode_defs)
  with baseArgs_parse_back [OF e f p, of False] show ?thesis
    by (simp add: plainPlan_def leaf_def command_of_def)
qed

subsection \<open>What every accepted command line satisfies\<close>

definition parse_inv :: "rawParseState \<Rightarrow> bool" where
  "parse_inv s \<longleftrightarrow>
     \<not> (cfg_SocketPath (ps_cfg s) \<noteq> [] \<and> cfg_SocketName (ps_cfg s) \<noteq> []) \<and>
     cfg_UTF8 (ps_cfg s) \<le> UTF8Omit \<and> list_all feature_ok (cfg_TerminalFeatures (ps_cfg s)) \<and>
     limits_ok (cfg_Limits (ps_cfg s))"

lemma parse_inv_simple: "applySimpleFlag ch s = Some s' \<Longrightarrow> parse_inv s \<Longrightarrow> parse_inv s'"
  by (auto simp: applySimpleFlag_def parse_inv_def mode_defs split: if_splits)

lemma parse_inv_valued:
  assumes "applyValuedFlag ch r rest s = Inr (rest', s')" and "parse_inv s"
  shows "parse_inv s'"
proof -
  obtain v rest1 where "extractFlagVal ch r rest = Inr (v, rest1)"
    using assms(1) by (auto simp: applyValuedFlag_def bind_res_Inr_iff)
  with assms(1) have "s' = s\<lparr>ps_action := CommandLineActionShell, ps_shellCmd := v\<rparr> \<or>
      s' = s\<lparr>ps_cfg := ps_cfg s\<lparr>cfg_ConfigFile := v\<rparr>\<rparr> \<or>
      cfg_SocketPath (ps_cfg s) = [] \<and> s' = s\<lparr>ps_cfg := ps_cfg s\<lparr>cfg_SocketName := v\<rparr>\<rparr> \<or>
      cfg_SocketName (ps_cfg s) = [] \<and> s' = s\<lparr>ps_cfg := ps_cfg s\<lparr>cfg_SocketPath := v\<rparr>\<rparr> \<or>
      (\<exists>cfg'. appendTerminalFeatures v (ps_cfg s) = Inr cfg' \<and> s' = s\<lparr>ps_cfg := cfg'\<rparr>) \<or> s' = s"
    by (auto simp: applyValuedFlag_def Let_def bind_res_Inr_iff split: if_split_asm)
  with assms(2) show ?thesis
    by (elim disjE exE conjE)
       (simp_all add: parse_inv_def appendTerminalFeatures_def Let_def split: if_split_asm, auto)
qed

lemma parse_inv_bundle: "flag_bundle b rest s = Inr (rest', s') \<Longrightarrow> parse_inv s \<Longrightarrow> parse_inv s'"
proof (induction b rest s rule: flag_bundle.induct)
  case (2 ch bdl rest s)
  show ?case
  proof (cases "applySimpleFlag ch s")
    case None
    with "2.prems" parse_inv_valued [of ch bdl rest s rest' s'] show ?thesis by (simp split: if_splits)
  next
    case (Some s1)
    with "2.IH" [OF Some] "2.prems" parse_inv_simple [OF Some] show ?thesis by simp
  qed
qed simp

lemma parse_inv_root: "parse_root args s = Inr (rest, s') \<Longrightarrow> parse_inv s \<Longrightarrow> parse_inv s'"
proof (induction args s rule: parse_root.induct)
  case (2 arg args s)
  show ?case
  proof (cases "arg = ''--'' \<or> arg = ''-'' \<or> \<not> has_prefix arg ''-''")
    case True
    with "2.prems" show ?thesis by (cases "arg = ''--''") simp_all
  next
    case False
    with "2.prems"(1) obtain args1 s1 where
        b: "flag_bundle (tl arg) args s = Inr (args1, s1)" "parse_root args1 s1 = Inr (rest, s')"
      by (auto split: sum.splits)
    have "parse_inv s1" using parse_inv_bundle [OF b(1) "2.prems"(2)] .
    with "2.IH" [OF _ _ b(1) refl b(2)] False show ?thesis by blast
  qed
qed simp

lemma parse_inv_initial: "parse_inv initial_state"
  by (simp add: parse_inv_def initial_state_def zero_config_def mode_defs limits_ok_def DefaultLimits_def)

lemma Sequence_valid: "Sequence cmds = Inr cs \<Longrightarrow> list_all command_Valid cs"
  by (auto simp: Sequence_def split: if_splits)

lemma parseCommandSequenceArgv_valid:
  "parseCommandSequenceArgv cmdArgs action = Inr cs \<Longrightarrow> list_all command_Valid cs"
  by (auto simp: parseCommandSequenceArgv_def Let_def bind_res_Inr_iff dest: Sequence_valid split: if_splits)

text \<open>Every command line that is accepted gives a configuration that \<open>New\<close> validates (at most one
  way to name the socket, modes in range, well-formed features, positive limits) and a sequence of
  valid commands; and an action that takes no commands (\<open>-c\<close>, \<open>-D\<close>) never comes with any.\<close>

theorem ParseCommandLine_valid:
  assumes "ParseCommandLine args = Inr r"
  shows "validateRootConfig (pcl_Config r) = None \<and> limits_ok (cfg_Limits (pcl_Config r)) \<and>
    list_all command_Valid (pcl_Commands r) \<and>
    (pcl_Action r \<in> {CommandLineActionShell, CommandLineActionForeground} \<longrightarrow> pcl_Commands r = [])"
proof -
  obtain rest s where s: "parse_root args initial_state = Inr (rest, s)"
      "finishCommandLineParse s rest = Inr r"
    using assms by (auto simp: ParseCommandLine_def bind_res_Inr_iff)
  have i: "parse_inv s" using parse_inv_root [OF s(1)] parse_inv_initial by blast
  let ?s = "applyVerbosityAndPolicy s"
  have v: "validateCommandArgs s rest = None"
    using s(2) by (simp add: finishCommandLineParse_def split: option.splits)
  have q: "parseCommandSequenceArgv rest (ps_action ?s) = Inr (pcl_Commands r)"
    "pcl_Config r = ps_cfg ?s"
    "pcl_Action r = (if rest \<noteq> [] \<and> ps_action ?s = CommandLineActionDefault
                     then CommandLineActionCommand else ps_action ?s)"
    using s(2) v by (auto simp: finishCommandLineParse_def bind_res_Inr_iff Let_def split: if_splits)
  have "validateRootConfig (pcl_Config r) = None" "limits_ok (cfg_Limits (pcl_Config r))"
    using i by (auto simp: q(2) parse_inv_def validateRootConfig_def applyVerbosityAndPolicy_def Let_def mode_defs)
  moreover have "rest = []" if "pcl_Action r \<in> {CommandLineActionShell, CommandLineActionForeground}"
    using v that by (auto simp: q(3) validateCommandArgs_def applyVerbosityAndPolicy_def Let_def split: if_splits)
  ultimately show ?thesis
    using q(1) parseCommandSequenceArgv_valid [OF q(1)] by (auto simp: parseCommandSequenceArgv_def)
qed

lemma ParseCommandLine_valid_witness:
  "\<exists>r. ParseCommandLine [''-c'', ''date''] = Inr r \<and> pcl_Action r = CommandLineActionShell \<and> pcl_Commands r = []"
proof -
  have "\<not> isl (ParseCommandLine [''-c'', ''date''])" by code_simp
  then obtain r where r: "ParseCommandLine [''-c'', ''date''] = Inr r"
    by (cases "ParseCommandLine [''-c'', ''date'']") auto
  have "(case ParseCommandLine [''-c'', ''date''] of Inr r \<Rightarrow> pcl_Action r = CommandLineActionShell | Inl _ \<Rightarrow> False)"
    by code_simp
  then show ?thesis using ParseCommandLine_valid [OF r] r by auto
qed

end
