(* ===== verification/Go_Text.thy ===== *)
theory Go_Text
  imports Go_Prelude
begin

text \<open>
  White space as Go's \<open>strings\<close> and \<open>bytes\<close> packages see it: the UTF-8 spellings of the runes of
  \<open>unicode.IsSpace\<close>, the splitter \<open>strings.Fields\<close> and \<open>bytes.TrimSpace\<close>. The spellings begin
  with bytes that continue no other rune, so the rune-wise loops of the library are byte-wise
  loops here.
\<close>

definition space_runes :: "bytes list" where
  "space_runes =
    [[CHR 0x09], [CHR 0x0A], [CHR 0x0B], [CHR 0x0C], [CHR 0x0D], [CHR 0x20],
     [CHR 0xC2, CHR 0x85], [CHR 0xC2, CHR 0xA0], [CHR 0xE1, CHR 0x9A, CHR 0x80],
     [CHR 0xE2, CHR 0x80, CHR 0x80], [CHR 0xE2, CHR 0x80, CHR 0x81],
     [CHR 0xE2, CHR 0x80, CHR 0x82], [CHR 0xE2, CHR 0x80, CHR 0x83],
     [CHR 0xE2, CHR 0x80, CHR 0x84], [CHR 0xE2, CHR 0x80, CHR 0x85],
     [CHR 0xE2, CHR 0x80, CHR 0x86], [CHR 0xE2, CHR 0x80, CHR 0x87],
     [CHR 0xE2, CHR 0x80, CHR 0x88], [CHR 0xE2, CHR 0x80, CHR 0x89],
     [CHR 0xE2, CHR 0x80, CHR 0x8A], [CHR 0xE2, CHR 0x80, CHR 0xA8],
     [CHR 0xE2, CHR 0x80, CHR 0xA9], [CHR 0xE2, CHR 0x80, CHR 0xAF],
     [CHR 0xE2, CHR 0x81, CHR 0x9F], [CHR 0xE3, CHR 0x80, CHR 0x80]]"

text \<open>The length of the white space rune at the head of a text, 0 when there is none.\<close>

definition space_len :: "bytes \<Rightarrow> nat" where
  "space_len s = (case find (has_prefix s) space_runes of None \<Rightarrow> 0 | Some r \<Rightarrow> length r)"

text \<open>Any other byte that ends no field: graphic ASCII.\<close>

definition graphic :: "byte \<Rightarrow> bool" where
  "graphic c \<longleftrightarrow> 0x21 \<le> code c \<and> code c < 0x7f"

lemma space_runes_heads: "r \<in> set space_runes \<Longrightarrow> \<exists>c t. r = c # t \<and> \<not> graphic c"
proof -
  have "list_all (\<lambda>r. r \<noteq> [] \<and> \<not> graphic (hd r)) space_runes" by code_simp
  then show "r \<in> set space_runes \<Longrightarrow> \<exists>c t. r = c # t \<and> \<not> graphic c"
    by (fastforce simp: list_all_iff neq_Nil_conv)
qed

lemma space_len_graphic [simp]: "graphic c \<Longrightarrow> space_len (c # s) = 0"
proof -
  assume "graphic c"
  then have "find (has_prefix (c # s)) space_runes = None"
    by (auto simp: find_None_iff has_prefix_iff dest!: space_runes_heads)
  then show ?thesis by (simp add: space_len_def)
qed

lemma space_len_Nil [simp]: "space_len [] = 0"
proof -
  have "find (has_prefix []) space_runes = None"
    by (auto simp: find_None_iff has_prefix_iff dest!: space_runes_heads)
  then show ?thesis by (simp add: space_len_def)
qed

lemma space_len_blank [simp]:
  "c = CHR '' '' \<Longrightarrow> space_len (c # s) = 1" "c = CHR 0x0A \<Longrightarrow> space_len (c # s) = 1"
  by (simp_all add: space_len_def space_runes_def)

text \<open>\<open>strings.Fields\<close>: \<open>cur\<close> is the field being read, \<open>skip\<close> what is left of a white space rune.\<close>

definition add_field :: "bytes \<Rightarrow> bytes list \<Rightarrow> bytes list" where
  "add_field cur fs = (if cur = [] then fs else cur # fs)"

fun fields_from :: "nat \<Rightarrow> bytes \<Rightarrow> bytes \<Rightarrow> bytes list" where
  "fields_from skip cur [] = add_field cur []"
| "fields_from (Suc k) cur (c # s) = fields_from k cur s"
| "fields_from 0 cur (c # s) =
     (case space_len (c # s) of
        0 \<Rightarrow> fields_from 0 (cur @ [c]) s
      | Suc k \<Rightarrow> add_field cur (fields_from k [] s))"

definition Fields :: "bytes \<Rightarrow> bytes list" where
  "Fields s = fields_from 0 [] s"

lemma fields_from_graphic:
  "list_all graphic w \<Longrightarrow> fields_from 0 cur (w @ s) = fields_from 0 (cur @ w) s"
  by (induction w arbitrary: cur) auto

text \<open>Words of graphic bytes joined by single blanks are the fields.\<close>

lemma Fields_words:
  assumes "\<And>w. w \<in> set ws \<Longrightarrow> list_all graphic w \<and> w \<noteq> []"
  shows "Fields (join_with '' '' ws) = ws"
proof -
  have "fields_from 0 [] (join_with '' '' ws) = ws" using assms
  proof (induction "'' ''" ws rule: join_with.induct)
    case (2 w)
    then show ?case using fields_from_graphic [of w "[]" "[]"] by (simp add: add_field_def)
  next
    case (3 w v ws)
    then show ?case using fields_from_graphic [of w "[]" "'' '' @ join_with '' '' (v # ws)"]
      by (simp add: add_field_def)
  qed (simp add: add_field_def)
  then show ?thesis by (simp add: Fields_def)
qed

lemma fields_from_length: "f \<in> set (fields_from k cur s) \<Longrightarrow> length f \<le> length cur + length s"
  by (induction k cur s rule: fields_from.induct) (fastforce simp: add_field_def split: if_splits nat.splits)+

lemma Fields_length: "f \<in> set (Fields s) \<Longrightarrow> length f \<le> length s"
  unfolding Fields_def by (drule fields_from_length) simp

text \<open>\<open>bytes.TrimSpace\<close>: white space runes off the front, then off the back.\<close>

function trim_left :: "bytes \<Rightarrow> bytes" where
  "trim_left s = (if space_len s = 0 \<or> s = [] then s else trim_left (drop (space_len s) s))"
  by pat_completeness auto
termination by (relation "measure length") auto

declare trim_left.simps [simp del]

definition ends_space_len :: "bytes \<Rightarrow> nat" where
  "ends_space_len s = (case find (has_suffix s) space_runes of None \<Rightarrow> 0 | Some r \<Rightarrow> length r)"

function trim_right :: "bytes \<Rightarrow> bytes" where
  "trim_right s = (if ends_space_len s = 0 \<or> s = [] then s else trim_right (take (length s - ends_space_len s) s))"
  by pat_completeness auto
termination by (relation "measure length") auto

declare trim_right.simps [simp del]

definition TrimSpace :: "bytes \<Rightarrow> bytes" where
  "TrimSpace s = trim_right (trim_left s)"

lemma trim_left_suffix: "\<exists>p. s = p @ trim_left s"
proof (induction s rule: trim_left.induct)
  case (1 s)
  show ?case
  proof (cases "space_len s = 0 \<or> s = []")
    case True
    then show ?thesis by (simp add: trim_left.simps [of s])
  next
    case False
    with 1 obtain p where "drop (space_len s) s = p @ trim_left (drop (space_len s) s)" by blast
    then have "s = (take (space_len s) s @ p) @ trim_left (drop (space_len s) s)"
      by (metis append.assoc append_take_drop_id)
    with False show ?thesis by (metis trim_left.simps)
  qed
qed

lemma trim_right_prefix: "\<exists>p. s = trim_right s @ p"
proof (induction s rule: trim_right.induct)
  case (1 s)
  show ?case
  proof (cases "ends_space_len s = 0 \<or> s = []")
    case True
    then show ?thesis by (simp add: trim_right.simps [of s])
  next
    case False
    let ?t = "take (length s - ends_space_len s) s"
    from False 1 obtain p where "?t = trim_right ?t @ p" by blast
    then have "s = trim_right ?t @ p @ drop (length s - ends_space_len s) s"
      by (metis append.assoc append_take_drop_id)
    with False show ?thesis by (metis trim_right.simps)
  qed
qed

lemma set_TrimSpace: "set (TrimSpace s) \<subseteq> set s"
  unfolding TrimSpace_def
  by (metis Un_upper1 Un_upper2 set_append subset_trans trim_left_suffix trim_right_prefix)

text \<open>A text that begins with a graphic byte and is not that byte and another alone.\<close>

lemma TrimSpace_hd:
  assumes "graphic c" and "TrimSpace (c # s) = d # t"
  shows "c = d"
proof -
  have "trim_left (c # s) = c # s" using assms(1) by (subst trim_left.simps) simp
  with assms(2) trim_right_prefix [of "c # s"] show ?thesis by (auto simp: TrimSpace_def)
qed

text \<open>A text of graphic bytes has nothing to trim.\<close>

lemma ends_space_len_graphic:
  assumes "graphic c"
  shows "ends_space_len (s @ [c]) = 0"
proof -
  have "list_all (\<lambda>r. r \<noteq> [] \<and> \<not> graphic (last r)) space_runes" by code_simp
  then have "\<not> has_suffix (s @ [c]) r" if "r \<in> set space_runes" for r
    using that assms by (auto simp: list_all_iff has_suffix_iff append_eq_append_conv2 append_eq_Cons_conv)
      (metis last_snoc last_append)
  then have "find (has_suffix (s @ [c])) space_runes = None"
    by (auto simp: find_None_iff)
  then show ?thesis by (simp add: ends_space_len_def)
qed

lemma TrimSpace_graphic: "list_all graphic s \<Longrightarrow> TrimSpace s = s"
proof -
  assume g: "list_all graphic s"
  have "trim_left s = s"
    using g by (cases s) (simp_all add: trim_left.simps)
  moreover have "trim_right s = s"
    using g by (cases s rule: rev_cases) (simp_all add: trim_right.simps ends_space_len_graphic)
  ultimately show ?thesis by (simp add: TrimSpace_def)
qed

end
