(* ===== verification/Wire_Records.thy ===== *)
theory Wire_Records
  imports Wire_Argv
begin

text \<open>
  \<open>internal/wire/records.go\<close>: the length-prefixed records in which tmux answers and their scanner over
  any byte source. The Go interface \<open>Reader\<close> is a pair of functions on the reader's state; its contract is the locale
  \<open>byte_reader\<close>, kept by \<open>bytes.Reader\<close>/\<open>bufio.Reader\<close> (\<open>source\<close>) and by \<open>recordReader\<close>.
\<close>

definition RecordPrefix :: bytes where "RecordPrefix = ''TGO1:''"
definition MaxRecordFields :: int where "MaxRecordFields = 1024"
definition minRecordOverhead :: int where "minRecordOverhead = 3"

lemma length_RecordPrefix [simp]: "length RecordPrefix = 5"
  by (simp add: RecordPrefix_def)

subsection \<open>Readers\<close>

type_synonym 'r read_byte = "'r \<Rightarrow> (goerr + byte) \<times> 'r"
type_synonym 'r read_full = "nat \<Rightarrow> 'r \<Rightarrow> (goerr + bytes) \<times> 'r"

text \<open>\<open>io.ReadFull\<close> for \<open>n\<close> bytes when \<open>rest\<close> is left before the error \<open>e\<close>.\<close>

definition read_full_at :: "nat \<Rightarrow> bytes \<Rightarrow> goerr \<Rightarrow> goerr + bytes" where
  "read_full_at n rest e =
     (if n \<le> length rest then Inr (take n rest)
      else if rest \<noteq> [] \<and> e = Sentinel IoEOF then Inl (Sentinel IoErrUnexpectedEOF)
      else Inl e)"

text \<open>A \<open>bytes.Reader\<close> or \<open>bufio.Reader\<close>: the bytes still to be read, and the error after them
  (\<open>io.EOF\<close> for a \<open>bytes.Reader\<close>).\<close>

record source =
  src_rest :: bytes
  src_end :: goerr

definition bytes_reader :: "bytes \<Rightarrow> source" where
  "bytes_reader data = \<lparr>src_rest = data, src_end = Sentinel IoEOF\<rparr>"

definition source_read_byte :: "source read_byte" where
  "source_read_byte s =
     (case src_rest s of [] \<Rightarrow> (Inl (src_end s), s) | c # cs \<Rightarrow> (Inr c, s\<lparr>src_rest := cs\<rparr>))"

definition source_read_full :: "source read_full" where
  "source_read_full n s =
     (read_full_at n (src_rest s) (src_end s), s\<lparr>src_rest := drop n (src_rest s)\<rparr>)"

text \<open>\<open>recordReader\<close> copies what it reads, and passes \<open>io.EOF\<close> on but wraps other errors.\<close>

record recordReader =
  rr_source :: source
  rr_data :: bytes

definition recorder_error :: "bytes \<Rightarrow> goerr \<Rightarrow> goerr" where
  "recorder_error what e = (if err_is e IoEOF then Sentinel IoEOF else Wrapf what e)"

definition recordReader_ReadByte :: "recordReader read_byte" where
  "recordReader_ReadByte r =
     (case source_read_byte (rr_source r) of
        (Inr c, s) \<Rightarrow> (Inr c, \<lparr>rr_source = s, rr_data = rr_data r @ [c]\<rparr>)
      | (Inl e, s) \<Rightarrow> (Inl (recorder_error ''read record byte'' e), r\<lparr>rr_source := s\<rparr>))"

definition recordReader_ReadFull :: "recordReader read_full" where
  "recordReader_ReadFull n r =
     (let s = rr_source r; rest = src_rest s in
      (read_full_at n rest (recorder_error ''read record bytes'' (src_end s)),
       \<lparr>rr_source = s\<lparr>src_rest := drop n rest\<rparr>, rr_data = rr_data r @ take n rest\<rparr>))"

subsection \<open>Decimal prefixes\<close>

definition isInvalidDecimalChar :: "byte \<Rightarrow> int \<Rightarrow> bool \<Rightarrow> bool" where
  "isInvalidDecimalChar ch count zero = (if \<not> is_digit ch then True else 19 < count \<or> zero \<and> 1 < count)"

text \<open>\<open>decimal\<close>: digits up to a colon, at most \<open>maxBytes\<close> in value. All \<open>int64\<close> operations wrap.\<close>

function decimal_loop ::
  "'r read_byte \<Rightarrow> int \<Rightarrow> int \<Rightarrow> int \<Rightarrow> bool \<Rightarrow> 'r \<Rightarrow> (goerr + int \<times> int) \<times> 'r" where
  "decimal_loop rb maxBytes value count zero r =
     (case rb r of
        (Inl e, r') \<Rightarrow> (Inl e, r')
      | (Inr ch, r') \<Rightarrow>
          let count' = count + 1 in
          if ch = CHR '':'' then
            (if count' = 1 then (Inl (Sentinel ErrRecord), r') else (Inr (value, count'), r'))
          else if isInvalidDecimalChar ch count' zero then (Inl (Sentinel ErrRecord), r')
          else
            let zero' = (if count' = 1 then ch = CHR ''0'' else zero);
                digit = int (digit_val ch)
            in if i64 (maxBytes - digit) sdiv 10 < value \<or> maxBytes < digit
               then (Inl (Sentinel ErrRecord), r')
               else decimal_loop rb maxBytes (i64 (i64 (value * 10) + digit)) count' zero' r')"
  by pat_completeness auto
termination
  by (relation "measure (\<lambda>(rb, maxBytes, value, count, zero, r). nat (20 - count))")
     (auto simp: isInvalidDecimalChar_def split: if_splits)

declare decimal_loop.simps [simp del]

definition decimal :: "'r read_byte \<Rightarrow> int \<Rightarrow> 'r \<Rightarrow> (goerr + int \<times> int) \<times> 'r" where
  "decimal rb maxBytes r = decimal_loop rb maxBytes 0 0 False r"

subsection \<open>Scanning a record\<close>

definition scanRecordHeader ::
  "'r read_byte \<Rightarrow> 'r read_full \<Rightarrow> int \<Rightarrow> 'r \<Rightarrow> (goerr + int \<times> int) \<times> 'r" where
  "scanRecordHeader rb rf maxBytes r =
     (if maxBytes < int (length RecordPrefix) + minRecordOverhead then (Inl (Sentinel ErrRecord), r)
      else (case rf (length RecordPrefix) r of
        (Inl e, r1) \<Rightarrow> (Inl e, r1)
      | (Inr prefix, r1) \<Rightarrow>
          if prefix \<noteq> RecordPrefix then (Inl (Sentinel ErrRecord), r1)
          else (case decimal rb MaxRecordFields r1 of
            (Inl e, r2) \<Rightarrow> (Inl e, r2)
          | (Inr (count, n), r2) \<Rightarrow> (Inr (count, int (length prefix) + n), r2))))"

definition readRecordTerminator :: "'r read_byte \<Rightarrow> 'r \<Rightarrow> goerr option \<times> 'r" where
  "readRecordTerminator rb r =
     (case rb r of
        (Inl e, r') \<Rightarrow> (Some e, r')
      | (Inr ch, r') \<Rightarrow> (if ch \<noteq> LF then Some (Sentinel ErrRecord) else None, r'))"

definition scanField ::
  "'r read_byte \<Rightarrow> 'r read_full \<Rightarrow> int \<Rightarrow> 'r \<Rightarrow> (goerr + bytes \<times> int) \<times> 'r" where
  "scanField rb rf left r =
     (if left \<le> 0 then (Inl (Sentinel ErrRecord), r)
      else (case decimal rb left r of
        (Inl e, r1) \<Rightarrow> (Inl e, r1)
      | (Inr (fsize, used), r1) \<Rightarrow>
          if i64 (i64 (left - used) - 1) < fsize then (Inl (Sentinel ErrRecord), r1)
          else (case rf (nat fsize) r1 of
            (Inl e, r2) \<Rightarrow> (Inl e, r2)
          | (Inr b, r2) \<Rightarrow>
              (case rb r2 of
                 (Inl e, r3) \<Rightarrow> (Inl e, r3)
               | (Inr ch, r3) \<Rightarrow>
                   if ch \<noteq> CHR '','' then (Inl (Sentinel ErrRecord), r3)
                   else (Inr (b, used + fsize + 1), r3)))))"

record scan_mode =
  wantWire :: bool
  wantFields :: bool

definition encode_field :: "bytes \<Rightarrow> bytes" where
  "encode_field v = itoa_nat (length v) @ '':'' @ v @ '',''"

text \<open>The \<open>for range count\<close> loop: the wire bytes, the fields and the bytes used so far.\<close>

fun scan_fields ::
  "'r read_byte \<Rightarrow> 'r read_full \<Rightarrow> int \<Rightarrow> scan_mode \<Rightarrow> nat \<Rightarrow> bytes \<Rightarrow> bytes list \<Rightarrow> int \<Rightarrow> 'r \<Rightarrow>
   (bytes \<times> bytes list \<times> int \<times> goerr option) \<times> 'r" where
  "scan_fields rb rf maxBytes mode 0 wire flds used r = ((wire, flds, used, None), r)"
| "scan_fields rb rf maxBytes mode (Suc k) wire flds used r =
     (case scanField rb rf (i64 (maxBytes - used)) r of
        (Inl e, r') \<Rightarrow> ((wire, flds, used, Some e), r')
      | (Inr (b, n), r') \<Rightarrow>
          scan_fields rb rf maxBytes mode k
            (if wantWire mode then wire @ encode_field b else wire)
            (if wantFields mode then flds @ [b] else flds)
            (used + n) r')"

text \<open>\<open>scanRecord\<close> returns the wire bytes, the flds and the error.\<close>

definition scanRecord ::
  "'r read_byte \<Rightarrow> 'r read_full \<Rightarrow> int \<Rightarrow> scan_mode \<Rightarrow> 'r \<Rightarrow>
   (bytes \<times> bytes list \<times> goerr option) \<times> 'r" where
  "scanRecord rb rf maxBytes mode r =
     (case scanRecordHeader rb rf maxBytes r of
        (Inl e, r1) \<Rightarrow> (([], [], Some e), r1)
      | (Inr (count, used), r1) \<Rightarrow>
          let wire0 = (if wantWire mode then RecordPrefix @ itoa count @ '':'' else []) in
          (case scan_fields rb rf maxBytes mode (nat count) wire0 [] used r1 of
             ((wire, flds, used', Some e), r2) \<Rightarrow> ((wire, [], Some e), r2)
           | ((wire, flds, used', None), r2) \<Rightarrow>
               if maxBytes \<le> used' then ((wire, [], Some (Sentinel ErrRecord)), r2)
               else (case readRecordTerminator rb r2 of
                 (Some e, r3) \<Rightarrow> ((wire, [], Some e), r3)
               | (None, r3) \<Rightarrow>
                   ((if wantWire mode then wire @ [LF] else [], flds, None), r3))))"

definition ReadRecord :: "int \<Rightarrow> source \<Rightarrow> (bytes \<times> bytes list \<times> goerr option) \<times> source" where
  "ReadRecord maxBytes r =
     scanRecord source_read_byte source_read_full maxBytes \<lparr>wantWire = True, wantFields = True\<rparr> r"

definition ReadRecordWire :: "int \<Rightarrow> source \<Rightarrow> (bytes \<times> goerr option) \<times> source" where
  "ReadRecordWire maxBytes r =
     (case scanRecord recordReader_ReadByte recordReader_ReadFull maxBytes
             \<lparr>wantWire = False, wantFields = False\<rparr> \<lparr>rr_source = r, rr_data = []\<rparr> of
        ((_, _, err), reader) \<Rightarrow> ((rr_data reader, err), rr_source reader))"

definition ReadRecordFields :: "int \<Rightarrow> source \<Rightarrow> (goerr + bytes list) \<times> source" where
  "ReadRecordFields maxBytes r =
     (case scanRecord source_read_byte source_read_full maxBytes
             \<lparr>wantWire = False, wantFields = True\<rparr> r of
        ((_, flds, Some e), r') \<Rightarrow> (Inl e, r')
      | ((_, flds, None), r') \<Rightarrow> (Inr flds, r'))"

definition EncodeRecord :: "bytes list \<Rightarrow> bytes" where
  "EncodeRecord values =
     RecordPrefix @ itoa_nat (length values) @ '':'' @ concat (map encode_field values) @ [LF]"

subsection \<open>The contract of a reader\<close>

locale byte_reader =
  fixes rb :: "'r read_byte"
    and rf :: "'r read_full"
    and view :: "'r \<Rightarrow> bytes"
  assumes read_byte_Cons: "view r = c # cs \<Longrightarrow> \<exists>r'. rb r = (Inr c, r') \<and> view r' = cs"
    and read_byte_Nil: "view r = [] \<Longrightarrow> \<exists>e r'. rb r = (Inl e, r')"
    and read_full: "n \<le> length (view r) \<Longrightarrow>
      \<exists>r'. rf n r = (Inr (take n (view r)), r') \<and> view r' = drop n (view r)"
    and read_full_short: "length (view r) < n \<Longrightarrow> \<exists>e r'. rf n r = (Inl e, r')"

begin

text \<open>The state of the loop after the digits \<open>seen\<close>.\<close>

abbreviation canonical :: "bytes \<Rightarrow> bool" where
  "canonical ds \<equiv> list_all is_digit ds \<and> ds \<noteq> [] \<and> (length ds = 1 \<or> hd ds \<noteq> CHR ''0'')"

lemma decimal_step_value:
  fixes v d :: nat
  assumes "0 \<le> M" and "M < 2 ^ 63" and "d < 10"
  shows "i64 (M - int d) sdiv 10 < int v \<or> M < int d \<longleftrightarrow> M < int (v * 10 + d)"
    and "int (v * 10 + d) \<le> M \<Longrightarrow> i64 (i64 (int v * 10) + int d) = int (v * 10 + d)"
proof -
  have i: "i64 (M - int d) = M - int d" using assms by (intro i64_id) auto
  show "i64 (M - int d) sdiv 10 < int v \<or> M < int d \<longleftrightarrow> M < int (v * 10 + d)"
  proof (cases "M < int d")
    case True
    then show ?thesis by simp
  next
    case False
    then have "(M - int d) sdiv 10 = (M - int d) div 10"
      by (simp add: signed_divide_int_def sgn_if)
    with False show ?thesis unfolding i by (auto simp: div_less_iff_less_mult algebra_simps)
  qed
  show "int (v * 10 + d) \<le> M \<Longrightarrow> i64 (i64 (int v * 10) + int d) = int (v * 10 + d)"
    using assms(2) by simp
qed

lemma decimal_loop_complete:
  assumes "view r = ds @ CHR '':'' # rest" and "canonical (seen @ ds)"
    and "int (digits_val (seen @ ds)) \<le> M" and "M < 2 ^ 63"
  shows "\<exists>r'. decimal_loop rb M (int (digits_val seen)) (int (length seen))
                  (seen \<noteq> [] \<and> hd seen = CHR ''0'') r
               = (Inr (int (digits_val (seen @ ds)), int (length (seen @ ds)) + 1), r') \<and>
             view r' = rest"
  using assms(1-3)
proof (induction ds arbitrary: r seen)
  case Nil
  obtain r' where "rb r = (Inr (CHR '':''), r')" "view r' = rest"
    using read_byte_Cons [of r] Nil.prems(1) by auto
  with Nil.prems(2) show ?case
    by (subst decimal_loop.simps) auto
next
  case (Cons d ds)
  obtain r' where rb: "rb r = (Inr d, r')" and r': "view r' = ds @ CHR '':'' # rest"
    using read_byte_Cons [of r] Cons.prems(1) by auto
  have d: "is_digit d" using Cons.prems(2) by simp
  then have nc: "d \<noteq> CHR '':''" by (auto simp: is_digit_def)
  have M: "0 \<le> M" using Cons.prems(3) by linarith
  have le: "int (digits_val (seen @ [d])) \<le> M"
    using digits_val_prefix [of "seen @ [d]" ds] Cons.prems(3) by simp
  have "itoa_nat (digits_val (seen @ d # ds)) = seen @ d # ds"
    using Cons.prems(2) by (intro itoa_nat_digits_val) auto
  moreover have "digits_val (seen @ d # ds) < 10 ^ 19"
    using Cons.prems(3) assms(4) by simp
  ultimately have "length (seen @ d # ds) \<le> 19"
    using length_itoa_nat_le [of "digits_val (seen @ d # ds)" 19] by simp
  then have len: "length seen < 19" by simp
  have ok: "\<not> isInvalidDecimalChar d (int (length seen) + 1) (seen \<noteq> [] \<and> hd seen = CHR ''0'')"
    using d len Cons.prems(2) by (cases seen) (auto simp: isInvalidDecimalChar_def)
  have step: "\<not> (i64 (M - int (digit_val d)) sdiv 10 < int (digits_val seen) \<or> M < int (digit_val d))"
      "i64 (i64 (int (digits_val seen) * 10) + int (digit_val d)) = int (digits_val (seen @ [d]))"
    using decimal_step_value [OF M assms(4) digit_val_less [OF d], of "digits_val seen"] le by auto
  have zero: "(if int (length seen) + 1 = 1 then d = CHR ''0'' else seen \<noteq> [] \<and> hd seen = CHR ''0'')
        \<longleftrightarrow> seen @ [d] \<noteq> [] \<and> hd (seen @ [d]) = CHR ''0''"
    by (cases seen) auto
  have "decimal_loop rb M (int (digits_val seen)) (int (length seen))
          (seen \<noteq> [] \<and> hd seen = CHR ''0'') r =
        decimal_loop rb M (int (digits_val (seen @ [d]))) (int (length (seen @ [d])))
          (seen @ [d] \<noteq> [] \<and> hd (seen @ [d]) = CHR ''0'') r'"
    using ok step nc by (subst decimal_loop.simps) (simp add: rb Let_def zero add.commute del: digits_val_snoc)
  moreover have "canonical ((seen @ [d]) @ ds)" "int (digits_val ((seen @ [d]) @ ds)) \<le> M"
    using Cons.prems(2,3) by simp_all
  ultimately show ?case using Cons.IH [OF r', of "seen @ [d]"] by simp
qed

lemma decimal_loop_sound:
  assumes "decimal_loop rb M (int (digits_val seen)) (int (length seen))
             (seen \<noteq> [] \<and> hd seen = CHR ''0'') r = (Inr (v, c), r')"
    and "list_all is_digit seen" and "length seen \<le> 1 \<or> hd seen \<noteq> CHR ''0''"
    and "int (digits_val seen) \<le> M" and "M < 2 ^ 63"
  shows "\<exists>ds. view r = ds @ CHR '':'' # view r' \<and> canonical (seen @ ds) \<and>
              v = int (digits_val (seen @ ds)) \<and> c = int (length (seen @ ds)) + 1 \<and> v \<le> M"
  using assms(1-4)
proof (induction "view r" arbitrary: r seen)
  case Nil
  then show ?case using read_byte_Nil [of r] by (subst (asm) decimal_loop.simps) auto
next
  case (Cons d cs)
  obtain r1 where rb: "rb r = (Inr d, r1)" and r1: "view r1 = cs"
    using read_byte_Cons [of r] Cons.hyps(2) by metis
  show ?case
  proof (cases "d = CHR '':''")
    case True
    with Cons.prems(1) rb have "seen \<noteq> [] \<and> v = int (digits_val seen) \<and> c = int (length seen) + 1 \<and> r' = r1"
      by (subst (asm) decimal_loop.simps) (auto split: if_splits)
    with Cons.prems(2-4) Cons.hyps(2) True r1 show ?thesis
      by (intro exI [of _ "[]"]) (cases seen, auto)
  next
    case False
    let ?z = "seen \<noteq> [] \<and> hd seen = CHR ''0''"
    have zero: "(if int (length seen) + 1 = 1 then d = CHR ''0'' else ?z)
          \<longleftrightarrow> seen @ [d] \<noteq> [] \<and> hd (seen @ [d]) = CHR ''0''"
      by (cases seen) auto
    have ok: "\<not> isInvalidDecimalChar d (int (length seen) + 1) ?z"
      and le: "\<not> (i64 (M - int (digit_val d)) sdiv 10 < int (digits_val seen) \<or> M < int (digit_val d))"
      and next': "decimal_loop rb M (i64 (i64 (int (digits_val seen) * 10) + int (digit_val d)))
              (int (length seen) + 1) (seen @ [d] \<noteq> [] \<and> hd (seen @ [d]) = CHR ''0'') r1 = (Inr (v, c), r')"
      using Cons.prems(1) rb False
      by (subst (asm) decimal_loop.simps; auto simp: Let_def zero split: if_splits)+
    have d: "is_digit d" using ok by (simp add: isInvalidDecimalChar_def split: if_splits)
    have M: "0 \<le> M" using Cons.prems(4) by linarith
    note dv = decimal_step_value [OF M assms(5) digit_val_less [OF d], of "digits_val seen"]
    have le': "int (digits_val (seen @ [d])) \<le> M" using dv(1) le by simp
    have "decimal_loop rb M (int (digits_val (seen @ [d]))) (int (length (seen @ [d])))
            (seen @ [d] \<noteq> [] \<and> hd (seen @ [d]) = CHR ''0'') r1 = (Inr (v, c), r')"
      using next' dv(2) le' by (simp add: add.commute)
    moreover have "length (seen @ [d]) \<le> 1 \<or> hd (seen @ [d]) \<noteq> CHR ''0''"
      using ok d by (cases seen) (auto simp: isInvalidDecimalChar_def)
    ultimately obtain ds where "view r1 = ds @ CHR '':'' # view r'"
        "canonical ((seen @ [d]) @ ds)" "v = int (digits_val ((seen @ [d]) @ ds))"
        "c = int (length ((seen @ [d]) @ ds)) + 1" "v \<le> M"
      using Cons.hyps(1) [OF r1 [symmetric], of "seen @ [d]"] Cons.prems(2) d le' by auto
    then show ?thesis using Cons.hyps(2) r1
      by (intro exI [of _ "d # ds"]) (cases seen; auto)
  qed
qed

lemma decimal_complete:
  assumes "view r = itoa_nat n @ CHR '':'' # rest" and "int n \<le> M" and "M < 2 ^ 63"
  shows "\<exists>r'. decimal rb M r = (Inr (int n, int (length (itoa_nat n)) + 1), r') \<and> view r' = rest"
proof -
  have "length (itoa_nat n) = 1 \<or> hd (itoa_nat n) \<noteq> CHR ''0''"
    using itoa_nat_no_leading_zero [of n] by (cases "length (itoa_nat n)" rule: nat.exhaust) force+
  then show ?thesis
    using decimal_loop_complete [of r "itoa_nat n" rest "[]" M] assms by (simp add: decimal_def)
qed

lemma decimal_sound:
  assumes "decimal rb M r = (Inr (v, c), r')" and "0 \<le> M" and "M < 2 ^ 63"
  shows "\<exists>n. v = int n \<and> view r = itoa_nat n @ CHR '':'' # view r' \<and>
             c = int (length (itoa_nat n)) + 1 \<and> int n \<le> M"
proof -
  obtain ds where "view r = ds @ CHR '':'' # view r'" "canonical ds" "v = int (digits_val ds)"
      "c = int (length ds) + 1" "v \<le> M"
    using decimal_loop_sound [of M "[]" r v c r'] assms by (auto simp: decimal_def)
  then show ?thesis using itoa_nat_digits_val [of ds] by (intro exI [of _ "digits_val ds"]) auto
qed

lemma scanField_complete:
  assumes "view r = encode_field v @ rest" and "int (length (encode_field v)) \<le> left"
    and "left < 2 ^ 63"
  shows "\<exists>r'. scanField rb rf left r = (Inr (v, int (length (encode_field v))), r') \<and> view r' = rest"
proof -
  let ?d = "itoa_nat (length v)"
  have len: "int (length ?d) + int (length v) + 2 \<le> left"
    using assms(2) by (simp add: encode_field_def)
  obtain r1 where r1: "decimal rb left r = (Inr (int (length v), int (length ?d) + 1), r1)"
      "view r1 = v @ CHR '','' # rest"
    using decimal_complete [of r "length v" "v @ CHR '','' # rest" left] assms(1,3) len
    by (auto simp: encode_field_def)
  obtain r2 where r2: "rf (length v) r1 = (Inr v, r2)" "view r2 = CHR '','' # rest"
    using read_full [of "length v" r1] r1(2) by auto
  obtain r3 where r3: "rb r2 = (Inr (CHR '',''), r3)" "view r3 = rest"
    using read_byte_Cons [OF r2(2)] by auto
  have "i64 (i64 (left - (int (length ?d) + 1)) - 1) = left - int (length ?d) - 2"
    using len assms(3) by simp
  with len r1(1) r2(1) r3 show ?thesis by (simp add: scanField_def encode_field_def)
qed

lemma scanField_sound:
  assumes "scanField rb rf left r = (Inr (b, n), r')" and "left < 2 ^ 63"
  shows "view r = encode_field b @ view r' \<and> n = int (length (encode_field b)) \<and> n \<le> left"
proof -
  from assms(1) obtain sz used r1 r2 where
      pos: "0 < left" and d: "decimal rb left r = (Inr (sz, used), r1)"
      and fit: "\<not> i64 (i64 (left - used) - 1) < sz"
      and f: "rf (nat sz) r1 = (Inr b, r2)" and t: "rb r2 = (Inr (CHR '',''), r')"
      and n: "n = used + sz + 1"
    by (auto simp: scanField_def split: if_splits sum.splits prod.splits)
  obtain k where k: "sz = int k" "view r = itoa_nat k @ CHR '':'' # view r1"
      "used = int (length (itoa_nat k)) + 1" "int k \<le> left"
    using decimal_sound [OF d] pos assms(2) by auto
  have kl: "k \<le> length (view r1)"
    using read_full_short [of r1 "nat sz"] f k(1) by (cases "k \<le> length (view r1)") auto
  then have b: "b = take k (view r1)" "view r2 = drop k (view r1)"
    using read_full [of k r1] f k(1) by auto
  obtain c cs where c: "view r2 = c # cs"
    using read_byte_Nil [of r2] t by (cases "view r2") auto
  have "c = CHR '',''" "view r' = cs" using read_byte_Cons [OF c] t by auto
  with b c have "view r1 = b @ CHR '','' # view r'" by (metis append_take_drop_id)
  moreover have "length b = k" using b kl by simp
  moreover have "used \<le> 20"
    using length_itoa_nat_le [of k 19] k(3,4) assms(2) by simp
  ultimately show ?thesis
    using k fit n pos assms(2) by (simp add: encode_field_def)
qed

lemma scan_fields_complete:
  assumes "view r = concat (map encode_field vs) @ rest" and "0 \<le> used" and "M < 2 ^ 63"
    and "used + int (length (concat (map encode_field vs))) \<le> M"
  shows "\<exists>r'. scan_fields rb rf M mode (length vs) wire fs used r =
      ((if wantWire mode then wire @ concat (map encode_field vs) else wire,
        if wantFields mode then fs @ vs else fs,
        used + int (length (concat (map encode_field vs))), None), r') \<and> view r' = rest"
  using assms(1,2,4)
proof (induction vs arbitrary: r wire fs used)
  case Nil
  then show ?case by simp
next
  case (Cons v vs)
  let ?n = "int (length (encode_field v))"
  have i: "i64 (M - used) = M - used" using Cons.prems(2,3) assms(3) by (intro i64_id) auto
  obtain r1 where "scanField rb rf (M - used) r = (Inr (v, ?n), r1)"
      "view r1 = concat (map encode_field vs) @ rest"
    using scanField_complete [of r v "concat (map encode_field vs) @ rest" "M - used"]
      Cons.prems assms(3) by auto
  moreover note Cons.IH [of r1 "used + ?n" "if wantWire mode then wire @ encode_field v else wire"
      "if wantFields mode then fs @ [v] else fs"]
  ultimately show ?case using Cons.prems by (auto simp: i add.assoc)
qed

lemma scan_fields_sound:
  assumes "scan_fields rb rf M mode k wire fs used r = ((wire', fs', used', None), r')"
    and "0 \<le> used" and "0 \<le> M" and "M < 2 ^ 63" and "used \<le> M + 64"
  shows "\<exists>vs. length vs = k \<and> view r = concat (map encode_field vs) @ view r' \<and>
      wire' = (if wantWire mode then wire @ concat (map encode_field vs) else wire) \<and>
      fs' = (if wantFields mode then fs @ vs else fs) \<and>
      used' = used + int (length (concat (map encode_field vs)))"
  using assms
proof (induction k arbitrary: r wire fs used)
  case 0
  then show ?case by simp
next
  case (Suc k)
  have i: "i64 (M - used) = M - used" using Suc.prems(2-5) by (intro i64_id) auto
  from Suc.prems(1) obtain b n r1 where f: "scanField rb rf (M - used) r = (Inr (b, n), r1)"
    and rest: "scan_fields rb rf M mode k (if wantWire mode then wire @ encode_field b else wire)
        (if wantFields mode then fs @ [b] else fs) (used + n) r1 = ((wire', fs', used', None), r')"
    by (auto simp: i split: sum.splits prod.splits)
  have b: "view r = encode_field b @ view r1" "n = int (length (encode_field b))" "n \<le> M - used"
    using scanField_sound [OF f] Suc.prems(2,4) by auto
  then obtain vs where "length vs = k" "view r1 = concat (map encode_field vs) @ view r'"
      "wire' = (if wantWire mode
                then (if wantWire mode then wire @ encode_field b else wire) @ concat (map encode_field vs)
                else (if wantWire mode then wire @ encode_field b else wire))"
      "fs' = (if wantFields mode then (if wantFields mode then fs @ [b] else fs) @ vs
              else (if wantFields mode then fs @ [b] else fs))"
      "used' = used + n + int (length (concat (map encode_field vs)))"
    using Suc.IH [OF rest] Suc.prems(2-4) by auto
  with b show ?case by (intro exI [of _ "b # vs"]) auto
qed

lemma scanRecord_complete:
  assumes "view r = EncodeRecord vs @ rest" and "length vs \<le> 1024"
    and "int (length (EncodeRecord vs)) \<le> M" and "M < 2 ^ 63"
  shows "\<exists>r'. scanRecord rb rf M mode r =
      ((if wantWire mode then EncodeRecord vs else [], if wantFields mode then vs else [], None), r') \<and>
      view r' = rest"
proof -
  let ?n = "length vs" and ?d = "itoa_nat (length vs)" and ?body = "concat (map encode_field vs)"
  have len: "int (length ?d) + int (length ?body) + 7 \<le> M" "0 < length ?d"
    using assms(3) by (simp_all add: EncodeRecord_def)
  then have M8: "8 \<le> M" by linarith
  obtain r1 where r1: "rf 5 r = (Inr RecordPrefix, r1)" "view r1 = ?d @ CHR '':'' # ?body @ LF # rest"
    using read_full [of 5 r] assms(1) by (auto simp: EncodeRecord_def)
  obtain r2 where r2: "decimal rb MaxRecordFields r1 = (Inr (int ?n, int (length ?d) + 1), r2)"
      "view r2 = ?body @ LF # rest"
    using decimal_complete [OF r1(2), of MaxRecordFields] assms(2) by (auto simp: MaxRecordFields_def)
  have hd: "scanRecordHeader rb rf M r = (Inr (int ?n, int (length ?d) + 6), r2)"
    using r1(1) r2(1) M8 by (simp add: scanRecordHeader_def minRecordOverhead_def)
  let ?u = "int (length ?d) + 6" and ?w = "if wantWire mode then RecordPrefix @ ?d @ '':'' else []"
  obtain r3 where r3: "scan_fields rb rf M mode ?n ?w [] ?u r2 =
      ((if wantWire mode then ?w @ ?body else ?w, if wantFields mode then vs else [],
        ?u + int (length ?body), None), r3)" "view r3 = LF # rest"
    using scan_fields_complete [OF r2(2), of ?u M mode ?w "[]"] len(1) assms(4) by auto
  obtain r4 where r4: "rb r3 = (Inr LF, r4)" "view r4 = rest"
    using read_byte_Cons [OF r3(2)] by auto
  show ?thesis
    using len r3(1) r4
    by (auto simp: scanRecord_def hd readRecordTerminator_def Let_def EncodeRecord_def)
qed

lemma scanRecord_sound:
  assumes "scanRecord rb rf M mode r = ((wire, fs, None), r')" and "M < 2 ^ 63"
  shows "\<exists>vs. view r = EncodeRecord vs @ view r' \<and> length vs \<le> 1024 \<and>
      int (length (EncodeRecord vs)) \<le> M \<and>
      wire = (if wantWire mode then EncodeRecord vs else []) \<and>
      fs = (if wantFields mode then vs else [])"
proof -
  from assms(1) obtain count used r1 wire1 fs1 used1 r2 where
      h: "scanRecordHeader rb rf M r = (Inr (count, used), r1)"
      and f: "scan_fields rb rf M mode (nat count)
          (if wantWire mode then RecordPrefix @ itoa count @ '':'' else []) [] used r1
          = ((wire1, fs1, used1, None), r2)"
      and u1: "used1 < M"
      and t: "readRecordTerminator rb r2 = (None, r')"
      and out: "wire = (if wantWire mode then wire1 @ [LF] else [])" "fs = fs1"
    by (auto simp: scanRecord_def Let_def split: if_splits sum.splits prod.splits option.splits)
  from h obtain c n ra where
      M: "8 \<le> M" and p: "rf 5 r = (Inr RecordPrefix, ra)"
      and d: "decimal rb MaxRecordFields ra = (Inr (count, n), r1)" and used: "used = 5 + n"
    by (auto simp: scanRecordHeader_def minRecordOverhead_def
        split: if_splits sum.splits prod.splits)
  obtain k where k: "count = int k" "view ra = itoa_nat k @ CHR '':'' # view r1"
      "n = int (length (itoa_nat k)) + 1" "k \<le> 1024"
    using decimal_sound [OF d] by (auto simp: MaxRecordFields_def)
  have "5 \<le> length (view r)"
    using read_full_short [of r 5] p by (cases "5 \<le> length (view r)") auto
  then have pre: "view r = RecordPrefix @ view ra"
    using read_full [of 5 r] p by (metis Inr_inject Pair_inject append_take_drop_id)
  have "length (itoa_nat k) \<le> 4" using length_itoa_nat_le [of k 4] k(4) by simp
  then have "0 \<le> used" "used \<le> M + 64" using used k(3) M by auto
  then obtain vs where vs: "length vs = k" "view r1 = concat (map encode_field vs) @ view r2"
      "wire1 = (if wantWire mode then RecordPrefix @ itoa_nat k @ '':'' @ concat (map encode_field vs) else [])"
      "fs1 = (if wantFields mode then vs else [])"
      "used1 = used + int (length (concat (map encode_field vs)))"
    using scan_fields_sound [OF f _ _ assms(2)] M k(1) by auto
  obtain x xs where x: "view r2 = x # xs"
    using read_byte_Nil [of r2] t
    by (cases "view r2") (auto simp: readRecordTerminator_def split: prod.splits)
  then have "x = LF" "view r' = xs"
    using read_byte_Cons [OF x] t by (auto simp: readRecordTerminator_def split: if_splits)
  with x pre k vs out u1 used show ?thesis
    by (intro exI [of _ vs]) (auto simp: EncodeRecord_def)
qed

end

text \<open>What every read of a reader keeps, the scanner keeps.\<close>

locale reader_invariant =
  fixes rb :: "'r read_byte"
    and rf :: "'r read_full"
    and inv :: "'r \<Rightarrow> bool"
  assumes read_byte_inv: "inv r \<Longrightarrow> inv (snd (rb r))"
    and read_full_inv: "inv r \<Longrightarrow> inv (snd (rf n r))"

begin

lemma read_byte_invD: "rb r = (x, r') \<Longrightarrow> inv r \<Longrightarrow> inv r'"
  using read_byte_inv [of r] by simp

lemma read_full_invD: "rf n r = (x, r') \<Longrightarrow> inv r \<Longrightarrow> inv r'"
  using read_full_inv [of r n] by simp

lemma decimal_loop_inv: "rb' = rb \<Longrightarrow> inv r \<Longrightarrow> inv (snd (decimal_loop rb' M v count zero r))"
proof (induction rb' M v count zero r rule: decimal_loop.induct)
  case (1 rb' M v count zero r)
  obtain x r1 where r1: "rb r = (x, r1)" by (cases "rb r")
  then have "inv r1" using "1.prems" read_byte_invD by simp
  with 1 r1 show ?case
    by (subst decimal_loop.simps) (auto simp: Let_def split: sum.splits)
qed

lemma decimal_invD: "decimal rb M r = (x, r') \<Longrightarrow> inv r \<Longrightarrow> inv r'"
  using decimal_loop_inv [OF refl, of r M 0 0 False] by (simp add: decimal_def)

lemma scanField_invD: "scanField rb rf left r = (x, r') \<Longrightarrow> inv r \<Longrightarrow> inv r'"
  by (auto simp: scanField_def split: if_splits sum.splits prod.splits
      dest!: decimal_invD read_byte_invD read_full_invD)

lemma scan_fields_invD:
  "scan_fields rb rf M mode k wire fs used r = (x, r') \<Longrightarrow> inv r \<Longrightarrow> inv r'"
  by (induction k arbitrary: wire fs used r)
     (auto split: sum.splits prod.splits dest!: scanField_invD)

lemma scanRecord_invD: "scanRecord rb rf M mode r = (x, r') \<Longrightarrow> inv r \<Longrightarrow> inv r'"
  by (auto simp: scanRecord_def scanRecordHeader_def readRecordTerminator_def Let_def
      split: if_splits sum.splits prod.splits option.splits
      dest!: decimal_invD read_byte_invD read_full_invD scan_fields_invD)

end

text \<open>A reader whose reads only shorten what is left; a successful scan then consumes something.\<close>

locale shrinking_reader =
  fixes rb :: "'r read_byte"
    and rf :: "'r read_full"
    and left :: "'r \<Rightarrow> nat"
  assumes read_byte_le: "left (snd (rb r)) \<le> left r"
    and read_full_le: "left (snd (rf n r)) \<le> left r"
    and read_full_less: "rf n r = (Inr b, r') \<Longrightarrow> 0 < n \<Longrightarrow> left r' < left r"

sublocale shrinking_reader \<subseteq> bounded: reader_invariant rb rf "\<lambda>r. left r \<le> n" for n
  by unfold_locales (auto intro: order_trans [OF read_byte_le] order_trans [OF read_full_le])

context shrinking_reader
begin

lemma scanRecord_shorter:
  assumes "scanRecord rb rf M mode r = ((wire, fs, None), r')"
  shows "left r' < left r"
proof -
  from assms obtain b r1 c n r2 w fs' u r3 where
      f: "rf (length RecordPrefix) r = (Inr b, r1)"
      and d: "decimal rb MaxRecordFields r1 = (Inr (c, n), r2)"
      and s: "scan_fields rb rf M mode (nat c)
          (if wantWire mode then RecordPrefix @ itoa c @ '':'' else []) [] (5 + n) r2 = ((w, fs', u, None), r3)"
      and t: "readRecordTerminator rb r3 = (None, r')"
    by (auto simp: scanRecord_def scanRecordHeader_def Let_def
        split: if_splits sum.splits prod.splits option.splits)
  have "left r1 < left r" by (rule read_full_less [OF f]) simp
  moreover have "left r2 \<le> left r1" using bounded.decimal_invD [OF d] by simp
  moreover have "left r3 \<le> left r2" using bounded.scan_fields_invD [OF s] by simp
  moreover have "left r' \<le> left r3"
    using t bounded.read_byte_invD [of r3]
    by (auto simp: readRecordTerminator_def split: sum.splits prod.splits if_splits)
  ultimately show ?thesis by linarith
qed

end

subsection \<open>The two readers keep the contract\<close>

interpretation plain: byte_reader source_read_byte source_read_full src_rest
  by unfold_locales
     (auto simp: source_read_byte_def source_read_full_def read_full_at_def)

interpretation recording:
  byte_reader recordReader_ReadByte recordReader_ReadFull "\<lambda>r. src_rest (rr_source r)"
  by unfold_locales
     (auto simp: recordReader_ReadByte_def recordReader_ReadFull_def source_read_byte_def
       read_full_at_def Let_def)

text \<open>What \<open>recordReader\<close> has copied, followed by what is left, is what it was given; and the error
  at the end of the source stays what it is.\<close>

interpretation copying:
  reader_invariant recordReader_ReadByte recordReader_ReadFull
    "\<lambda>r. rr_data r @ src_rest (rr_source r) = all \<and> src_end (rr_source r) = e" for all e
  by unfold_locales
     (auto simp: recordReader_ReadByte_def recordReader_ReadFull_def source_read_byte_def Let_def
       split: list.splits)

interpretation ending:
  reader_invariant source_read_byte source_read_full "\<lambda>r. src_end r = e" for e
  by unfold_locales
     (auto simp: source_read_byte_def source_read_full_def split: list.splits)

interpretation shrinking: shrinking_reader source_read_byte source_read_full "\<lambda>r. length (src_rest r)"
  by unfold_locales
     (auto simp: source_read_byte_def source_read_full_def read_full_at_def split: list.splits if_splits)

interpretation copy_shrinking: shrinking_reader recordReader_ReadByte recordReader_ReadFull
    "\<lambda>r. length (src_rest (rr_source r))"
  by unfold_locales
     (auto simp: recordReader_ReadByte_def recordReader_ReadFull_def source_read_byte_def
       read_full_at_def Let_def split: list.splits if_splits)

lemma source_eqI: "src_rest r = src_rest r' \<Longrightarrow> src_end r = src_end r' \<Longrightarrow> r = (r' :: source)"
  by simp

lemma ReadRecord_exact:
  assumes "M < 2 ^ 63"
  shows "ReadRecord M r = ((wire, fs, None), r') \<longleftrightarrow>
    wire = EncodeRecord fs \<and> src_rest r = wire @ src_rest r' \<and> src_end r' = src_end r \<and>
    length fs \<le> 1024 \<and> int (length wire) \<le> M"
  (is "?L \<longleftrightarrow> ?R")
proof
  assume L: ?L
  then have "src_end r' = src_end r"
    by (auto simp: ReadRecord_def dest: ending.scanRecord_invD [of _ _ _ _ _ "src_end r"])
  with L show ?R
    using plain.scanRecord_sound [OF _ assms, of "\<lparr>wantWire = True, wantFields = True\<rparr>" r wire fs r']
    by (auto simp: ReadRecord_def)
next
  assume R: ?R
  then obtain r2 where r2: "ReadRecord M r = ((wire, fs, None), r2)" "src_rest r2 = src_rest r'"
    using plain.scanRecord_complete [OF _ _ _ assms, of r fs "src_rest r'" "\<lparr>wantWire = True, wantFields = True\<rparr>"]
    by (auto simp: ReadRecord_def)
  then have "src_end r2 = src_end r"
    by (auto simp: ReadRecord_def dest: ending.scanRecord_invD [of _ _ _ _ _ "src_end r"])
  with r2 R show ?L by (metis source_eqI)
qed

text \<open>\<open>ReadRecordWire\<close> returns the bytes it took from the reader, whatever happens.\<close>

lemma ReadRecordWire_consumed:
  "ReadRecordWire M r = ((data, err), r') \<Longrightarrow> src_rest r = data @ src_rest r' \<and> src_end r' = src_end r"
  using copying.scanRecord_invD [of M _ "\<lparr>rr_source = r, rr_data = []\<rparr>" _ _ "src_rest r" "src_end r"]
  by (auto simp: ReadRecordWire_def split: prod.splits)

lemma ReadRecordWire_iff:
  assumes "M < 2 ^ 63"
  shows "(ReadRecordWire M r = ((data, None), r') \<longleftrightarrow> (\<exists>fs. ReadRecord M r = ((data, fs, None), r'))) \<and>
    (\<forall>d e r2. ReadRecordWire M r = ((d, e), r2) \<longrightarrow> src_rest r = d @ src_rest r2)"
proof (intro conjI allI impI iffI)
  assume "ReadRecordWire M r = ((data, None), r')"
  moreover from this obtain w fs reader where
      "scanRecord recordReader_ReadByte recordReader_ReadFull M
         \<lparr>wantWire = False, wantFields = False\<rparr> \<lparr>rr_source = r, rr_data = []\<rparr> = ((w, fs, None), reader)"
      "rr_source reader = r'"
    by (auto simp: ReadRecordWire_def split: prod.splits)
  then obtain vs where "src_rest r = EncodeRecord vs @ src_rest r'" "length vs \<le> 1024"
      "int (length (EncodeRecord vs)) \<le> M"
    using recording.scanRecord_sound [OF _ assms] by fastforce
  ultimately show "\<exists>fs. ReadRecord M r = ((data, fs, None), r')"
    using ReadRecordWire_consumed by (intro exI [of _ vs]) (auto simp: ReadRecord_exact [OF assms])
next
  assume "\<exists>fs. ReadRecord M r = ((data, fs, None), r')"
  then obtain fs where fs: "data = EncodeRecord fs" "src_rest r = data @ src_rest r'"
      "src_end r' = src_end r" "length fs \<le> 1024" "int (length data) \<le> M"
    by (auto simp: ReadRecord_exact [OF assms])
  then obtain reader where reader: "scanRecord recordReader_ReadByte recordReader_ReadFull M
      \<lparr>wantWire = False, wantFields = False\<rparr> \<lparr>rr_source = r, rr_data = []\<rparr> = (([], [], None), reader)"
      "src_rest (rr_source reader) = src_rest r'"
    using recording.scanRecord_complete [of "\<lparr>rr_source = r, rr_data = []\<rparr>" fs "src_rest r'" M
        "\<lparr>wantWire = False, wantFields = False\<rparr>"] assms by auto
  then have w: "ReadRecordWire M r = ((rr_data reader, None), rr_source reader)"
    by (simp add: ReadRecordWire_def)
  with fs reader(2) ReadRecordWire_consumed [OF w] show "ReadRecordWire M r = ((data, None), r')"
    by (simp add: source_eqI)
next
  fix d e r2
  assume "ReadRecordWire M r = ((d, e), r2)"
  then show "src_rest r = d @ src_rest r2" using ReadRecordWire_consumed by blast
qed

lemma ReadRecordWire_exact:
  assumes "M < 2 ^ 63"
  shows "ReadRecordWire M r = ((data, None), r') \<longleftrightarrow>
    (\<exists>vs. data = EncodeRecord vs \<and> src_rest r = data @ src_rest r' \<and> src_end r' = src_end r \<and>
      length vs \<le> 1024 \<and> int (length data) \<le> M)"
  using ReadRecordWire_iff [OF assms] by (auto simp: ReadRecord_exact [OF assms])

text \<open>C39: \<open>ReadRecordWire\<close>, which copies the bytes it reads instead of rendering the fields again,
  accepts the same records as \<open>ReadRecord\<close> with the same bytes; and on every outcome, errors
  included, the bytes returned and the bytes left in the source are together the bytes given.\<close>

theorem ReadRecordWire_agrees:
  assumes "M < 2 ^ 63"
  shows "(ReadRecordWire M r = ((data, None), r') \<longleftrightarrow> (\<exists>fs. ReadRecord M r = ((data, fs, None), r'))) \<and>
    (\<forall>d e r2. ReadRecordWire M r = ((d, e), r2) \<longrightarrow> src_rest r = d @ src_rest r2)"
  by (rule ReadRecordWire_iff [OF assms])

lemma ReadRecordWire_agrees_witness:
  "ReadRecordWire 64 (bytes_reader (EncodeRecord [''a'', [LF]] @ ''x''))
     = ((EncodeRecord [''a'', [LF]], None), bytes_reader ''x'')"
  by (rule ReadRecordWire_agrees [of 64, THEN conjunct1, THEN iffD2], simp,
      rule exI [of _ "[''a'', [LF]]"])
     (simp_all add: ReadRecord_exact bytes_reader_def EncodeRecord_def encode_field_def
       itoa_nat_small RecordPrefix_def)

text \<open>A record is read without error exactly when the reader starts with the canonical encoding
  of some fields, at most 1024 of them and within the byte limit; then precisely that encoding is
  consumed and returned, and the fields are the encoded ones. Overlong, truncated, zero-padded or
  otherwise non-canonical records are all errors.\<close>

theorem ReadRecord_canonical:
  assumes "M < 2 ^ 63"
  shows "ReadRecord M r = ((wire, fs, None), r') \<longleftrightarrow>
    wire = EncodeRecord fs \<and> src_rest r = wire @ src_rest r' \<and> src_end r' = src_end r \<and>
    length fs \<le> 1024 \<and> int (length wire) \<le> M"
  by (rule ReadRecord_exact [OF assms])

lemma ReadRecord_canonical_witness:
  "ReadRecord 64 (bytes_reader (EncodeRecord [''a'', []] @ ''rest''))
     = ((EncodeRecord [''a'', []], [''a'', []], None), bytes_reader ''rest'')"
  by (subst ReadRecord_canonical)
     (simp_all add: bytes_reader_def EncodeRecord_def encode_field_def itoa_nat_small RecordPrefix_def)

subsection \<open>A sequence of records\<close>

lemma ReadRecordFields_shorter:
  "ReadRecordFields M r = (Inr fs, r') \<Longrightarrow> length (src_rest r') < length (src_rest r)"
  by (auto simp: ReadRecordFields_def split: prod.splits option.splits dest: shrinking.scanRecord_shorter)

lemma ReadRecordFields_exact:
  assumes "M < 2 ^ 63"
  shows "ReadRecordFields M r = (Inr fs, r') \<longleftrightarrow>
    src_rest r = EncodeRecord fs @ src_rest r' \<and> src_end r' = src_end r \<and>
    length fs \<le> 1024 \<and> int (length (EncodeRecord fs)) \<le> M"
  (is "?L \<longleftrightarrow> ?R")
proof
  let ?m = "\<lparr>wantWire = False, wantFields = True\<rparr>"
  assume ?L
  then obtain w where
      w: "scanRecord source_read_byte source_read_full M ?m r = ((w, fs, None), r')"
    by (auto simp: ReadRecordFields_def split: prod.splits option.splits)
  show ?R
    using plain.scanRecord_sound [OF w assms] ending.scanRecord_invD [OF w, of "src_end r"] by simp
next
  let ?m = "\<lparr>wantWire = False, wantFields = True\<rparr>"
  assume R: ?R
  then obtain r2 where
      w: "scanRecord source_read_byte source_read_full M ?m r = (([], fs, None), r2)"
      "src_rest r2 = src_rest r'"
    using plain.scanRecord_complete [OF _ _ _ assms, of r fs "src_rest r'" ?m] by auto
  with R ending.scanRecord_invD [OF w(1), of "src_end r"] have "r2 = r'"
    by (simp add: source_eqI)
  with w show ?L by (simp add: ReadRecordFields_def)
qed

function parse_records_loop :: "int \<Rightarrow> source \<Rightarrow> bytes list list \<Rightarrow> goerr + bytes list list" where
  "parse_records_loop fieldCount r out =
     (if src_rest r = [] then Inr out
      else (case ReadRecordFields (int (length (src_rest r))) r of
        (Inl e, r') \<Rightarrow> Inl e
      | (Inr fs, r') \<Rightarrow>
          if int (length fs) \<noteq> fieldCount then Inl (Sentinel ErrRecord)
          else parse_records_loop fieldCount r' (out @ [fs])))"
  by pat_completeness auto
termination
  by (relation "measure (\<lambda>(fieldCount, r, out). length (src_rest r))")
     (auto dest!: sym [of _ "ReadRecordFields _ _"] ReadRecordFields_shorter)

declare parse_records_loop.simps [simp del]

definition ParseRecords :: "bytes \<Rightarrow> int \<Rightarrow> goerr + bytes list list" where
  "ParseRecords data fieldCount = parse_records_loop fieldCount (bytes_reader data) []"

lemma EncodeRecord_not_Nil [simp]: "EncodeRecord vs \<noteq> []"
  by (simp add: EncodeRecord_def)

abbreviation row_ok :: "int \<Rightarrow> bytes list \<Rightarrow> bool" where
  "row_ok k row \<equiv> int (length row) = k \<and> length row \<le> 1024"

lemma parse_records_loop_iff:
  "length (src_rest r) < 2 ^ 63 \<Longrightarrow> src_end r = Sentinel IoEOF \<Longrightarrow>
   parse_records_loop k r out = Inr rows \<longleftrightarrow>
   (\<exists>new. rows = out @ new \<and> src_rest r = concat (map EncodeRecord new) \<and> list_all (row_ok k) new)"
proof (induction k r out rule: parse_records_loop.induct)
  case (1 k r out)
  show ?case
  proof (cases "src_rest r = []")
    case True
    then show ?thesis by (subst parse_records_loop.simps) (force simp: Cons_eq_map_conv)
  next
    case False
    let ?M = "int (length (src_rest r))"
    have M: "?M < 2 ^ 63" using "1.prems"(1) by simp
    show ?thesis
    proof
      assume "parse_records_loop k r out = Inr rows"
      with False obtain fs r' where fs: "ReadRecordFields ?M r = (Inr fs, r')"
          and k: "int (length fs) = k" and rec: "parse_records_loop k r' (out @ [fs]) = Inr rows"
        by (subst (asm) parse_records_loop.simps) (auto split: sum.splits prod.splits if_splits)
      from fs have e: "src_rest r = EncodeRecord fs @ src_rest r'" "src_end r' = src_end r"
          "length fs \<le> 1024"
        by (simp_all add: ReadRecordFields_exact [OF M])
      then obtain new where "rows = (out @ [fs]) @ new" "src_rest r' = concat (map EncodeRecord new)"
          "list_all (row_ok k) new"
        using "1.IH" [OF False fs [symmetric] refl] k rec "1.prems" by auto
      with e k show "\<exists>new. rows = out @ new \<and> src_rest r = concat (map EncodeRecord new) \<and>
          list_all (row_ok k) new"
        by (intro exI [of _ "fs # new"]) auto
    next
      assume "\<exists>new. rows = out @ new \<and> src_rest r = concat (map EncodeRecord new) \<and>
          list_all (row_ok k) new"
      then obtain all where all: "rows = out @ all" "src_rest r = concat (map EncodeRecord all)"
          "list_all (row_ok k) all"
        by blast
      with False obtain fs new where "all = fs # new" by (cases all) auto
      with all have new: "rows = out @ fs # new"
          "src_rest r = EncodeRecord fs @ concat (map EncodeRecord new)"
          "row_ok k fs" "list_all (row_ok k) new"
        by auto
      let ?r' = "r\<lparr>src_rest := concat (map EncodeRecord new)\<rparr>"
      have fs: "ReadRecordFields ?M r = (Inr fs, ?r')"
        unfolding ReadRecordFields_exact [OF M] using new by simp
      have "parse_records_loop k ?r' (out @ [fs]) = Inr rows"
        using "1.IH" [OF False fs [symmetric] refl] new "1.prems" by auto
      with False fs new(3) show "parse_records_loop k r out = Inr rows"
        by (subst parse_records_loop.simps) simp
    qed
  qed
qed

text \<open>C38: \<open>ParseRecords\<close> accepts a byte string exactly when it is a concatenation of canonical
  records with the expected number of fields, and returns these rows in their order; in particular
  nothing before, between or after the records is ever skipped, and the encoding of a table is
  unambiguous.\<close>

theorem ParseRecords_exact:
  assumes "length data < 2 ^ 63"
  shows "ParseRecords data k = Inr rows \<longleftrightarrow>
    data = concat (map EncodeRecord rows) \<and> (\<forall>row \<in> set rows. int (length row) = k \<and> length row \<le> 1024)"
  using parse_records_loop_iff [of "bytes_reader data" k "[]" rows] assms
  by (simp add: ParseRecords_def bytes_reader_def list_all_iff)

lemma ParseRecords_exact_witness:
  "ParseRecords (EncodeRecord [''a'', ''b''] @ EncodeRecord [''c'', '',,'']) 2
     = Inr [[''a'', ''b''], [''c'', '',,'']]"
  by (subst ParseRecords_exact)
     (simp_all add: EncodeRecord_def encode_field_def itoa_nat_small RecordPrefix_def)

lemma ParseRecords_concat:
  "length (concat (map EncodeRecord rows)) < 2 ^ 63 \<Longrightarrow> list_all (row_ok k) rows \<Longrightarrow>
   ParseRecords (concat (map EncodeRecord rows)) k = Inr rows"
  using parse_records_loop_iff [of "bytes_reader (concat (map EncodeRecord rows))" k "[]" rows]
  by (simp add: ParseRecords_def bytes_reader_def)

end
