(* ===== verification/Wire_Formats.thy ===== *)
theory Wire_Formats
  imports Wire_Words Wire_Records
begin

text \<open>
  \<open>internal/wire/records.go\<close>, second part: the tmux format strings that make tmux answer in
  records, the rewriting that keeps a caller's format expression inside its braces, and the octal
  dialect of control-mode output.
\<close>

subsection \<open>Format strings\<close>

definition special_after_hash :: "byte \<Rightarrow> bool" where
  "special_after_hash c \<longleftrightarrow> c \<in> set '',#{}:''"

text \<open>The loop of \<open>nestedExpression\<close>: the text still to be read, the result so far and the
  positions in the result of the braces that are open.\<close>

fun nested_loop :: "bytes \<Rightarrow> bytes \<Rightarrow> nat list \<Rightarrow> bytes \<times> nat list" where
  "nested_loop [] acc openings = (acc, openings)"
| "nested_loop [c] acc openings =
     (if c = CHR ''#'' then (acc, openings)
      else if c = CHR ''}'' then
        if openings = [] then (acc @ ''#}'', openings) else (acc @ [c], butlast openings)
      else (acc @ [c], openings))"
| "nested_loop (c # d # rest) acc openings =
     (if c = CHR ''#'' \<and> special_after_hash d then
        nested_loop rest (acc @ [c, d]) (if d = CHR ''{'' then openings @ [length acc] else openings)
      else if c = CHR ''}'' then
        if openings = [] then nested_loop (d # rest) (acc @ ''#}'') openings
        else nested_loop (d # rest) (acc @ [c]) (butlast openings)
      else nested_loop (d # rest) (acc @ [c]) openings)"

definition nestedExpression :: "bytes \<Rightarrow> bytes" where
  "nestedExpression expr =
     (let (acc, openings) = nested_loop expr [] [] in
      if openings \<noteq> [] then take (hd openings) acc else acc)"

definition RecordFormat :: "bytes list \<Rightarrow> bytes" where
  "RecordFormat fs =
     RecordPrefix @ itoa_nat (length fs) @ '':'' @
     concat (map (\<lambda>f. ''#{n:'' @ f @ ''}:#{'' @ f @ ''},'') fs)"

definition ExpressionsFormat :: "bytes list \<Rightarrow> bytes" where
  "ExpressionsFormat exprs =
     RecordPrefix @ itoa_nat (length exprs) @ '':'' @
     concat (map (\<lambda>e. let nested = nestedExpression e in
                      ''#{n:#{l:}'' @ nested @ ''}:'' @ nested @ '','') exprs)"

definition ExpressionFormat :: "bytes \<Rightarrow> bytes" where
  "ExpressionFormat expr = ExpressionsFormat [expr]"

text \<open>The brace depth after a text, as tmux skips over a nested format: a hash protects the five
  special bytes, \<open>#{\<close> opens and a bare closing brace closes. There is no depth after an unmatched
  closing brace or a dangling hash.\<close>

fun depth_after :: "nat \<Rightarrow> bytes \<Rightarrow> nat option" where
  "depth_after d [] = Some d"
| "depth_after d [c] =
     (if c = CHR ''#'' then None
      else if c = CHR ''}'' then (case d of 0 \<Rightarrow> None | Suc d' \<Rightarrow> Some d')
      else Some d)"
| "depth_after d (c # e # rest) =
     (if c = CHR ''#'' \<and> special_after_hash e
      then depth_after (if e = CHR ''{'' then Suc d else d) rest
      else if c = CHR ''}'' then (case d of 0 \<Rightarrow> None | Suc d' \<Rightarrow> depth_after d' (e # rest))
      else depth_after d (e # rest))"

abbreviation balanced :: "bytes \<Rightarrow> bool" where
  "balanced s \<equiv> depth_after 0 s = Some 0"

lemma depth_after_append: "depth_after d s = Some e \<Longrightarrow> depth_after d (s @ t) = depth_after e t"
proof (induction d s rule: depth_after.induct)
  case (2 d c)
  then show ?case by (cases t) (auto split: if_splits nat.splits)
qed (auto split: if_splits nat.splits)

lemma special_after_hash_simps [simp]:
  "special_after_hash CHR ''#''" "special_after_hash CHR ''{''" "special_after_hash CHR ''}''"
  by (simp_all add: special_after_hash_def)

lemma depth_after_pieces [simp]:
  "special_after_hash c \<Longrightarrow> depth_after d [CHR ''#'', c] = Some (if c = CHR ''{'' then Suc d else d)"
  "\<not> special_after_hash c \<Longrightarrow> depth_after d [CHR ''#'', c] = Some d"
  "depth_after (Suc d) ''}'' = Some d"
  "c \<noteq> CHR ''#'' \<Longrightarrow> c \<noteq> CHR ''}'' \<Longrightarrow> depth_after d [c] = Some d"
  by auto

text \<open>Each open brace is recorded at a position of the result where the depth is its index.\<close>

definition recorded :: "bytes \<Rightarrow> nat list \<Rightarrow> bool" where
  "recorded acc openings \<longleftrightarrow>
     depth_after 0 acc = Some (length openings) \<and>
     (\<forall>i < length openings. openings ! i \<le> length acc \<and>
        depth_after 0 (take (openings ! i) acc) = Some i)"

lemma recorded_write:
  assumes "recorded acc openings" and "depth_after (length openings) s = Some (length openings)"
  shows "recorded (acc @ s) openings"
  using assms by (auto simp: recorded_def depth_after_append)

lemma recorded_open:
  assumes "recorded acc openings"
  shows "recorded (acc @ ''#{'') (openings @ [length acc])"
  using assms by (auto simp: recorded_def depth_after_append nth_append less_Suc_eq)

lemma recorded_close:
  assumes "recorded acc openings" and "openings \<noteq> []"
  shows "recorded (acc @ ''}'') (butlast openings)"
proof -
  have "length openings = Suc (length (butlast openings))" using assms(2) by simp
  with assms show ?thesis
    by (auto simp: recorded_def depth_after_append nth_butlast intro: le_SucI
        simp del: length_butlast)
qed

lemma nested_loop_plain:
  assumes "\<not> special_after_hash d"
  shows "nested_loop (d # rest) acc openings = nested_loop rest (acc @ [d]) openings"
proof -
  have "d \<noteq> CHR ''#''" "d \<noteq> CHR ''}''" using assms by auto
  then show ?thesis by (cases rest) auto
qed

lemma nested_loop_recorded:
  "recorded acc openings \<Longrightarrow>
   recorded (fst (nested_loop rest acc openings)) (snd (nested_loop rest acc openings))"
proof (induction rest arbitrary: acc openings rule: length_induct)
  case (1 rest)
  note IH = "1.IH" [rule_format]
  show ?case
  proof (cases rest)
    case Nil
    with "1.prems" show ?thesis by simp
  next
    case (Cons c more)
    show ?thesis
    proof (cases "c = CHR ''#''")
      case hash: True
      show ?thesis
      proof (cases more)
        case Nil
        with Cons hash "1.prems" show ?thesis by simp
      next
        case more: (Cons d tail)
        show ?thesis
        proof (cases "special_after_hash d")
          case True
          then have "recorded (acc @ [c, d])
              (if d = CHR ''{'' then openings @ [length acc] else openings)"
            using hash "1.prems" recorded_open recorded_write by simp
          with True Cons more hash show ?thesis by (simp add: IH)
        next
          case False
          then have "recorded (acc @ [c, d]) openings"
            using hash "1.prems"
            by (intro recorded_write) (simp_all del: depth_after.simps)
          moreover have "nested_loop rest acc openings = nested_loop tail (acc @ [c, d]) openings"
            using False hash Cons more nested_loop_plain [OF False, of tail "acc @ [c]" openings] by simp
          ultimately show ?thesis using Cons more by (simp add: IH)
        qed
      qed
    next
      case False
      then have "nested_loop rest acc openings =
          (if c = CHR ''}'' then
             if openings = [] then nested_loop more (acc @ ''#}'') openings
             else nested_loop more (acc @ [c]) (butlast openings)
           else nested_loop more (acc @ [c]) openings)"
        using Cons by (cases more) auto
      moreover have "c = CHR ''}'' \<Longrightarrow> openings = [] \<Longrightarrow> recorded (acc @ ''#}'') openings"
        using "1.prems" recorded_write [of acc openings "''#}''"] by simp
      moreover have "c = CHR ''}'' \<Longrightarrow> openings \<noteq> [] \<Longrightarrow> recorded (acc @ [c]) (butlast openings)"
        using "1.prems" recorded_close by simp
      moreover have "c \<noteq> CHR ''}'' \<Longrightarrow> recorded (acc @ [c]) openings"
        using False "1.prems" recorded_write by simp
      ultimately show ?thesis using Cons by (auto simp: IH)
    qed
  qed
qed

lemma nestedExpression_depth: "balanced (nestedExpression expr)"
proof -
  obtain acc openings where n: "nested_loop expr [] [] = (acc, openings)" by fastforce
  then have r: "recorded acc openings"
    using nested_loop_recorded [of "[]" "[]" expr] by (simp add: recorded_def)
  show ?thesis
  proof (cases openings)
    case Nil
    with n r show ?thesis by (simp add: nestedExpression_def recorded_def)
  next
    case (Cons i more)
    with r have "depth_after 0 (take (openings ! 0) acc) = Some 0" unfolding recorded_def by blast
    with n Cons show ?thesis by (simp add: nestedExpression_def)
  qed
qed

lemma nested_loop_fixed:
  "depth_after (length openings) s = Some d \<Longrightarrow>
   fst (nested_loop s acc openings) = acc @ s \<and> length (snd (nested_loop s acc openings)) = d"
  by (induction s acc openings rule: nested_loop.induct)
     (auto split: if_splits nat.splits)

lemma nestedExpression_balanced: "balanced s \<Longrightarrow> nestedExpression s = s"
  using nested_loop_fixed [of "[]" s 0 "[]"] by (auto simp: nestedExpression_def Let_def split: prod.splits)

lemma depth_after_no_hash:
  "list_all (\<lambda>c. c \<noteq> CHR ''#'' \<and> c \<noteq> CHR ''}'') s \<Longrightarrow> depth_after d s = Some d"
  by (induction d s rule: depth_after.induct) auto

lemma depth_after_concat: "(\<And>s. s \<in> set ss \<Longrightarrow> depth_after d s = Some d) \<Longrightarrow> depth_after d (concat ss) = Some d"
  by (induction ss) (simp_all add: depth_after_append)

lemma depth_after_prefix:
  "list_all (\<lambda>c. c \<noteq> CHR ''#'' \<and> c \<noteq> CHR ''}'') s \<Longrightarrow> depth_after d (s @ t) = depth_after d t"
  using depth_after_append [OF depth_after_no_hash] .

lemma itoa_nat_no_hash: "list_all (\<lambda>c. c \<noteq> CHR ''#'' \<and> c \<noteq> CHR ''}'') (itoa_nat n)"
  by (auto simp: list_all_iff is_digit_def dest!: set_itoa_nat)

lemma depth_after_deeper:
  "depth_after d s = Some e \<Longrightarrow> depth_after (d + k) s = Some (e + k)"
  by (induction d s rule: depth_after.induct) (auto split: if_splits nat.splits)

lemma ExpressionsFormat_balanced: "balanced (ExpressionsFormat exprs)"
proof -
  have piece: "balanced (''#{n:#{l:}'' @ s @ ''}:'' @ s @ '','')" if s: "balanced s" for s
  proof -
    have "depth_after 0 ''#{n:#{l:}'' = Some 1" by (simp add: special_after_hash_def)
    moreover have "depth_after 1 s = Some 1" using depth_after_deeper [OF s, of 1] by simp
    moreover have "depth_after 1 ''}:'' = Some 0" by simp
    moreover have "depth_after 0 '','' = Some 0" by simp
    ultimately show ?thesis using s
      by (simp only: depth_after_append)
  qed
  have "balanced (concat (map (\<lambda>e. let nested = nestedExpression e in
        ''#{n:#{l:}'' @ nested @ ''}:'' @ nested @ '','') exprs))"
    by (rule depth_after_concat) (auto simp: Let_def simp del: append.simps intro: piece nestedExpression_depth)
  moreover have "list_all (\<lambda>c. c \<noteq> CHR ''#'' \<and> c \<noteq> CHR ''}'') (RecordPrefix @ itoa_nat (length exprs) @ '':'')"
    using itoa_nat_no_hash by (simp add: RecordPrefix_def)
  moreover have "ExpressionsFormat exprs = (RecordPrefix @ itoa_nat (length exprs) @ '':'') @
      concat (map (\<lambda>e. let nested = nestedExpression e in
        ''#{n:#{l:}'' @ nested @ ''}:'' @ nested @ '','') exprs)"
    by (simp add: ExpressionsFormat_def)
  ultimately show ?thesis by (simp only: depth_after_prefix)
qed

text \<open>Whatever expression a caller gives, its nested form closes every brace it opens, closes none
  it did not open and ends in no dangling hash, so that it cannot end or extend the tmux format it is
  put into, and the record format built from any list of expressions is itself closed; and an expression that has these properties already is not changed.\<close>

theorem nestedExpression_contained:
  "depth_after 0 (nestedExpression expr) = Some 0 \<and>
   (nestedExpression expr = expr \<longleftrightarrow> depth_after 0 expr = Some 0) \<and>
   depth_after 0 (ExpressionsFormat exprs) = Some 0"
  using nestedExpression_depth nestedExpression_balanced ExpressionsFormat_balanced by metis

subsection \<open>The octal dialect of control output\<close>

text \<open>\<open>decodeOctalEscape\<close> on the bytes after the backslash. The accumulator is at most 511, so the
  \<open>uint16\<close> of the source does not wrap.\<close>

definition decodeOctalEscape :: "bytes \<Rightarrow> goerr + byte" where
  "decodeOctalEscape rest =
     (if length rest < 3 \<or> \<not> list_all is_octal_digit (take 3 rest) then Inl (Sentinel ErrRecord)
      else let x = foldl (\<lambda>x c. x * 8 + digit_val c) 0 (take 3 rest) in
           if 255 < x then Inl (Sentinel ErrRecord) else Inr (char_of x))"

definition decode_octal_byte :: "byte \<Rightarrow> bytes \<Rightarrow> goerr + byte \<times> bytes" where
  "decode_octal_byte b rest =
     (if b = backslash then bind_res (decodeOctalEscape rest) (\<lambda>d. Inr (d, drop 3 rest))
      else Inr (b, rest))"

lemma decode_octal_byte_length: "decode_octal_byte b rest = Inr (c, rest') \<Longrightarrow> length rest' \<le> length rest"
  by (auto simp: decode_octal_byte_def bind_res_Inr_iff split: if_splits)

function decode_octal_loop :: "int \<Rightarrow> bytes \<Rightarrow> bytes \<Rightarrow> goerr + bytes" where
  "decode_octal_loop maxBytes out [] = Inr out"
| "decode_octal_loop maxBytes out (b # rest) =
     (case decode_octal_byte b rest of
        Inl e \<Rightarrow> Inl e
      | Inr (c, rest') \<Rightarrow>
          if maxBytes \<le> int (length out) then Inl (Sentinel ErrRecord)
          else decode_octal_loop maxBytes (out @ [c]) rest')"
  by pat_completeness auto
termination
  by (relation "measure (\<lambda>(maxBytes, out, data). length data)")
     (auto dest!: sym [of _ "decode_octal_byte _ _"] decode_octal_byte_length)

definition DecodeOctal :: "bytes \<Rightarrow> int \<Rightarrow> goerr + bytes" where
  "DecodeOctal data maxBytes =
     (if maxBytes < 0 \<or> (2 ^ 63 - 1) div 4 < maxBytes \<or> i64 (maxBytes * 4) < int (length data)
      then Inl (Sentinel ErrRecord)
      else decode_octal_loop maxBytes [] data)"

text \<open>The spellings of a byte in control output.\<close>

definition spells :: "bytes \<Rightarrow> byte \<Rightarrow> bool" where
  "spells p c \<longleftrightarrow> p = [c] \<and> c \<noteq> backslash \<or> p = octal_escape c"

lemma octal_value:
  assumes "is_octal_digit a" "is_octal_digit b" "is_octal_digit c"
    and "(digit_val a * 8 + digit_val b) * 8 + digit_val c \<le> 255"
  shows "octal_escape (char_of ((digit_val a * 8 + digit_val b) * 8 + digit_val c)) = [backslash, a, b, c]"
proof -
  define p where "p = digit_val a * 8 + digit_val b"
  let ?x = "p * 8 + digit_val c"
  have d: "digit_val a < 8" "digit_val b < 8" "digit_val c < 8"
    using assms(1-3) by (auto simp: is_octal_digit_def digit_val_def)
  then have m: "?x mod 8 = digit_val c" "?x div 8 = p" by simp_all
  have "?x div 64 = ?x div 8 div 8" by (simp add: div_mult2_eq [symmetric])
  then have "?x div 64 = p div 8" using m(2) by simp
  moreover from d have "p div 8 = digit_val a" "p mod 8 = digit_val b" by (simp_all add: p_def)
  moreover have "char_of (48 + digit_val y) = y" if "is_octal_digit y" for y
    using that by (simp add: is_octal_digit_def digit_val_def)
  ultimately show ?thesis using assms m unfolding p_def [symmetric]
    by (simp add: octal_escape_def of_char_of)
qed

lemma decodeOctalEscape_escape: "decodeOctalEscape (tl (octal_escape c) @ rest) = Inr c"
proof -
  have lt: "code c < 256" by (rule code_less_256)
  then have n: "code c div 64 < 4" "code c div 8 mod 8 < 8" "code c mod 8 < 8" by linarith+
  then have "code c div 64 \<le> 7" "code c div 8 mod 8 \<le> 7" "code c mod 8 \<le> 7" by linarith+
  then show ?thesis
    using lt octal_digits_of_byte [OF lt]
    by (simp add: decodeOctalEscape_def octal_escape_def is_octal_digit_def digit_val_def of_char_of
        Let_def, use lt in linarith)
qed

lemma decodeOctalEscape_Inr:
  assumes "decodeOctalEscape rest = Inr c"
  shows "backslash # rest = octal_escape c @ drop 3 rest"
proof -
  obtain x y z t where r: "rest = x # y # z # t"
    using assms by (auto simp: decodeOctalEscape_def not_less numeral_3_eq_3 Suc_le_length_iff
        split: if_splits)
  with assms octal_value [of x y z] show ?thesis
    by (auto simp: decodeOctalEscape_def Let_def split: if_splits)
qed

lemma decode_octal_byte_iff:
  "decode_octal_byte b rest = Inr (c, rest') \<longleftrightarrow> (\<exists>p. spells p c \<and> b # rest = p @ rest')"
proof
  assume "decode_octal_byte b rest = Inr (c, rest')"
  then show "\<exists>p. spells p c \<and> b # rest = p @ rest'"
    by (auto simp: decode_octal_byte_def bind_res_Inr_iff spells_def dest!: decodeOctalEscape_Inr
        split: if_splits)
next
  assume "\<exists>p. spells p c \<and> b # rest = p @ rest'"
  then consider "b = c" "c \<noteq> backslash" "rest = rest'"
    | "b = backslash" "rest = tl (octal_escape c) @ rest'"
    by (auto simp: spells_def octal_escape_def)
  then show "decode_octal_byte b rest = Inr (c, rest')"
  proof cases
    case 2
    have "drop 3 (tl (octal_escape c) @ rest') = rest'" by (simp add: octal_escape_def)
    with 2 show ?thesis
      by (simp only: if_True simp_thms
          decode_octal_byte_def decodeOctalEscape_escape bind_res_simps)
  qed (simp add: decode_octal_byte_def)
qed

inductive spelled :: "bytes \<Rightarrow> bytes \<Rightarrow> bool" where
  spelled_Nil: "spelled [] []"
| spelled_Cons: "spells p c \<Longrightarrow> spelled data out \<Longrightarrow> spelled (p @ data) (c # out)"

lemma spells_not_Nil: "spells p c \<Longrightarrow> p \<noteq> []"
  by (auto simp: spells_def octal_escape_def)

inductive_cases spelled_ConsE: "spelled data (c # out)"
inductive_cases spelled_NilE: "spelled data []"

lemma spelled_Nil_iff: "spelled [] out \<longleftrightarrow> out = []"
  by (auto intro: spelled_Nil elim: spelled.cases dest: spells_not_Nil)

lemma spelled_length: "spelled data out \<Longrightarrow> length data \<le> 4 * length out"
  by (induction rule: spelled.induct) (auto simp: spells_def octal_escape_def)

lemma decode_octal_loop_iff:
  "decode_octal_loop M out data = Inr r \<longleftrightarrow>
   (\<exists>new. r = out @ new \<and> spelled data new \<and> (new = [] \<or> int (length r) \<le> M))"
proof (induction M out data rule: decode_octal_loop.induct)
  case (1 M out)
  then show ?case by (auto simp: spelled_Nil_iff)
next
  case (2 M out b rest)
  show ?case
  proof
    assume L: "decode_octal_loop M out (b # rest) = Inr r"
    then obtain c rest' where c: "decode_octal_byte b rest = Inr (c, rest')" "\<not> M \<le> int (length out)"
        "decode_octal_loop M (out @ [c]) rest' = Inr r"
      by (auto split: sum.splits prod.splits if_splits)
    then obtain new where "r = (out @ [c]) @ new" "spelled rest' new" "new = [] \<or> int (length r) \<le> M"
      using "2.IH" [OF c(1) refl] by auto
    moreover obtain p where "spells p c" "b # rest = p @ rest'"
      using c(1) by (auto simp: decode_octal_byte_iff)
    ultimately show "\<exists>new. r = out @ new \<and> spelled (b # rest) new \<and> (new = [] \<or> int (length r) \<le> M)"
      using c(2) by (intro exI [of _ "c # new"]) (auto intro: spelled_Cons)
  next
    assume "\<exists>new. r = out @ new \<and> spelled (b # rest) new \<and> (new = [] \<or> int (length r) \<le> M)"
    then obtain c new where n: "r = out @ c # new" "spelled (b # rest) (c # new)" "int (length r) \<le> M"
      by (metis list.exhaust spelled_NilE list.distinct(1))
    then obtain p rest' where p: "b # rest = p @ rest'" "spells p c" "spelled rest' new"
      by (auto elim: spelled_ConsE)
    then have c: "decode_octal_byte b rest = Inr (c, rest')" by (auto simp: decode_octal_byte_iff)
    have "\<not> M \<le> int (length out)" using n(1,3) by simp
    moreover have "decode_octal_loop M (out @ [c]) rest' = Inr r"
      using "2.IH" [OF c refl] calculation n p(3) by auto
    ultimately show "decode_octal_loop M out (b # rest) = Inr r" using c by simp
  qed
qed

text \<open>C40: \<open>DecodeOctal\<close> returns a byte string exactly when its input spells that string, each byte
  either itself (any byte but a backslash) or a backslash and its three octal digits, and the string
  fits the limit; malformed escapes, escapes above 255 and longer texts are errors, and nothing else
  is. So for any choice of which bytes tmux escapes, its output is decoded to the original bytes.\<close>

theorem DecodeOctal_exact:
  assumes "0 \<le> maxBytes" and "maxBytes \<le> (2 ^ 63 - 1) div 4"
  shows "DecodeOctal data maxBytes = Inr out \<longleftrightarrow> spelled data out \<and> int (length out) \<le> maxBytes"
proof -
  have "4 * maxBytes \<le> 4 * ((2 ^ 63 - 1) div 4)" using assms(2) by (rule mult_left_mono) simp
  then have "i64 (maxBytes * 4) = maxBytes * 4" using assms by (intro i64_id) auto
  then show ?thesis
    using assms spelled_length [of data out]
    by (auto simp: DecodeOctal_def decode_octal_loop_iff)
qed

lemma spelled_bytes: "list_all2 spells ps out \<Longrightarrow> spelled (concat ps) out"
  by (induction rule: list_all2_induct) (auto intro: spelled_Nil spelled_Cons)

lemma DecodeOctal_exact_witness:
  "DecodeOctal (''a'' @ octal_escape LF @ octal_escape (CHR ''z'')) 3 = Inr [CHR ''a'', LF, CHR ''z'']"
  by (subst DecodeOctal_exact)
     (use spelled_bytes [of "[''a'', octal_escape LF, octal_escape (CHR ''z'')]" "[CHR ''a'', LF, CHR ''z'']"]
      in \<open>simp_all add: spells_def backslash_def\<close>)

end
