(* ===== verification/Control_Events.thy ===== *)
theory Control_Events
  imports Go_Text Tmux_Ids Wire_Formats
begin

text \<open>
  \<open>tmux/events.go\<close>: the notifications of control mode, their size in the event budget and their
  decoder. \<open>time.Now()\<close> is the argument \<open>now\<close>. Events are values here, so the defensive copies
  of \<open>cloneEvent\<close>, \<open>Data\<close> and \<open>Payload\<close> are the identity. A decoder that reports whether it knew
  the name returns \<open>None\<close> when it did not.
\<close>

record event_base =
  ev_name :: bytes
  ev_received :: time

datatype event =
    PaneOutputEvent event_base bytes "int gvalue" bytes
  | PanePauseEvent event_base bytes
  | PaneContinueEvent event_base bytes
  | LayoutChangedEvent event_base bytes bytes bytes bytes
  | SessionEvent event_base "bytes gvalue" "bytes gvalue" bytes
  | WindowEvent event_base bytes "bytes gvalue" bytes
  | ClientEvent event_base bytes "bytes gvalue" bytes
  | SubscriptionEvent event_base bytes "bytes gvalue" "bytes gvalue" "bytes gvalue" "int gvalue"
      bytes bytes
  | UnknownEvent event_base bytes
  | ConfigErrorEvent event_base bytes
  | MessageEvent event_base bytes
  | ClientFlagsChangedEvent event_base bytes bytes
  | PaneModeChangedEvent event_base bytes
  | PasteBufferChangedEvent event_base bytes
  | PasteBufferDeletedEvent event_base bytes
  | WindowPaneChangedEvent event_base bytes bytes

fun event_base_of :: "event \<Rightarrow> event_base" where
  "event_base_of (PaneOutputEvent b i a d) = b"
| "event_base_of (PanePauseEvent b i) = b"
| "event_base_of (PaneContinueEvent b i) = b"
| "event_base_of (LayoutChangedEvent b i l v f) = b"
| "event_base_of (SessionEvent b i n p) = b"
| "event_base_of (WindowEvent b i n p) = b"
| "event_base_of (ClientEvent b c i p) = b"
| "event_base_of (SubscriptionEvent b n s w p x d h) = b"
| "event_base_of (UnknownEvent b p) = b"
| "event_base_of (ConfigErrorEvent b e) = b"
| "event_base_of (MessageEvent b m) = b"
| "event_base_of (ClientFlagsChangedEvent b c f) = b"
| "event_base_of (PaneModeChangedEvent b i) = b"
| "event_base_of (PasteBufferChangedEvent b n) = b"
| "event_base_of (PasteBufferDeletedEvent b n) = b"
| "event_base_of (WindowPaneChangedEvent b w p) = b"

definition RawName :: "event \<Rightarrow> bytes" where
  "RawName e = ev_name (event_base_of e)"

definition Received :: "event \<Rightarrow> time" where
  "Received e = ev_received (event_base_of e)"

fun eventBytes :: "event \<Rightarrow> int" where
  "eventBytes (PaneOutputEvent b i a d) = int (length d + length (ev_name b)) + 96"
| "eventBytes (PanePauseEvent b i) = int (length (ev_name b) + length i) + 64"
| "eventBytes (PaneContinueEvent b i) = int (length (ev_name b) + length i) + 64"
| "eventBytes (LayoutChangedEvent b i l v f) =
     int (length (ev_name b) + length l + length v + length f) + 96"
| "eventBytes (SessionEvent b i n p) = int (length (ev_name b) + length p) + 96"
| "eventBytes (WindowEvent b i n p) = int (length (ev_name b) + length p) + 96"
| "eventBytes (ClientEvent b c i p) = int (length (ev_name b) + length p) + 96"
| "eventBytes (SubscriptionEvent b n s w p x d h) =
     int (length (ev_name b) + length n + length h + length d) + 128"
| "eventBytes (UnknownEvent b p) = int (length (ev_name b) + length p) + 64"
| "eventBytes (ConfigErrorEvent b e) = int (length (ev_name b) + length e) + 64"
| "eventBytes (MessageEvent b m) = int (length (ev_name b) + length m) + 64"
| "eventBytes (ClientFlagsChangedEvent b c f) =
     int (length (ev_name b) + length c + length f) + 64"
| "eventBytes (PaneModeChangedEvent b i) = int (length (ev_name b) + length i) + 64"
| "eventBytes (PasteBufferChangedEvent b n) = int (length (ev_name b) + length n) + 64"
| "eventBytes (PasteBufferDeletedEvent b n) = int (length (ev_name b) + length n) + 64"
| "eventBytes (WindowPaneChangedEvent b w p) =
     int (length (ev_name b) + length w + length p) + 64"

subsection \<open>Decoding\<close>

abbreviation protocol_error :: "goerr + 'a" where
  "protocol_error \<equiv> Inl (Sentinel ErrProtocol)"

definition decodeFlowEvent :: "event_base \<Rightarrow> bytes \<Rightarrow> bytes \<Rightarrow> (goerr + event) option" where
  "decodeFlowEvent base name rest =
     (if name = ''pause'' then
        Some (if \<not> PaneID_Valid rest then protocol_error else Inr (PanePauseEvent base rest))
      else if name = ''continue'' then
        Some (if \<not> PaneID_Valid rest then protocol_error else Inr (PaneContinueEvent base rest))
      else None)"

definition decodeServerEvent :: "event_base \<Rightarrow> bytes \<Rightarrow> bytes \<Rightarrow> (goerr + event) option" where
  "decodeServerEvent base name rest =
     (if name = ''config-error'' then Some (Inr (ConfigErrorEvent base rest))
      else if name = ''message'' then Some (Inr (MessageEvent base rest))
      else if name = ''client-flags-changed'' then
        (let (cname, flags, _) = cut rest '' '' in
         Some (if \<not> ClientName_Valid cname then protocol_error
               else Inr (ClientFlagsChangedEvent base cname flags)))
      else None)"

definition decodePasteBufferEvent :: "event_base \<Rightarrow> bytes \<Rightarrow> bytes \<Rightarrow> (goerr + event) option" where
  "decodePasteBufferEvent base name rest =
     (if name \<noteq> ''paste-buffer-changed'' \<and> name \<noteq> ''paste-buffer-deleted'' then None
      else if \<not> ValidString rest \<or> rest = [] then Some protocol_error
      else if name = ''paste-buffer-changed'' then Some (Inr (PasteBufferChangedEvent base rest))
      else Some (Inr (PasteBufferDeletedEvent base rest)))"

definition decodeTargetEvent :: "event_base \<Rightarrow> bytes \<Rightarrow> bytes \<Rightarrow> (goerr + event) option" where
  "decodeTargetEvent base name rest =
     (case decodePasteBufferEvent base name rest of
        Some r \<Rightarrow> Some r
      | None \<Rightarrow>
          if name = ''pane-mode-changed'' then
            Some (if \<not> PaneID_Valid rest then protocol_error else Inr (PaneModeChangedEvent base rest))
          else if name = ''window-pane-changed'' then
            (let (wid, paneID, _) = cut rest '' '' in
             Some (if \<not> WindowID_Valid wid \<or> \<not> PaneID_Valid paneID then protocol_error
                   else Inr (WindowPaneChangedEvent base wid paneID)))
          else None)"

definition isOutputEvent :: "bytes \<Rightarrow> bool" where
  "isOutputEvent name \<longleftrightarrow> name = ''output'' \<or> name = ''extended-output''"

definition isClientEvent :: "bytes \<Rightarrow> bool" where
  "isClientEvent name \<longleftrightarrow> name = ''client-session-changed'' \<or> name = ''client-detached''"

definition isSessionEvent :: "bytes \<Rightarrow> bool" where
  "isSessionEvent name \<longleftrightarrow> name \<in> {''session-changed'', ''session-renamed'',
     ''session-window-changed'', ''sessions-changed''}"

definition isWindowEvent :: "bytes \<Rightarrow> bool" where
  "isWindowEvent name \<longleftrightarrow> name \<in> {''window-add'', ''window-close'', ''window-renamed'',
     ''unlinked-window-add'', ''unlinked-window-close'', ''unlinked-window-renamed''}"

definition isValidEventName :: "bytes \<Rightarrow> bool" where
  "isValidEventName name = list_all (\<lambda>b.
     \<not> ((code b < code (CHR ''a'') \<or> code b > code (CHR ''z'')) \<and>
        (code b < code (CHR ''0'') \<or> code b > code (CHR ''9'')) \<and> b \<noteq> CHR ''-'')) name"

definition validateEventLine :: "bytes \<Rightarrow> int \<Rightarrow> bool" where
  "validateEventLine line maxBytes \<longleftrightarrow>
     int (length line) \<le> maxBytes \<and> 2 \<le> length line \<and> line ! 0 = CHR 0x25"

text \<open>\<open>time.Duration(n) * time.Millisecond\<close> of an age in milliseconds.\<close>

definition output_age :: "bytes \<Rightarrow> goerr + int gvalue \<times> bytes" where
  "output_age tail =
     (case cut tail '' : '' of
        (head, data, cutOk) \<Rightarrow>
          if \<not> cutOk then protocol_error
          else (case Fields head of
            [] \<Rightarrow> protocol_error
          | part # _ \<Rightarrow>
              (case parse_int 64 part of
                 None \<Rightarrow> protocol_error
               | Some n \<Rightarrow>
                   if n < 0 \<or> (2 ^ 63 - 1) div 1000000 < n then protocol_error
                   else Inr (Present (i64 (n * 1000000)), data))))"

definition decodeOutputEvent :: "event_base \<Rightarrow> bytes \<Rightarrow> bytes \<Rightarrow> int \<Rightarrow> goerr + event" where
  "decodeOutputEvent base name rest maxBytes =
     (let (id', tail, _) = cut rest '' '' in
      if \<not> PaneID_Valid id' then protocol_error
      else bind_res (if name = ''extended-output'' then output_age tail else Inr (Unavailable, tail))
        (\<lambda>(age, tail'). case DecodeOctal tail' maxBytes of
            Inl e \<Rightarrow> protocol_error
          | Inr data \<Rightarrow> Inr (PaneOutputEvent base id' age data)))"

definition decodeLayoutEvent :: "event_base \<Rightarrow> bytes \<Rightarrow> goerr + event" where
  "decodeLayoutEvent base rest =
     (case split_byte (CHR '' '') rest of
        [wid, layout, visible, flags] \<Rightarrow>
          if \<not> WindowID_Valid wid \<or> layout = [] \<or> visible = [] then protocol_error
          else Inr (LayoutChangedEvent base wid layout visible flags)
      | _ \<Rightarrow> protocol_error)"

definition decodeSessionEvent :: "event_base \<Rightarrow> bytes \<Rightarrow> bytes \<Rightarrow> goerr + event" where
  "decodeSessionEvent base name rest =
     (if name = ''sessions-changed'' then Inr (SessionEvent base Unavailable Unavailable rest)
      else let (id', tail, _) = cut rest '' '' in
        if \<not> SessionID_Valid id' then protocol_error
        else Inr (SessionEvent base (Present id')
                    (if name \<noteq> ''session-window-changed'' then Present tail else Unavailable) rest))"

definition decodeWindowEvent :: "event_base \<Rightarrow> bytes \<Rightarrow> goerr + event" where
  "decodeWindowEvent base rest =
     (let (id', tail, has) = cut rest '' '' in
      if \<not> WindowID_Valid id' then protocol_error
      else Inr (WindowEvent base id' (if has then Present tail else Unavailable) rest))"

definition decodeClientEvent :: "event_base \<Rightarrow> bytes \<Rightarrow> bytes \<Rightarrow> goerr + event" where
  "decodeClientEvent base name rest =
     (let (id', tail, _) = cut rest '' '' in
      if \<not> ClientName_Valid id' then protocol_error
      else if name = ''client-session-changed'' then
        (let (sid, _, _) = cut tail '' '' in
         if \<not> SessionID_Valid sid then protocol_error
         else Inr (ClientEvent base id' (Present sid) rest))
      else Inr (ClientEvent base id' Unavailable rest))"

definition subscriptionValuePrefix :: bytes where "subscriptionValuePrefix = ''TGO-SUB-1:''"
definition subscriptionSessionPrefix :: bytes where "subscriptionSessionPrefix = ''TGO-SUB-SESSION-1:''"

text \<open>\<open>strings.NewReplacer\<close> for the three escapes of a subscription value.\<close>

fun subscription_unescape :: "bytes \<Rightarrow> bytes" where
  "subscription_unescape (a # b # c # s) =
     (if [a, b, c] = ''%0A'' then LF # subscription_unescape s
      else if [a, b, c] = ''%0D'' then CR # subscription_unescape s
      else if [a, b, c] = ''%25'' then CHR 0x25 # subscription_unescape s
      else a # subscription_unescape (b # c # s))"
| "subscription_unescape s = s"

definition subscriptionWindowIndex :: "bytes list \<Rightarrow> int gvalue" where
  "subscriptionWindowIndex parts =
     (if length parts < 4 \<or> parts ! 3 = ''-'' then Unavailable
      else (case atoi (parts ! 3) of
              None \<Rightarrow> Unavailable
            | Some index \<Rightarrow> if index < 0 then Unavailable else Present index))"

definition subscriptionData :: "bytes \<Rightarrow> goerr + bytes \<times> bytes" where
  "subscriptionData data =
     (case cut_prefix data subscriptionSessionPrefix of
        Some sessionData \<Rightarrow>
          (let (target, val, found) = cut sessionData '':'' in
           if \<not> found \<or> \<not> SessionID_Valid target then protocol_error
           else Inr (target, subscription_unescape val))
      | None \<Rightarrow>
          (case cut_prefix data subscriptionValuePrefix of
             Some encoded \<Rightarrow> Inr ([], subscription_unescape encoded)
           | None \<Rightarrow> Inr ([], data)))"

text \<open>The loop over the parts of a subscription header keeps the last id of each kind.\<close>

definition last_valid :: "(bytes \<Rightarrow> bool) \<Rightarrow> bytes list \<Rightarrow> bytes gvalue" where
  "last_valid ok parts = foldl (\<lambda>v x. if ok x then Present x else v) Unavailable parts"

definition decodeSubscriptionEvent :: "event_base \<Rightarrow> bytes \<Rightarrow> goerr + event" where
  "decodeSubscriptionEvent base rest =
     (let (header, data, ok) = cut rest '' : '' in
      if \<not> ok then protocol_error
      else (case Fields header of
        [] \<Rightarrow> protocol_error
      | name # parts \<Rightarrow>
          bind_res (subscriptionData data) (\<lambda>(target, data').
            let sid = (if SessionID_Valid target then Present target
                       else last_valid SessionID_Valid parts) in
            Inr (SubscriptionEvent base name sid (last_valid WindowID_Valid parts)
                   (last_valid PaneID_Valid parts) (subscriptionWindowIndex (name # parts))
                   data' header))))"

definition decodeLifecycleEvent :: "event_base \<Rightarrow> bytes \<Rightarrow> bytes \<Rightarrow> (goerr + event) option" where
  "decodeLifecycleEvent base name rest =
     (if name = ''layout-change'' then Some (decodeLayoutEvent base rest)
      else if isSessionEvent name then Some (decodeSessionEvent base name rest)
      else if isWindowEvent name then Some (decodeWindowEvent base rest)
      else if isClientEvent name then Some (decodeClientEvent base name rest)
      else if name = ''subscription-changed'' then Some (decodeSubscriptionEvent base rest)
      else None)"

definition decodeKnownEvent :: "event_base \<Rightarrow> bytes \<Rightarrow> bytes \<Rightarrow> int \<Rightarrow> (goerr + event) option" where
  "decodeKnownEvent base name rest maxBytes =
     (case decodeFlowEvent base name rest of Some r \<Rightarrow> Some r | None \<Rightarrow>
     (case decodeServerEvent base name rest of Some r \<Rightarrow> Some r | None \<Rightarrow>
     (case decodeTargetEvent base name rest of Some r \<Rightarrow> Some r | None \<Rightarrow>
       if isOutputEvent name then Some (decodeOutputEvent base name rest maxBytes)
       else decodeLifecycleEvent base name rest)))"

definition decodeEvent :: "time \<Rightarrow> bytes \<Rightarrow> int \<Rightarrow> goerr + event" where
  "decodeEvent now line maxBytes =
     (if \<not> validateEventLine line maxBytes then protocol_error
      else let s = trim_suffix line [LF];
               (name, rest, _) = cut (drop 1 s) '' ''
           in if name = [] then protocol_error
              else let base = \<lparr>ev_name = name, ev_received = now\<rparr> in
                (case decodeKnownEvent base name rest maxBytes of
                   Some r \<Rightarrow> r
                 | None \<Rightarrow> if isValidEventName name then Inr (UnknownEvent base rest)
                           else protocol_error))"

subsection \<open>What a decoded event satisfies\<close>

fun value_ok :: "('a \<Rightarrow> bool) \<Rightarrow> 'a gvalue \<Rightarrow> bool" where
  "value_ok ok (Present x) = ok x"
| "value_ok ok _ = True"

fun event_ok :: "event \<Rightarrow> bool" where
  "event_ok (PaneOutputEvent b i a d) \<longleftrightarrow> PaneID_Valid i \<and> value_ok (\<lambda>n. 0 \<le> n \<and> n < 2 ^ 63) a"
| "event_ok (PanePauseEvent b i) \<longleftrightarrow> PaneID_Valid i"
| "event_ok (PaneContinueEvent b i) \<longleftrightarrow> PaneID_Valid i"
| "event_ok (LayoutChangedEvent b i l v f) \<longleftrightarrow> WindowID_Valid i \<and> l \<noteq> [] \<and> v \<noteq> []"
| "event_ok (SessionEvent b i n p) \<longleftrightarrow> value_ok SessionID_Valid i"
| "event_ok (WindowEvent b i n p) \<longleftrightarrow> WindowID_Valid i"
| "event_ok (ClientEvent b c i p) \<longleftrightarrow> ClientName_Valid c \<and> value_ok SessionID_Valid i"
| "event_ok (SubscriptionEvent b n s w p x d h) \<longleftrightarrow>
     value_ok SessionID_Valid s \<and> value_ok WindowID_Valid w \<and> value_ok PaneID_Valid p \<and>
     value_ok (\<lambda>i. 0 \<le> i) x"
| "event_ok (UnknownEvent b p) \<longleftrightarrow> isValidEventName (ev_name b)"
| "event_ok (ConfigErrorEvent b e) \<longleftrightarrow> True"
| "event_ok (MessageEvent b m) \<longleftrightarrow> True"
| "event_ok (ClientFlagsChangedEvent b c f) \<longleftrightarrow> ClientName_Valid c"
| "event_ok (PaneModeChangedEvent b i) \<longleftrightarrow> PaneID_Valid i"
| "event_ok (PasteBufferChangedEvent b n) \<longleftrightarrow> ValidString n \<and> n \<noteq> []"
| "event_ok (PasteBufferDeletedEvent b n) \<longleftrightarrow> ValidString n \<and> n \<noteq> []"
| "event_ok (WindowPaneChangedEvent b w p) \<longleftrightarrow> WindowID_Valid w \<and> PaneID_Valid p"

text \<open>The base is passed on, the ids are checked and the texts are parts of the payload.\<close>

definition decoded_from :: "event_base \<Rightarrow> bytes \<Rightarrow> event \<Rightarrow> bool" where
  "decoded_from base rest e \<longleftrightarrow> event_base_of e = base \<and> event_ok e \<and>
     eventBytes e \<le> int (length (ev_name base)) + 2 * int (length rest) + 128"

lemma cut_length: "cut s sep = (a, b, found) \<Longrightarrow> length a + length b \<le> length s"
  by (auto simp: cut_def split: option.splits dest: find_sub_Some)

lemma DecodeOctal_length: "DecodeOctal data M = Inr out \<Longrightarrow> length out \<le> length data"
proof -
  have "spelled data out \<Longrightarrow> length out \<le> length data" for data out
    by (induction rule: spelled.induct) (auto simp: spells_def octal_escape_def)
  then show "DecodeOctal data M = Inr out \<Longrightarrow> length out \<le> length data"
    by (auto simp: DecodeOctal_def decode_octal_loop_iff split: if_splits)
qed

lemma subscription_unescape_length: "length (subscription_unescape s) \<le> length s"
  by (induction s rule: subscription_unescape.induct) auto

lemma subscriptionData_length: "subscriptionData data = Inr (t, d) \<Longrightarrow> length d \<le> length data"
proof -
  have p: "cut_prefix data p = Some s \<Longrightarrow> length s \<le> length data" for p s
    by (auto simp: cut_prefix_Some_iff)
  assume "subscriptionData data = Inr (t, d)"
  then show "length d \<le> length data"
    by (auto simp: subscriptionData_def split: option.splits prod.splits if_splits
        dest!: p cut_length intro: order_trans [OF subscription_unescape_length])
qed

lemma value_ok_last_valid: "value_ok ok (last_valid ok parts)"
proof -
  have "value_ok ok v \<Longrightarrow> value_ok ok (foldl (\<lambda>v x. if ok x then Present x else v) v parts)" for v
    by (induction parts arbitrary: v) auto
  then show ?thesis by (simp add: last_valid_def)
qed

lemma decodeFlowEvent_from: "decodeFlowEvent b n r = Some (Inr e) \<Longrightarrow> decoded_from b r e"
  by (auto simp: decodeFlowEvent_def decoded_from_def split: if_splits)

lemma decodeServerEvent_from: "decodeServerEvent b n r = Some (Inr e) \<Longrightarrow> decoded_from b r e"
  by (auto simp: decodeServerEvent_def decoded_from_def split: if_splits prod.splits dest!: cut_length)

lemma decodeTargetEvent_from: "decodeTargetEvent b n r = Some (Inr e) \<Longrightarrow> decoded_from b r e"
  by (auto simp: decodeTargetEvent_def decodePasteBufferEvent_def decoded_from_def
      split: if_splits prod.splits option.splits dest!: cut_length)

lemma output_age_from:
  "output_age tail = Inr (a, t) \<Longrightarrow> length t \<le> length tail \<and> value_ok (\<lambda>n. 0 \<le> n \<and> n < 2 ^ 63) a"
  by (auto simp: output_age_def split: if_splits prod.splits option.splits list.splits dest!: cut_length)

lemma decodeOutputEvent_from:
  assumes "decodeOutputEvent b n r M = Inr e"
  shows "decoded_from b r e"
proof -
  obtain i tail f where c: "cut r '' '' = (i, tail, f)" by (cases "cut r '' ''") auto
  then obtain age t where i: "PaneID_Valid i"
      and age: "(if n = ''extended-output'' then output_age tail else Inr (Unavailable, tail)) = Inr (age, t)"
      and d: "(case DecodeOctal t M of Inl e \<Rightarrow> protocol_error | Inr d \<Rightarrow> Inr (PaneOutputEvent b i age d)) = Inr e"
    using assms by (auto simp: decodeOutputEvent_def bind_res_Inr_iff split: if_split_asm)
  then obtain d where "DecodeOctal t M = Inr d" "e = PaneOutputEvent b i age d"
    by (cases "DecodeOctal t M") auto
  moreover have "length t \<le> length tail \<and> value_ok (\<lambda>n. 0 \<le> n \<and> n < 2 ^ 63) age"
    using age by (auto split: if_split_asm dest: output_age_from)
  ultimately show ?thesis
    using i cut_length [OF c] DecodeOctal_length [of t M] by (simp add: decoded_from_def)
qed

lemma split_byte_pieces: "split_byte x s = ps \<Longrightarrow> sum_list (map length ps) \<le> length s"
  by (induction s arbitrary: ps) (auto split: list.splits if_splits)

lemma decodeLayoutEvent_from: "decodeLayoutEvent b r = Inr e \<Longrightarrow> decoded_from b r e"
  by (auto simp: decodeLayoutEvent_def decoded_from_def split: if_splits list.splits
      dest!: split_byte_pieces)

lemma decodeSessionEvent_from: "decodeSessionEvent b n r = Inr e \<Longrightarrow> decoded_from b r e"
  by (auto simp: decodeSessionEvent_def decoded_from_def split: if_splits prod.splits)

lemma decodeWindowEvent_from: "decodeWindowEvent b r = Inr e \<Longrightarrow> decoded_from b r e"
  by (auto simp: decodeWindowEvent_def decoded_from_def split: if_splits prod.splits)

lemma decodeClientEvent_from: "decodeClientEvent b n r = Inr e \<Longrightarrow> decoded_from b r e"
  by (auto simp: decodeClientEvent_def decoded_from_def split: if_splits prod.splits)

lemma decodeSubscriptionEvent_from:
  assumes "decodeSubscriptionEvent b r = Inr e"
  shows "decoded_from b r e"
proof -
  obtain header data n ps t d where c: "cut r '' : '' = (header, data, True)" "Fields header = n # ps"
      "subscriptionData data = Inr (t, d)"
    and e: "e = SubscriptionEvent b n (if SessionID_Valid t then Present t else last_valid SessionID_Valid ps)
        (last_valid WindowID_Valid ps) (last_valid PaneID_Valid ps) (subscriptionWindowIndex (n # ps)) d header"
    using assms by (auto simp: decodeSubscriptionEvent_def bind_res_Inr_iff Let_def
        split: prod.splits if_splits list.splits)
  have "length n \<le> length header" using Fields_length [of n header] c(2) by simp
  moreover have "length header + length data \<le> length r" "length d \<le> length data"
    using cut_length [OF c(1)] subscriptionData_length [OF c(3)] by simp_all
  moreover have "value_ok (\<lambda>i. 0 \<le> i) (subscriptionWindowIndex (n # ps))"
    by (auto simp: subscriptionWindowIndex_def split: option.splits)
  ultimately show ?thesis
    by (simp add: e decoded_from_def value_ok_last_valid)
qed

lemma decodeLifecycleEvent_from: "decodeLifecycleEvent b n r = Some (Inr e) \<Longrightarrow> decoded_from b r e"
  by (auto simp: decodeLifecycleEvent_def split: if_splits intro: decodeLayoutEvent_from
      decodeSessionEvent_from decodeWindowEvent_from decodeClientEvent_from decodeSubscriptionEvent_from)

lemma decodeKnownEvent_from: "decodeKnownEvent b n r M = Some (Inr e) \<Longrightarrow> decoded_from b r e"
  by (auto simp: decodeKnownEvent_def split: if_splits option.splits intro: decodeFlowEvent_from
      decodeServerEvent_from decodeTargetEvent_from decodeOutputEvent_from decodeLifecycleEvent_from)

lemma cut_byte_before: "cut s [x] = (a, b, found) \<Longrightarrow> x \<notin> set a \<and> (\<exists>t. s = a @ t)"
proof (induction s arbitrary: a)
  case (Cons c s)
  then show ?case
    by (cases "find_sub [x] s") (auto simp: cut_def split: if_splits)
qed (simp add: cut_def)

lemma eventBytes_pos: "0 < eventBytes e"
  by (cases e) auto

lemma decodeEvent_parts:
  assumes "decodeEvent now line M = Inr e"
  obtains name rest found where "validateEventLine line M" "cut (drop 1 (trim_suffix line [LF])) '' '' = (name, rest, found)"
    and "name \<noteq> []" and "decoded_from \<lparr>ev_name = name, ev_received = now\<rparr> rest e"
proof -
  obtain name rest found where c: "cut (drop 1 (trim_suffix line [LF])) '' '' = (name, rest, found)"
    by (cases "cut (drop 1 (trim_suffix line [LF])) '' ''") auto
  let ?b = "\<lparr>ev_name = name, ev_received = now\<rparr>"
  have v: "validateEventLine line M" "name \<noteq> []" and
    r: "(case decodeKnownEvent ?b name rest M of Some r \<Rightarrow> r
       | None \<Rightarrow> if isValidEventName name then Inr (UnknownEvent ?b rest) else protocol_error) = Inr e"
    using assms unfolding decodeEvent_def Let_def c by (auto split: if_split_asm)
  from r have "decoded_from ?b rest e"
    by (auto simp: decodeKnownEvent_from decoded_from_def [of _ _ "UnknownEvent ?b rest"]
        split: option.split_asm if_split_asm)
  with v c that show thesis by blast
qed

lemma decodeEvent_ok: "decodeEvent now line M = Inr e \<Longrightarrow> event_ok e"
  by (auto elim!: decodeEvent_parts simp: decoded_from_def)

text \<open>C17: Every event that the decoder returns is well typed: the ids of each kind of event have the
  syntax of that kind, ages and window indexes are in range, the raw name is the non-empty text
  between the percent sign and the first blank, and the size charged to an event stream is positive
  and at most twice the limit of the line plus the fixed overhead.\<close>

theorem decodeEvent_typed:
  assumes "decodeEvent now line maxBytes = Inr e"
  shows "event_ok e \<and> Received e = now \<and> RawName e \<noteq> [] \<and> CHR '' '' \<notin> set (RawName e) \<and>
    has_prefix line (CHR 0x25 # RawName e) \<and> 0 < eventBytes e \<and> eventBytes e \<le> 2 * maxBytes + 128"
proof -
  obtain name rest found where v: "validateEventLine line maxBytes"
      and c: "cut (drop 1 (trim_suffix line [LF])) '' '' = (name, rest, found)" and n: "name \<noteq> []"
      and d: "decoded_from \<lparr>ev_name = name, ev_received = now\<rparr> rest e"
    using decodeEvent_parts [OF assms] .
  obtain l where l: "line = CHR 0x25 # l" using v by (cases line) (auto simp: validateEventLine_def)
  have "\<exists>u. line = trim_suffix line [LF] @ u"
    by (auto simp: trim_suffix_def has_suffix_iff)
  then obtain u where u: "line = trim_suffix line [LF] @ u" by blast
  obtain t where t: "drop 1 (trim_suffix line [LF]) = name @ t" and sp: "CHR '' '' \<notin> set name"
    using cut_byte_before [OF c] by blast
  then have "trim_suffix line [LF] = CHR 0x25 # name @ t"
    using n u l by (cases "trim_suffix line [LF]") auto
  then have pre: "has_prefix line (CHR 0x25 # name)" using u by (auto simp: has_prefix_iff)
  have "length name + length rest \<le> length line"
    using cut_length [OF c] u by (metis drop_drop le_add_diff_inverse2 length_append length_drop
        nat_le_linear diff_le_self le_trans le_add1)
  then have "int (length name) + 2 * int (length rest) + 128 \<le> 2 * maxBytes + 128"
    using v by (simp add: validateEventLine_def)
  with d pre n sp show ?thesis
    by (auto simp: decoded_from_def RawName_def Received_def eventBytes_pos)
qed

lemma decodeEvent_typed_witness:
  "PaneID_Valid ''%7'' \<and> eventBytes (PanePauseEvent \<lparr>ev_name = ''pause'', ev_received = 5\<rparr> ''%7'') \<le> 2 * 64 + 128"
proof -
  have "PaneID_Valid ''%7''"
    by (simp add: PaneID_Valid_def validID_def parse_uint_def is_digit_def digits_val_def digit_val_def)
  then have "decodeEvent 5 (''%pause %7'' @ [LF]) 64 = Inr (PanePauseEvent \<lparr>ev_name = ''pause'', ev_received = 5\<rparr> ''%7'')"
    using cut_byte [of "CHR '' ''" "''pause''" "''%7''"] trim_suffix_append [of "''%pause %7''" "[LF]"]
    by (simp add: decodeEvent_def validateEventLine_def decodeKnownEvent_def decodeFlowEvent_def)
  from decodeEvent_typed [OF this] show ?thesis by simp
qed

subsection \<open>What tmux announces is decoded\<close>

text \<open>The lines that tmux writes: output with control bytes and backslashes in octal, subscription
  values with percent signs and line ends escaped, and otherwise the ids and texts separated by
  blanks.\<close>

definition output_escape :: "bytes \<Rightarrow> bytes" where
  "output_escape d = concat (map (\<lambda>c. if code c < 32 \<or> c = backslash then octal_escape c else [c]) d)"

definition subscription_escape :: "bytes \<Rightarrow> bytes" where
  "subscription_escape d = concat (map (\<lambda>c. if c = CHR 0x25 then ''%25'' else if c = LF then ''%0A''
     else if c = CR then ''%0D'' else [c]) d)"

definition id_or_dash :: "bytes gvalue \<Rightarrow> bytes" where
  "id_or_dash v = (case v of Present i \<Rightarrow> i | _ \<Rightarrow> ''-'')"

definition index_or_dash :: "int gvalue \<Rightarrow> bytes" where
  "index_or_dash v = (case v of Present i \<Rightarrow> itoa i | _ \<Rightarrow> ''-'')"

fun event_text :: "event \<Rightarrow> bytes" where
  "event_text (PaneOutputEvent b i a d) =
     (case a of Present n \<Rightarrow> i @ '' '' @ itoa (n div 1000000) @ '' : '' @ output_escape d
      | _ \<Rightarrow> i @ '' '' @ output_escape d)"
| "event_text (PanePauseEvent b i) = i"
| "event_text (PaneContinueEvent b i) = i"
| "event_text (LayoutChangedEvent b i l v f) = join_with '' '' [i, l, v, f]"
| "event_text (SessionEvent b i n p) = p"
| "event_text (WindowEvent b i n p) = p"
| "event_text (ClientEvent b c i p) = p"
| "event_text (SubscriptionEvent b n s w p x d h) =
     h @ '' : '' @ subscriptionValuePrefix @ subscription_escape d"
| "event_text (UnknownEvent b p) = p"
| "event_text (ConfigErrorEvent b e) = e"
| "event_text (MessageEvent b m) = m"
| "event_text (ClientFlagsChangedEvent b c f) = c @ '' '' @ f"
| "event_text (PaneModeChangedEvent b i) = i"
| "event_text (PasteBufferChangedEvent b n) = n"
| "event_text (PasteBufferDeletedEvent b n) = n"
| "event_text (WindowPaneChangedEvent b w p) = w @ '' '' @ p"

definition event_line :: "event \<Rightarrow> bytes" where
  "event_line e = CHR 0x25 # RawName e @ (if event_text e = [] then [] else '' '' @ event_text e) @ [LF]"

definition known_name :: "bytes \<Rightarrow> bool" where
  "known_name n \<longleftrightarrow> n \<in> {''pause'', ''continue'', ''config-error'', ''message'', ''client-flags-changed'',
     ''paste-buffer-changed'', ''paste-buffer-deleted'', ''pane-mode-changed'', ''window-pane-changed'',
     ''layout-change'', ''subscription-changed''} \<or> isOutputEvent n \<or> isSessionEvent n \<or>
     isWindowEvent n \<or> isClientEvent n"

text \<open>The events as tmux means them: the name fits the kind and the payload the other parts.\<close>

fun announced :: "event \<Rightarrow> bool" where
  "announced (PaneOutputEvent b i a d) \<longleftrightarrow> PaneID_Valid i \<and>
     (case a of Unavailable \<Rightarrow> ev_name b = ''output''
      | Present n \<Rightarrow> ev_name b = ''extended-output'' \<and> 0 \<le> n \<and> n < 2 ^ 63 \<and> n mod 1000000 = 0
      | Unsupported \<Rightarrow> False)"
| "announced (PanePauseEvent b i) \<longleftrightarrow> ev_name b = ''pause'' \<and> PaneID_Valid i"
| "announced (PaneContinueEvent b i) \<longleftrightarrow> ev_name b = ''continue'' \<and> PaneID_Valid i"
| "announced (LayoutChangedEvent b i l v f) \<longleftrightarrow> ev_name b = ''layout-change'' \<and> WindowID_Valid i \<and>
     l \<noteq> [] \<and> v \<noteq> [] \<and> CHR '' '' \<notin> set l \<union> set v \<union> set f"
| "announced (SessionEvent b i n p) \<longleftrightarrow> isSessionEvent (ev_name b) \<and>
     (if ev_name b = ''sessions-changed'' then i = Unavailable \<and> n = Unavailable
      else \<exists>s. i = Present s \<and> SessionID_Valid s \<and>
        (if ev_name b = ''session-window-changed'' then n = Unavailable \<and> (p = s \<or> has_prefix p (s @ '' ''))
         else \<exists>t. n = Present t \<and> p = s @ '' '' @ t))"
| "announced (WindowEvent b i n p) \<longleftrightarrow> isWindowEvent (ev_name b) \<and> WindowID_Valid i \<and>
     (n = Unavailable \<and> p = i \<or> (\<exists>t. n = Present t \<and> p = i @ '' '' @ t))"
| "announced (ClientEvent b c i p) \<longleftrightarrow> ClientName_Valid c \<and> CHR '' '' \<notin> set c \<and>
     (ev_name b = ''client-detached'' \<and> i = Unavailable \<and> p = c \<or>
      ev_name b = ''client-session-changed'' \<and>
        (\<exists>s t. i = Present s \<and> SessionID_Valid s \<and> p = c @ '' '' @ s @ '' '' @ t))"
| "announced (SubscriptionEvent b n s w p x d h) \<longleftrightarrow> ev_name b = ''subscription-changed'' \<and>
     n \<noteq> [] \<and> list_all graphic n \<and> CHR '':'' \<notin> set n \<and>
     s \<noteq> Unsupported \<and> value_ok SessionID_Valid s \<and> w \<noteq> Unsupported \<and> value_ok WindowID_Valid w \<and>
     p \<noteq> Unsupported \<and> value_ok PaneID_Valid p \<and> x \<noteq> Unsupported \<and>
     value_ok (\<lambda>i. 0 \<le> i \<and> i < 2 ^ 63) x \<and>
     h = join_with '' '' [n, id_or_dash s, id_or_dash w, index_or_dash x, id_or_dash p]"
| "announced (UnknownEvent b p) \<longleftrightarrow>
     ev_name b \<noteq> [] \<and> isValidEventName (ev_name b) \<and> \<not> known_name (ev_name b)"
| "announced (ConfigErrorEvent b e) \<longleftrightarrow> ev_name b = ''config-error''"
| "announced (MessageEvent b m) \<longleftrightarrow> ev_name b = ''message''"
| "announced (ClientFlagsChangedEvent b c f) \<longleftrightarrow>
     ev_name b = ''client-flags-changed'' \<and> ClientName_Valid c \<and> CHR '' '' \<notin> set c"
| "announced (PaneModeChangedEvent b i) \<longleftrightarrow> ev_name b = ''pane-mode-changed'' \<and> PaneID_Valid i"
| "announced (PasteBufferChangedEvent b n) \<longleftrightarrow>
     ev_name b = ''paste-buffer-changed'' \<and> ValidString n \<and> n \<noteq> []"
| "announced (PasteBufferDeletedEvent b n) \<longleftrightarrow>
     ev_name b = ''paste-buffer-deleted'' \<and> ValidString n \<and> n \<noteq> []"
| "announced (WindowPaneChangedEvent b w p) \<longleftrightarrow>
     ev_name b = ''window-pane-changed'' \<and> WindowID_Valid w \<and> PaneID_Valid p"

lemma output_escape_spelled: "spelled (output_escape d) d"
proof -
  have "list_all2 spells (map (\<lambda>c. if code c < 32 \<or> c = backslash then octal_escape c else [c]) d) d"
    by (induction d) (auto simp: spells_def)
  then show ?thesis unfolding output_escape_def by (rule spelled_bytes)
qed

lemma DecodeOctal_output:
  assumes "int (length d) \<le> M" and "M \<le> (2 ^ 63 - 1) div 4"
  shows "DecodeOctal (output_escape d) M = Inr d"
proof -
  have "4 * M \<le> 4 * ((2 ^ 63 - 1) div 4)" using assms(2) by (rule mult_left_mono) simp
  then have "i64 (M * 4) = M * 4" using assms by (intro i64_id) auto
  then show ?thesis
    using assms spelled_length [OF output_escape_spelled, of d] output_escape_spelled [of d]
    by (auto simp: DecodeOctal_def decode_octal_loop_iff)
qed

lemma output_escape_length: "length d \<le> length (output_escape d)"
  by (induction d) (auto simp: output_escape_def octal_escape_def)

lemma subscription_unescape_escape: "subscription_unescape (subscription_escape d) = d"
proof (induction d)
  case (Cons c d)
  show ?case
  proof (cases "c = CHR 0x25 \<or> c = LF \<or> c = CR")
    case True
    with Cons show ?thesis by (auto simp: subscription_escape_def LF_def CR_def)
  next
    case False
    then have "subscription_escape (c # d) = c # subscription_escape d"
      by (simp add: subscription_escape_def)
    moreover have "subscription_unescape (c # s) = c # subscription_unescape s" for s
      using False by (cases s; cases "tl s") auto
    ultimately show ?thesis using Cons by simp
  qed
qed (simp add: subscription_escape_def)

lemma subscriptionData_value: "subscriptionData (subscriptionValuePrefix @ subscription_escape d) = Inr ([], d)"
  by (simp add: subscriptionData_def cut_prefix_def subscriptionValuePrefix_def
      subscriptionSessionPrefix_def subscription_unescape_escape)

lemma validID_Cons:
  "validID s p \<Longrightarrow> \<exists>t. s = p # t \<and> list_all is_digit t \<and> t \<noteq> []"
  by (auto simp: validID_iff)

lemma validID_fresh: "validID s p \<Longrightarrow> x \<noteq> p \<Longrightarrow> \<not> is_digit x \<Longrightarrow> x \<notin> set s"
  by (auto dest!: validID_Cons simp: list_all_iff)

lemma id_no_blank:
  "SessionID_Valid s \<Longrightarrow> CHR '' '' \<notin> set s" "WindowID_Valid s \<Longrightarrow> CHR '' '' \<notin> set s"
  "PaneID_Valid s \<Longrightarrow> CHR '' '' \<notin> set s"
  unfolding id_valid_defs by (erule validID_fresh; simp add: is_digit_def)+

lemma cut_colon: "CHR '':'' \<notin> set a \<Longrightarrow> cut (a @ '' : '' @ b) '' : '' = (a, b, True)"
proof -
  have "CHR '':'' \<notin> set a \<Longrightarrow> find_sub '' : '' (a @ '' : '' @ b) = Some (a, b)"
  proof (induction a)
    case (Cons c a)
    then have "\<not> has_prefix ((c # a) @ '' : '' @ b) '' : ''" by (cases a) auto
    with Cons show ?case by simp
  qed simp
  then show "CHR '':'' \<notin> set a \<Longrightarrow> ?thesis" by (simp add: cut_def)
qed

lemmas known_decoders = decodeKnownEvent_def decodeFlowEvent_def decodeServerEvent_def
  decodeTargetEvent_def decodePasteBufferEvent_def decodeLifecycleEvent_def
  isOutputEvent_def isSessionEvent_def isWindowEvent_def isClientEvent_def

lemma decodeEvent_line:
  assumes "CHR '' '' \<notin> set name" and "name \<noteq> []"
    and "int (length (CHR 0x25 # name @ (if body = [] then [] else '' '' @ body) @ [LF])) \<le> M"
  shows "decodeEvent now (CHR 0x25 # name @ (if body = [] then [] else '' '' @ body) @ [LF]) M =
    (case decodeKnownEvent \<lparr>ev_name = name, ev_received = now\<rparr> name body M of
       Some r \<Rightarrow> r
     | None \<Rightarrow> if isValidEventName name then Inr (UnknownEvent \<lparr>ev_name = name, ev_received = now\<rparr> body)
               else protocol_error)"
proof -
  let ?l = "CHR 0x25 # name @ (if body = [] then [] else '' '' @ body)"
  have "\<exists>found. cut (drop 1 ?l) '' '' = (name, body, found)"
    using cut_byte_None [OF assms(1)] cut_byte [OF assms(1), of body] by auto
  then obtain found where c: "cut (drop 1 ?l) '' '' = (name, body, found)" by blast
  have "validateEventLine (?l @ [LF]) M" using assms(3) by (auto simp: validateEventLine_def)
  then have "decodeEvent now (?l @ [LF]) M = (case decodeKnownEvent \<lparr>ev_name = name, ev_received = now\<rparr> name body M of
       Some r \<Rightarrow> r
     | None \<Rightarrow> if isValidEventName name then Inr (UnknownEvent \<lparr>ev_name = name, ev_received = now\<rparr> body)
               else protocol_error)"
    using assms(2) unfolding decodeEvent_def Let_def trim_suffix_append c by simp
  then show ?thesis by simp
qed

lemma known_name_no_blank: "known_name n \<Longrightarrow> CHR '' '' \<notin> set n \<and> n \<noteq> []"
  by (auto simp: known_name_def isOutputEvent_def isSessionEvent_def isWindowEvent_def isClientEvent_def)

lemma isValidEventName_no_blank: "isValidEventName n \<Longrightarrow> CHR '' '' \<notin> set n"
  by (auto simp: isValidEventName_def list_all_iff)

lemma announced_name:
  "announced e \<Longrightarrow> CHR '' '' \<notin> set (RawName e) \<and> RawName e \<noteq> []"
proof (cases "\<exists>b p. e = UnknownEvent b p")
  case False
  assume "announced e"
  with False have "known_name (RawName e)"
    by (cases e) (auto simp: RawName_def known_name_def isOutputEvent_def isClientEvent_def split: gvalue.splits)
  then show ?thesis by (rule known_name_no_blank)
qed (auto simp: RawName_def isValidEventName_no_blank)

lemma unknown_not_decoded: "\<not> known_name n \<Longrightarrow> decodeKnownEvent b n r M = None"
  by (simp add: known_decoders known_name_def)

lemma decode_output:
  assumes "PaneID_Valid i" and "int (length d) \<le> M" and "M \<le> (2 ^ 63 - 1) div 4"
  shows "decodeOutputEvent b ''output'' (i @ '' '' @ output_escape d) M = Inr (PaneOutputEvent b i Unavailable d)"
    and "0 \<le> n \<Longrightarrow> n < 2 ^ 63 \<Longrightarrow> n mod 1000000 = 0 \<Longrightarrow>
      decodeOutputEvent b ''extended-output'' (i @ '' '' @ itoa (n div 1000000) @ '' : '' @ output_escape d) M =
        Inr (PaneOutputEvent b i (Present n) d)"
proof -
  have c: "cut (i @ '' '' @ t) '' '' = (i, t, True)" for t
    using id_no_blank(3) [OF assms(1)] by (simp add: cut_byte)
  show "decodeOutputEvent b ''output'' (i @ '' '' @ output_escape d) M = Inr (PaneOutputEvent b i Unavailable d)"
    unfolding decodeOutputEvent_def Let_def c
    using assms by (simp add: DecodeOctal_output)
  show "decodeOutputEvent b ''extended-output'' (i @ '' '' @ itoa (n div 1000000) @ '' : '' @ output_escape d) M =
        Inr (PaneOutputEvent b i (Present n) d)" if n: "0 \<le> n" "n < 2 ^ 63" "n mod 1000000 = 0"
  proof -
    let ?k = "n div 1000000"
    have k: "0 \<le> ?k" "?k \<le> (2 ^ 63 - 1) div 1000000" "?k < 2 ^ 63" "i64 (?k * 1000000) = n"
      using n by (auto simp: div_mult_mod_eq intro!: zdiv_mono1)
    then have ik: "itoa ?k = itoa_nat (nat ?k)" by (simp add: itoa_def)
    have dg: "list_all is_digit (itoa ?k)" "itoa ?k \<noteq> []" by (simp_all add: ik)
    have g: "list_all graphic (itoa ?k)" and nc: "CHR '':'' \<notin> set (itoa ?k)"
      using dg(1) by (auto simp: list_all_iff is_digit_def graphic_def)
    have "Fields (itoa ?k) = [itoa ?k]" using Fields_words [of "[itoa ?k]"] g dg(2) by simp
    moreover have "parse_int 64 (itoa ?k) = Some ?k" using k by (intro atoi_itoa) auto
    ultimately have "output_age (itoa ?k @ '' : '' @ output_escape d) = Inr (Present n, output_escape d)"
      unfolding output_age_def cut_colon [OF nc] using k by simp
    then show ?thesis
      unfolding decodeOutputEvent_def Let_def c using assms by (simp add: DecodeOctal_output)
  qed
qed

lemma decode_layout:
  assumes "WindowID_Valid i" and "l \<noteq> []" and "v \<noteq> []" and "CHR '' '' \<notin> set l \<union> set v \<union> set f"
  shows "decodeLayoutEvent b (join_with '' '' [i, l, v, f]) = Inr (LayoutChangedEvent b i l v f)"
proof -
  have "split_byte CHR '' '' (join_with '' '' [i, l, v, f]) = [i, l, v, f]"
    using id_no_blank(2) [OF assms(1)] assms(4) by (intro split_join) auto
  then show ?thesis using assms(1-3) by (simp add: decodeLayoutEvent_def)
qed

lemma decode_session:
  assumes "SessionID_Valid s"
  shows "decodeSessionEvent b ''sessions-changed'' p = Inr (SessionEvent b Unavailable Unavailable p)"
    and "n \<noteq> ''sessions-changed'' \<Longrightarrow> n \<noteq> ''session-window-changed'' \<Longrightarrow>
      decodeSessionEvent b n (s @ '' '' @ t) = Inr (SessionEvent b (Present s) (Present t) (s @ '' '' @ t))"
    and "p = s \<or> has_prefix p (s @ '' '') \<Longrightarrow>
      decodeSessionEvent b ''session-window-changed'' p = Inr (SessionEvent b (Present s) Unavailable p)"
proof -
  note nb = id_no_blank(1) [OF assms]
  have c: "cut (s @ '' '' @ t) '' '' = (s, t, True)" for t using nb by (simp add: cut_byte)
  show "decodeSessionEvent b ''sessions-changed'' p = Inr (SessionEvent b Unavailable Unavailable p)"
    by (simp add: decodeSessionEvent_def)
  show "n \<noteq> ''sessions-changed'' \<Longrightarrow> n \<noteq> ''session-window-changed'' \<Longrightarrow>
      decodeSessionEvent b n (s @ '' '' @ t) = Inr (SessionEvent b (Present s) (Present t) (s @ '' '' @ t))"
    unfolding decodeSessionEvent_def c using assms by simp
  show "p = s \<or> has_prefix p (s @ '' '') \<Longrightarrow>
      decodeSessionEvent b ''session-window-changed'' p = Inr (SessionEvent b (Present s) Unavailable p)"
    using c cut_byte_None [OF nb] assms by (auto simp: decodeSessionEvent_def has_prefix_iff)
qed

lemma decode_window:
  assumes "WindowID_Valid i"
  shows "decodeWindowEvent b i = Inr (WindowEvent b i Unavailable i)"
    and "decodeWindowEvent b (i @ '' '' @ t) = Inr (WindowEvent b i (Present t) (i @ '' '' @ t))"
  using assms cut_byte_None [OF id_no_blank(2) [OF assms]] cut_byte [OF id_no_blank(2) [OF assms], of t]
  by (simp_all add: decodeWindowEvent_def)

lemma decode_client:
  assumes "ClientName_Valid c" and "CHR '' '' \<notin> set c" and "SessionID_Valid s"
  shows "decodeClientEvent b ''client-session-changed'' (c @ '' '' @ s @ '' '' @ t) =
      Inr (ClientEvent b c (Present s) (c @ '' '' @ s @ '' '' @ t))"
  using assms cut_byte [OF assms(2), of "s @ '' '' @ t"] cut_byte [OF id_no_blank(1) [OF assms(3)], of t]
  by (simp add: decodeClientEvent_def)

lemma decode_client_detached:
  assumes "ClientName_Valid c" and "CHR '' '' \<notin> set c"
  shows "decodeClientEvent b ''client-detached'' c = Inr (ClientEvent b c Unavailable c)"
  using assms cut_byte_None [OF assms(2)] by (simp add: decodeClientEvent_def)

text \<open>The header of a subscription: ids of different kinds do not match each other.\<close>

lemma validID_head: "validID s p \<Longrightarrow> \<exists>t. s = p # t"
  by (auto dest: validID_Cons)

lemma digit_graphic: "is_digit c \<Longrightarrow> graphic c" "\<not> is_digit (CHR '':'')"
  by (auto simp: is_digit_def graphic_def)

lemma id_graphic:
  "validID s p \<Longrightarrow> graphic p \<Longrightarrow> CHR '':'' \<noteq> p \<Longrightarrow> list_all graphic s \<and> s \<noteq> [] \<and> CHR '':'' \<notin> set s"
  using digit_graphic by (fastforce dest!: validID_Cons simp: list_all_iff)

definition header_part :: "bytes \<Rightarrow> bool" where
  "header_part w \<longleftrightarrow> list_all graphic w \<and> w \<noteq> [] \<and> CHR '':'' \<notin> set w"

lemma header_part_id:
  "v \<noteq> Unsupported \<Longrightarrow> value_ok SessionID_Valid v \<Longrightarrow> header_part (id_or_dash v)"
  "v \<noteq> Unsupported \<Longrightarrow> value_ok WindowID_Valid v \<Longrightarrow> header_part (id_or_dash v)"
  "v \<noteq> Unsupported \<Longrightarrow> value_ok PaneID_Valid v \<Longrightarrow> header_part (id_or_dash v)"
  by (cases v; auto simp: header_part_def id_or_dash_def graphic_def id_valid_defs dest: id_graphic)+

lemma header_part_index:
  "v \<noteq> Unsupported \<Longrightarrow> value_ok (\<lambda>i. 0 \<le> i \<and> i < 2 ^ 63) v \<Longrightarrow> header_part (index_or_dash v)"
proof (cases v)
  case (Present i)
  assume "value_ok (\<lambda>i. 0 \<le> i \<and> i < 2 ^ 63) v"
  with Present have "index_or_dash v = itoa_nat (nat i)" by (simp add: index_or_dash_def itoa_def)
  moreover have "list_all is_digit (itoa_nat (nat i))" by simp
  ultimately show ?thesis
    by (auto simp: header_part_def list_all_iff is_digit_def graphic_def)
qed (auto simp: header_part_def index_or_dash_def graphic_def)

lemma subscriptionWindowIndex_header:
  assumes "x \<noteq> Unsupported" and "value_ok (\<lambda>i. 0 \<le> i \<and> i < 2 ^ 63) x"
  shows "subscriptionWindowIndex [n, s, w, index_or_dash x, p] = x"
proof (cases x)
  case (Present i)
  with assms have i: "0 \<le> i" "i < 2 ^ 63" by simp_all
  have "has_prefix ''-'' ''-''" by simp
  then have "itoa i \<noteq> ''-''"
    using i not_sign_itoa_nat(1) [of "nat i"] unfolding itoa_def by (metis not_less)
  with Present i atoi_itoa [of i] show ?thesis
    by (simp add: subscriptionWindowIndex_def index_or_dash_def)
qed (use assms in \<open>simp_all add: subscriptionWindowIndex_def index_or_dash_def\<close>)

lemma last_valid_header:
  assumes "value_ok SessionID_Valid s" "value_ok WindowID_Valid w" "value_ok PaneID_Valid p"
    and "s \<noteq> Unsupported" "w \<noteq> Unsupported" "p \<noteq> Unsupported" "x \<noteq> Unsupported"
    and x: "value_ok (\<lambda>i. 0 \<le> i \<and> i < 2 ^ 63) x"
  defines "parts \<equiv> [id_or_dash s, id_or_dash w, index_or_dash x, id_or_dash p]"
  shows "last_valid SessionID_Valid parts = s" "last_valid WindowID_Valid parts = w"
    "last_valid PaneID_Valid parts = p"
proof -
  have ix: "\<not> validID (index_or_dash x) h" if "\<not> is_digit h" "h \<noteq> CHR ''-''" for h
  proof (cases x)
    case (Present i)
    with x have "itoa i = itoa_nat (nat i)" by (simp add: itoa_def)
    then have "list_all is_digit (itoa i)" by simp
    with Present that show ?thesis
      by (auto simp: index_or_dash_def dest: validID_head)
  qed (use that assms(7) in \<open>auto simp: index_or_dash_def dest: validID_head\<close>)
  have dash: "\<not> validID ''-'' h" for h by (simp add: validID_def)
  show "last_valid SessionID_Valid parts = s" "last_valid WindowID_Valid parts = w"
    "last_valid PaneID_Valid parts = p"
    using assms(1-6) ix [of "CHR ''$''"] ix [of "CHR ''@''"] ix [of "CHR 0x25"]
    by (cases s; cases w; cases p;
        auto simp: parts_def last_valid_def id_or_dash_def id_valid_defs dash is_digit_def dest: validID_head)+
qed

lemma decode_subscription:
  assumes "announced (SubscriptionEvent b n s w p x d h)"
  shows "decodeSubscriptionEvent b (h @ '' : '' @ subscriptionValuePrefix @ subscription_escape d) =
    Inr (SubscriptionEvent b n s w p x d h)"
proof -
  let ?parts = "[id_or_dash s, id_or_dash w, index_or_dash x, id_or_dash p]"
  have h: "h = join_with '' '' (n # ?parts)" using assms by simp
  have parts: "v \<in> set (n # ?parts) \<Longrightarrow> header_part v" for v
    using assms header_part_id header_part_index by (auto simp: header_part_def)
  then have F: "Fields h = n # ?parts"
    unfolding h by (intro Fields_words) (auto simp: header_part_def)
  have "CHR '':'' \<notin> set h" using parts by (auto simp: h header_part_def)
  then have c: "cut (h @ '' : '' @ t) '' : '' = (h, t, True)" for t by (rule cut_colon)
  have v: "last_valid SessionID_Valid ?parts = s" "last_valid WindowID_Valid ?parts = w"
      "last_valid PaneID_Valid ?parts = p"
    using assms last_valid_header [of s w p x] by (simp_all del: join_with.simps)
  have i: "subscriptionWindowIndex (n # ?parts) = x"
    using assms subscriptionWindowIndex_header [of x] by simp
  have "\<not> SessionID_Valid []" by (simp add: SessionID_Valid_def validID_def)
  then show ?thesis
    unfolding decodeSubscriptionEvent_def c Let_def prod.case F list.case subscriptionData_value
      bind_res_simps v i by simp
qed

lemma decode_routes:
  "decodeKnownEvent b ''pause'' r M = Some (if PaneID_Valid r then Inr (PanePauseEvent b r) else protocol_error)"
  "decodeKnownEvent b ''continue'' r M = Some (if PaneID_Valid r then Inr (PaneContinueEvent b r) else protocol_error)"
  "decodeKnownEvent b ''pane-mode-changed'' r M =
     Some (if PaneID_Valid r then Inr (PaneModeChangedEvent b r) else protocol_error)"
  "decodeKnownEvent b ''layout-change'' r M = Some (decodeLayoutEvent b r)"
  "decodeKnownEvent b ''subscription-changed'' r M = Some (decodeSubscriptionEvent b r)"
  "decodeKnownEvent b ''config-error'' r M = Some (Inr (ConfigErrorEvent b r))"
  "decodeKnownEvent b ''message'' r M = Some (Inr (MessageEvent b r))"
  "decodeKnownEvent b ''client-flags-changed'' r M = decodeServerEvent b ''client-flags-changed'' r"
  "decodeKnownEvent b ''output'' r M = Some (decodeOutputEvent b ''output'' r M)"
  "decodeKnownEvent b ''extended-output'' r M = Some (decodeOutputEvent b ''extended-output'' r M)"
  by (simp_all add: known_decoders Let_def split: prod.split)

lemma decode_target_routes:
  "n = ''window-pane-changed'' \<or> n = ''paste-buffer-changed'' \<or> n = ''paste-buffer-deleted'' \<Longrightarrow>
     decodeKnownEvent b n r M = decodeTargetEvent b n r"
  by (elim disjE) (simp_all add: known_decoders Let_def split: prod.split)

lemma decode_lifecycle_routes:
  "isSessionEvent n \<Longrightarrow> decodeKnownEvent b n r M = Some (decodeSessionEvent b n r)"
  "isWindowEvent n \<Longrightarrow> decodeKnownEvent b n r M = Some (decodeWindowEvent b r)"
  "isClientEvent n \<Longrightarrow> decodeKnownEvent b n r M = Some (decodeClientEvent b n r)"
  unfolding isSessionEvent_def isWindowEvent_def isClientEvent_def
  by (elim insertE emptyE disjE; simp add: known_decoders)+

lemma decodeEvent_announced_line:
  assumes "announced e" and "int (length (event_line e)) \<le> maxBytes" and "maxBytes \<le> (2 ^ 63 - 1) div 4"
  shows "decodeEvent (Received e) (event_line e) maxBytes = Inr e"
proof -
  let ?b = "event_base_of e"
  have out: "int (length d) \<le> maxBytes" if "e = PaneOutputEvent b i a d" for b i a d
    using assms(2) output_escape_length [of d] that
    by (auto simp: event_line_def split: gvalue.splits if_splits)
  have b: "\<lparr>ev_name = RawName e, ev_received = Received e\<rparr> = ?b"
    by (simp add: RawName_def Received_def)
  have "(case decodeKnownEvent ?b (RawName e) (event_text e) maxBytes of Some r \<Rightarrow> r
      | None \<Rightarrow> if isValidEventName (RawName e) then Inr (UnknownEvent ?b (event_text e))
                else protocol_error) = Inr e"
  proof (cases e)
    case (SubscriptionEvent b n s w p x d h)
    with assms(1) decode_subscription [where b = b] show ?thesis
      by (simp add: decode_routes RawName_def)
  next
    case (UnknownEvent b p)
    with assms(1) show ?thesis by (simp add: unknown_not_decoded RawName_def)
  next
    case (PaneOutputEvent b i a d)
    note o = decode_output [where b = b, OF _ out [OF PaneOutputEvent] assms(3)]
    show ?thesis
    proof (cases a)
      case Unavailable
      with assms(1) PaneOutputEvent o(1) show ?thesis
        by (simp add: decode_routes RawName_def)
    next
      case (Present n)
      with assms(1) PaneOutputEvent o(2) show ?thesis
        by (simp add: decode_routes RawName_def)
    qed (use assms(1) PaneOutputEvent in simp)
  next
    case (ClientFlagsChangedEvent b c f)
    with assms(1) cut_byte [of "CHR '' ''" c f] show ?thesis
      by (simp add: decode_routes decodeServerEvent_def RawName_def)
  next
    case (WindowPaneChangedEvent b w p)
    with assms(1) cut_byte [of "CHR '' ''" w p] id_no_blank(2) [of w] show ?thesis
      by (simp add: decode_target_routes decodeTargetEvent_def decodePasteBufferEvent_def RawName_def)
  next
    case (LayoutChangedEvent b i l v f)
    with assms(1) decode_layout [where b = b] show ?thesis by (simp add: decode_routes RawName_def)
  next
    case (SessionEvent b i n p)
    show ?thesis
    proof (cases "ev_name b = ''sessions-changed''")
      case True
      with assms(1) SessionEvent show ?thesis
        by (simp add: decode_lifecycle_routes decodeSessionEvent_def RawName_def)
    next
      case False
      then obtain s where s: "i = Present s" "SessionID_Valid s" using assms(1) SessionEvent by auto
      show ?thesis
        using assms(1) SessionEvent False s decode_session(2,3) [OF s(2)]
        by (cases "ev_name b = ''session-window-changed''") (auto simp: decode_lifecycle_routes RawName_def)
    qed
  next
    case (WindowEvent b i n p)
    with assms(1) decode_window [where b = b] show ?thesis by (auto simp: decode_lifecycle_routes RawName_def)
  next
    case (ClientEvent b c i p)
    with assms(1) decode_client [where b = b] decode_client_detached [where b = b] show ?thesis
      by (auto simp: decode_lifecycle_routes isClientEvent_def RawName_def)
  qed (use assms(1) in \<open>simp_all add: decode_routes decode_target_routes decodeTargetEvent_def decodePasteBufferEvent_def RawName_def\<close>)
  then show ?thesis
    using announced_name [OF assms(1)] assms(2)
      decodeEvent_line [of "RawName e" "event_text e" maxBytes "Received e"]
    unfolding event_line_def b by simp
qed

text \<open>C16: Whatever tmux announces is decoded: for every event in the form tmux means it, its line
  decodes to exactly that event, as long as the line fits the limit. Pane output with any bytes,
  subscription values with line ends and percent signs, and ids of all kinds come back unchanged.\<close>

theorem decodeEvent_announced:
  assumes "announced e" and "int (length (event_line e)) \<le> maxBytes" and "maxBytes \<le> (2 ^ 63 - 1) div 4"
  shows "decodeEvent (Received e) (event_line e) maxBytes = Inr e"
  by (rule decodeEvent_announced_line [OF assms])

lemma decodeEvent_announced_witness:
  "decodeEvent 9 (event_line (PaneOutputEvent \<lparr>ev_name = ''output'', ev_received = 9\<rparr> ''%1'' Unavailable [LF, CHR ''a'']))
     100 = Inr (PaneOutputEvent \<lparr>ev_name = ''output'', ev_received = 9\<rparr> ''%1'' Unavailable [LF, CHR ''a''])"
proof -
  have "PaneID_Valid ''%1''"
    by (simp add: PaneID_Valid_def validID_def parse_uint_def is_digit_def digits_val_def digit_val_def)
  moreover have "Received (PaneOutputEvent \<lparr>ev_name = ''output'', ev_received = 9\<rparr> ''%1'' Unavailable [LF, CHR ''a'']) = 9"
    by (simp add: Received_def)
  ultimately show ?thesis
    using decodeEvent_announced [of "PaneOutputEvent \<lparr>ev_name = ''output'', ev_received = 9\<rparr> ''%1'' Unavailable [LF, CHR ''a'']" 100]
    by (simp add: event_line_def RawName_def output_escape_def octal_escape_def LF_def)
qed

end
