(* ===== verification/Control_Codec.thy ===== *)
theory Control_Codec
  imports Control_Events
begin

text \<open>
  \<open>tmux/control_codec.go\<close>: the framing of control mode. A \<open>bufio.Reader\<close> is the \<open>source\<close> of
  \<open>Wire_Records\<close>; the clock is a function of the input that is left when it is read. The callback
  \<open>publish\<close> is the list of events published, in order. The second part is \<open>controlStreamReader\<close>,
  which undoes what a terminal does to line ends.
\<close>

record frameID =
  fid_time :: nat
  fid_number :: nat
  fid_flags :: nat

record controlFrame =
  fr_id :: frameID
  fr_data :: bytes
  fr_failed :: bool

datatype controlUnit = FrameUnit controlFrame | EventUnit event

definition ESC_DSC :: bytes where "ESC_DSC = CHR 0x1b # ''P1000p''"
definition ESC_trailer :: bytes where "ESC_trailer = [CHR 0x1b, backslash]"

definition frameHeader :: "bytes \<Rightarrow> bytes \<Rightarrow> goerr + frameID" where
  "frameHeader line kind =
     (case Fields (trim_suffix line [LF]) of
        [k, t, n, f] \<Rightarrow>
          if k \<noteq> CHR 0x25 # kind then protocol_error
          else (case (parse_uint 64 t, parse_uint 64 n, parse_uint 64 f) of
                  (Some tv, Some nv, Some fv) \<Rightarrow>
                    if 1 < fv then protocol_error
                    else Inr \<lparr>fid_time = tv, fid_number = nv, fid_flags = fv\<rparr>
                | _ \<Rightarrow> protocol_error)
      | _ \<Rightarrow> protocol_error)"

definition isDSCTrailer :: "bytes \<Rightarrow> bool" where
  "isDSCTrailer b \<longleftrightarrow> TrimSpace b = ESC_trailer"

subsection \<open>Lines\<close>

definition readerBufferSize :: nat where "readerBufferSize = 32768"

datatype slice_end = LineEnd | BufferFull | InputEnd

text \<open>\<open>bufio.Reader.ReadSlice\<close>: up to the line end, or a full buffer, or all that is left.\<close>

definition ReadSlice :: "bytes \<Rightarrow> bytes \<times> slice_end" where
  "ReadSlice rest =
     (let window = take readerBufferSize rest in
      if LF \<in> set window then (takeWhile (\<lambda>c. c \<noteq> LF) window @ [LF], LineEnd)
      else if readerBufferSize \<le> length rest then (window, BufferFull)
      else (rest, InputEnd))"

lemma ReadSlice_full: "ReadSlice rest = (part, BufferFull) \<Longrightarrow> length (drop (length part) rest) < length rest"
  by (auto simp: ReadSlice_def Let_def readerBufferSize_def split: if_splits)

function bounded_line_loop :: "int \<Rightarrow> bytes \<Rightarrow> source \<Rightarrow> (goerr + bytes) \<times> source" where
  "bounded_line_loop limit out r =
     (case ReadSlice (src_rest r) of (part, how) \<Rightarrow>
       let r' = r\<lparr>src_rest := drop (length part) (src_rest r)\<rparr>; out' = out @ part in
       if limit - int (length out) < int (length part) then (Inl (Sentinel ErrOutputLimit), r')
       else (case how of
         LineEnd \<Rightarrow> (if isDSCTrailer out' then Inl (Sentinel IoEOF) else Inr out', r')
       | BufferFull \<Rightarrow> bounded_line_loop limit out' r'
       | InputEnd \<Rightarrow>
           (if err_is (src_end r) IoEOF \<and> isDSCTrailer out' then Inl (Sentinel IoEOF)
            else Inl (src_end r), r')))"
  by pat_completeness auto
termination
  by (relation "measure (\<lambda>(limit, out, r). length (src_rest r))")
     (auto dest!: sym [of _ "ReadSlice _"] ReadSlice_full)

declare bounded_line_loop.simps [simp del]

definition boundedLine :: "source \<Rightarrow> int \<Rightarrow> (goerr + bytes) \<times> source" where
  "boundedLine r limit =
     (if limit \<le> 0 then (Inl (Sentinel ErrOutputLimit), r) else bounded_line_loop limit [] r)"

subsection \<open>Frames\<close>

definition frameEnding :: "bytes \<Rightarrow> bytes" where
  "frameEnding line =
     (if has_prefix line ''%end '' then ''end''
      else if has_prefix line ''%error '' then ''error'' else [])"

definition isAllowedMarker :: "bytes \<Rightarrow> bool" where
  "isAllowedMarker line \<longleftrightarrow> has_prefix line ''TGO-GUARD-1:'' \<or> has_prefix line ''TGO-DONE:'' \<or>
     has_prefix line ''TGO-READY:''"

definition readRecordWireChunk :: "source \<Rightarrow> int \<Rightarrow> (goerr + bytes) \<times> source" where
  "readRecordWireChunk r left =
     (case ReadRecordWire left r of
        ((wireChunk, None), r1) \<Rightarrow> (Inr wireChunk, r1)
      | ((wireChunk, Some err), r1) \<Rightarrow>
          if err_is err ErrRecord then
            (case boundedLine r1 (left - int (length wireChunk)) of
               (Inl readErr, r2) \<Rightarrow> (Inl (JoinErr [Sentinel ErrProtocol, err, readErr]), r2)
             | (Inr rest, r2) \<Rightarrow> (Inr (wireChunk @ rest), r2))
          else (Inl (JoinErr [Sentinel ErrProtocol, err]), r1))"

definition checkFrameEnd :: "bytes \<Rightarrow> bytes \<Rightarrow> frameID \<Rightarrow> bool \<Rightarrow> goerr + bool" where
  "checkFrameEnd line ending i ordinary =
     (case frameHeader line ending of
        Inl e \<Rightarrow> protocol_error
      | Inr fin \<Rightarrow>
          if fin \<noteq> i then protocol_error
          else let failed = (ending = ''error'') in
            if ordinary \<and> \<not> failed then protocol_error else Inr failed)"

text \<open>What a line inside a frame does: end the frame, be published, or be data (\<open>True\<close> for a line
  that is no marker of the library).\<close>

datatype line_effect = FrameDone bool | Published event | FrameData bool

definition processFrameLine :: "time \<Rightarrow> bytes \<Rightarrow> frameID \<Rightarrow> int \<Rightarrow> bool \<Rightarrow> goerr + line_effect" where
  "processFrameLine now line i maxBytes ordinary =
     (if frameEnding line \<noteq> [] then
        bind_res (checkFrameEnd line (frameEnding line) i ordinary) (\<lambda>failed. Inr (FrameDone failed))
      else if has_prefix line ''%begin '' then protocol_error
      else if line \<noteq> [] \<and> hd line = CHR 0x25 \<and> \<not> isl (decodeEvent now line maxBytes)
        then Inr (Published (projr (decodeEvent now line maxBytes)))
      else Inr (FrameData (ordinary \<or> \<not> isAllowedMarker line)))"

text \<open>\<open>bufio.Reader.Peek\<close>.\<close>

definition peek :: "nat \<Rightarrow> source \<Rightarrow> goerr + bytes" where
  "peek n r = (if n \<le> length (src_rest r) then Inr (take n (src_rest r)) else Inl (src_end r))"

lemma bounded_line_loop_shorter:
  "bounded_line_loop limit out r = (Inr l, r') \<Longrightarrow> length (src_rest r') < length (src_rest r)"
proof (induction limit out r rule: bounded_line_loop.induct)
  case (1 limit out r)
  obtain part how where s: "ReadSlice (src_rest r) = (part, how)" by (cases "ReadSlice (src_rest r)")
  show ?case
  proof (cases how)
    case LineEnd
    with s have "part \<noteq> [] \<and> src_rest r \<noteq> []" by (auto simp: ReadSlice_def Let_def split: if_splits)
    with 1(2) s LineEnd show ?thesis
      by (subst (asm) bounded_line_loop.simps) (auto simp: Let_def split: if_splits)
  next
    case BufferFull
    with 1(2) s have "bounded_line_loop limit (out @ part) (r\<lparr>src_rest := drop (length part) (src_rest r)\<rparr>) = (Inr l, r')"
        "\<not> limit - int (length out) < int (length part)"
      by (subst (asm) bounded_line_loop.simps, auto simp: Let_def split: if_splits)+
    with 1(1) [OF s [symmetric] refl refl _ BufferFull] ReadSlice_full [of "src_rest r" part] s BufferFull
    show ?thesis by simp
  next
    case InputEnd
    with 1(2) s show ?thesis
      by (subst (asm) bounded_line_loop.simps) (auto simp: Let_def split: if_splits)
  qed
qed

lemma boundedLine_shorter: "boundedLine r limit = (Inr l, r') \<Longrightarrow> length (src_rest r') < length (src_rest r)"
  by (auto simp: boundedLine_def dest: bounded_line_loop_shorter split: if_splits)

lemma readRecordWireChunk_shorter:
  assumes "readRecordWireChunk r left = (Inr chunk, r')"
  shows "length (src_rest r') < length (src_rest r)"
proof -
  obtain w e r1 where w: "ReadRecordWire left r = ((w, e), r1)" by (metis surj_pair)
  note c = ReadRecordWire_consumed [OF w]
  show ?thesis
  proof (cases e)
    case None
    with w obtain w' fs reader where "scanRecord recordReader_ReadByte recordReader_ReadFull left
         \<lparr>wantWire = False, wantFields = False\<rparr> \<lparr>rr_source = r, rr_data = []\<rparr> = ((w', fs, None), reader)"
        and "rr_source reader = r1"
      by (auto simp: ReadRecordWire_def split: prod.splits)
    then have "length (src_rest r1) < length (src_rest r)"
      using copy_shrinking.scanRecord_shorter by fastforce
    with assms w None c show ?thesis by (auto simp: readRecordWireChunk_def)
  next
    case (Some err)
    with assms w obtain rest where "boundedLine r1 (left - int (length w)) = (Inr rest, r')"
      by (auto simp: readRecordWireChunk_def split: if_splits prod.splits sum.splits)
    with boundedLine_shorter c show ?thesis by fastforce
  qed
qed

function read_frame_loop ::
  "(bytes \<Rightarrow> time) \<Rightarrow> int \<Rightarrow> frameID \<Rightarrow> bytes \<Rightarrow> int \<Rightarrow> bool \<Rightarrow> event list \<Rightarrow> source \<Rightarrow>
   (event list \<times> (goerr + controlFrame)) \<times> source" where
  "read_frame_loop clock maxBytes i data used ordinary published r =
     (case peek (length RecordPrefix) r of
        Inl e \<Rightarrow> ((published, Inl e), r)
      | Inr prefix \<Rightarrow>
          if prefix = RecordPrefix then
            (case readRecordWireChunk r (maxBytes - used) of
               (Inl e, r') \<Rightarrow> ((published, Inl e), r')
             | (Inr chunk, r') \<Rightarrow>
                 read_frame_loop clock maxBytes i (data @ chunk) (used + int (length chunk)) ordinary published r')
          else (case boundedLine r maxBytes of
            (Inl e, r') \<Rightarrow> ((published, Inl e), r')
          | (Inr line, r') \<Rightarrow>
              (case processFrameLine (clock (src_rest r')) line i maxBytes ordinary of
                 Inl e \<Rightarrow> ((published, Inl e), r')
               | Inr (FrameDone failed) \<Rightarrow>
                   ((published, Inr \<lparr>fr_id = i, fr_data = data, fr_failed = failed\<rparr>), r')
               | Inr (Published e) \<Rightarrow>
                   if maxBytes < used then ((published @ [e], Inl (Sentinel ErrOutputLimit)), r')
                   else read_frame_loop clock maxBytes i data used ordinary (published @ [e]) r'
               | Inr (FrameData ordinary') \<Rightarrow>
                   if maxBytes < used + int (length line) then ((published, Inl (Sentinel ErrOutputLimit)), r')
                   else read_frame_loop clock maxBytes i (data @ line) (used + int (length line)) ordinary'
                          published r')))"
  by pat_completeness auto
termination
  by (relation "measure (\<lambda>(clock, maxBytes, i, data, used, ordinary, published, r). length (src_rest r))")
     (auto dest!: sym [of _ "boundedLine _ _"] sym [of _ "readRecordWireChunk _ _"]
       boundedLine_shorter readRecordWireChunk_shorter)

declare read_frame_loop.simps [simp del]

definition readFrame ::
  "(bytes \<Rightarrow> time) \<Rightarrow> source \<Rightarrow> bytes \<Rightarrow> int \<Rightarrow> (event list \<times> (goerr + controlFrame)) \<times> source" where
  "readFrame clock r beginLine maxBytes =
     (case frameHeader beginLine ''begin'' of
        Inl e \<Rightarrow> (([], Inl e), r)
      | Inr i \<Rightarrow> read_frame_loop clock maxBytes i [] (int (length beginLine)) False [] r)"

text \<open>The device control string of \<open>tmux -CC\<close>: skipped at the front, and the end of the stream when
  it is closed.\<close>

definition skip_dsc :: "source \<Rightarrow> source \<times> bool" where
  "skip_dsc r =
     (if peek 1 r = Inr [CHR 0x1b] then
        if peek 7 r = Inr ESC_DSC then (r\<lparr>src_rest := drop 7 (src_rest r)\<rparr>, False)
        else if peek 2 r = Inr ESC_trailer then (r\<lparr>src_rest := drop 2 (src_rest r)\<rparr>, True)
        else (r, False)
      else (r, False))"

definition readControlUnit ::
  "(bytes \<Rightarrow> time) \<Rightarrow> source \<Rightarrow> int \<Rightarrow> (event list \<times> (goerr + controlUnit)) \<times> source" where
  "readControlUnit clock r0 maxBytes =
     (case skip_dsc r0 of
        (r, True) \<Rightarrow> (([], Inl (Sentinel IoEOF)), r)
      | (r, False) \<Rightarrow>
          (case boundedLine r maxBytes of
             (Inl e, r') \<Rightarrow> (([], Inl e), r')
           | (Inr line, r') \<Rightarrow>
               if \<not> has_prefix line ''%begin '' then
                 if has_prefix line ''%end '' \<or> has_prefix line ''%error '' then (([], protocol_error), r')
                 else (([], bind_res (decodeEvent (clock (src_rest r')) line maxBytes)
                              (\<lambda>e. Inr (EventUnit e))), r')
               else (case readFrame clock r' line maxBytes of
                 ((published, f), r'') \<Rightarrow> ((published, bind_res f (\<lambda>f. Inr (FrameUnit f))), r''))))"

subsection \<open>Which lines are read\<close>

text \<open>A line split over any number of buffers is still one line.\<close>

lemma takeWhile_fresh: "x \<notin> set l \<Longrightarrow> takeWhile (\<lambda>c. c \<noteq> x) (l @ x # t) = l"
  by (induction l) auto

lemma first_occurrence_unique:
  "x \<notin> set a \<Longrightarrow> x \<notin> set c \<Longrightarrow> a @ x # b = c @ x # d \<longleftrightarrow> a = c \<and> b = d"
  by (auto simp: append_eq_append_conv2 append_eq_Cons_conv Cons_eq_append_conv)

lemma ReadSlice_cases:
  obtains (line) l rest where "ReadSlice (l @ LF # rest) = (l @ [LF], LineEnd)" "s = l @ LF # rest" "LF \<notin> set l"
  | (full) part rest where "ReadSlice s = (part, BufferFull)" "s = part @ rest" "LF \<notin> set part" "part \<noteq> []"
  | (short) "ReadSlice s = (s, InputEnd)" "LF \<notin> set s"
proof (cases "LF \<in> set (take readerBufferSize s)")
  case True
  then obtain l t where l: "take readerBufferSize s = l @ LF # t" "LF \<notin> set l"
    by (metis split_list_first)
  then have "s = l @ LF # (t @ drop readerBufferSize s)"
    by (metis append.assoc append_Cons append_take_drop_id)
  with l True show thesis by (intro line) (auto simp: ReadSlice_def Let_def takeWhile_fresh)
next
  case False
  show thesis
  proof (cases "readerBufferSize \<le> length s")
    case True
    with False show thesis
      by (intro full [of "take readerBufferSize s" "drop readerBufferSize s"])
         (auto simp: ReadSlice_def Let_def readerBufferSize_def)
  next
    case short': False
    with False show thesis by (intro short) (auto simp: ReadSlice_def Let_def)
  qed
qed

lemma bounded_line_loop_iff:
  assumes "0 < limit" and "int (length out) \<le> limit"
  shows "bounded_line_loop limit out r = (Inr l, r') \<longleftrightarrow>
    (\<exists>m. l = out @ m @ [LF] \<and> LF \<notin> set m \<and> src_rest r = m @ LF # src_rest r' \<and>
         src_end r' = src_end r \<and> int (length l) \<le> limit \<and> \<not> isDSCTrailer l)"
  using assms(2)
proof (induction limit out r rule: bounded_line_loop.induct)
  case (1 limit out r)
  note step = bounded_line_loop.simps [of limit out r]
  show ?case
  proof (cases rule: ReadSlice_cases [of "src_rest r"])
    case (line m rest)
    let ?r = "r\<lparr>src_rest := rest\<rparr>"
    have one: "bounded_line_loop limit out r =
        (if limit - int (length out) < int (length m + 1) then (Inl (Sentinel ErrOutputLimit), ?r)
         else (if isDSCTrailer (out @ m @ [LF]) then Inl (Sentinel IoEOF) else Inr (out @ m @ [LF]), ?r))"
      using line by (subst step) (simp add: Let_def)
    show ?thesis
    proof
      assume "bounded_line_loop limit out r = (Inr l, r')"
      with line show "\<exists>m. l = out @ m @ [LF] \<and> LF \<notin> set m \<and> src_rest r = m @ LF # src_rest r' \<and>
         src_end r' = src_end r \<and> int (length l) \<le> limit \<and> \<not> isDSCTrailer l"
        unfolding one by (intro exI [of _ m]) (auto split: if_splits)
    next
      assume "\<exists>m. l = out @ m @ [LF] \<and> LF \<notin> set m \<and> src_rest r = m @ LF # src_rest r' \<and>
         src_end r' = src_end r \<and> int (length l) \<le> limit \<and> \<not> isDSCTrailer l"
      then obtain n where n: "l = out @ n @ [LF]" "LF \<notin> set n" "src_rest r = n @ LF # src_rest r'"
          "src_end r' = src_end r" "int (length l) \<le> limit" "\<not> isDSCTrailer l" by blast
      have "m = n \<and> rest = src_rest r'"
        using n(2,3) line(2,3) first_occurrence_unique [of LF m n rest "src_rest r'"] by simp
      with n show "bounded_line_loop limit out r = (Inr l, r')"
        unfolding one by (auto intro: source_eqI)
    qed
  next
    case (full part rest)
    let ?r = "r\<lparr>src_rest := rest\<rparr>"
    have one: "bounded_line_loop limit out r =
        (if limit - int (length out) < int (length part) then (Inl (Sentinel ErrOutputLimit), ?r)
         else bounded_line_loop limit (out @ part) ?r)"
      using full by (subst step) (simp add: Let_def)
    have ex: "(\<exists>m. l = out @ m @ [LF] \<and> LF \<notin> set m \<and> part @ rest = m @ LF # src_rest r' \<and> P) \<longleftrightarrow>
        (\<exists>m. l = (out @ part) @ m @ [LF] \<and> LF \<notin> set m \<and> rest = m @ LF # src_rest r' \<and> P)" for P
    proof
      assume "\<exists>m. l = out @ m @ [LF] \<and> LF \<notin> set m \<and> part @ rest = m @ LF # src_rest r' \<and> P"
      then obtain m where m: "l = out @ m @ [LF]" "LF \<notin> set m" "part @ rest = m @ LF # src_rest r'" P by blast
      from m(3) full(3) obtain m' where "m = part @ m'" "rest = m' @ LF # src_rest r'"
        by (auto simp: append_eq_append_conv2 append_eq_Cons_conv Cons_eq_append_conv)
      with m show "\<exists>m. l = (out @ part) @ m @ [LF] \<and> LF \<notin> set m \<and> rest = m @ LF # src_rest r' \<and> P" by auto
    next
      assume "\<exists>m. l = (out @ part) @ m @ [LF] \<and> LF \<notin> set m \<and> rest = m @ LF # src_rest r' \<and> P"
      then obtain m where "l = (out @ part) @ m @ [LF]" "LF \<notin> set m" "rest = m @ LF # src_rest r'" P by blast
      with full(3) show "\<exists>m. l = out @ m @ [LF] \<and> LF \<notin> set m \<and> part @ rest = m @ LF # src_rest r' \<and> P"
        by (intro exI [of _ "part @ m"]) auto
    qed
    show ?thesis
    proof (cases "limit - int (length out) < int (length part)")
      case True
      then show ?thesis unfolding one full(2) ex by auto
    next
      case False
      have rr: "r\<lparr>src_rest := drop (length part) (src_rest r)\<rparr> = ?r" using full(2) by simp
      have "bounded_line_loop limit (out @ part) ?r = (Inr l, r') \<longleftrightarrow>
          (\<exists>m. l = (out @ part) @ m @ [LF] \<and> LF \<notin> set m \<and> src_rest ?r = m @ LF # src_rest r' \<and>
             src_end r' = src_end ?r \<and> int (length l) \<le> limit \<and> \<not> isDSCTrailer l)"
        by (rule "1.IH" [OF full(1) [symmetric] refl refl False refl, unfolded rr]) (use False in simp)
      with False show ?thesis unfolding one full(2) ex by simp
    qed
  next
    case short
    then show ?thesis by (subst step) (auto simp: Let_def)
  qed
qed

lemma boundedLine_iff:
  "boundedLine r limit = (Inr l, r') \<longleftrightarrow>
    (\<exists>m. l = m @ [LF] \<and> LF \<notin> set m \<and> src_rest r = l @ src_rest r' \<and>
         src_end r' = src_end r \<and> int (length l) \<le> limit \<and> \<not> isDSCTrailer l)"
proof (cases "0 < limit")
  case True
  then show ?thesis using bounded_line_loop_iff [of limit "[]" r l r'] by (auto simp: boundedLine_def)
qed (auto simp: boundedLine_def)

lemma boundedLine_reads:
  "LF \<notin> set m \<Longrightarrow> int (length m) < limit \<Longrightarrow> \<not> isDSCTrailer (m @ [LF]) \<Longrightarrow>
   boundedLine \<lparr>src_rest = m @ LF # rest, src_end = e\<rparr> limit = (Inr (m @ [LF]), \<lparr>src_rest = rest, src_end = e\<rparr>)"
  by (simp add: boundedLine_iff)

subsection \<open>What an accepted frame contains\<close>

lemma readRecordWireChunk_reads:
  assumes "readRecordWireChunk r left = (Inr chunk, r')" and "left < 2 ^ 63"
  shows "src_rest r = chunk @ src_rest r' \<and> int (length chunk) \<le> left \<and> LF \<in> set chunk"
proof -
  obtain w e r1 where w: "ReadRecordWire left r = ((w, e), r1)" by (metis surj_pair)
  show ?thesis
  proof (cases e)
    case None
    with assms w have "chunk = w" "r' = r1" by (auto simp: readRecordWireChunk_def)
    with w None show ?thesis
      by (auto simp: ReadRecordWire_exact [OF assms(2)] EncodeRecord_def)
  next
    case (Some err)
    with assms(1) w obtain rest where "boundedLine r1 (left - int (length w)) = (Inr rest, r')" "chunk = w @ rest"
      by (auto simp: readRecordWireChunk_def split: if_splits prod.splits sum.splits)
    with ReadRecordWire_consumed [OF w] show ?thesis by (auto simp: boundedLine_iff)
  qed
qed

lemma chunk_has_prefix:
  assumes "peek (length RecordPrefix) r = Inr RecordPrefix" and "src_rest r = chunk @ rest" and "LF \<in> set chunk"
  shows "has_prefix chunk RecordPrefix"
proof -
  have p: "take 5 (chunk @ rest) = RecordPrefix"
    using assms(1,2) by (auto simp: peek_def split: if_splits)
  have "5 \<le> length chunk"
  proof (rule ccontr)
    assume "\<not> 5 \<le> length chunk"
    then have "set chunk \<subseteq> set (take 5 (chunk @ rest))" by auto
    with p assms(3) show False by (auto simp: RecordPrefix_def LF_def)
  qed
  with p show ?thesis by (simp add: has_prefix_take)
qed

definition chunk_ok :: "bytes \<Rightarrow> bool" where
  "chunk_ok k \<longleftrightarrow> has_prefix k RecordPrefix \<or> isAllowedMarker k"

definition frame_from :: "frameID \<Rightarrow> bytes \<Rightarrow> bool \<Rightarrow> event list \<Rightarrow> event list \<Rightarrow> controlFrame \<Rightarrow> bool" where
  "frame_from i data ordinary published published' f \<longleftrightarrow>
     fr_id f = i \<and> (\<exists>evs. published' = published @ evs \<and> list_all event_ok evs) \<and>
     (\<exists>chunks. fr_data f = data @ concat chunks \<and>
        (\<not> fr_failed f \<longrightarrow> \<not> ordinary \<and> list_all chunk_ok chunks))"

lemma frame_from_chunk:
  assumes "frame_from i (data @ k) ordinary' published published' f"
    and "ordinary' \<or> chunk_ok k" and "ordinary \<Longrightarrow> ordinary'"
  shows "frame_from i data ordinary published published' f"
proof -
  obtain chunks where "fr_data f = (data @ k) @ concat chunks"
      "\<not> fr_failed f \<longrightarrow> \<not> ordinary' \<and> list_all chunk_ok chunks"
    using assms(1) by (auto simp: frame_from_def)
  then have "fr_data f = data @ concat (k # chunks) \<and>
      (\<not> fr_failed f \<longrightarrow> \<not> ordinary \<and> list_all chunk_ok (k # chunks))"
    using assms(2,3) by auto
  with assms(1) show ?thesis unfolding frame_from_def by blast
qed

lemma frame_from_event:
  "frame_from i data ordinary (published @ [e]) published' f \<Longrightarrow> event_ok e \<Longrightarrow>
   frame_from i data ordinary published published' f"
  unfolding frame_from_def by fastforce

lemma read_frame_loop_sound:
  assumes "read_frame_loop clock M i data used ordinary published r = ((published', Inr f), r')"
    and "M < 2 ^ 63" and "0 \<le> used" and "used \<le> M"
  shows "frame_from i data ordinary published published' f \<and>
    used + int (length (fr_data f)) - int (length data) \<le> M"
  using assms
proof (induction clock M i data used ordinary published r rule: read_frame_loop.induct)
  case (1 clock M i data used ordinary published r)
  note step = "1.prems"(1) [unfolded read_frame_loop.simps [of clock M i data used ordinary published r]]
  obtain prefix where p: "peek (length RecordPrefix) r = Inr prefix"
    using step by (cases "peek (length RecordPrefix) r") auto
  show ?case
  proof (cases "prefix = RecordPrefix")
    case True
    obtain chunk r1 where c: "readRecordWireChunk r (M - used) = (Inr chunk, r1)"
      using step p True by (cases "readRecordWireChunk r (M - used)") (auto split: sum.splits)
    have loop: "read_frame_loop clock M i (data @ chunk) (used + int (length chunk)) ordinary published r1 =
        ((published', Inr f), r')"
      using step p True c by simp
    have "M - used < 2 ^ 63" using "1.prems"(2,3) by linarith
    then have k: "src_rest r = chunk @ src_rest r1" "int (length chunk) \<le> M - used" "LF \<in> set chunk"
      using readRecordWireChunk_reads [OF c] by blast+
    then have ok: "chunk_ok chunk"
      using chunk_has_prefix p True by (auto simp: chunk_ok_def)
    have "frame_from i (data @ chunk) ordinary published published' f \<and>
        used + int (length chunk) + int (length (fr_data f)) - int (length (data @ chunk)) \<le> M"
      by (rule "1.IH"(1) [OF p True c [symmetric] refl loop "1.prems"(2)]) (use k(2) "1.prems"(3) in simp_all)
    with frame_from_chunk [of i data chunk ordinary published published' f ordinary] ok show ?thesis by simp
  next
    case False
    obtain line r1 where l: "boundedLine r M = (Inr line, r1)"
      using step p False by (cases "boundedLine r M") (auto split: sum.splits)
    obtain eff where eff: "processFrameLine (clock (src_rest r1)) line i M ordinary = Inr eff"
      using step p False l by (cases "processFrameLine (clock (src_rest r1)) line i M ordinary") auto
    show ?thesis
    proof (cases eff)
      case (FrameDone failed)
      then have f: "f = \<lparr>fr_id = i, fr_data = data, fr_failed = failed\<rparr>" "published' = published"
        using step p False l eff by auto
      have "\<not> failed \<Longrightarrow> \<not> ordinary"
        using eff FrameDone by (auto simp: processFrameLine_def checkFrameEnd_def bind_res_Inr_iff Let_def
            split: if_splits sum.splits)
      with f "1.prems"(4) show ?thesis by (auto simp: frame_from_def intro!: exI [of _ "[]"])
    next
      case (Published e)
      then have loop: "read_frame_loop clock M i data used ordinary (published @ [e]) r1 = ((published', Inr f), r')"
          and u: "\<not> M < used"
        using step p False l eff by (auto split: if_splits)
      have "decodeEvent (clock (src_rest r1)) line M = Inr e"
        using eff Published by (auto simp: processFrameLine_def bind_res_Inr_iff split: if_splits sum.splits)
      then have "event_ok e" by (rule decodeEvent_ok)
      with "1.IH"(2) [OF p False l [symmetric] refl eff Published u loop "1.prems"(2,3,4)] frame_from_event
      show ?thesis by blast
    next
      case (FrameData ordinary')
      then have loop: "read_frame_loop clock M i (data @ line) (used + int (length line)) ordinary' published r1 =
          ((published', Inr f), r')" and u: "\<not> M < used + int (length line)"
        using step p False l eff by (auto split: if_splits)
      have "ordinary' \<longleftrightarrow> ordinary \<or> \<not> isAllowedMarker line"
        using eff FrameData by (auto simp: processFrameLine_def bind_res_Inr_iff split: if_splits sum.splits)
      then have "ordinary' \<or> chunk_ok line" "ordinary \<Longrightarrow> ordinary'" by (auto simp: chunk_ok_def)
      moreover have "frame_from i (data @ line) ordinary' published published' f \<and>
          used + int (length line) + int (length (fr_data f)) - int (length (data @ line)) \<le> M"
        by (rule "1.IH"(3) [OF p False l [symmetric] refl eff FrameData u loop "1.prems"(2)])
           (use u "1.prems"(3) in simp_all)
      ultimately show ?thesis
        using frame_from_chunk [of i data line ordinary' published published' f ordinary] by simp
    qed
  qed
qed

lemma frameHeader_flags: "frameHeader line kind = Inr i \<Longrightarrow> fid_flags i \<le> 1"
  by (auto simp: frameHeader_def split: list.splits if_splits option.splits)

text \<open>Whatever bytes the control client writes, a frame that is accepted holds less than the
  frame limit, carries a valid flag and was closed by the end line of the very command that opened
  it; every event published on the way is well typed; and the data of a frame that did not fail
  consists of length-framed records and marker lines of the library only, so ordinary output is
  never taken for the answer of a command that succeeded.\<close>

theorem readControlUnit_frame_sound:
  assumes "readControlUnit clock r maxBytes = ((published, Inr (FrameUnit f)), r')" and "maxBytes < 2 ^ 63"
  shows "int (length (fr_data f)) < maxBytes \<and> fid_flags (fr_id f) \<le> 1 \<and> list_all event_ok published \<and>
    (fr_failed f \<or> (\<exists>chunks. fr_data f = concat chunks \<and> list_all chunk_ok chunks))"
proof -
  obtain r0 where s: "skip_dsc r = (r0, False)"
    using assms(1) by (auto simp: readControlUnit_def split: prod.splits bool.splits)
  obtain line r1 where l: "boundedLine r0 maxBytes = (Inr line, r1)"
    using assms(1) s by (cases "boundedLine r0 maxBytes") (auto simp: readControlUnit_def split: sum.splits)
  have b: "readFrame clock r1 line maxBytes = ((published, Inr f), r')"
    using assms(1) s l by (auto simp: readControlUnit_def bind_res_Inr_iff split: if_splits prod.splits)
  then obtain i where h: "frameHeader line ''begin'' = Inr i"
      and loop: "read_frame_loop clock maxBytes i [] (int (length line)) False [] r1 = ((published, Inr f), r')"
    by (auto simp: readFrame_def split: sum.splits)
  have len: "0 < int (length line)" "int (length line) \<le> maxBytes"
    using l by (auto simp: boundedLine_iff)
  from read_frame_loop_sound [OF loop assms(2) _ len(2)] len(1)
  have from0: "frame_from i [] False [] published f"
    and "int (length line) + int (length (fr_data f)) \<le> maxBytes" by simp_all
  then have "int (length (fr_data f)) < maxBytes" using len(1) by linarith
  with from0 frameHeader_flags [OF h] show ?thesis by (auto simp: frame_from_def)
qed

subsection \<open>Frames are read back\<close>

text \<open>What tmux writes for one command: the begin line, records, marker lines and notifications in any
  order, and the end line.\<close>

datatype frame_item = RecordItem "bytes list" | MarkerItem bytes | NoticeItem event

fun item_text :: "frame_item \<Rightarrow> bytes" where
  "item_text (RecordItem vs) = EncodeRecord vs"
| "item_text (MarkerItem m) = m @ [LF]"
| "item_text (NoticeItem e) = event_line e"

fun item_data :: "frame_item \<Rightarrow> bytes" where
  "item_data (RecordItem vs) = EncodeRecord vs"
| "item_data (MarkerItem m) = m @ [LF]"
| "item_data (NoticeItem e) = []"

fun item_notice :: "frame_item \<Rightarrow> event list" where
  "item_notice (NoticeItem e) = [e]"
| "item_notice _ = []"

definition items_text :: "frame_item list \<Rightarrow> bytes" where "items_text xs = concat (map item_text xs)"
definition items_data :: "frame_item list \<Rightarrow> bytes" where "items_data xs = concat (map item_data xs)"
definition items_notices :: "frame_item list \<Rightarrow> event list" where
  "items_notices xs = concat (map item_notice xs)"

fun item_ok :: "int \<Rightarrow> frame_item \<Rightarrow> bool" where
  "item_ok M (RecordItem vs) \<longleftrightarrow> length vs \<le> 1024"
| "item_ok M (MarkerItem m) \<longleftrightarrow> isAllowedMarker m \<and> LF \<notin> set m"
| "item_ok M (NoticeItem e) \<longleftrightarrow> announced e \<and> LF \<notin> set (RawName e) \<union> set (event_text e) \<and>
     RawName e \<notin> {''begin'', ''end'', ''error''} \<and> int (length (event_line e)) \<le> M"

text \<open>Each event is stamped with the clock as it stands when its line has been read.\<close>

fun stamped :: "(bytes \<Rightarrow> time) \<Rightarrow> frame_item list \<Rightarrow> bytes \<Rightarrow> bool" where
  "stamped clock [] tail \<longleftrightarrow> True"
| "stamped clock (x # xs) tail \<longleftrightarrow>
     list_all (\<lambda>e. Received e = clock (items_text xs @ tail)) (item_notice x) \<and> stamped clock xs tail"

definition frame_line :: "bytes \<Rightarrow> frameID \<Rightarrow> bytes" where
  "frame_line kind i = CHR 0x25 # join_with '' ''
     [kind, itoa_nat (fid_time i), itoa_nat (fid_number i), itoa_nat (fid_flags i)] @ [LF]"

definition frameID_ok :: "frameID \<Rightarrow> bool" where
  "frameID_ok i \<longleftrightarrow> fid_time i < 2 ^ 64 \<and> fid_number i < 2 ^ 64 \<and> fid_flags i \<le> 1"

lemma itoa_nat_graphic: "list_all graphic (itoa_nat n)"
  using list_all_itoa_nat [of n] by (auto simp: list_all_iff digit_graphic simp del: list_all_itoa_nat)

lemma graphic_LF [simp]: "\<not> graphic LF"
  by (simp add: graphic_def LF_def)

lemma frameHeader_line:
  assumes "frameID_ok i" and "list_all graphic kind"
  shows "frameHeader (frame_line kind i) kind = Inr i"
proof -
  let ?ws = "[CHR 0x25 # kind, itoa_nat (fid_time i), itoa_nat (fid_number i), itoa_nat (fid_flags i)]"
  have t: "trim_suffix (frame_line kind i) [LF] = join_with '' '' ?ws"
    using trim_suffix_append [of "join_with '' '' ?ws" "[LF]"] by (simp add: frame_line_def)
  have "graphic (CHR 0x25)" by (simp add: graphic_def)
  then have "Fields (join_with '' '' ?ws) = ?ws"
    using assms(2) itoa_nat_graphic by (intro Fields_words) auto
  moreover have "fid_flags i < 2 ^ 64" using assms(1) by (simp add: frameID_ok_def)
  ultimately show ?thesis
    using assms(1) unfolding frameHeader_def t by (simp add: frameID_ok_def)
qed

lemma not_DSC_trailer: "graphic c \<Longrightarrow> \<not> isDSCTrailer (c # s)"
  by (auto simp: isDSCTrailer_def ESC_trailer_def graphic_def dest!: TrimSpace_hd [rotated])

lemma graphic_no_LF: "list_all graphic s \<Longrightarrow> LF \<notin> set s"
  by (auto simp: list_all_iff)

lemma frame_line_parts:
  "list_all graphic kind \<Longrightarrow> \<exists>m. frame_line kind i = CHR 0x25 # m @ [LF] \<and> LF \<notin> set m \<and>
    has_prefix (frame_line kind i) (CHR 0x25 # kind @ '' '')"
proof -
  let ?m = "join_with '' '' [kind, itoa_nat (fid_time i), itoa_nat (fid_number i), itoa_nat (fid_flags i)]"
  assume "list_all graphic kind"
  then have "LF \<notin> set ?m"
    using graphic_no_LF itoa_nat_graphic by (simp add: LF_def)
  then show ?thesis
    by (intro exI [of _ ?m]) (simp add: frame_line_def has_prefix_iff)
qed

lemma graphic_percent [simp]: "graphic (CHR 0x25)"
  by (simp add: graphic_def)

text \<open>One iteration of the frame loop for each kind of item.\<close>

lemma loop_record:
  assumes "length vs \<le> 1024" and "int (length (EncodeRecord vs)) \<le> M - used" and "M - used < 2 ^ 63"
  shows "read_frame_loop clock M i data used ordinary published \<lparr>src_rest = EncodeRecord vs @ s, src_end = e\<rparr> =
    read_frame_loop clock M i (data @ EncodeRecord vs) (used + int (length (EncodeRecord vs))) ordinary published
      \<lparr>src_rest = s, src_end = e\<rparr>"
proof -
  have "peek (length RecordPrefix) \<lparr>src_rest = EncodeRecord vs @ s, src_end = e\<rparr> = Inr RecordPrefix"
    by (simp add: peek_def EncodeRecord_def)
  moreover have "ReadRecordWire (M - used) \<lparr>src_rest = EncodeRecord vs @ s, src_end = e\<rparr> =
      ((EncodeRecord vs, None), \<lparr>src_rest = s, src_end = e\<rparr>)"
    using assms by (auto simp: ReadRecordWire_exact)
  then have "readRecordWireChunk \<lparr>src_rest = EncodeRecord vs @ s, src_end = e\<rparr> (M - used) =
      (Inr (EncodeRecord vs), \<lparr>src_rest = s, src_end = e\<rparr>)"
    by (simp add: readRecordWireChunk_def)
  ultimately show ?thesis by (subst read_frame_loop.simps) simp
qed

lemma loop_line:
  assumes "take 5 (l @ LF # s) \<noteq> RecordPrefix" and "4 \<le> length (l @ s)" and "LF \<notin> set l"
    and "int (length l) < M" and "l = c # l'" and "graphic c"
  shows "read_frame_loop clock M i data used ordinary published \<lparr>src_rest = l @ LF # s, src_end = e\<rparr> =
    (case processFrameLine (clock s) (l @ [LF]) i M ordinary of
       Inl e' \<Rightarrow> ((published, Inl e'), \<lparr>src_rest = s, src_end = e\<rparr>)
     | Inr (FrameDone failed) \<Rightarrow>
         ((published, Inr \<lparr>fr_id = i, fr_data = data, fr_failed = failed\<rparr>), \<lparr>src_rest = s, src_end = e\<rparr>)
     | Inr (Published ev) \<Rightarrow>
         if M < used then ((published @ [ev], Inl (Sentinel ErrOutputLimit)), \<lparr>src_rest = s, src_end = e\<rparr>)
         else read_frame_loop clock M i data used ordinary (published @ [ev]) \<lparr>src_rest = s, src_end = e\<rparr>
     | Inr (FrameData ordinary') \<Rightarrow>
         if M < used + int (length (l @ [LF]))
         then ((published, Inl (Sentinel ErrOutputLimit)), \<lparr>src_rest = s, src_end = e\<rparr>)
         else read_frame_loop clock M i (data @ l @ [LF]) (used + int (length (l @ [LF]))) ordinary'
                published \<lparr>src_rest = s, src_end = e\<rparr>)"
proof -
  have "peek (length RecordPrefix) \<lparr>src_rest = l @ LF # s, src_end = e\<rparr> = Inr (take 5 (l @ LF # s))"
    using assms(2) by (simp add: peek_def)
  moreover have "boundedLine \<lparr>src_rest = l @ LF # s, src_end = e\<rparr> M = (Inr (l @ [LF]), \<lparr>src_rest = s, src_end = e\<rparr>)"
    using assms(3-6) not_DSC_trailer [of c "l' @ [LF]"] by (intro boundedLine_reads) auto
  ultimately show ?thesis
    using assms(1) by (subst read_frame_loop.simps) simp
qed

text \<open>The lines of the frame and what they do.\<close>

lemma announced_not_framing:
  assumes "RawName e \<notin> {''begin'', ''end'', ''error''}" and "CHR '' '' \<notin> set (RawName e)"
    and "kind \<in> {''begin'', ''end'', ''error''}"
  shows "\<not> has_prefix (event_line e) (CHR 0x25 # kind @ '' '')"
proof
  assume "has_prefix (event_line e) (CHR 0x25 # kind @ '' '')"
  then obtain t where t: "RawName e @ (if event_text e = [] then [] else '' '' @ event_text e) @ [LF] = kind @ CHR '' '' # t"
    by (auto simp: event_line_def has_prefix_iff)
  have k: "CHR '' '' \<notin> set kind" using assms(3) by auto
  show False
  proof (cases "event_text e = []")
    case True
    with t have "CHR '' '' \<in> set (RawName e @ [LF])" by simp
    with assms(2) show False by (simp add: LF_def)
  next
    case False
    with t have "RawName e @ CHR '' '' # (event_text e @ [LF]) = kind @ CHR '' '' # t" by simp
    with first_occurrence_unique [OF assms(2) k] assms(1,3) show False by auto
  qed
qed

lemma process_notice:
  assumes "item_ok M (NoticeItem e)" and "M \<le> (2 ^ 63 - 1) div 4" and "now = Received e"
  shows "processFrameLine now (event_line e) i M ordinary = Inr (Published e)"
proof -
  have "decodeEvent now (event_line e) M = Inr e"
    using assms decodeEvent_announced_line by auto
  moreover have "\<not> has_prefix (event_line e) ''%begin ''" "\<not> has_prefix (event_line e) ''%end ''"
      "\<not> has_prefix (event_line e) ''%error ''"
    using announced_not_framing [of e "''begin''"] announced_not_framing [of e "''end''"]
      announced_not_framing [of e "''error''"] assms(1) announced_name [of e] by auto
  ultimately show ?thesis
    by (simp add: processFrameLine_def frameEnding_def) (simp add: event_line_def)
qed

lemma marker_head: "isAllowedMarker m \<Longrightarrow> has_prefix m ''TGO-''"
  by (auto simp: isAllowedMarker_def has_prefix_iff)

lemma isAllowedMarker_append: "isAllowedMarker m \<Longrightarrow> isAllowedMarker (m @ t)"
  by (auto simp: isAllowedMarker_def has_prefix_iff)

lemma process_marker:
  assumes "isAllowedMarker m"
  shows "processFrameLine now (m @ t) i M ordinary = Inr (FrameData ordinary)"
proof -
  obtain s where "m = ''TGO-'' @ s" using marker_head [OF assms] by (auto simp: has_prefix_iff)
  then show ?thesis
    using isAllowedMarker_append [OF assms, of t] by (simp add: processFrameLine_def frameEnding_def)
qed

lemma process_end:
  assumes "frameID_ok i" and "failed \<or> \<not> ordinary"
  shows "processFrameLine now (frame_line (if failed then ''error'' else ''end'') i) i M ordinary =
    Inr (FrameDone failed)"
proof -
  let ?k = "if failed then ''error'' else ''end''"
  have g: "list_all graphic ?k" by (simp add: graphic_def)
  have "has_prefix (frame_line ?k i) (CHR 0x25 # ?k @ '' '')" using frame_line_parts [OF g] by blast
  then have "frameEnding (frame_line ?k i) = ?k"
    by (cases failed) (auto simp: frameEnding_def has_prefix_iff)
  then show ?thesis
    using assms frameHeader_line [OF assms(1) g] by (auto simp: processFrameLine_def checkFrameEnd_def)
qed

lemma items_text_Cons [simp]: "items_text (x # xs) = item_text x @ items_text xs" "items_text [] = []"
  by (simp_all add: items_text_def)

lemma items_data_Cons [simp]: "items_data (x # xs) = item_data x @ items_data xs" "items_data [] = []"
  by (simp_all add: items_data_def)

lemma items_notices_Cons [simp]:
  "items_notices (x # xs) = item_notice x @ items_notices xs" "items_notices [] = []"
  by (simp_all add: items_notices_def)

lemma event_line_parts:
  "event_line e = (CHR 0x25 # RawName e @ (if event_text e = [] then [] else '' '' @ event_text e)) @ [LF]"
  by (simp add: event_line_def)

lemma read_frame_loop_items:
  assumes "list_all (item_ok M) xs" and "stamped clock xs (frame_line (if failed then ''error'' else ''end'') i @ tail)"
    and "frameID_ok i" and "used + int (length (items_data xs)) \<le> M" and "0 \<le> used"
    and "int (length (frame_line ''error'' i)) \<le> M" and "M \<le> (2 ^ 63 - 1) div 4"
  shows "read_frame_loop clock M i data used False published
      \<lparr>src_rest = items_text xs @ frame_line (if failed then ''error'' else ''end'') i @ tail, src_end = e\<rparr> =
    ((published @ items_notices xs, Inr \<lparr>fr_id = i, fr_data = data @ items_data xs, fr_failed = failed\<rparr>),
     \<lparr>src_rest = tail, src_end = e\<rparr>)"
  using assms(1,2,4,5)
proof (induction xs arbitrary: data used published)
  case Nil
  let ?k = "if failed then ''error'' else ''end''"
  have g: "list_all graphic ?k" by (simp add: graphic_def)
  obtain m where m: "frame_line ?k i = CHR 0x25 # m @ [LF]" "LF \<notin> set m"
      "has_prefix (frame_line ?k i) (CHR 0x25 # ?k @ '' '')" using frame_line_parts [OF g] by blast
  have "length (frame_line ?k i) \<le> length (frame_line ''error'' i)" by (simp add: frame_line_def)
  then have len: "int (length (CHR 0x25 # m)) < M" using assms(6) m(1) by simp
  have "5 \<le> length (frame_line ?k i)" by (cases failed) (simp_all add: frame_line_def)
  then have long: "4 \<le> length ((CHR 0x25 # m) @ tail)" using m(1) by simp
  have "take 5 ((CHR 0x25 # m) @ LF # tail) \<noteq> RecordPrefix" by (simp add: RecordPrefix_def)
  note step = loop_line [OF this long _ len refl graphic_percent, of clock i data used False published e]
  show ?case
    using step m(1,2) process_end [OF assms(3), of failed False "clock tail" M] by (simp add: LF_def)
next
  case (Cons x xs)
  let ?fin = "frame_line (if failed then ''error'' else ''end'') i @ tail"
  have endlen: "4 \<le> length ?fin"
    by (cases failed) (simp_all add: frame_line_def)
  show ?case
  proof (cases x)
    case (RecordItem vs)
    have "used + int (length (EncodeRecord vs)) + int (length (items_data xs)) \<le> M"
      using Cons.prems(3) RecordItem by simp
    moreover have "M - used < 2 ^ 63" using assms(7) Cons.prems(4) by simp
    ultimately show ?thesis
      using RecordItem Cons loop_record [of vs M used clock i data False published "items_text xs @ ?fin" e]
      by simp
  next
    case (MarkerItem m)
    then have mk: "isAllowedMarker m" "LF \<notin> set m" using Cons.prems(1) by simp_all
    obtain s where s: "m = ''TGO-'' @ s" using marker_head [OF mk(1)] by (auto simp: has_prefix_iff)
    have u: "used + int (length (m @ [LF])) + int (length (items_data xs)) \<le> M"
      using Cons.prems(3) MarkerItem by simp
    have "read_frame_loop clock M i data used False published
        \<lparr>src_rest = m @ LF # (items_text xs @ ?fin), src_end = e\<rparr> =
      read_frame_loop clock M i (data @ m @ [LF]) (used + int (length (m @ [LF]))) False published
        \<lparr>src_rest = items_text xs @ ?fin, src_end = e\<rparr>"
      using u Cons.prems(4) mk(2) s process_marker [OF mk(1), of _ "[LF]" i M False]
      by (subst loop_line [where c = "CHR ''T''" and l' = "tl m"]) (auto simp: RecordPrefix_def graphic_def)
    then show ?thesis using Cons.IH [of "used + int (length (m @ [LF]))" "data @ m @ [LF]" published] MarkerItem Cons.prems u by simp
  next
    case (NoticeItem ev)
    let ?l = "CHR 0x25 # RawName ev @ (if event_text ev = [] then [] else '' '' @ event_text ev)"
    have ok: "item_ok M (NoticeItem ev)" using Cons.prems(1) NoticeItem by simp
    then have LFl: "LF \<notin> set ?l" by (auto simp: LF_def)
    have len: "int (length ?l) < M" using ok unfolding item_ok.simps event_line_parts by simp
    have st: "clock (items_text xs @ ?fin) = Received ev" using Cons.prems(2) NoticeItem by simp
    have u: "\<not> M < used" using Cons.prems(3) by simp
    have "read_frame_loop clock M i data used False published
        \<lparr>src_rest = ?l @ LF # (items_text xs @ ?fin), src_end = e\<rparr> =
      read_frame_loop clock M i data used False (published @ [ev])
        \<lparr>src_rest = items_text xs @ ?fin, src_end = e\<rparr>"
      using u len LFl endlen process_notice [OF ok assms(7), of "clock (items_text xs @ ?fin)" i False] st
      unfolding event_line_parts
      by (subst loop_line [OF _ _ LFl len refl graphic_percent]) (auto simp: RecordPrefix_def)
    then show ?thesis
      using Cons.IH [of used data "published @ [ev]"] NoticeItem Cons.prems by (simp add: event_line_def)
  qed
qed

lemma readControlUnit_frame:
  assumes "frameID_ok i" and "list_all (item_ok maxBytes) items"
    and "stamped clock items (frame_line (if failed then ''error'' else ''end'') i @ tail)"
    and "int (length (frame_line ''begin'' i) + length (items_data items)) \<le> maxBytes"
    and "maxBytes \<le> (2 ^ 63 - 1) div 4"
  shows "readControlUnit clock
      \<lparr>src_rest = frame_line ''begin'' i @ items_text items @
         frame_line (if failed then ''error'' else ''end'') i @ tail, src_end = e\<rparr> maxBytes =
    ((items_notices items, Inr (FrameUnit \<lparr>fr_id = i, fr_data = items_data items, fr_failed = failed\<rparr>)),
     \<lparr>src_rest = tail, src_end = e\<rparr>)"
proof -
  let ?rest = "items_text items @ frame_line (if failed then ''error'' else ''end'') i @ tail"
  have g: "list_all graphic ''begin''" by (simp add: graphic_def)
  obtain m where m: "frame_line ''begin'' i = CHR 0x25 # m @ [LF]" "LF \<notin> set m"
      "has_prefix (frame_line ''begin'' i) ''%begin ''" using frame_line_parts [OF g, of i] by auto
  have n: "\<not> isDSCTrailer ((CHR 0x25 # m) @ [LF])" using not_DSC_trailer [of "CHR 0x25" "m @ [LF]"] by simp
  have "boundedLine \<lparr>src_rest = (CHR 0x25 # m) @ LF # ?rest, src_end = e\<rparr> maxBytes =
      (Inr ((CHR 0x25 # m) @ [LF]), \<lparr>src_rest = ?rest, src_end = e\<rparr>)"
    using m assms(4) by (intro boundedLine_reads n) (auto simp: LF_def)
  then have l: "boundedLine \<lparr>src_rest = frame_line ''begin'' i @ ?rest, src_end = e\<rparr> maxBytes =
      (Inr (frame_line ''begin'' i), \<lparr>src_rest = ?rest, src_end = e\<rparr>)"
    using m(1) by simp
  have s: "skip_dsc \<lparr>src_rest = frame_line ''begin'' i @ ?rest, src_end = e\<rparr> =
      (\<lparr>src_rest = frame_line ''begin'' i @ ?rest, src_end = e\<rparr>, False)"
    using m(1) by (simp add: skip_dsc_def peek_def)
  have "length (frame_line ''error'' i) = length (frame_line ''begin'' i)" by (simp add: frame_line_def)
  then have "readFrame clock \<lparr>src_rest = ?rest, src_end = e\<rparr> (frame_line ''begin'' i) maxBytes =
      ((items_notices items, Inr \<lparr>fr_id = i, fr_data = items_data items, fr_failed = failed\<rparr>),
       \<lparr>src_rest = tail, src_end = e\<rparr>)"
    using read_frame_loop_items [OF assms(2,3,1) _ _ _ assms(5), of "int (length (frame_line ''begin'' i))" "[]" "[]" e]
      assms(4) frameHeader_line [OF assms(1) g]
    by (simp add: readFrame_def)
  then show ?thesis
    using m(3) by (simp add: readControlUnit_def s l)
qed

text \<open>C14: The answer of a command is read back exactly: whatever bytes its records contain, lines that
  look like the end of a frame or like notifications included, and wherever tmux puts notifications
  between them, the frame returned holds precisely the records and markers, the notifications are
  published in order, and the next unit starts right after the end line.\<close>

theorem readControlUnit_reads_frame:
  assumes "frameID_ok i" and "list_all (item_ok maxBytes) items"
    and "stamped clock items (frame_line (if failed then ''error'' else ''end'') i @ tail)"
    and "int (length (frame_line ''begin'' i) + length (items_data items)) \<le> maxBytes"
    and "maxBytes \<le> (2 ^ 63 - 1) div 4"
  shows "readControlUnit clock
      \<lparr>src_rest = frame_line ''begin'' i @ items_text items @
         frame_line (if failed then ''error'' else ''end'') i @ tail, src_end = e\<rparr> maxBytes =
    ((items_notices items, Inr (FrameUnit \<lparr>fr_id = i, fr_data = items_data items, fr_failed = failed\<rparr>)),
     \<lparr>src_rest = tail, src_end = e\<rparr>)"
  by (rule readControlUnit_frame [OF assms])

definition tiny_id :: frameID where "tiny_id = \<lparr>fid_time = 7, fid_number = 2, fid_flags = 1\<rparr>"
definition tiny_items :: "frame_item list" where "tiny_items = [RecordItem [''%end'' @ [LF]]]"

lemma tiny_frame:
  "frameID_ok tiny_id" "list_all (item_ok 200) tiny_items"
  "stamped (\<lambda>_. 0) tiny_items (frame_line (if False then ''error'' else ''end'') tiny_id @ tail)"
  "int (length (frame_line ''begin'' tiny_id) + length (items_data tiny_items)) \<le> 200"
  by (simp_all add: frameID_ok_def tiny_id_def tiny_items_def frame_line_def itoa_nat_small
      EncodeRecord_def encode_field_def)

lemma readControlUnit_reads_frame_witness:
  "readControlUnit (\<lambda>_. 0)
     \<lparr>src_rest = frame_line ''begin'' tiny_id @ items_text tiny_items @ frame_line ''end'' tiny_id @ ''rest'',
      src_end = Sentinel IoEOF\<rparr> 200 =
   (([], Inr (FrameUnit \<lparr>fr_id = tiny_id, fr_data = items_data tiny_items, fr_failed = False\<rparr>)),
    \<lparr>src_rest = ''rest'', src_end = Sentinel IoEOF\<rparr>)"
  using readControlUnit_reads_frame [OF tiny_frame, of "''rest''" "Sentinel IoEOF"]
  by (simp add: tiny_items_def)

lemma readControlUnit_frame_sound_witness:
  "int (length (items_data tiny_items)) < 200"
proof -
  have "readControlUnit (\<lambda>_. 0)
     \<lparr>src_rest = frame_line ''begin'' tiny_id @ items_text tiny_items @
        frame_line (if False then ''error'' else ''end'') tiny_id @ ''rest'', src_end = Sentinel IoEOF\<rparr> 200 =
   ((items_notices tiny_items, Inr (FrameUnit \<lparr>fr_id = tiny_id, fr_data = items_data tiny_items, fr_failed = False\<rparr>)),
    \<lparr>src_rest = ''rest'', src_end = Sentinel IoEOF\<rparr>)"
    by (rule readControlUnit_frame [OF tiny_frame]) simp
  from readControlUnit_frame_sound [OF this] show ?thesis by simp
qed

end
