(* ===== verification/Control_Terminal.thy ===== *)
theory Control_Terminal
  imports Control_Codec
begin

text \<open>
  \<open>controlStreamReader\<close> of \<open>tmux/control_codec.go\<close>: with \<open>-CC\<close> tmux writes to a pseudo terminal,
  which turns every line end into carriage return and line feed; this reader undoes it on the fly,
  whatever the sizes of the reads. The buffer \<open>p\<close> of \<open>Read\<close> is its length and the bytes written
  to it so far; the source reads from the tail of the buffer it writes to, and \<open>transform_in_place\<close>
  states why no byte is overwritten before it is read.
\<close>

record stream_reader =
  sr_hasCR :: bool
  sr_seenDSC :: bool
  sr_pending :: bytes

definition newControlStreamReader :: stream_reader where
  "newControlStreamReader = \<lparr>sr_hasCR = False, sr_seenDSC = False, sr_pending = []\<rparr>"

text \<open>The bytes written to the buffer of length \<open>n\<close> and the bytes that did not fit.\<close>

definition emit :: "nat \<Rightarrow> bytes \<times> bytes \<Rightarrow> byte \<Rightarrow> bytes \<times> bytes" where
  "emit n w b = (case w of (out, pending) \<Rightarrow>
     if length out < n then (out @ [b], pending) else (out, pending @ [b]))"

fun transform :: "nat \<Rightarrow> bytes \<Rightarrow> bool \<Rightarrow> bytes \<times> bytes \<Rightarrow> bool \<times> bytes \<times> bytes" where
  "transform n [] hasCR w = (hasCR, w)"
| "transform n (b # src) hasCR w =
     (let w1 = (if hasCR \<and> b \<noteq> LF then emit n w CR else w)
      in if b = CR then transform n src True w1 else transform n src False (emit n w1 b))"

definition filterDSC :: "stream_reader \<Rightarrow> bytes \<Rightarrow> bytes \<times> stream_reader" where
  "filterDSC c src =
     (if \<not> sr_seenDSC c then
        (if has_prefix src ESC_DSC then drop 7 src else src, c\<lparr>sr_seenDSC := True\<rparr>)
      else (src, c))"

text \<open>The reference: carriage returns before a line feed are dropped. \<open>crlf\<close> is its streaming form,
  with the carriage return that may still be dropped as its state.\<close>

fun unix_lines :: "bytes \<Rightarrow> bytes" where
  "unix_lines [] = []"
| "unix_lines [c] = [c]"
| "unix_lines (c # d # s) = (if c = CR \<and> d = LF then LF # unix_lines s else c # unix_lines (d # s))"

fun crlf :: "bool \<Rightarrow> bytes \<Rightarrow> bytes \<times> bool" where
  "crlf h [] = ([], h)"
| "crlf h (b # s) = (case crlf (b = CR) s of (out, h') \<Rightarrow>
     ((if h \<and> b \<noteq> LF then [CR] else []) @ (if b = CR then [] else [b]) @ out, h'))"

definition flush_cr :: "bytes \<times> bool \<Rightarrow> bytes" where
  "flush_cr r = fst r @ (if snd r then [CR] else [])"

lemma CR_neq_LF [simp]: "CR \<noteq> LF" "LF \<noteq> CR"
  by (simp_all add: CR_def LF_def)

lemma unix_lines_Cons:
  "unix_lines (b # s) =
     (if b = CR then if s = [] \<or> hd s \<noteq> LF then CR # unix_lines s else unix_lines s else b # unix_lines s)"
proof (cases s)
  case (Cons d t)
  then show ?thesis by (cases t) auto
qed auto

lemma flush_crlf_Cons:
  "flush_cr (crlf h (b # s)) =
     (if h \<and> b \<noteq> LF then [CR] else []) @ (if b = CR then [] else [b]) @ flush_cr (crlf (b = CR) s)"
  by (simp add: flush_cr_def split: prod.split)

lemma flush_crlf: "flush_cr (crlf h s) = (if h \<and> (s = [] \<or> hd s \<noteq> LF) then CR # unix_lines s else unix_lines s)"
proof (induction s arbitrary: h)
  case (Cons b s)
  show ?case unfolding flush_crlf_Cons unix_lines_Cons [of b s] Cons.IH by auto
qed (simp add: flush_cr_def)

lemma crlf_append: "crlf h (s @ t) = (fst (crlf h s) @ fst (crlf (snd (crlf h s)) t), snd (crlf (snd (crlf h s)) t))"
  by (induction s arbitrary: h) (auto split: prod.splits)

lemma transform_crlf:
  assumes "transform n src h (out, pending) = (h', out', pending')" and "pending = [] \<or> n \<le> length out"
  shows "out' @ pending' = (out @ pending) @ fst (crlf h src) \<and> h' = snd (crlf h src) \<and>
    (pending' = [] \<or> n \<le> length out') \<and> length out' \<le> max n (length out)"
  using assms
proof (induction src arbitrary: h out pending)
  case (Cons b src)
  have e: "\<exists>o1 p1. emit n (o0, p0) x = (o1, p1) \<and> o1 @ p1 = o0 @ p0 @ [x] \<and> (p1 = [] \<or> n \<le> length o1) \<and>
      length o1 \<le> max n (length o0)" if "p0 = [] \<or> n \<le> length o0" for o0 p0 x
    using that by (auto simp: emit_def)
  have "\<exists>o1 p1. (if h \<and> b \<noteq> LF then emit n (out, pending) CR else (out, pending)) = (o1, p1) \<and>
      o1 @ p1 = (out @ pending) @ (if h \<and> b \<noteq> LF then [CR] else []) \<and> (p1 = [] \<or> n \<le> length o1) \<and>
      length o1 \<le> max n (length out)"
  proof (cases "h \<and> b \<noteq> LF")
    case True
    then show ?thesis using e [OF Cons.prems(2), of CR] by simp
  next
    case False
    then show ?thesis unfolding if_not_P [OF False] using Cons.prems(2) by simp
  qed
  then obtain o1 p1 where w1: "(if h \<and> b \<noteq> LF then emit n (out, pending) CR else (out, pending)) = (o1, p1)"
      "o1 @ p1 = (out @ pending) @ (if h \<and> b \<noteq> LF then [CR] else [])" "p1 = [] \<or> n \<le> length o1"
      "length o1 \<le> max n (length out)" by blast
  show ?case
  proof (cases "b = CR")
    case True
    with Cons.prems(1) w1(1) have "transform n src True (o1, p1) = (h', out', pending')"
      by (simp add: Let_def)
    from Cons.IH [OF this w1(3)] w1(2,4) True show ?thesis by (auto split: prod.splits)
  next
    case False
    obtain o2 p2 where w2: "emit n (o1, p1) b = (o2, p2)" "o2 @ p2 = o1 @ p1 @ [b]" "p2 = [] \<or> n \<le> length o2"
        "length o2 \<le> max n (length o1)"
      using e [OF w1(3), of b] by blast
    with False Cons.prems(1) w1(1) have "transform n src False (o2, p2) = (h', out', pending')"
      by (simp add: Let_def)
    from Cons.IH [OF this w2(3)] w1(2,4) w2(2,4) False show ?thesis
      by (auto split: prod.splits)
  qed
qed simp

text \<open>Before the byte at position \<open>i\<close> of the source is read, at most \<open>i\<close> bytes have been written to the
  buffer, one more when a carriage return was pending; the source then starts one byte further on.\<close>

lemma transform_in_place: "length (fst (crlf h (take i src))) \<le> i + (if h then 1 else 0)"
proof -
  have "length (fst (crlf h s)) + (if snd (crlf h s) then 1 else 0) \<le> length s + (if h then 1 else 0)" for s
    by (induction s arbitrary: h) (fastforce split: prod.splits if_splits)+
  from this [of "take i src"] show ?thesis by simp
qed

lemma crlf_Nil_iff: "fst (crlf h s) = [] \<Longrightarrow> s = [] \<or> \<not> h \<and> snd (crlf h s)"
proof (cases s)
  case (Cons b t)
  then show "fst (crlf h s) = [] \<Longrightarrow> ?thesis"
    by (cases t) (auto split: prod.splits if_splits)
qed simp

lemma transform_silent:
  assumes "transform n src h ([], []) = (h', [], pending)" and "0 < n"
  shows "pending = [] \<and> (src = [] \<and> h' = h \<or> \<not> h \<and> h')"
proof -
  have "pending = fst (crlf h src)" "h' = snd (crlf h src)" "pending = []"
    using transform_crlf [OF assms(1)] assms(2) by auto
  with crlf_Nil_iff [of h src] show ?thesis by auto
qed

subsection \<open>Reading\<close>

text \<open>The reader underneath: the bytes and the error of one read into a buffer of the given length.\<close>

type_synonym 'u raw_read = "nat \<Rightarrow> 'u \<Rightarrow> (bytes \<times> goerr option) \<times> 'u"

text \<open>The loop of \<open>Read\<close> ends: a round that writes nothing has seen its first bytes or has a new
  carriage return to keep.\<close>

function (sequential) stream_Read ::
  "'u raw_read \<Rightarrow> nat \<Rightarrow> stream_reader \<Rightarrow> 'u \<Rightarrow> (bytes \<times> goerr option) \<times> stream_reader \<times> 'u" where
  "stream_Read raw 0 c u = (([], None), c, u)"
| "stream_Read raw n c u =
     (if sr_pending c \<noteq> [] then ((take n (sr_pending c), None), c\<lparr>sr_pending := drop n (sr_pending c)\<rparr>, u)
      else (case raw (if sr_hasCR c \<and> 1 < n then n - 1 else n) u of
        (([], err), u') \<Rightarrow>
          if sr_hasCR c then (([CR], err), c\<lparr>sr_hasCR := False\<rparr>, u') else (([], err), c, u')
      | ((b # bs, err), u') \<Rightarrow>
          (case filterDSC c (b # bs) of (src, c1) \<Rightarrow>
           (case transform n src (sr_hasCR c) ([], []) of (hasCR', out, pending) \<Rightarrow>
             let c2 = c1\<lparr>sr_hasCR := hasCR', sr_pending := pending\<rparr> in
             if out \<noteq> [] \<or> err \<noteq> None then ((out, err), c2, u')
             else stream_Read raw n c2 u'))))"
  by pat_completeness auto

lemma round_without_output:
  assumes "filterDSC c (b # bs) = (src, c1)" and "transform (Suc n) src (sr_hasCR c) ([], []) = (h, [], pending)"
  shows "sr_seenDSC c1 \<and> (\<not> sr_seenDSC c \<and> h = sr_hasCR c \<or> \<not> sr_hasCR c \<and> h)"
proof -
  have "pending = []" "src = [] \<and> h = sr_hasCR c \<or> \<not> sr_hasCR c \<and> h"
    using transform_silent [OF assms(2)] by auto
  with assms(1) show ?thesis by (auto simp: filterDSC_def split: if_splits)
qed

termination stream_Read
  by (relation "measure (\<lambda>(raw, n, c, u). (if sr_seenDSC c then 0 else 1) + (if sr_hasCR c then 0 else 1))")
     (auto dest!: sym [of _ "filterDSC _ _"] sym [of _ "transform _ _ _ _"] dest: round_without_output)

declare stream_Read.simps [simp del]
declare stream_Read.simps(1) [simp]

text \<open>Successive reads with buffers of the given lengths, up to the first error.\<close>

fun stream_reads ::
  "'u raw_read \<Rightarrow> nat list \<Rightarrow> stream_reader \<Rightarrow> 'u \<Rightarrow> (bytes \<times> goerr option) \<times> stream_reader \<times> 'u" where
  "stream_reads raw [] c u = (([], None), c, u)"
| "stream_reads raw (n # ns) c u =
     (case stream_Read raw n c u of
        ((out, Some e), c', u') \<Rightarrow> ((out, Some e), c', u')
      | ((out, None), c', u') \<Rightarrow>
          (case stream_reads raw ns c' u' of ((out', e), c'', u'') \<Rightarrow> ((out @ out', e), c'', u'')))"

text \<open>An operating system file: a read returns some of the bytes that are left, or an error when
  none are left and never both. \<open>view\<close> is what is left.\<close>

locale raw_reader =
  fixes raw :: "'u raw_read"
    and view :: "'u \<Rightarrow> bytes"
  assumes raw_view: "raw n u = ((b, err), u') \<Longrightarrow> view u = b @ view u'"
    and raw_some: "raw n u = ((b, err), u') \<Longrightarrow> 0 < n \<Longrightarrow> (b = [] \<longleftrightarrow> err \<noteq> None) \<and> (b = [] \<longrightarrow> view u = [])"
    and raw_bound: "raw n u = ((b, err), u') \<Longrightarrow> length b \<le> n"

begin

text \<open>What a read delivers: \<open>t\<close> is what it took from the file.\<close>

definition delivered :: "stream_reader \<Rightarrow> stream_reader \<Rightarrow> bytes \<Rightarrow> bytes \<Rightarrow> bool" where
  "delivered c c' t out \<longleftrightarrow>
     (\<exists>s. (s = t \<or> \<not> sr_seenDSC c \<and> t = ESC_DSC @ s) \<and>
        out @ sr_pending c' = sr_pending c @ fst (crlf (sr_hasCR c) s) \<and>
        sr_hasCR c' = snd (crlf (sr_hasCR c) s) \<and> (sr_seenDSC c' \<longleftrightarrow> sr_seenDSC c \<or> t \<noteq> []))"

lemma delivered_none: "delivered c c [] []"
  by (auto simp: delivered_def)

lemma delivered_pending:
  "delivered c (c\<lparr>sr_pending := drop n (sr_pending c)\<rparr>) [] (take n (sr_pending c))"
  by (auto simp: delivered_def)

lemma delivered_trans:
  assumes "delivered c c1 t1 o1" and "delivered c1 c2 t2 o2"
  shows "delivered c c2 (t1 @ t2) (o1 @ o2)"
proof -
  obtain s1 where s1: "s1 = t1 \<or> \<not> sr_seenDSC c \<and> t1 = ESC_DSC @ s1"
      "o1 @ sr_pending c1 = sr_pending c @ fst (crlf (sr_hasCR c) s1)"
      "sr_hasCR c1 = snd (crlf (sr_hasCR c) s1)" "sr_seenDSC c1 \<longleftrightarrow> sr_seenDSC c \<or> t1 \<noteq> []"
    using assms(1) by (auto simp: delivered_def)
  obtain s2 where s2: "s2 = t2 \<or> \<not> sr_seenDSC c1 \<and> t2 = ESC_DSC @ s2"
      "o2 @ sr_pending c2 = sr_pending c1 @ fst (crlf (sr_hasCR c1) s2)"
      "sr_hasCR c2 = snd (crlf (sr_hasCR c1) s2)" "sr_seenDSC c2 \<longleftrightarrow> sr_seenDSC c1 \<or> t2 \<noteq> []"
    using assms(2) by (auto simp: delivered_def)
  have "s1 @ s2 = t1 @ t2 \<or> \<not> sr_seenDSC c \<and> t1 @ t2 = ESC_DSC @ (s1 @ s2)"
    using s1(1,4) s2(1) by (auto simp: ESC_DSC_def)
  moreover have "(o1 @ o2) @ sr_pending c2 = sr_pending c @ fst (crlf (sr_hasCR c) (s1 @ s2))"
    using s1(2,3) s2(2) by (simp add: crlf_append)
  ultimately show ?thesis
    unfolding delivered_def using s1(3,4) s2(3,4)
    by (intro exI [of _ "s1 @ s2"]) (auto simp: crlf_append)
qed

lemma delivered_round:
  assumes "filterDSC c t = (src, c1)" and "transform n src (sr_hasCR c) ([], []) = (h, out, pending)"
    and "sr_pending c = []" and "t \<noteq> []"
  shows "delivered c (c1\<lparr>sr_hasCR := h, sr_pending := pending\<rparr>) t out"
proof -
  have "src = t \<or> \<not> sr_seenDSC c \<and> t = ESC_DSC @ src" "sr_seenDSC c1"
    using assms(1) by (auto simp: filterDSC_def has_prefix_iff ESC_DSC_def split: if_splits)
  moreover have "out @ pending = fst (crlf (sr_hasCR c) src) \<and> h = snd (crlf (sr_hasCR c) src)"
    using transform_crlf [OF assms(2)] by simp
  ultimately show ?thesis
    unfolding delivered_def using assms(3,4) by (intro exI [of _ src]) auto
qed

text \<open>The end of the file: nothing is kept back.\<close>

definition finished :: "stream_reader \<Rightarrow> stream_reader \<Rightarrow> bytes \<Rightarrow> bytes \<Rightarrow> bool" where
  "finished c c' t out \<longleftrightarrow> \<not> sr_hasCR c' \<and> sr_pending c' = [] \<and>
     (\<exists>c0 out0. delivered c c0 t out0 \<and> sr_pending c0 = [] \<and> out = out0 @ (if sr_hasCR c0 then [CR] else []))"

lemma finished_after: "delivered c c1 t1 o1 \<Longrightarrow> finished c1 c2 t2 o2 \<Longrightarrow> finished c c2 (t1 @ t2) (o1 @ o2)"
  unfolding finished_def using delivered_trans by (metis append_assoc)

lemma stream_Read_delivers:
  assumes "stream_Read raw n c u = ((out, err), c', u')" and "0 < n"
  shows "\<exists>t. view u = t @ view u' \<and>
    (if err = None then delivered c c' t out \<and> out \<noteq> [] else view u' = [] \<and> finished c c' t out)"
proof -
  have "raw' = raw \<Longrightarrow> stream_Read raw' n c u = ((out, err), c', u') \<Longrightarrow> 0 < n \<Longrightarrow>
      \<exists>t. view u = t @ view u' \<and>
        (if err = None then delivered c c' t out \<and> out \<noteq> [] else view u' = [] \<and> finished c c' t out)" for raw'
  proof (induction raw' n c u rule: stream_Read.induct)
    case (2 raw' n c u)
    have "stream_Read raw (Suc n) c u = ((out, err), c', u')" using "2.prems"(1,2) by simp
    note eq = this [unfolded stream_Read.simps(2) [of raw n c u]]
    show ?case
    proof (cases "sr_pending c = []")
      case False
      with eq show ?thesis
        using delivered_pending [of c "Suc n"] by (intro exI [of _ "[]"]) auto
    next
      case True
      let ?m = "if sr_hasCR c \<and> 1 < Suc n then Suc n - 1 else Suc n"
      obtain t e u1 where r: "raw ?m u = ((t, e), u1)" by (metis surj_pair)
      have m: "0 < ?m" by simp
      note v = raw_view [OF r] and some = raw_some [OF r m]
      show ?thesis
      proof (cases t)
        case Nil
        have "finished c c' [] out \<and> u' = u1 \<and> err = e"
        proof (cases "sr_hasCR c")
          case True
          with eq r Nil \<open>sr_pending c = []\<close> show ?thesis
            unfolding finished_def by (auto intro!: exI [of _ c] delivered_none)
        next
          case False
          with eq r Nil \<open>sr_pending c = []\<close> show ?thesis
            unfolding finished_def by (auto intro!: exI [of _ c] delivered_none)
        qed
        with some v Nil show ?thesis by (intro exI [of _ "[]"]) auto
      next
        case (Cons b bs)
        then have e: "e = None" using some by auto
        obtain src c1 where f: "filterDSC c (b # bs) = (src, c1)" by (metis surj_pair)
        obtain h o1 p1 where tr: "transform (Suc n) src (sr_hasCR c) ([], []) = (h, o1, p1)" by (metis surj_pair)
        let ?c2 = "c1\<lparr>sr_hasCR := h, sr_pending := p1\<rparr>"
        have d: "delivered c ?c2 (b # bs) o1" by (rule delivered_round [OF f tr True]) simp
        show ?thesis
        proof (cases "o1 = []")
          case False
          with eq True r Cons e f tr have "out = o1" "err = None" "c' = ?c2" "u' = u1"
            by (auto simp: Let_def)
          with d False v Cons show ?thesis by (intro exI [of _ "b # bs"]) auto
        next
          case o1: True
          with eq True r Cons e f tr have rec: "stream_Read raw (Suc n) ?c2 u1 = ((out, err), c', u')"
            by (auto simp: Let_def)
          have "\<not> (o1 \<noteq> [] \<or> e \<noteq> None)" using o1 e by simp
          from "2.IH" [unfolded "2.prems"(1), OF _ r [symmetric] refl Cons f [symmetric] tr [symmetric] refl refl this
            refl rec] True
          obtain t2 where t2: "view u1 = t2 @ view u'"
              "if err = None then delivered ?c2 c' t2 out \<and> out \<noteq> [] else view u' = [] \<and> finished ?c2 c' t2 out"
            by auto
          then show ?thesis
            using v Cons d o1 delivered_trans [of c ?c2 "b # bs" "[]" c' t2 out]
              finished_after [of c ?c2 "b # bs" "[]" c' t2 out]
            by (intro exI [of _ "(b # bs) @ t2"]) auto
        qed
      qed
    qed
  qed simp
  with assms show ?thesis by blast
qed


lemma stream_reads_deliver:
  assumes "stream_reads raw ns c u = ((out, err), c', u')" and "list_all (\<lambda>n. 0 < n) ns"
  shows "\<exists>t. view u = t @ view u' \<and>
    (if err = None then delivered c c' t out \<and> length ns \<le> length out
     else view u' = [] \<and> finished c c' t out)"
  using assms
proof (induction ns arbitrary: c u out)
  case Nil
  then show ?case using delivered_none by auto
next
  case (Cons n ns)
  obtain o1 e1 c1 u1 where r: "stream_Read raw n c u = ((o1, e1), c1, u1)" by (metis surj_pair)
  have n: "0 < n" "list_all (\<lambda>n. 0 < n) ns" using Cons.prems(2) by simp_all
  obtain t1 where t1: "view u = t1 @ view u1"
      "if e1 = None then delivered c c1 t1 o1 \<and> o1 \<noteq> [] else view u1 = [] \<and> finished c c1 t1 o1"
    using stream_Read_delivers [OF r n(1)] by blast
  show ?case
  proof (cases e1)
    case (Some e)
    with Cons.prems(1) r t1 show ?thesis by (intro exI [of _ t1]) auto
  next
    case None
    obtain o2 where rs: "stream_reads raw ns c1 u1 = ((o2, err), c', u')" and o: "out = o1 @ o2"
      using Cons.prems(1) r None by (auto split: prod.splits)
    obtain t2 where t2: "view u1 = t2 @ view u'"
        "if err = None then delivered c1 c' t2 o2 \<and> length ns \<le> length o2 else view u' = [] \<and> finished c1 c' t2 o2"
      using Cons.IH [OF rs n(2)] by blast
    have "o1 \<noteq> []" "delivered c c1 t1 o1" using t1(2) None by simp_all
    with t1(1) t2 o show ?thesis
      using delivered_trans [of c c1 t1 o1 c' t2 o2] finished_after [of c c1 t1 o1 c' t2 o2]
      by (intro exI [of _ "t1 @ t2"]) (cases o1, auto)
  qed
qed

text \<open>A new reader that has read to the end has delivered the unix lines, and as many reads as there
  are bytes and one more get to the end.\<close>

lemma reads_all:
  assumes "stream_reads raw ns newControlStreamReader u = ((out, err), c', u')"
    and "list_all (\<lambda>n. 0 < n) ns" and "length (view u) < length ns"
  shows "err \<noteq> None \<and> (out = unix_lines (view u) \<or> (\<exists>s. view u = ESC_DSC @ s \<and> out = unix_lines s))"
proof -
  let ?c = newControlStreamReader
  obtain t where t: "view u = t @ view u'"
      "if err = None then delivered ?c c' t out \<and> length ns \<le> length out else view u' = [] \<and> finished ?c c' t out"
    using stream_reads_deliver [OF assms(1,2)] by blast
  have "err \<noteq> None"
  proof
    assume "err = None"
    then obtain s where "s = t \<or> t = ESC_DSC @ s" "out @ sr_pending c' = fst (crlf False s)" "length ns \<le> length out"
      using t(2) by (auto simp: delivered_def newControlStreamReader_def)
    moreover have "length (fst (crlf False s)) \<le> length s"
      using transform_in_place [of False "length s" s] by simp
    ultimately have "length out \<le> length t" by (metis le_add1 le_add2 length_append le_trans)
    with \<open>length ns \<le> length out\<close> t(1) assms(3) show False by simp
  qed
  with t(2) have f: "view u' = []" "finished ?c c' t out" by simp_all
  then obtain c0 out0 where d: "delivered ?c c0 t out0" "sr_pending c0 = []"
      "out = out0 @ (if sr_hasCR c0 then [CR] else [])"
    unfolding finished_def by blast
  then obtain s where s: "s = t \<or> t = ESC_DSC @ s" "out0 = fst (crlf False s)" "sr_hasCR c0 = snd (crlf False s)"
    unfolding delivered_def newControlStreamReader_def by auto
  then have "out = flush_cr (crlf False s)" using d(3) by (simp add: flush_cr_def)
  then have "out = unix_lines s" by (simp add: flush_crlf)
  with s(1) t(1) f(1) \<open>err \<noteq> None\<close> show ?thesis by auto
qed

end

subsection \<open>A pipe\<close>

text \<open>The chunks that were written to a pipe and not read yet, and the error after them.\<close>

fun pipe_read :: "(bytes list \<times> goerr) raw_read" where
  "pipe_read n ([], e) = (([], Some e), ([], e))"
| "pipe_read n ([] # cs, e) = pipe_read n (cs, e)"
| "pipe_read n ((b # bs) # cs, e) = ((take n (b # bs), None), (drop n (b # bs) # cs, e))"

interpretation pipe: raw_reader pipe_read "\<lambda>u. concat (fst u)"
proof unfold_locales
  fix n u b err u'
  assume r: "pipe_read n u = ((b, err), u')"
  from r show "concat (fst u) = b @ concat (fst u')" "length b \<le> n"
    by (induction n u rule: pipe_read.induct) auto
  show "0 < n \<Longrightarrow> (b = [] \<longleftrightarrow> err \<noteq> None) \<and> (b = [] \<longrightarrow> concat (fst u) = [])"
    using r by (induction n u rule: pipe_read.induct) auto
qed

text \<open>C15: Reading control mode from a terminal does not depend on how the terminal cuts the stream up:
  whatever the chunks that arrive and whatever the buffer sizes of the reads, the reader comes to
  the end of the stream within one read more than there are bytes, and what it has delivered is the
  stream with each carriage return before a line feed removed and nothing else changed, except that
  an opening device control string may be gone.\<close>

theorem stream_reads_unix_lines:
  assumes "stream_reads pipe_read sizes newControlStreamReader (chunks, e) = ((out, err), c', u')"
    and "list_all (\<lambda>n. 0 < n) sizes" and "length (concat chunks) < length sizes"
  shows "err \<noteq> None \<and> (out = unix_lines (concat chunks) \<or>
    (\<exists>s. concat chunks = ESC_DSC @ s \<and> out = unix_lines s))"
  using pipe.reads_all [OF assms(1,2)] assms(3) by simp

lemma stream_reads_unix_lines_witness:
  "unix_lines (concat [''a'' @ [CR], [LF] @ ''b'']) = ''a'' @ [LF] @ ''b''"
proof -
  let ?r = "stream_reads pipe_read [1, 2, 1, 5, 1] newControlStreamReader ([''a'' @ [CR], [LF] @ ''b''], Sentinel IoEOF)"
  have "fst ?r = (''a'' @ [LF] @ ''b'', Some (Sentinel IoEOF))" by code_simp
  then obtain c u where "?r = ((''a'' @ [LF] @ ''b'', Some (Sentinel IoEOF)), c, u)" by (metis prod.collapse)
  from stream_reads_unix_lines [OF this] show ?thesis by (auto simp: ESC_DSC_def)
qed

text \<open>The device control string that is left is skipped by the reader of units.\<close>

lemma skip_dsc_string:
  "\<not> has_prefix s [CHR 0x1b] \<Longrightarrow>
   skip_dsc \<lparr>src_rest = ESC_DSC @ s, src_end = e\<rparr> = skip_dsc \<lparr>src_rest = s, src_end = e\<rparr>"
  by (cases s) (auto simp: skip_dsc_def peek_def ESC_DSC_def)

lemma unix_lines_DSC: "unix_lines (ESC_DSC @ s) = ESC_DSC @ unix_lines s"
  by (simp add: ESC_DSC_def unix_lines_Cons CR_def)

lemma unix_lines_prefix: "\<not> has_prefix s [c] \<Longrightarrow> c \<noteq> LF \<Longrightarrow> \<not> has_prefix (unix_lines s) [c]"
  by (cases s; cases "tl s") (auto simp: unix_lines_Cons has_prefix_byte)

text \<open>What a terminal does to the lines written to it, which \<open>unix_lines\<close> undoes.\<close>

definition terminal_lines :: "bytes \<Rightarrow> bytes" where
  "terminal_lines s = concat (map (\<lambda>c. if c = LF then [CR, LF] else [c]) s)"

lemma terminal_lines_simps [simp]:
  "terminal_lines [] = []" "terminal_lines (c # s) = (if c = LF then CR # LF # terminal_lines s else c # terminal_lines s)"
  by (simp_all add: terminal_lines_def)

lemma terminal_lines_hd: "terminal_lines s = [] \<or> hd (terminal_lines s) \<noteq> LF"
  by (cases s) (auto simp: CR_def LF_def)

lemma unix_lines_terminal: "unix_lines (terminal_lines s) = s"
proof (induction s)
  case (Cons c s)
  show ?case
  proof (cases "c = LF")
    case True
    then show ?thesis using Cons by (simp add: unix_lines_Cons [of CR] unix_lines_Cons [of LF] CR_def LF_def)
  next
    case False
    moreover have "unix_lines (c # terminal_lines s) = c # unix_lines (terminal_lines s)"
      using terminal_lines_hd [of s] by (auto simp: unix_lines_Cons)
    ultimately show ?thesis using Cons by simp
  qed
qed simp

text \<open>A reader of units finds what was written to the terminal, behind an opening device control string or not.\<close>

lemma readControlUnit_through_terminal:
  assumes "stream_reads pipe_read sizes newControlStreamReader (chunks, e) = ((out, err), c', u')"
    and "list_all (\<lambda>n. 0 < n) sizes" and "length (concat chunks) < length sizes"
    and "concat chunks = pre @ terminal_lines s" and "pre \<in> {[], ESC_DSC}" and "\<not> has_prefix s [CHR 0x1b]"
  shows "readControlUnit clock \<lparr>src_rest = out, src_end = e\<rparr> maxBytes = readControlUnit clock \<lparr>src_rest = s, src_end = e\<rparr> maxBytes"
proof -
  have "out = unix_lines (concat chunks) \<or> (\<exists>t. concat chunks = ESC_DSC @ t \<and> out = unix_lines t)"
    using pipe.reads_all [OF assms(1,2)] assms(3) by simp
  moreover have "\<not> (\<exists>t. terminal_lines s = ESC_DSC @ t)"
    using assms(6) by (cases s) (auto simp: ESC_DSC_def CR_def has_prefix_byte)
  ultimately have "out = s \<or> out = ESC_DSC @ s"
    using assms(4,5) by (auto simp: unix_lines_terminal unix_lines_DSC)
  then show ?thesis
    using skip_dsc_string [OF assms(6), of e] by (auto simp: readControlUnit_def)
qed

text \<open>So two terminals that carry the same bytes give the same unit, the same published events and
  the same input after it, however differently they cut the bytes up, for any stream that does not
  open with two escape sequences.\<close>

theorem units_chunk_independent:
  assumes "stream_reads pipe_read sizes newControlStreamReader (chunks, e) = ((out, err), c', u')"
    and "list_all (\<lambda>n. 0 < n) sizes" and "length (concat chunks) < length sizes"
    and "stream_reads pipe_read sizes2 newControlStreamReader (chunks2, e) = ((out2, err2), c2, u2)"
    and "list_all (\<lambda>n. 0 < n) sizes2" and "length (concat chunks2) < length sizes2"
    and "concat chunks = concat chunks2" and "\<not> has_prefix (drop 7 (concat chunks)) [CHR 0x1b]"
  shows "readControlUnit clock \<lparr>src_rest = out, src_end = e\<rparr> maxBytes =
    readControlUnit clock \<lparr>src_rest = out2, src_end = e\<rparr> maxBytes"
proof -
  note a = pipe.reads_all [OF assms(1,2)] and b = pipe.reads_all [OF assms(4,5)]
  have "readControlUnit clock \<lparr>src_rest = unix_lines (ESC_DSC @ s), src_end = e\<rparr> maxBytes =
      readControlUnit clock \<lparr>src_rest = unix_lines s, src_end = e\<rparr> maxBytes"
    if "concat chunks = ESC_DSC @ s" for s
  proof -
    have "\<not> has_prefix (unix_lines s) [CHR 0x1b]"
      using assms(8) that by (intro unix_lines_prefix) (auto simp: ESC_DSC_def LF_def)
    then have "skip_dsc \<lparr>src_rest = ESC_DSC @ unix_lines s, src_end = e\<rparr> =
        skip_dsc \<lparr>src_rest = unix_lines s, src_end = e\<rparr>"
      by (rule skip_dsc_string)
    then show ?thesis by (simp only: unix_lines_DSC readControlUnit_def)
  qed
  with a b assms(3,6,7) show ?thesis by auto
qed

lemma units_chunk_independent_witness:
  "readControlUnit (\<lambda>_. 0) \<lparr>src_rest = ESC_DSC @ ''a'', src_end = Sentinel IoEOF\<rparr> 9 =
   readControlUnit (\<lambda>_. 0) \<lparr>src_rest = ''a'', src_end = Sentinel IoEOF\<rparr> 9"
proof -
  let ?r = "stream_reads pipe_read (replicate 9 1) newControlStreamReader ([ESC_DSC @ ''a''], Sentinel IoEOF)"
  let ?q = "stream_reads pipe_read (replicate 9 8) newControlStreamReader ([ESC_DSC @ ''a''], Sentinel IoEOF)"
  have "fst ?r = (ESC_DSC @ ''a'', Some (Sentinel IoEOF))" "fst ?q = (''a'', Some (Sentinel IoEOF))"
    by code_simp+
  then obtain c u c2 u2 where "?r = ((ESC_DSC @ ''a'', Some (Sentinel IoEOF)), c, u)"
      "?q = ((''a'', Some (Sentinel IoEOF)), c2, u2)" by (metis prod.collapse)
  from units_chunk_independent [OF this(1) _ _ this(2)] show ?thesis by (simp add: ESC_DSC_def list_all_iff)
qed

end
