(* ===== verification/Control_Streams.thy ===== *)
theory Control_Streams
  imports Control_Events "HOL-Library.Multiset"
begin

text \<open>
  \<open>tmux/event_stream.go\<close>: the bounded queues that carry notifications to their readers. Each
  critical section under a mutex is one function; what a goroutine still has to do outside of them
  is a list of operations, and \<open>step\<close> interleaves the goroutines: the reader of the connection,
  which publishes, any number of goroutines that finish streams, and one reader per stream. A
  stream is its index in the store of the connection.
\<close>

subsection \<open>Options\<close>

record event_options =
  eo_MaxBytes :: int
  eo_MaxCount :: int
  eo_Overflow :: nat

definition defaultMaxEventBytes :: int where "defaultMaxEventBytes = push_bit 20 4"
definition defaultMaxEventCount :: int where "defaultMaxEventCount = 256"
definition OverflowPolicyFail :: nat where "OverflowPolicyFail = 0"

definition normalizeEventOptions :: "event_options \<Rightarrow> goerr + event_options" where
  "normalizeEventOptions o0 =
     (if eo_MaxBytes o0 < 0 \<or> eo_MaxCount o0 < 0 \<or> eo_Overflow o0 \<noteq> OverflowPolicyFail
      then Inl (invalid ''event options'')
      else let o1 = (if eo_MaxBytes o0 = 0 then o0\<lparr>eo_MaxBytes := defaultMaxEventBytes\<rparr> else o0);
               o2 = (if eo_MaxCount o1 = 0 then o1\<lparr>eo_MaxCount := defaultMaxEventCount\<rparr> else o1)
           in if push_bit 40 1 < eo_MaxBytes o2 \<or> push_bit 20 1 < eo_MaxCount o2
              then Inl (invalid ''event limits'') else Inr o2)"

lemma normalizeEventOptions_ok:
  "normalizeEventOptions o0 = Inr o1 \<Longrightarrow>
   0 < eo_MaxBytes o1 \<and> eo_MaxBytes o1 \<le> 2 ^ 40 \<and> 0 < eo_MaxCount o1 \<and> eo_MaxCount o1 \<le> 2 ^ 20"
  by (auto simp: normalizeEventOptions_def Let_def defaultMaxEventBytes_def defaultMaxEventCount_def
      push_bit_eq_mult split: if_splits)

subsection \<open>Streams and the connection\<close>

record stream =
  es_queue :: "event list"
  es_bytes :: int
  es_maxBytes :: int
  es_maxCount :: int
  es_done :: bool
  es_wake :: bool
  es_terminal :: "goerr option"
  es_released :: bool
  es_reading :: bool

record conn =
  cn_store :: "nat \<Rightarrow> stream"
  cn_next :: nat
  cn_streams :: "nat list"
  cn_reserved :: int
  cn_EventBytes :: int
  cn_MaxStreams :: int
  cn_closed :: bool
  cn_terminal :: "goerr option"
  cn_outputPanes :: "bytes \<Rightarrow> bool option"
  cn_selective :: bool

definition newEventStream :: "int \<Rightarrow> int \<Rightarrow> stream" where
  "newEventStream maxBytes maxCount =
     \<lparr>es_queue = [], es_bytes = 0, es_maxBytes = maxBytes, es_maxCount = maxCount, es_done = False,
      es_wake = False, es_terminal = None, es_released = False, es_reading = False\<rparr>"

definition update_stream :: "nat \<Rightarrow> (stream \<Rightarrow> stream) \<Rightarrow> conn \<Rightarrow> conn" where
  "update_stream i f c = c\<lparr>cn_store := (cn_store c)(i := f (cn_store c i))\<rparr>"

definition checkStreamCapacity :: "conn \<Rightarrow> int \<Rightarrow> goerr option" where
  "checkStreamCapacity c maxBytes =
     (if cn_MaxStreams c \<le> int (length (cn_streams c)) \<or> cn_EventBytes c - cn_reserved c < maxBytes
      then Some (Sentinel ErrResourceLimit) else None)"

text \<open>\<open>Connection.Events\<close>: the checks, then the section under the mutex of the connection.
  \<open>ctxErr\<close> is the error of the caller's context.\<close>

definition Events :: "goerr option \<Rightarrow> event_options \<Rightarrow> conn \<Rightarrow> (goerr option + nat) \<times> conn" where
  "Events ctxErr opts c =
     (if ctxErr \<noteq> None then (Inl (opError ''Connection.Events'' ctxErr), c)
      else (case normalizeEventOptions opts of
        Inl e \<Rightarrow> (Inl (opError ''Connection.Events'' (Some e)), c)
      | Inr opts' \<Rightarrow>
          if cn_closed c then
            (Inl (opError ''Connection.Events'' (join_errs [Some (Sentinel ErrClosed), cn_terminal c])), c)
          else (case checkStreamCapacity c (eo_MaxBytes opts') of
            Some e \<Rightarrow> (Inl (opError ''Connection.Events'' (Some e)), c)
          | None \<Rightarrow>
              (Inr (cn_next c),
               c\<lparr>cn_store := (cn_store c)(cn_next c := newEventStream (eo_MaxBytes opts') (eo_MaxCount opts')),
                 cn_next := Suc (cn_next c), cn_streams := cn_next c # cn_streams c,
                 cn_reserved := cn_reserved c + eo_MaxBytes opts'\<rparr>))))"

text \<open>The section of \<open>EventStream.push\<close>.\<close>

datatype push_result = PushIgnored | PushOverflow | PushQueued

definition push_section :: "event \<Rightarrow> stream \<Rightarrow> push_result \<times> stream" where
  "push_section e s =
     (if es_terminal s \<noteq> None then (PushIgnored, s)
      else if es_maxCount s \<le> int (length (es_queue s)) \<or> es_maxBytes s - es_bytes s < eventBytes e
      then (PushOverflow, s)
      else (PushQueued, s\<lparr>es_queue := es_queue s @ [e], es_bytes := es_bytes s + eventBytes e\<rparr>))"

text \<open>The section of \<open>EventStream.finish\<close>: whether this call ended the stream.\<close>

definition finish_section :: "goerr \<Rightarrow> stream \<Rightarrow> bool \<times> stream" where
  "finish_section e s =
     (if es_terminal s \<noteq> None then (False, s)
      else (True, s\<lparr>es_terminal := Some e, es_queue := [], es_bytes := 0\<rparr>))"

text \<open>\<open>EventStream.release\<close>, once per stream.\<close>

definition release :: "nat \<Rightarrow> conn \<Rightarrow> conn" where
  "release i c =
     (if es_released (cn_store c i) then c
      else let c' = update_stream i (\<lambda>s. s\<lparr>es_released := True\<rparr>) c in
        if i \<in> set (cn_streams c)
        then c'\<lparr>cn_streams := remove1 i (cn_streams c), cn_reserved := cn_reserved c - es_maxBytes (cn_store c i)\<rparr>
        else c')"

text \<open>One round of the loop of \<open>EventStream.Next\<close>.\<close>

datatype next_result = NextError goerr | NextEvent event | NextWait

definition next_section :: "goerr option \<Rightarrow> stream \<Rightarrow> next_result \<times> stream" where
  "next_section ctxErr s =
     (case es_terminal s of
        Some e \<Rightarrow> (NextError e, s)
      | None \<Rightarrow>
          (case ctxErr of
             Some e \<Rightarrow> (NextError e, s)
           | None \<Rightarrow>
               (case es_queue s of
                  [] \<Rightarrow> (NextWait, s)
                | e # rest \<Rightarrow> (NextEvent e, s\<lparr>es_bytes := es_bytes s - eventBytes e, es_queue := rest\<rparr>))))"

text \<open>The section of \<open>Connection.publish\<close>: the streams that get the event.\<close>

definition publish_targets :: "event \<Rightarrow> conn \<Rightarrow> nat list" where
  "publish_targets e c =
     (case e of
        PaneOutputEvent b i a d \<Rightarrow>
          (case cn_outputPanes c i of
             Some enabled \<Rightarrow> if enabled then cn_streams c else []
           | None \<Rightarrow> if cn_selective c then [] else cn_streams c)
      | _ \<Rightarrow> cn_streams c)"

subsection \<open>Goroutines\<close>

datatype op = OpPush event nat | OpWake nat | OpFinish goerr nat | OpRelease nat | OpClose nat

text \<open>What the head of a goroutine does and what it goes on with.\<close>

fun exec_op :: "op \<Rightarrow> conn \<Rightarrow> op list \<times> conn" where
  "exec_op (OpPush e i) c =
     (case push_section e (cn_store c i) of
        (PushIgnored, s) \<Rightarrow> ([], c)
      | (PushOverflow, s) \<Rightarrow> ([OpFinish (Sentinel ErrEventsLost) i], c)
      | (PushQueued, s) \<Rightarrow> ([OpWake i], update_stream i (\<lambda>_. s) c))"
| "exec_op (OpWake i) c = ([], update_stream i (\<lambda>s. s\<lparr>es_wake := True\<rparr>) c)"
| "exec_op (OpFinish e i) c =
     (case finish_section e (cn_store c i) of
        (False, s) \<Rightarrow> ([], c)
      | (True, s) \<Rightarrow> ([OpRelease i, OpClose i], update_stream i (\<lambda>_. s) c))"
| "exec_op (OpRelease i) c = ([], release i c)"
| "exec_op (OpClose i) c = ([], update_stream i (\<lambda>s. s\<lparr>es_done := True\<rparr>) c)"

text \<open>The reader of a stream is not in \<open>Next\<close>, about to look at the queue, or waiting. The first
  goroutine is the publisher. \<open>w_offered\<close> and \<open>w_got\<close> are only for the statements: the events
  offered to a stream before it ended, and the events its reader got.\<close>

datatype reader_pc = ReaderIdle | ReaderPolls | ReaderWaits

record world =
  w_conn :: conn
  w_publisher :: "op list"
  w_finishers :: "op list list"
  w_reader :: "nat \<Rightarrow> reader_pc"
  w_offered :: "nat \<Rightarrow> event list"
  w_got :: "nat \<Rightarrow> event list"

definition pending :: "world \<Rightarrow> op multiset" where
  "pending w = mset (w_publisher w) + mset (concat (w_finishers w))"

fun offer :: "op \<Rightarrow> conn \<Rightarrow> (nat \<Rightarrow> event list) \<Rightarrow> nat \<Rightarrow> event list" where
  "offer (OpPush e i) c offered =
     (if es_terminal (cn_store c i) = None then offered(i := offered i @ [e]) else offered)"
| "offer _ c offered = offered"

definition run_op :: "op \<Rightarrow> world \<Rightarrow> op list \<times> world" where
  "run_op x w = (case exec_op x (w_conn w) of
     (k, c) \<Rightarrow> (k, w\<lparr>w_conn := c, w_offered := offer x (w_conn w) (w_offered w)\<rparr>))"

definition ReadBegin :: "nat \<Rightarrow> world \<Rightarrow> world" where
  "ReadBegin i w = w\<lparr>w_conn := update_stream i (\<lambda>s. s\<lparr>es_reading := True\<rparr>) (w_conn w),
     w_reader := (w_reader w)(i := ReaderPolls)\<rparr>"

definition ReadEnd :: "nat \<Rightarrow> world \<Rightarrow> world" where
  "ReadEnd i w = w\<lparr>w_conn := update_stream i (\<lambda>s. s\<lparr>es_reading := False\<rparr>) (w_conn w),
     w_reader := (w_reader w)(i := ReaderIdle)\<rparr>"

definition ReadPoll :: "goerr option \<Rightarrow> nat \<Rightarrow> world \<Rightarrow> world" where
  "ReadPoll ctxErr i w =
     (case next_section ctxErr (cn_store (w_conn w) i) of
        (NextError e, s) \<Rightarrow> ReadEnd i w
      | (NextEvent e, s) \<Rightarrow>
          ReadEnd i (w\<lparr>w_conn := update_stream i (\<lambda>_. s) (w_conn w), w_got := (w_got w)(i := w_got w i @ [e])\<rparr>)
      | (NextWait, s) \<Rightarrow> w\<lparr>w_reader := (w_reader w)(i := ReaderWaits)\<rparr>)"

definition ReadWoken :: "nat \<Rightarrow> world \<Rightarrow> world" where
  "ReadWoken i w = w\<lparr>w_conn := update_stream i (\<lambda>s. s\<lparr>es_wake := False\<rparr>) (w_conn w),
     w_reader := (w_reader w)(i := ReaderPolls)\<rparr>"

text \<open>\<open>Connection.stop\<close>, once: the connection is closed and every registered stream finished.\<close>

definition stop_section :: "goerr option \<Rightarrow> conn \<Rightarrow> op list \<times> conn" where
  "stop_section err c =
     (if cn_closed c then ([], c)
      else (map (OpFinish (the (join_errs [Some (Sentinel ErrClosed), err]))) (cn_streams c),
            c\<lparr>cn_closed := True, cn_terminal := err\<rparr>))"

inductive step :: "world \<Rightarrow> world \<Rightarrow> bool" where
  open_stream: "Events ctxErr opts (w_conn w) = (r, c) \<Longrightarrow> step w (w\<lparr>w_conn := c\<rparr>)"
| publish: "w_publisher w = [] \<Longrightarrow> mset targets = mset (publish_targets e (w_conn w)) \<Longrightarrow>
    step w (w\<lparr>w_publisher := map (OpPush e) targets\<rparr>)"
| publisher: "w_publisher w = x # rest \<Longrightarrow> run_op x w = (k, w') \<Longrightarrow>
    step w (w'\<lparr>w_publisher := k @ rest\<rparr>)"
| finisher: "w_finishers w = before @ (x # rest) # behind \<Longrightarrow> run_op x w = (k, w') \<Longrightarrow>
    step w (w'\<lparr>w_finishers := before @ (k @ rest) # behind\<rparr>)"
| finish_stream: "i < cn_next (w_conn w) \<Longrightarrow>
    step w (w\<lparr>w_finishers := [OpFinish e i] # w_finishers w\<rparr>)"
| stop: "stop_section err (w_conn w) = (k, c) \<Longrightarrow>
    step w (w\<lparr>w_conn := c, w_finishers := k # w_finishers w\<rparr>)"
| read_begin: "i < cn_next (w_conn w) \<Longrightarrow> \<not> es_reading (cn_store (w_conn w) i) \<Longrightarrow> step w (ReadBegin i w)"
| read_poll: "w_reader w i = ReaderPolls \<Longrightarrow> step w (ReadPoll ctxErr i w)"
| read_woken: "w_reader w i = ReaderWaits \<Longrightarrow> es_wake (cn_store (w_conn w) i) \<Longrightarrow> step w (ReadWoken i w)"
| read_done: "w_reader w i = ReaderWaits \<Longrightarrow> es_done (cn_store (w_conn w) i) \<Longrightarrow>
    step w (w\<lparr>w_reader := (w_reader w)(i := ReaderPolls)\<rparr>)"
| read_canceled: "w_reader w i = ReaderWaits \<Longrightarrow> step w (ReadEnd i w)"

subsection \<open>Invariants\<close>

fun op_stream :: "op \<Rightarrow> nat" where
  "op_stream (OpPush e i) = i"
| "op_stream (OpWake i) = i"
| "op_stream (OpFinish e i) = i"
| "op_stream (OpRelease i) = i"
| "op_stream (OpClose i) = i"

fun is_push :: "op \<Rightarrow> bool" where
  "is_push (OpPush e i) = True"
| "is_push _ = False"

definition queue_size :: "event list \<Rightarrow> int" where
  "queue_size q = sum_list (map eventBytes q)"

lemma queue_size_simps [simp]:
  "queue_size [] = 0" "queue_size (e # q) = eventBytes e + queue_size q"
  "queue_size (p @ q) = queue_size p + queue_size q"
  by (simp_all add: queue_size_def)

lemma queue_size_nonneg: "0 \<le> queue_size q"
  by (induction q) (auto intro: add_nonneg_nonneg less_imp_le eventBytes_pos)

text \<open>The quota of a stream is kept; a stream that has ended holds nothing; each of the two duties of
  ending a stream is pending or done, exactly once.\<close>

definition stream_safe :: "op multiset \<Rightarrow> stream \<Rightarrow> nat \<Rightarrow> bool" where
  "stream_safe P s i \<longleftrightarrow>
     es_bytes s = queue_size (es_queue s) \<and> es_bytes s \<le> es_maxBytes s \<and>
     int (length (es_queue s)) \<le> es_maxCount s \<and>
     (es_terminal s \<noteq> None \<longrightarrow> es_queue s = []) \<and>
     count P (OpClose i) + (if es_done s then 1 else 0) = (if es_terminal s \<noteq> None then 1 else 0) \<and>
     count P (OpRelease i) + (if es_released s then 1 else 0) = (if es_terminal s \<noteq> None then 1 else 0)"

text \<open>A reader that waits while there are events will be woken.\<close>

definition reader_safe :: "op multiset \<Rightarrow> stream \<Rightarrow> reader_pc \<Rightarrow> nat \<Rightarrow> bool" where
  "reader_safe P s pc i \<longleftrightarrow> (es_reading s \<longleftrightarrow> pc \<noteq> ReaderIdle) \<and>
     (pc = ReaderWaits \<and> es_queue s \<noteq> [] \<longrightarrow> es_wake s \<or> OpWake i \<in># P)"

text \<open>Nothing is lost before the end: what the reader got and what is queued is what was offered, up
  to the one event that overflowed while its stream is about to be finished.\<close>

definition delivery_safe :: "stream \<Rightarrow> event list \<Rightarrow> event list \<Rightarrow> bool \<Rightarrow> bool" where
  "delivery_safe s offered got owed \<longleftrightarrow>
     (if es_terminal s = None
      then offered = got @ es_queue s \<or> owed \<and> (\<exists>e. offered = got @ es_queue s @ [e])
      else \<exists>t. offered = got @ t)"

definition owes :: "op list \<Rightarrow> nat \<Rightarrow> bool" where
  "owes ops i \<longleftrightarrow> ops \<noteq> [] \<and> hd ops = OpFinish (Sentinel ErrEventsLost) i"

definition registered_safe :: "conn \<Rightarrow> bool" where
  "registered_safe c \<longleftrightarrow> distinct (cn_streams c) \<and>
     set (cn_streams c) = {i. i < cn_next c \<and> \<not> es_released (cn_store c i)} \<and>
     cn_reserved c = sum_list (map (\<lambda>i. es_maxBytes (cn_store c i)) (cn_streams c)) \<and>
     cn_reserved c \<le> cn_EventBytes c \<and> int (length (cn_streams c)) \<le> cn_MaxStreams c"

definition closed_safe :: "op multiset \<Rightarrow> conn \<Rightarrow> bool" where
  "closed_safe P c \<longleftrightarrow> (cn_closed c \<longrightarrow>
     (\<forall>i < cn_next c. es_terminal (cn_store c i) \<noteq> None \<or> (\<exists>e. OpFinish e i \<in># P)))"

definition fresh_safe :: "world \<Rightarrow> bool" where
  "fresh_safe w \<longleftrightarrow> (\<forall>x \<in># pending w. op_stream x < cn_next (w_conn w)) \<and>
     list_all (list_all (\<lambda>x. \<not> is_push x)) (w_finishers w) \<and>
     (\<forall>i \<ge> cn_next (w_conn w). w_reader w i = ReaderIdle \<and> w_offered w i = [] \<and> w_got w i = [])"

definition core_safe ::
  "op multiset \<Rightarrow> conn \<Rightarrow> (nat \<Rightarrow> reader_pc) \<Rightarrow> (nat \<Rightarrow> event list) \<Rightarrow> (nat \<Rightarrow> event list) \<Rightarrow> (nat \<Rightarrow> bool) \<Rightarrow> bool" where
  "core_safe P c reader offered got owed \<longleftrightarrow> registered_safe c \<and> closed_safe P c \<and>
     (\<forall>i < cn_next c. stream_safe P (cn_store c i) i \<and> reader_safe P (cn_store c i) (reader i) i \<and>
        delivery_safe (cn_store c i) (offered i) (got i) (owed i))"

definition safe :: "world \<Rightarrow> bool" where
  "safe w \<longleftrightarrow> fresh_safe w \<and>
     core_safe (pending w) (w_conn w) (w_reader w) (w_offered w) (w_got w) (owes (w_publisher w))"

lemma update_stream_simps [simp]:
  "cn_store (update_stream i f c) j = (if j = i then f (cn_store c i) else cn_store c j)"
  "cn_next (update_stream i f c) = cn_next c" "cn_streams (update_stream i f c) = cn_streams c"
  "cn_reserved (update_stream i f c) = cn_reserved c" "cn_closed (update_stream i f c) = cn_closed c"
  "cn_EventBytes (update_stream i f c) = cn_EventBytes c" "cn_MaxStreams (update_stream i f c) = cn_MaxStreams c"
  by (simp_all add: update_stream_def)

lemma release_simps [simp]:
  "cn_store (release i c) j = (if j = i then (cn_store c i)\<lparr>es_released := True\<rparr> else cn_store c j)"
  "cn_next (release i c) = cn_next c" "cn_closed (release i c) = cn_closed c"
  "cn_EventBytes (release i c) = cn_EventBytes c" "cn_MaxStreams (release i c) = cn_MaxStreams c"
  by (cases "cn_store c i"; simp add: release_def Let_def)+

text \<open>An operation touches its own stream only, and goes on with operations on that stream.\<close>

lemma exec_op_other:
  assumes "exec_op x c = (k, c')"
  shows "j \<noteq> op_stream x \<Longrightarrow> cn_store c' j = cn_store c j" and "cn_next c' = cn_next c" and "cn_closed c' = cn_closed c"
    and "y \<in> set k \<Longrightarrow> op_stream y = op_stream x \<and> \<not> is_push y"
    and "es_maxBytes (cn_store c' j) = es_maxBytes (cn_store c j)"
  using assms
  by (cases x; auto simp: push_section_def finish_section_def split: prod.splits push_result.splits bool.splits if_splits)+

lemma exec_op_released:
  assumes "exec_op x c = (k, c')"
  shows "(\<exists>i. x = OpRelease i) \<or> es_released (cn_store c' j) = es_released (cn_store c j) \<and>
    cn_streams c' = cn_streams c \<and> cn_reserved c' = cn_reserved c \<and> cn_EventBytes c' = cn_EventBytes c \<and>
    cn_MaxStreams c' = cn_MaxStreams c"
  using assms
  by (cases x; auto simp: push_section_def finish_section_def split: prod.splits push_result.splits bool.splits if_splits)

lemma exec_op_stream_safe:
  assumes "exec_op x c = (k, c')" and "stream_safe (add_mset x R) (cn_store c (op_stream x)) (op_stream x)"
  shows "stream_safe (mset k + R) (cn_store c' (op_stream x)) (op_stream x)"
proof (cases x)
  case (OpPush e i)
  with assms show ?thesis
    by (auto simp: push_section_def stream_safe_def split: if_splits)
next
  case (OpFinish e i)
  with assms queue_size_nonneg [of "es_queue (cn_store c i)"] show ?thesis
    by (auto simp: finish_section_def stream_safe_def split: if_splits)
qed (use assms in \<open>auto simp: stream_safe_def split: if_splits\<close>)

lemma exec_op_reader_safe:
  assumes "exec_op x c = (k, c')" and "reader_safe (add_mset x R) (cn_store c (op_stream x)) pc (op_stream x)"
  shows "reader_safe (mset k + R) (cn_store c' (op_stream x)) pc (op_stream x)"
  using assms
  by (cases x) (auto simp: push_section_def finish_section_def reader_safe_def split: if_splits)

lemma exec_op_delivery_safe:
  assumes "exec_op x c = (k, c')" and "delivery_safe (cn_store c (op_stream x)) (offered (op_stream x)) got owed"
    and "is_push x \<Longrightarrow> \<not> owed" and "k = [OpFinish (Sentinel ErrEventsLost) (op_stream x)] \<Longrightarrow> owed'"
    and "owed \<Longrightarrow> owed' \<or> (\<exists>e. x = OpFinish e (op_stream x))"
  shows "delivery_safe (cn_store c' (op_stream x)) (offer x c offered (op_stream x)) got owed'"
  using assms
  by (cases x) (auto simp: push_section_def finish_section_def delivery_safe_def split: if_splits)

lemma counts_other:
  assumes "\<And>y. y \<in> set k \<Longrightarrow> op_stream y = op_stream x" and "j \<noteq> op_stream x" and "op_stream y = j"
  shows "count (mset k + R) y = count (add_mset x R) y"
proof -
  have "y \<noteq> x" "y \<notin> set k" using assms by auto
  then show ?thesis by (simp add: count_mset_0_iff)
qed

lemma member_other:
  assumes "\<And>y. y \<in> set k \<Longrightarrow> op_stream y = op_stream x" and "j \<noteq> op_stream x" and "op_stream y = j"
  shows "y \<in># mset k + R \<longleftrightarrow> y \<in># add_mset x R"
  using counts_other [where R = R, OF assms] by (metis count_greater_zero_iff)

lemma registered_release:
  assumes "registered_safe c" and "\<not> es_released (cn_store c i)" and "i < cn_next c"
    and "0 \<le> es_maxBytes (cn_store c i)"
  shows "registered_safe (release i c)"
proof -
  let ?f = "\<lambda>j. es_maxBytes (cn_store c j)"
  have i: "i \<in> set (cn_streams c)" "distinct (cn_streams c)"
    using assms by (auto simp: registered_safe_def)
  have r: "cn_streams (release i c) = remove1 i (cn_streams c)" "cn_reserved (release i c) = cn_reserved c - ?f i"
    using assms(2) i(1) by (simp_all add: release_def Let_def)
  have m: "(\<lambda>j. es_maxBytes (cn_store (release i c) j)) = ?f" by auto
  have s: "sum_list (map ?f (cn_streams c)) = ?f i + sum_list (map ?f (remove1 i (cn_streams c)))"
    using i(1) by (rule sum_list_map_remove1)
  have old: "set (cn_streams c) = {j. j < cn_next c \<and> \<not> es_released (cn_store c j)}"
      "cn_reserved c = sum_list (map ?f (cn_streams c))" "cn_reserved c \<le> cn_EventBytes c"
      "int (length (cn_streams c)) \<le> cn_MaxStreams c"
    using assms(1) by (simp_all add: registered_safe_def)
  have "set (remove1 i (cn_streams c)) = set (cn_streams c) - {i}" using i(2) by simp
  then have "set (remove1 i (cn_streams c)) = {j. j < cn_next c \<and> \<not> es_released (cn_store (release i c) j)}"
    unfolding old(1) by auto
  moreover have "cn_reserved c - ?f i = sum_list (map ?f (remove1 i (cn_streams c)))"
    using s old(2) by simp
  moreover have "cn_reserved c - ?f i \<le> cn_EventBytes c" using old(3) assms(4) by simp
  moreover have "int (length (remove1 i (cn_streams c))) \<le> cn_MaxStreams c"
    using old(4) i(1) by (simp add: length_remove1)
  ultimately show ?thesis
    using i(2) unfolding registered_safe_def m r by simp
qed

lemma core_exec:
  assumes "core_safe (add_mset x R) c reader offered got owed" and ex: "exec_op x c = (k, c')"
    and "op_stream x < cn_next c" and "is_push x \<Longrightarrow> \<not> owed (op_stream x)"
    and "k = [OpFinish (Sentinel ErrEventsLost) (op_stream x)] \<Longrightarrow> owed' (op_stream x)"
    and "\<And>j. owed j \<Longrightarrow> owed' j \<or> (\<exists>e. x = OpFinish e j)"
  shows "core_safe (mset k + R) c' reader (offer x c offered) got owed'"
proof -
  note o = exec_op_other [OF ex]
  have k: "\<And>y. y \<in> set k \<Longrightarrow> op_stream y = op_stream x" using o(4) by blast
  have each: "stream_safe (add_mset x R) (cn_store c i) i \<and> reader_safe (add_mset x R) (cn_store c i) (reader i) i \<and>
      delivery_safe (cn_store c i) (offered i) (got i) (owed i)" if "i < cn_next c" for i
    using assms(1) that by (simp add: core_safe_def)
  have "stream_safe (mset k + R) (cn_store c' i) i \<and> reader_safe (mset k + R) (cn_store c' i) (reader i) i \<and>
      delivery_safe (cn_store c' i) (offer x c offered i) (got i) (owed' i)" if i: "i < cn_next c" for i
  proof (cases "i = op_stream x")
    case True
    with each [OF i] assms(4-6) show ?thesis
      using exec_op_stream_safe [OF ex] exec_op_reader_safe [OF ex]
        exec_op_delivery_safe [OF ex, of offered "got i" "owed i" "owed' i"] by blast
  next
    case False
    have "offer x c offered i = offered i" using False by (cases x) auto
    moreover have "owed i \<Longrightarrow> owed' i" using assms(6) [of i] False by auto
    moreover note counts_other [OF k False] member_other [OF k False]
    ultimately show ?thesis
      using each [OF i] o(1) [OF False]
      by (auto simp: stream_safe_def reader_safe_def delivery_safe_def)
  qed
  moreover have "registered_safe c'"
  proof (cases "\<exists>i. x = OpRelease i")
    case True
    then obtain i where x: "x = OpRelease i" by blast
    then have "stream_safe (add_mset (OpRelease i) R) (cn_store c i) i" using each [of i] assms(3) by simp
    then have "\<not> es_released (cn_store c i)" "0 \<le> es_maxBytes (cn_store c i)"
      using queue_size_nonneg [of "es_queue (cn_store c i)"] by (auto simp: stream_safe_def split: if_splits)
    with x ex assms(1,3) show ?thesis by (auto simp: core_safe_def intro: registered_release)
  next
    case False
    then have "\<And>j. es_released (cn_store c' j) = es_released (cn_store c j)" "cn_streams c' = cn_streams c"
        "cn_reserved c' = cn_reserved c" "cn_EventBytes c' = cn_EventBytes c" "cn_MaxStreams c' = cn_MaxStreams c"
      using exec_op_released [OF ex] by auto
    with assms(1) o(2,5) show ?thesis by (simp add: core_safe_def registered_safe_def)
  qed
  moreover have "closed_safe (mset k + R) c'"
  proof -
    have "es_terminal (cn_store c' i) \<noteq> None \<or> (\<exists>e. OpFinish e i \<in># mset k + R)"
      if "es_terminal (cn_store c i) \<noteq> None \<or> (\<exists>e. OpFinish e i \<in># add_mset x R)" for i
    proof (cases "i = op_stream x")
      case True
      with that ex show ?thesis
        by (cases x) (auto simp: push_section_def finish_section_def split: if_splits)
    next
      case False
      with that o(1) [OF False] member_other [OF k False] show ?thesis by simp
    qed
    with assms(1) o(2,3) show ?thesis by (simp add: core_safe_def closed_safe_def)
  qed
  ultimately show ?thesis using o(2) by (simp add: core_safe_def)
qed

lemma core_more:
  assumes "core_safe P c reader offered got owed" and "\<And>i. OpClose i \<notin># Q \<and> OpRelease i \<notin># Q"
    and "\<And>i. owed i \<Longrightarrow> owed' i"
  shows "core_safe (P + Q) c reader offered got owed'"
proof -
  have "count (P + Q) (OpClose i) = count P (OpClose i)" "count (P + Q) (OpRelease i) = count P (OpRelease i)" for i
    using assms(2) by (simp_all add: not_in_iff)
  then show ?thesis
    using assms(1,3) by (fastforce simp: core_safe_def closed_safe_def stream_safe_def reader_safe_def delivery_safe_def)
qed

lemma pending_simps [simp]:
  "pending (w\<lparr>w_conn := c\<rparr>) = pending w" "pending (w\<lparr>w_offered := f\<rparr>) = pending w"
  "pending (w\<lparr>w_reader := g\<rparr>) = pending w" "pending (w\<lparr>w_got := h\<rparr>) = pending w"
  by (simp_all add: pending_def)

lemma safe_open:
  assumes "safe w" and "Events ctxErr opts (w_conn w) = (r, c)"
  shows "safe (w\<lparr>w_conn := c\<rparr>)"
proof (cases r)
  case (Inl e)
  with assms show ?thesis
    by (auto simp: Events_def split: if_splits sum.splits option.splits)
next
  case (Inr i)
  let ?c = "w_conn w"
  obtain o' where o': "normalizeEventOptions opts = Inr o'" "\<not> cn_closed ?c"
      "checkStreamCapacity ?c (eo_MaxBytes o') = None" "i = cn_next ?c"
      "c = ?c\<lparr>cn_store := (cn_store ?c)(i := newEventStream (eo_MaxBytes o') (eo_MaxCount o')),
            cn_next := Suc i, cn_streams := i # cn_streams ?c, cn_reserved := cn_reserved ?c + eo_MaxBytes o'\<rparr>"
    using assms(2) Inr by (auto simp: Events_def split: if_split_asm sum.split_asm option.split_asm)
  note pos = normalizeEventOptions_ok [OF o'(1)]
  let ?P = "pending w"
  have fresh: "y \<notin># ?P" if "op_stream y = i" for y
    using assms(1) that o'(4) by (fastforce simp: safe_def fresh_safe_def)
  have notin: "i \<notin> set (cn_streams ?c)"
    using assms(1) o'(4) by (auto simp: safe_def core_safe_def registered_safe_def)
  have new: "stream_safe ?P (cn_store c i) i \<and> reader_safe ?P (cn_store c i) (w_reader w i) i \<and>
      delivery_safe (cn_store c i) (w_offered w i) (w_got w i) (owes (w_publisher w) i)"
    using assms(1) o'(4,5) pos fresh [of "OpClose i"] fresh [of "OpRelease i"]
    by (simp add: stream_safe_def reader_safe_def delivery_safe_def newEventStream_def safe_def fresh_safe_def
        count_eq_zero_iff)
  have old: "cn_store c j = cn_store ?c j" if "j \<noteq> i" for j using o'(5) that by simp
  have "registered_safe c"
  proof -
    have "sum_list (map (\<lambda>j. es_maxBytes (cn_store c j)) (cn_streams ?c)) =
        sum_list (map (\<lambda>j. es_maxBytes (cn_store ?c j)) (cn_streams ?c))"
      using notin old by (intro arg_cong [of _ _ sum_list] map_cong refl) metis
    moreover have "set (i # cn_streams ?c) = {j. j < Suc i \<and> \<not> es_released (cn_store c j)}"
      using assms(1) o'(4,5) by (auto simp: safe_def core_safe_def registered_safe_def newEventStream_def)
    moreover have "eo_MaxBytes o' \<le> cn_EventBytes ?c - cn_reserved ?c \<and> int (length (cn_streams ?c)) < cn_MaxStreams ?c"
      using o'(3) by (auto simp: checkStreamCapacity_def split: if_split_asm)
    moreover have "cn_streams c = i # cn_streams ?c" "cn_reserved c = cn_reserved ?c + eo_MaxBytes o'" "cn_next c = Suc i"
        "cn_EventBytes c = cn_EventBytes ?c" "cn_MaxStreams c = cn_MaxStreams ?c"
        "es_maxBytes (cn_store c i) = eo_MaxBytes o'"
      using o'(4,5) by (simp_all add: newEventStream_def)
    ultimately show ?thesis
      using assms(1) notin unfolding safe_def core_safe_def registered_safe_def by simp
  qed
  moreover have "closed_safe ?P c" using o'(2,5) by (simp add: closed_safe_def)
  moreover have "stream_safe ?P (cn_store c j) j \<and> reader_safe ?P (cn_store c j) (w_reader w j) j \<and>
      delivery_safe (cn_store c j) (w_offered w j) (w_got w j) (owes (w_publisher w) j)" if "j < Suc i" for j
  proof (cases "j = i")
    case False
    with that o'(4) assms(1) show ?thesis by (simp add: old safe_def core_safe_def)
  qed (use new in simp)
  moreover have "fresh_safe (w\<lparr>w_conn := c\<rparr>)"
    using assms(1) o'(4,5) by (auto simp: safe_def fresh_safe_def)
  ultimately show ?thesis using o'(4,5) by (simp add: safe_def core_safe_def)
qed

lemma safe_publish:
  assumes "safe w" and "w_publisher w = []" and "mset targets = mset (publish_targets e (w_conn w))"
  shows "safe (w\<lparr>w_publisher := map (OpPush e) targets\<rparr>)"
proof -
  have "set targets \<subseteq> set (cn_streams (w_conn w))"
    using arg_cong [OF assms(3), of set_mset]
    by (auto simp: publish_targets_def split: event.splits option.splits if_splits)
  then have lt: "i \<in> set targets \<Longrightarrow> i < cn_next (w_conn w)" for i
    using assms(1) by (auto simp: safe_def core_safe_def registered_safe_def)
  have p: "pending (w\<lparr>w_publisher := map (OpPush e) targets\<rparr>) = pending w + mset (map (OpPush e) targets)"
    using assms(2) by (simp add: pending_def)
  have "core_safe (pending w + mset (map (OpPush e) targets)) (w_conn w) (w_reader w) (w_offered w) (w_got w)
      (owes (map (OpPush e) targets))"
    using assms(1,2) by (intro core_more [of _ _ _ _ _ "owes (w_publisher w)"]) (auto simp: safe_def owes_def)
  moreover have "fresh_safe (w\<lparr>w_publisher := map (OpPush e) targets\<rparr>)"
    using assms(1) lt unfolding fresh_safe_def p by (auto simp: safe_def fresh_safe_def)
  ultimately show ?thesis by (simp add: safe_def p)
qed

lemma run_op_simps:
  assumes "run_op x w = (k, w')"
  obtains c where "exec_op x (w_conn w) = (k, c)" "w' = w\<lparr>w_conn := c, w_offered := offer x (w_conn w) (w_offered w)\<rparr>"
  using assms by (auto simp: run_op_def split: prod.splits)

lemma exec_op_overflow: "exec_op x c = ([OpFinish (Sentinel ErrEventsLost) i], c') \<Longrightarrow> is_push x"
  by (cases x) (auto simp: finish_section_def split: if_splits)

lemma fresh_offer:
  "op_stream x < n \<Longrightarrow> \<forall>i \<ge> n. offered i = [] \<Longrightarrow> \<forall>i \<ge> n. offer x c offered i = []"
  by (cases x) auto

lemma safe_publisher:
  assumes "safe w" and "w_publisher w = x # rest" and "run_op x w = (k, w')"
  shows "safe (w'\<lparr>w_publisher := k @ rest\<rparr>)"
proof -
  obtain c where c: "exec_op x (w_conn w) = (k, c)" "w' = w\<lparr>w_conn := c, w_offered := offer x (w_conn w) (w_offered w)\<rparr>"
    using run_op_simps [OF assms(3)] .
  note o = exec_op_other [OF c(1)]
  let ?R = "mset rest + mset (concat (w_finishers w))"
  have p: "pending w = add_mset x ?R" "pending (w'\<lparr>w_publisher := k @ rest\<rparr>) = mset k + ?R"
    using assms(2) c(2) by (simp_all add: pending_def)
  have lt: "op_stream x < cn_next (w_conn w)" using assms(1) p(1) by (simp add: safe_def fresh_safe_def)
  have "core_safe (mset k + ?R) c (w_reader w) (offer x (w_conn w) (w_offered w)) (w_got w) (owes (k @ rest))"
    by (rule core_exec [OF _ c(1) lt, of _ _ _ _ "owes (w_publisher w)"])
       (use assms(1,2) p(1) in \<open>auto simp: safe_def owes_def elim: is_push.elims\<close>)
  moreover have "fresh_safe (w'\<lparr>w_publisher := k @ rest\<rparr>)"
    using assms(1) c(2) o(2,4) lt fresh_offer [OF lt, of "w_offered w"]
    unfolding fresh_safe_def p by (auto simp: safe_def fresh_safe_def p(1))
  ultimately show ?thesis unfolding safe_def p(2) by (simp add: c(2))
qed

lemma safe_finisher:
  assumes "safe w" and "w_finishers w = before @ (x # rest) # behind" and "run_op x w = (k, w')"
  shows "safe (w'\<lparr>w_finishers := before @ (k @ rest) # behind\<rparr>)"
proof -
  obtain c where c: "exec_op x (w_conn w) = (k, c)" "w' = w\<lparr>w_conn := c, w_offered := offer x (w_conn w) (w_offered w)\<rparr>"
    using run_op_simps [OF assms(3)] .
  note o = exec_op_other [OF c(1)]
  let ?R = "mset (w_publisher w) + mset (concat (before @ rest # behind))"
  have p: "pending w = add_mset x ?R" "pending (w'\<lparr>w_finishers := before @ (k @ rest) # behind\<rparr>) = mset k + ?R"
    using assms(2) c(2) by (simp_all add: pending_def)
  have np: "\<not> is_push x" using assms(1,2) by (simp add: safe_def fresh_safe_def)
  have lt: "op_stream x < cn_next (w_conn w)" using assms(1) p(1) by (simp add: safe_def fresh_safe_def)
  have "core_safe (mset k + ?R) c (w_reader w) (offer x (w_conn w) (w_offered w)) (w_got w) (owes (w_publisher w))"
    by (rule core_exec [OF _ c(1) lt, of _ _ _ _ "owes (w_publisher w)"])
       (use assms(1) p(1) np exec_op_overflow c(1) in \<open>auto simp: safe_def\<close>)
  moreover have "list_all (\<lambda>x. \<not> is_push x) k" using o(4) by (auto simp: list_all_iff)
  then have "fresh_safe (w'\<lparr>w_finishers := before @ (k @ rest) # behind\<rparr>)"
    using assms(1,2) c(2) o(2,4) lt fresh_offer [OF lt, of "w_offered w"]
    unfolding fresh_safe_def p by (auto simp: safe_def fresh_safe_def p(1))
  ultimately show ?thesis unfolding safe_def p(2) by (simp add: c(2))
qed

lemma safe_finish_stream:
  assumes "safe w" and "i < cn_next (w_conn w)"
  shows "safe (w\<lparr>w_finishers := [OpFinish e i] # w_finishers w\<rparr>)"
proof -
  have p: "pending (w\<lparr>w_finishers := [OpFinish e i] # w_finishers w\<rparr>) = pending w + {#OpFinish e i#}"
    by (simp add: pending_def)
  have "core_safe (pending w + {#OpFinish e i#}) (w_conn w) (w_reader w) (w_offered w) (w_got w) (owes (w_publisher w))"
    using assms(1) by (intro core_more) (auto simp: safe_def)
  moreover have "fresh_safe (w\<lparr>w_finishers := [OpFinish e i] # w_finishers w\<rparr>)"
    using assms unfolding fresh_safe_def p by (auto simp: safe_def fresh_safe_def)
  ultimately show ?thesis by (simp add: safe_def p)
qed

lemma safe_stop:
  assumes "safe w" and "stop_section err (w_conn w) = (k, c)"
  shows "safe (w\<lparr>w_conn := c, w_finishers := k # w_finishers w\<rparr>)"
proof -
  let ?c = "w_conn w" and ?w = "w\<lparr>w_conn := c, w_finishers := k # w_finishers w\<rparr>"
  have p: "pending ?w = pending w + mset k" by (simp add: pending_def)
  have "i \<in> set (cn_streams ?c) \<Longrightarrow> i < cn_next ?c" for i
    using assms(1) by (simp add: safe_def core_safe_def registered_safe_def)
  then have k: "\<And>y. y \<in> set k \<Longrightarrow> \<exists>e j. y = OpFinish e j \<and> j < cn_next ?c"
    using assms(2) by (auto simp: stop_section_def split: if_split_asm)
  have nk: "OpClose i \<notin># mset k \<and> OpRelease i \<notin># mset k" for i
    using k [of "OpClose i"] k [of "OpRelease i"] by auto
  have same: "cn_store c = cn_store ?c" "cn_next c = cn_next ?c" "registered_safe c = registered_safe ?c"
    using assms(2) by (cases "cn_closed ?c"; simp add: stop_section_def registered_safe_def; clarsimp)+
  have more: "core_safe (pending w + mset k) ?c (w_reader w) (w_offered w) (w_got w) (owes (w_publisher w))"
    by (rule core_more [OF _ nk]) (use assms(1) in \<open>simp_all add: safe_def\<close>)
  have "closed_safe (pending w + mset k) c"
  proof (cases "cn_closed ?c")
    case True
    with assms(2) more show ?thesis by (simp add: stop_section_def core_safe_def)
  next
    case False
    have "es_terminal (cn_store ?c i) \<noteq> None \<or> (\<exists>e. OpFinish e i \<in># pending w + mset k)" if "i < cn_next ?c" for i
    proof (cases "es_released (cn_store ?c i)")
      case True
      with more that show ?thesis by (auto simp: core_safe_def stream_safe_def split: if_splits)
    next
      case False
      with assms that have "i \<in> set (cn_streams ?c)" by (simp add: safe_def core_safe_def registered_safe_def)
      then have "OpFinish (the (join_errs [Some (Sentinel ErrClosed), err])) i \<in># pending w + mset k"
        using assms(2) \<open>\<not> cn_closed ?c\<close> by (auto simp: stop_section_def)
      then show ?thesis by blast
    qed
    with same show ?thesis by (simp add: closed_safe_def)
  qed
  with more same have "core_safe (pending w + mset k) c (w_reader w) (w_offered w) (w_got w) (owes (w_publisher w))"
    by (simp add: core_safe_def)
  moreover have "fresh_safe ?w"
  proof -
    have "\<not> is_push x \<and> op_stream x < cn_next ?c" if "x \<in> set k" for x using k [OF that] by auto
    then have "list_all (\<lambda>x. \<not> is_push x) k" "\<forall>x \<in># pending w + mset k. op_stream x < cn_next c"
      using assms(1) same(2) by (auto simp: list_all_iff safe_def fresh_safe_def)
    with assms(1) same(2) show ?thesis unfolding fresh_safe_def p by (simp add: safe_def fresh_safe_def)
  qed
  ultimately show ?thesis by (simp add: safe_def p)
qed

text \<open>The steps of a reader touch its stream only, and neither its quota nor its end.\<close>

lemma safe_reader:
  assumes "safe w" and "i < cn_next (w_conn w)"
    and s: "es_maxBytes (f (cn_store (w_conn w) i)) = es_maxBytes (cn_store (w_conn w) i)"
      "es_released (f (cn_store (w_conn w) i)) = es_released (cn_store (w_conn w) i)"
      "es_terminal (f (cn_store (w_conn w) i)) = es_terminal (cn_store (w_conn w) i)"
    and "stream_safe (pending w) (f (cn_store (w_conn w) i)) i"
    and "reader_safe (pending w) (f (cn_store (w_conn w) i)) pc i"
    and "delivery_safe (f (cn_store (w_conn w) i)) (w_offered w i) got (owes (w_publisher w) i)"
  shows "safe (w\<lparr>w_conn := update_stream i f (w_conn w), w_reader := (w_reader w)(i := pc),
    w_got := (w_got w)(i := got)\<rparr>)"
proof -
  let ?c = "update_stream i f (w_conn w)"
  have "(\<lambda>j. es_maxBytes (cn_store ?c j)) = (\<lambda>j. es_maxBytes (cn_store (w_conn w) j))"
      "(\<lambda>j. es_released (cn_store ?c j)) = (\<lambda>j. es_released (cn_store (w_conn w) j))"
      "(\<lambda>j. es_terminal (cn_store ?c j)) = (\<lambda>j. es_terminal (cn_store (w_conn w) j))"
    using s by auto
  then have "\<And>j. es_maxBytes (cn_store ?c j) = es_maxBytes (cn_store (w_conn w) j)"
      "\<And>j. es_released (cn_store ?c j) = es_released (cn_store (w_conn w) j)"
      "\<And>j. es_terminal (cn_store ?c j) = es_terminal (cn_store (w_conn w) j)" by metis+
  then have "registered_safe ?c" "closed_safe (pending w) ?c"
    using assms(1) by (simp_all add: safe_def core_safe_def registered_safe_def closed_safe_def del: update_stream_simps(1))
  moreover have "\<forall>j < cn_next ?c. stream_safe (pending w) (cn_store ?c j) j \<and>
      reader_safe (pending w) (cn_store ?c j) (((w_reader w)(i := pc)) j) j \<and>
      delivery_safe (cn_store ?c j) (w_offered w j) (((w_got w)(i := got)) j) (owes (w_publisher w) j)"
    using assms(1,6-8) by (simp add: safe_def core_safe_def)
  moreover have "fresh_safe (w\<lparr>w_conn := ?c, w_reader := (w_reader w)(i := pc), w_got := (w_got w)(i := got)\<rparr>)"
    using assms(1,2) by (simp add: safe_def fresh_safe_def)
  ultimately show ?thesis by (simp add: safe_def core_safe_def)
qed

lemma update_stream_id: "update_stream i (\<lambda>s. s) c = c"
  by (simp add: update_stream_def)

lemma safe_at:
  assumes "safe w" and "w_reader w i \<noteq> ReaderIdle"
  shows "i < cn_next (w_conn w)" and "stream_safe (pending w) (cn_store (w_conn w) i) i"
    and "reader_safe (pending w) (cn_store (w_conn w) i) (w_reader w i) i"
    and "delivery_safe (cn_store (w_conn w) i) (w_offered w i) (w_got w i) (owes (w_publisher w) i)"
proof -
  show i: "i < cn_next (w_conn w)"
    using assms by (metis fresh_safe_def not_le safe_def)
  show "stream_safe (pending w) (cn_store (w_conn w) i) i"
    "reader_safe (pending w) (cn_store (w_conn w) i) (w_reader w i) i"
    "delivery_safe (cn_store (w_conn w) i) (w_offered w i) (w_got w i) (owes (w_publisher w) i)"
    using assms(1) i by (simp_all add: safe_def core_safe_def)
qed

lemma safe_ReadEnd:
  assumes "safe w" and "w_reader w i \<noteq> ReaderIdle"
  shows "safe (ReadEnd i w)"
  using safe_reader [of w i "\<lambda>s. s\<lparr>es_reading := False\<rparr>" ReaderIdle "w_got w i"] safe_at [OF assms] assms(1)
  by (simp add: ReadEnd_def stream_safe_def reader_safe_def delivery_safe_def)

lemma safe_ReadWoken:
  assumes "safe w" and "w_reader w i = ReaderWaits"
  shows "safe (ReadWoken i w)"
  using safe_reader [of w i "\<lambda>s. s\<lparr>es_wake := False\<rparr>" ReaderPolls "w_got w i"] safe_at [of w i] assms
  by (simp add: ReadWoken_def stream_safe_def reader_safe_def delivery_safe_def)

lemma safe_each:
  assumes "safe w" and "i < cn_next (w_conn w)"
  shows "stream_safe (pending w) (cn_store (w_conn w) i) i"
    and "reader_safe (pending w) (cn_store (w_conn w) i) (w_reader w i) i"
    and "delivery_safe (cn_store (w_conn w) i) (w_offered w i) (w_got w i) (owes (w_publisher w) i)"
  using assms by (simp_all add: safe_def core_safe_def)

lemma safe_ReadBegin:
  assumes "safe w" and "i < cn_next (w_conn w)"
  shows "safe (ReadBegin i w)"
  using safe_reader [of w i "\<lambda>s. s\<lparr>es_reading := True\<rparr>" ReaderPolls "w_got w i"] safe_each [OF assms] assms
  by (simp add: ReadBegin_def stream_safe_def reader_safe_def delivery_safe_def)

lemma safe_read_done:
  assumes "safe w" and "w_reader w i = ReaderWaits"
  shows "safe (w\<lparr>w_reader := (w_reader w)(i := ReaderPolls)\<rparr>)"
  using safe_reader [of w i "\<lambda>s. s" ReaderPolls "w_got w i"] safe_at [of w i] assms
  by (simp add: update_stream_id reader_safe_def)

lemma safe_ReadPoll:
  assumes "safe w" and "w_reader w i = ReaderPolls"
  shows "safe (ReadPoll ctxErr i w)"
proof -
  let ?s = "cn_store (w_conn w) i"
  have at: "i < cn_next (w_conn w)" "stream_safe (pending w) ?s i" "reader_safe (pending w) ?s ReaderPolls i"
      "delivery_safe ?s (w_offered w i) (w_got w i) (owes (w_publisher w) i)"
    using safe_at [of w i] assms by simp_all
  obtain r s where n: "next_section ctxErr ?s = (r, s)" by (cases "next_section ctxErr ?s")
  show ?thesis
  proof (cases r)
    case (NextError e)
    with n assms safe_ReadEnd [of w i] show ?thesis by (simp add: ReadPoll_def)
  next
    case NextWait
    then have "es_queue ?s = []" using n by (auto simp: next_section_def split: option.splits list.splits)
    with n NextWait at assms(1) show ?thesis
      using safe_reader [of w i "\<lambda>s. s" ReaderWaits "w_got w i"]
      by (simp add: ReadPoll_def update_stream_id reader_safe_def)
  next
    case (NextEvent e)
    then obtain rest where q: "es_terminal ?s = None" "es_queue ?s = e # rest"
        "s = ?s\<lparr>es_bytes := es_bytes ?s - eventBytes e, es_queue := rest\<rparr>"
      using n by (auto simp: next_section_def split: option.splits list.splits)
    let ?f = "\<lambda>t. s\<lparr>es_reading := False\<rparr>"
    have "safe (w\<lparr>w_conn := update_stream i ?f (w_conn w), w_reader := (w_reader w)(i := ReaderIdle),
        w_got := (w_got w)(i := w_got w i @ [e])\<rparr>)"
      using assms(1) at q eventBytes_pos [of e]
      by (intro safe_reader) (auto simp: stream_safe_def reader_safe_def delivery_safe_def)
    moreover have "ReadPoll ctxErr i w = w\<lparr>w_conn := update_stream i ?f (w_conn w),
        w_reader := (w_reader w)(i := ReaderIdle), w_got := (w_got w)(i := w_got w i @ [e])\<rparr>"
      using n NextEvent by (simp add: ReadPoll_def ReadEnd_def update_stream_def)
    ultimately show ?thesis by simp
  qed
qed

lemma step_safe: "step w w' \<Longrightarrow> safe w \<Longrightarrow> safe w'"
proof (induction rule: step.induct)
  case (open_stream ctxErr opts w r c)
  then show ?case by (rule safe_open [rotated])
next
  case (publish w targets e)
  then show ?case by (intro safe_publish)
next
  case (publisher w x rest k w')
  then show ?case by (intro safe_publisher)
next
  case (finisher w before x rest behind k w')
  then show ?case by (intro safe_finisher)
next
  case (read_canceled w i)
  then show ?case by (intro safe_ReadEnd) simp_all
qed (blast intro: safe_finish_stream safe_stop safe_ReadBegin safe_ReadPoll safe_ReadWoken safe_read_done)+

subsection \<open>Reachable worlds\<close>

definition initial :: "world \<Rightarrow> bool" where
  "initial w \<longleftrightarrow> cn_next (w_conn w) = 0 \<and> cn_streams (w_conn w) = [] \<and> cn_reserved (w_conn w) = 0 \<and>
     0 \<le> cn_EventBytes (w_conn w) \<and> 0 \<le> cn_MaxStreams (w_conn w) \<and> \<not> cn_closed (w_conn w) \<and>
     w_publisher w = [] \<and> w_finishers w = [] \<and>
     w_reader w = (\<lambda>_. ReaderIdle) \<and> w_offered w = (\<lambda>_. []) \<and> w_got w = (\<lambda>_. [])"

inductive reachable :: "world \<Rightarrow> bool" where
  reachable_init: "initial w \<Longrightarrow> reachable w"
| reachable_step: "reachable w \<Longrightarrow> step w w' \<Longrightarrow> reachable w'"

lemma initial_safe: "initial w \<Longrightarrow> safe w"
  by (simp add: initial_def safe_def core_safe_def fresh_safe_def registered_safe_def closed_safe_def pending_def)

lemma reachable_safe: "reachable w \<Longrightarrow> safe w"
  by (induction rule: reachable.induct) (auto intro: initial_safe step_safe)

text \<open>A small run for the witnesses: a stream is opened and gets one event while its reader waits.\<close>

definition tiny_event :: event where
  "tiny_event = UnknownEvent \<lparr>ev_name = ''x'', ev_received = 0\<rparr> []"

definition tiny_options :: event_options where
  "tiny_options = \<lparr>eo_MaxBytes = 100, eo_MaxCount = 2, eo_Overflow = 0\<rparr>"

definition tiny_world :: world where
  "tiny_world = \<lparr>w_conn = \<lparr>cn_store = (\<lambda>_. newEventStream 0 0), cn_next = 0, cn_streams = [], cn_reserved = 0,
      cn_EventBytes = 150, cn_MaxStreams = 8, cn_closed = False, cn_terminal = None,
      cn_outputPanes = (\<lambda>_. None), cn_selective = False\<rparr>,
     w_publisher = [], w_finishers = [], w_reader = (\<lambda>_. ReaderIdle), w_offered = (\<lambda>_. []), w_got = (\<lambda>_. [])\<rparr>"

definition tiny_opened :: world where
  "tiny_opened = tiny_world\<lparr>w_conn := snd (Events None tiny_options (w_conn tiny_world))\<rparr>"

definition tiny_waiting :: world where
  "tiny_waiting = ReadPoll None 0 (ReadBegin 0 tiny_opened)"

definition tiny_pushed :: world where
  "tiny_pushed = (case run_op (OpPush tiny_event 0) (tiny_waiting\<lparr>w_publisher := [OpPush tiny_event 0]\<rparr>) of
     (k, w) \<Rightarrow> w\<lparr>w_publisher := k @ []\<rparr>)"

lemma tiny_opened_reachable: "reachable tiny_opened"
proof -
  have "initial tiny_world" by (simp add: initial_def tiny_world_def)
  then have "reachable tiny_world" by (rule reachable_init)
  then show ?thesis
    unfolding tiny_opened_def
    by (rule reachable_step) (rule open_stream [of None tiny_options _ "fst (Events None tiny_options (w_conn tiny_world))"], simp)
qed

lemma tiny_opened_simps:
  "cn_next (w_conn tiny_opened) = 1" "cn_streams (w_conn tiny_opened) = [0]"
  "cn_store (w_conn tiny_opened) 0 = newEventStream 100 2" "w_publisher tiny_opened = []"
  "w_reader tiny_opened = (\<lambda>_. ReaderIdle)" "w_finishers tiny_opened = []"
  by (simp_all add: tiny_opened_def tiny_world_def Events_def normalizeEventOptions_def tiny_options_def
      OverflowPolicyFail_def checkStreamCapacity_def push_bit_eq_mult)

lemma tiny_waiting_eq:
  "tiny_waiting = (ReadBegin 0 tiny_opened)\<lparr>w_reader := (\<lambda>_. ReaderIdle)(0 := ReaderWaits)\<rparr>"
  by (simp add: tiny_waiting_def ReadPoll_def ReadBegin_def next_section_def tiny_opened_simps newEventStream_def)

lemma tiny_waiting_reachable: "reachable tiny_waiting"
proof -
  have "step tiny_opened (ReadBegin 0 tiny_opened)"
    by (rule read_begin) (simp_all add: tiny_opened_simps newEventStream_def)
  then have "reachable (ReadBegin 0 tiny_opened)" by (rule reachable_step [OF tiny_opened_reachable])
  then show ?thesis
    unfolding tiny_waiting_def by (rule reachable_step) (rule read_poll, simp add: ReadBegin_def)
qed

lemma tiny_pushed_reachable: "reachable tiny_pushed"
proof -
  have "step tiny_waiting (tiny_waiting\<lparr>w_publisher := map (OpPush tiny_event) [0]\<rparr>)"
    by (rule publish)
       (simp_all add: tiny_waiting_eq ReadBegin_def tiny_opened_simps publish_targets_def tiny_event_def)
  then have r: "reachable (tiny_waiting\<lparr>w_publisher := [OpPush tiny_event 0]\<rparr>)"
    using reachable_step [OF tiny_waiting_reachable] by simp
  obtain k w where k: "run_op (OpPush tiny_event 0) (tiny_waiting\<lparr>w_publisher := [OpPush tiny_event 0]\<rparr>) = (k, w)"
    by (metis surj_pair)
  have "step (tiny_waiting\<lparr>w_publisher := [OpPush tiny_event 0]\<rparr>) (w\<lparr>w_publisher := k @ []\<rparr>)"
    by (rule publisher [OF _ k]) simp
  then show ?thesis using reachable_step [OF r] by (simp add: tiny_pushed_def k)
qed

lemma tiny_pushed_simps:
  "cn_next (w_conn tiny_pushed) = 1" "es_queue (cn_store (w_conn tiny_pushed) 0) = [tiny_event]"
  "w_reader tiny_pushed 0 = ReaderWaits" "w_publisher tiny_pushed = [OpWake 0]"
  "es_terminal (cn_store (w_conn tiny_pushed) 0) = None"
  by (simp_all add: tiny_pushed_def run_op_def tiny_waiting_eq ReadBegin_def tiny_opened_simps newEventStream_def
      push_section_def tiny_event_def)

subsection \<open>Quotas, delivery, ending\<close>



text \<open>C10: Delivery refines a FIFO queue that fails loudly: what a reader has got is always a prefix of
  the events offered to its stream, in order and without gaps; and as long as the stream has not
  ended and the publisher is at rest, what was got and what is buffered are all that was offered.\<close>

theorem stream_delivers_in_order:
  assumes "reachable w" and "i < cn_next (w_conn w)"
  shows "(\<exists>t. w_offered w i = w_got w i @ t) \<and>
    (es_terminal (cn_store (w_conn w) i) = None \<and> w_publisher w = [] \<longrightarrow>
      w_offered w i = w_got w i @ es_queue (cn_store (w_conn w) i))"
  using safe_each(3) [OF reachable_safe [OF assms(1)] assms(2)]
  by (auto simp: delivery_safe_def owes_def split: if_splits)

lemma stream_delivers_in_order_witness:
  "\<exists>t. w_offered tiny_pushed 0 = w_got tiny_pushed 0 @ t"
  using stream_delivers_in_order [OF tiny_pushed_reachable, of 0] by (simp add: tiny_pushed_simps)

text \<open>A stream is ended once, whoever races for it: the channel that announces the end is closed at
  most once, its reservation is given back at most once, both only after the terminal error is set
  and each by a goroutine that is on its way; and a stream that has ended buffers nothing.\<close>

theorem stream_ends_once:
  assumes "reachable w" and "i < cn_next (w_conn w)"
  shows "count (pending w) (OpClose i) + (if es_done (cn_store (w_conn w) i) then 1 else 0) =
      (if es_terminal (cn_store (w_conn w) i) = None then 0 else 1) \<and>
    count (pending w) (OpRelease i) + (if i \<in> set (cn_streams (w_conn w)) then 0 else 1) =
      (if es_terminal (cn_store (w_conn w) i) = None then 0 else 1) \<and>
    (es_terminal (cn_store (w_conn w) i) \<noteq> None \<longrightarrow> es_queue (cn_store (w_conn w) i) = [])"
proof -
  note s = reachable_safe [OF assms(1)]
  have "i \<in> set (cn_streams (w_conn w)) \<longleftrightarrow> \<not> es_released (cn_store (w_conn w) i)"
    using s assms(2) by (simp add: safe_def core_safe_def registered_safe_def)
  with safe_each(1) [OF s assms(2)] show ?thesis
    by (cases "es_released (cn_store (w_conn w) i)"; cases "es_terminal (cn_store (w_conn w) i)")
       (simp_all add: stream_safe_def)
qed

lemma stream_ends_once_witness: "count (pending tiny_pushed) (OpClose 0) = 0"
  using stream_ends_once [OF tiny_pushed_reachable, of 0] by (simp add: tiny_pushed_simps split: if_splits)

subsection \<open>Progress\<close>

text \<open>A step of the goroutines that publish and finish; no reader takes part.\<close>

inductive work :: "world \<Rightarrow> world \<Rightarrow> bool" where
  work_publisher: "w_publisher w = x # rest \<Longrightarrow> run_op x w = (k, w') \<Longrightarrow> work w (w'\<lparr>w_publisher := k @ rest\<rparr>)"
| work_finisher: "w_finishers w = before @ (x # rest) # behind \<Longrightarrow> run_op x w = (k, w') \<Longrightarrow>
    work w (w'\<lparr>w_finishers := before @ (k @ rest) # behind\<rparr>)"

lemma work_step: "work w w' \<Longrightarrow> step w w'"
  by (induction rule: work.induct) (auto intro: publisher finisher)

fun op_weight :: "op \<Rightarrow> nat" where
  "op_weight (OpPush e i) = 5"
| "op_weight (OpFinish e i) = 3"
| "op_weight (OpWake i) = 1"
| "op_weight (OpRelease i) = 1"
| "op_weight (OpClose i) = 1"

definition work_left :: "world \<Rightarrow> nat" where
  "work_left w = sum_list (map op_weight (w_publisher w)) + sum_list (map op_weight (concat (w_finishers w)))"

lemma exec_op_weight: "exec_op x c = (k, c') \<Longrightarrow> sum_list (map op_weight k) < op_weight x"
  by (cases x) (auto simp: push_section_def finish_section_def split: if_splits)

lemma run_op_same:
  "run_op x w = (k, w') \<Longrightarrow> w_publisher w' = w_publisher w \<and> w_finishers w' = w_finishers w \<and> w_reader w' = w_reader w"
  by (auto simp: run_op_def split: prod.splits)

lemma run_op_weight: "run_op x w = (k, w') \<Longrightarrow> sum_list (map op_weight k) < op_weight x"
  by (auto simp: run_op_def split: prod.splits dest: exec_op_weight)

lemma work_decreases: "work w w' \<Longrightarrow> work_left w' < work_left w"
proof (induction rule: work.induct)
  case (work_publisher w x rest k w')
  with run_op_same [OF work_publisher(2)] run_op_weight [OF work_publisher(2)] show ?case
    by (simp add: work_left_def)
next
  case (work_finisher w before x rest behind k w')
  with run_op_same [OF work_finisher(2)] run_op_weight [OF work_finisher(2)] show ?case
    by (simp add: work_left_def)
qed

lemma work_reader: "work w w' \<Longrightarrow> w_reader w' = w_reader w"
  by (induction rule: work.induct) (auto dest: run_op_same)

lemma work_possible: "(\<exists>w'. work w w') \<or> pending w = {#}"
proof (cases "w_publisher w")
  case (Cons x rest)
  obtain k w' where "run_op x w = (k, w')" by (metis surj_pair)
  with Cons show ?thesis by (blast intro: work_publisher)
next
  case Nil
  show ?thesis
  proof (cases "concat (w_finishers w)")
    case Nil2: Nil
    with Nil show ?thesis by (simp add: pending_def)
  next
    case (Cons x xs)
    then obtain p where "p \<in> set (w_finishers w)" "p \<noteq> []" by (metis concat_eq_Nil_conv list.distinct(1))
    then obtain before y rest behind where f: "w_finishers w = before @ (y # rest) # behind"
      by (metis neq_Nil_conv split_list)
    obtain k w' where "run_op y w = (k, w')" by (metis surj_pair)
    with f show ?thesis by (blast intro: work_finisher)
  qed
qed

text \<open>Something for the reader of a stream to see does not go away while the goroutines work.\<close>

definition has_news :: "world \<Rightarrow> nat \<Rightarrow> bool" where
  "has_news w i \<longleftrightarrow> es_queue (cn_store (w_conn w) i) \<noteq> [] \<or> es_terminal (cn_store (w_conn w) i) \<noteq> None"

lemma exec_op_news:
  "exec_op x c = (k, c') \<Longrightarrow> es_queue (cn_store c i) \<noteq> [] \<or> es_terminal (cn_store c i) \<noteq> None \<Longrightarrow>
   es_queue (cn_store c' i) \<noteq> [] \<or> es_terminal (cn_store c' i) \<noteq> None"
  by (cases x) (auto simp: push_section_def finish_section_def split: if_splits)

lemma run_op_news: "run_op x w = (k, w') \<Longrightarrow> has_news w i \<Longrightarrow> has_news w' i"
  using exec_op_news [of x "w_conn w"] by (auto simp: run_op_def has_news_def split: prod.splits)

lemma work_news: "work w w' \<Longrightarrow> has_news w i \<Longrightarrow> has_news w' i"
  by (induction rule: work.induct) (auto simp: has_news_def dest: run_op_news [unfolded has_news_def])

lemma work_ends: "\<exists>w'. work\<^sup>*\<^sup>* w w' \<and> pending w' = {#}"
proof (induction "work_left w" arbitrary: w rule: less_induct)
  case less
  show ?case
  proof (cases "pending w = {#}")
    case False
    then obtain w1 where w1: "work w w1" using work_possible by blast
    from less [OF work_decreases [OF w1]] w1 show ?thesis by (meson converse_rtranclp_into_rtranclp)
  qed blast
qed

lemma works_reachable:
  "work\<^sup>*\<^sup>* w w' \<Longrightarrow> reachable w \<Longrightarrow> reachable w' \<and> w_reader w' = w_reader w \<and> (has_news w i \<longrightarrow> has_news w' i)"
  by (induction rule: rtranclp_induct)
     (auto dest: work_reader work_news intro: reachable_step work_step)



text \<open>C11: No wake-up is lost: whenever a reader waits although an event is buffered or the stream has
  ended, the goroutines under way come to rest in a state where the wake token is there or the
  channel is closed, so the reader runs; and a reader that waits while they are at rest, with
  neither, has nothing to read from a stream that is still open.\<close>

theorem reader_is_woken:
  assumes "reachable w" and "w_reader w i = ReaderWaits" and "has_news w i"
  shows "\<exists>w'. work\<^sup>*\<^sup>* w w' \<and> w_reader w' i = ReaderWaits \<and> pending w' = {#} \<and>
    (es_wake (cn_store (w_conn w') i) \<or> es_done (cn_store (w_conn w') i))"
proof -
  obtain w' where w': "work\<^sup>*\<^sup>* w w'" "pending w' = {#}" using work_ends by blast
  with assms works_reachable [of w w' i] have r: "reachable w'" "w_reader w' i = ReaderWaits" "has_news w' i" by auto
  have "w_reader w' i \<noteq> ReaderIdle" using r(2) by simp
  note at = safe_at [OF reachable_safe [OF r(1)] this]
  have "es_wake (cn_store (w_conn w') i) \<or> es_done (cn_store (w_conn w') i)"
    using at(2,3) r(2,3) w'(2)
    by (cases "es_terminal (cn_store (w_conn w') i)")
       (auto simp: stream_safe_def reader_safe_def has_news_def split: if_splits)
  with w' r show ?thesis by blast
qed

lemma reader_is_woken_witness:
  "\<exists>w'. work\<^sup>*\<^sup>* tiny_pushed w' \<and> (es_wake (cn_store (w_conn w') 0) \<or> es_done (cn_store (w_conn w') 0))"
  using reader_is_woken [OF tiny_pushed_reachable tiny_pushed_simps(3)]
  by (auto simp: has_news_def tiny_pushed_simps)

text \<open>C13: Closing the connection leaves nothing behind: once the goroutines have come to rest, every
  stream ever opened has its terminal error, its channel is closed, no stream is registered and the
  whole reservation is given back.\<close>

theorem stop_releases_everything:
  assumes "reachable w" and "cn_closed (w_conn w)" and "pending w = {#}"
  shows "cn_streams (w_conn w) = [] \<and> cn_reserved (w_conn w) = 0 \<and>
    (\<forall>i < cn_next (w_conn w). es_terminal (cn_store (w_conn w) i) \<noteq> None \<and> es_done (cn_store (w_conn w) i))"
proof -
  let ?c = "w_conn w"
  note s = reachable_safe [OF assms(1)]
  have e: "es_terminal (cn_store ?c i) \<noteq> None" if "i < cn_next ?c" for i
    using s assms(2,3) that by (simp add: safe_def core_safe_def closed_safe_def)
  have d: "es_done (cn_store ?c i) \<and> es_released (cn_store ?c i)" if "i < cn_next ?c" for i
    using safe_each(1) [OF s that] e [OF that] assms(3) by (simp add: stream_safe_def split: if_splits)
  have reg: "registered_safe ?c" using s by (simp add: safe_def core_safe_def)
  then have "set (cn_streams ?c) = {i. i < cn_next ?c \<and> \<not> es_released (cn_store ?c i)}"
    by (simp add: registered_safe_def)
  moreover have "{i. i < cn_next ?c \<and> \<not> es_released (cn_store ?c i)} = {}" using d by auto
  ultimately have "set (cn_streams ?c) = {}" by (rule trans)
  then have "cn_streams ?c = []" by simp
  moreover from this have "cn_reserved ?c = 0" using reg by (simp add: registered_safe_def)
  ultimately show ?thesis using e d by blast
qed

lemma stop_releases_everything_witness:
  "cn_reserved (w_conn (tiny_world\<lparr>w_conn := snd (stop_section None (w_conn tiny_world)), w_finishers := [[]]\<rparr>)) = 0"
proof -
  let ?w = "tiny_world\<lparr>w_conn := snd (stop_section None (w_conn tiny_world)), w_finishers := [[]]\<rparr>"
  have "reachable tiny_world" by (rule reachable_init) (simp add: initial_def tiny_world_def)
  moreover have "stop_section None (w_conn tiny_world) = ([], snd (stop_section None (w_conn tiny_world)))"
    by (simp add: stop_section_def tiny_world_def)
  then have "step tiny_world (tiny_world\<lparr>w_conn := snd (stop_section None (w_conn tiny_world)),
      w_finishers := [] # w_finishers tiny_world\<rparr>)" by (rule stop)
  moreover have "w_finishers tiny_world = []" by (simp add: tiny_world_def)
  ultimately have "reachable ?w" by (metis reachable_step)
  from stop_releases_everything [OF this] show ?thesis
    by (simp add: stop_section_def tiny_world_def pending_def)
qed

end
