(* ===== verification/Guard.thy ===== *)
theory Guard
  imports Tmux_Ids Command_Plan Wire_Formats
begin

text \<open>
  \<open>tmux/identity.go\<close>: guards. A guarded plan is put into a nest of \<open>if-shell -F\<close> commands whose
  conditions check the daemon, the window links and the clients that the caller's handles were read
  from; the first line of its output tells which branch tmux took.
\<close>

subsection \<open>Formats of the checks\<close>

definition formatBytes :: "bytes \<Rightarrow> bytes" where
  "formatBytes s = concat (map (\<lambda>c.
     if code c < code CHR '' '' \<or> code CHR ''~'' < code c then [c]
     else ''#{a:'' @ itoa_nat (code c) @ ''}'') s)"

definition eqFormat :: "bytes \<Rightarrow> bytes \<Rightarrow> bytes" where
  "eqFormat variable v = ''#{==:#{'' @ variable @ ''},'' @ formatBytes v @ ''}''"

definition andFormat :: "bytes \<Rightarrow> bytes \<Rightarrow> bytes" where
  "andFormat a b = ''#{&&:'' @ a @ '','' @ b @ ''}''"

definition clientFilter :: "bytes \<Rightarrow> bytes" where
  "clientFilter name = eqFormat ''client_name'' name"

definition condition :: "server_identity \<Rightarrow> bytes" where
  "condition i =
     andFormat (andFormat (eqFormat ''pid'' (itoa (id_pid i))) (eqFormat ''start_time'' (itoa (id_started i))))
       (eqFormat ''socket_path'' (id_socket i))"

subsection \<open>Guards\<close>

record linkCheck =
  lc_session :: bytes
  lc_index :: int
  lc_window :: bytes

record clientCheck =
  cc_name :: bytes
  cc_pid :: int
  cc_created :: int

record guard =
  g_identity :: server_identity
  g_links :: "linkCheck list"
  g_clients :: "clientCheck list"

definition newGuard :: "server_identity \<Rightarrow> guard" where
  "newGuard i = \<lparr>g_identity = i, g_links = [], g_clients = []\<rparr>"

definition guardOK :: bytes where "guardOK = ''TGO-GUARD-1:ok'' @ [LF]"
definition guardServerChanged :: bytes where "guardServerChanged = ''TGO-GUARD-1:server-changed'' @ [LF]"
definition guardLinkChanged :: bytes where "guardLinkChanged = ''TGO-GUARD-1:link-changed'' @ [LF]"
definition guardClientChanged :: bytes where "guardClientChanged = ''TGO-GUARD-1:client-changed'' @ [LF]"

lemmas marker_defs = guardOK_def guardServerChanged_def guardLinkChanged_def guardClientChanged_def

definition markerNode :: "bytes \<Rightarrow> wireNode" where
  "markerNode s = leaf \<lparr>cmd_name = ''display-message'', cmd_args = [''-p'', trim_suffix s [LF]]\<rparr>"

definition conditionNode :: "bytes \<Rightarrow> wireNode list \<Rightarrow> wireNode list \<Rightarrow> bytes \<Rightarrow> wireNode" where
  "conditionNode cond yes no target =
     WireNode ''if-shell''
       ([WireArg ''-F'' None] @
        (if target \<noteq> [] then [WireArg ''-t'' None, WireArg target None] else []) @
        [WireArg cond None, WireArg [] (Some yes), WireArg [] (Some no)])"

definition client_condition :: "clientCheck \<Rightarrow> bytes" where
  "client_condition c =
     ''#{L:#{?'' @
       andFormat (eqFormat ''client_name'' (cc_name c))
         (andFormat (eqFormat ''client_pid'' (itoa (cc_pid c))) (eqFormat ''client_created'' (itoa (cc_created c)))) @
     '',1,}}''"

definition link_condition :: "linkCheck \<Rightarrow> bytes" where
  "link_condition l =
     ''#{W:#{?'' @
       andFormat (eqFormat ''window_id'' (lc_window l)) (eqFormat ''window_index'' (itoa (lc_index l))) @
     '',1,}}''"

text \<open>The two loops of \<open>wrap\<close> run over the checks from the last to the first.\<close>

definition wrap_client :: "clientCheck \<Rightarrow> wireNode list \<Rightarrow> wireNode list" where
  "wrap_client c nodes = [conditionNode (client_condition c) nodes [markerNode guardClientChanged] []]"

definition wrap_link :: "linkCheck \<Rightarrow> wireNode list \<Rightarrow> wireNode list" where
  "wrap_link l nodes =
     [conditionNode (link_condition l) nodes [markerNode guardLinkChanged] (lc_session l @ '':'')]"

definition guard_wrap :: "guard \<Rightarrow> plan \<Rightarrow> plan" where
  "guard_wrap g p =
     (let nodes0 = markerNode guardOK # pl_nodes p;
          nodes1 = fold wrap_client (rev (g_clients g)) nodes0;
          nodes2 = fold wrap_link (rev (g_links g)) nodes1
      in p\<lparr>pl_nodes := [conditionNode (condition (g_identity g)) nodes2 [markerNode guardServerChanged] []]\<rparr>)"

subsection \<open>Reading the answer\<close>

text \<open>Assigning to a field of the first \<open>*CommandError\<close> that \<open>errors.AsType\<close> finds: \<open>None\<close> when there
  is none.\<close>

fun update_command :: "(goerr \<Rightarrow> goerr) \<Rightarrow> goerr \<Rightarrow> goerr option"
  and update_commands :: "(goerr \<Rightarrow> goerr) \<Rightarrow> goerr list \<Rightarrow> goerr list option" where
  "update_command f (Sentinel s) = None"
| "update_command f (Opaque m) = None"
| "update_command f (Wrapf m e) = map_option (Wrapf m) (update_command f e)"
| "update_command f (JoinErr es) = map_option JoinErr (update_commands f es)"
| "update_command f (OperationError n oc e) = map_option (OperationError n oc) (update_command f e)"
| "update_command f (CommandError n r oc t e) = Some (f (CommandError n r oc t e))"
| "update_command f (DecodeError k fl e) = map_option (DecodeError k fl) (update_command f e)"
| "update_command f (UnsupportedError fl v tr None) = None"
| "update_command f (UnsupportedError fl v tr (Some e)) =
     map_option (\<lambda>e'. UnsupportedError fl v tr (Some e')) (update_command f e)"
| "update_command f (DiscoveryError e) = map_option DiscoveryError (update_command f e)"
| "update_commands f [] = None"
| "update_commands f (e # es) =
     (case update_command f e of
        Some e' \<Rightarrow> Some (e' # es)
      | None \<Rightarrow> map_option ((#) e) (update_commands f es))"

definition with_command :: "(goerr \<Rightarrow> goerr) \<Rightarrow> goerr \<Rightarrow> goerr" where
  "with_command f e = (case update_command f e of Some e' \<Rightarrow> e' | None \<Rightarrow> e)"

fun set_result :: "result \<Rightarrow> goerr \<Rightarrow> goerr" where
  "set_result r (CommandError n r0 oc t e) = CommandError n r oc t e"
| "set_result r e = e"

fun set_command :: "bytes \<Rightarrow> goerr \<Rightarrow> goerr" where
  "set_command name (CommandError n r oc t e) = CommandError name r oc t e"
| "set_command name e = e"

definition guard_error :: "result \<Rightarrow> outcome \<Rightarrow> goerr \<Rightarrow> goerr" where
  "guard_error r oc e = CommandError ''guard'' r oc TimeoutSourceNone e"

definition marker_cause :: "bytes \<Rightarrow> (bytes \<times> sentinel) option" where
  "marker_cause out =
     (if has_prefix out guardServerChanged then Some (guardServerChanged, ErrServerChanged)
      else if has_prefix out guardLinkChanged then Some (guardLinkChanged, ErrLinkChanged)
      else if has_prefix out guardClientChanged then Some (guardClientChanged, ErrClientChanged)
      else None)"

definition unwrap :: "guard \<Rightarrow> result \<Rightarrow> goerr option \<Rightarrow> result \<times> goerr option" where
  "unwrap g r err =
     (case marker_cause (res_stdout r) of
        Some (prefix, cause) \<Rightarrow>
          let r' = r\<lparr>res_stdout := drop (length prefix) (res_stdout r)\<rparr> in
          (r', Some (guard_error r' notSentOutcome (the (join_errs [Some (Sentinel cause), err]))))
      | None \<Rightarrow>
          if has_prefix (res_stdout r) guardOK then
            let r' = r\<lparr>res_stdout := drop (length guardOK) (res_stdout r)\<rparr> in
            (r', map_option (with_command (set_result r')) err)
          else (case err of
              Some e \<Rightarrow>
                if g_links g \<noteq> [] \<and> err_is e ErrNotFound
                then (r, Some (guard_error r notSentOutcome (the (join_errs [Some (Sentinel ErrLinkChanged), err]))))
                else (r, err)
            | None \<Rightarrow> (r, Some (guard_error r (plainOutcome EffectUnknown) (Sentinel ErrProtocol)))))"

subsection \<open>The texts of the checks cannot be broken out of\<close>

lemma formatBytes_simps [simp]:
  "formatBytes [] = []"
  "formatBytes (c # s) = (if code c < 32 \<or> 126 < code c then [c] else ''#{a:'' @ itoa_nat (code c) @ ''}'') @ formatBytes s"
  by (simp_all add: formatBytes_def)

lemma formatBytes_no_comma: "CHR '','' \<notin> set (formatBytes s)"
  by (induction s) auto

lemma formatBytes_balanced: "balanced (formatBytes s)"
proof (induction s)
  case (Cons c s)
  have esc: "depth_after 0 (''#{a:'' @ itoa_nat n @ ''}'') = Some 0" for n
  proof -
    have "depth_after 0 ''#{a:'' = Some 1" by (simp add: special_after_hash_def)
    moreover have "depth_after 1 (itoa_nat n @ ''}'') = Some 0" by (simp add: depth_after_prefix itoa_nat_no_hash)
    ultimately show ?thesis by (simp only: depth_after_append)
  qed
  have raw: "depth_after 0 [c] = Some 0" if "code c < 32 \<or> 126 < code c"
    using that by auto
  show ?case
  proof (cases "code c < 32 \<or> 126 < code c")
    case True
    then show ?thesis using Cons depth_after_append [OF raw [OF True], of "formatBytes s"] by simp
  next
    case False
    then show ?thesis using Cons depth_after_append [OF esc [of "code c"], of "formatBytes s"] by simp
  qed
qed simp

lemma formatBytes_inject: "formatBytes s = formatBytes t \<Longrightarrow> s = t"
proof (induction s arbitrary: t)
  case Nil
  then show ?case by (cases t) (auto split: if_splits)
next
  case (Cons c s)
  obtain d t' where t: "t = d # t'" using Cons.prems by (cases t) (auto split: if_splits)
  have hash: "\<not> (code (CHR ''#'') < 32 \<or> 126 < code (CHR ''#''))" by simp
  have close: "itoa_nat m @ CHR ''}'' # u = itoa_nat n @ CHR ''}'' # v \<Longrightarrow> m = n \<and> u = v" for m n u v
  proof -
    assume a: "itoa_nat m @ CHR ''}'' # u = itoa_nat n @ CHR ''}'' # v"
    have f: "CHR ''}'' \<notin> set (itoa_nat k)" for k by (auto dest!: set_itoa_nat simp: is_digit_def)
    have "cut (itoa_nat m @ CHR ''}'' # u) ''}'' = cut (itoa_nat n @ CHR ''}'' # v) ''}''" using a by simp
    then show ?thesis by (simp add: cut_byte f)
  qed
  show ?case
  proof (cases "code c < 32 \<or> 126 < code c"; cases "code d < 32 \<or> 126 < code d")
    assume "code c < 32 \<or> 126 < code c" "code d < 32 \<or> 126 < code d"
    with Cons t show ?thesis by simp
  next
    assume "code c < 32 \<or> 126 < code c" "\<not> (code d < 32 \<or> 126 < code d)"
    with Cons.prems t hash show ?thesis by auto
  next
    assume "\<not> (code c < 32 \<or> 126 < code c)" "code d < 32 \<or> 126 < code d"
    with Cons.prems t hash show ?thesis by auto
  next
    assume "\<not> (code c < 32 \<or> 126 < code c)" "\<not> (code d < 32 \<or> 126 < code d)"
    with Cons.prems t have "code c = code d \<and> formatBytes s = formatBytes t'"
      by (auto dest: close)
    with Cons.IH t show ?thesis by simp
  qed
qed

text \<open>A value that a guard compares with cannot change the comparison: its encoding has no comma,
  opens and closes its own braces only, and two values have the same encoding only if they are equal.\<close>

theorem formatBytes_safe:
  "CHR '','' \<notin> set (formatBytes s) \<and> depth_after 0 (formatBytes s) = Some 0 \<and>
   (formatBytes s = formatBytes t \<longleftrightarrow> s = t)"
  using formatBytes_no_comma formatBytes_balanced formatBytes_inject by metis

subsection \<open>What a guarded plan does\<close>

text \<open>The daemon is a parameter: \<open>out ns\<close> is what running the commands \<open>ns\<close> prints, and \<open>holds t c\<close>
  whether the condition \<open>c\<close> expands to true for the target \<open>t\<close>. The hypotheses below are the documented
  behaviour of \<open>if-shell -F\<close>, of \<open>display-message -p\<close>, and of running commands in order.\<close>

abbreviation link_holds :: "(bytes \<Rightarrow> bytes \<Rightarrow> bool) \<Rightarrow> linkCheck \<Rightarrow> bool" where
  "link_holds holds l \<equiv> holds (lc_session l @ '':'') (link_condition l)"

abbreviation client_holds :: "(bytes \<Rightarrow> bytes \<Rightarrow> bool) \<Rightarrow> clientCheck \<Rightarrow> bool" where
  "client_holds holds c \<equiv> holds [] (client_condition c)"

lemma out_wrap_checks:
  assumes "\<And>c yes no t. out [conditionNode c yes no t] = (if holds t c then out yes else out no)"
  shows "out (fold wrap_client (rev cs) ns) =
      (if list_all (client_holds holds) cs then out ns else out [markerNode guardClientChanged])"
    and "out (fold wrap_link (rev ls) ns) =
      (if list_all (link_holds holds) ls then out ns else out [markerNode guardLinkChanged])"
  subgoal by (induction cs) (simp_all add: wrap_client_def assms)
  subgoal by (induction ls) (simp_all add: wrap_link_def assms)
  done

lemma marker_cause_simps:
  "marker_cause (guardServerChanged @ s) = Some (guardServerChanged, ErrServerChanged)"
  "marker_cause (guardLinkChanged @ s) = Some (guardLinkChanged, ErrLinkChanged)"
  "marker_cause (guardClientChanged @ s) = Some (guardClientChanged, ErrClientChanged)"
  "marker_cause (guardOK @ s) = None"
  by (simp_all add: marker_cause_def marker_defs)

definition guard_refusal :: "result \<Rightarrow> sentinel \<Rightarrow> result \<times> goerr option" where
  "guard_refusal r cause =
     (let r' = r\<lparr>res_stdout := []\<rparr> in
      (r', Some (CommandError ''guard'' r' notSentOutcome TimeoutSourceNone (JoinErr [Sentinel cause]))))"


text \<open>A daemon with these properties.\<close>

fun sim_node :: "(bytes \<Rightarrow> bytes \<Rightarrow> bool) \<Rightarrow> wireNode \<Rightarrow> bytes"
  and sim_nodes :: "(bytes \<Rightarrow> bytes \<Rightarrow> bool) \<Rightarrow> wireNode list \<Rightarrow> bytes" where
  "sim_node h (WireNode name [WireArg f None, WireArg c None, WireArg a (Some yes), WireArg b (Some no)]) =
     (if h [] c then sim_nodes h yes else sim_nodes h no)"
| "sim_node h (WireNode name [WireArg f None, WireArg g None, WireArg t None, WireArg c None,
       WireArg a (Some yes), WireArg b (Some no)]) =
     (if h t c then sim_nodes h yes else sim_nodes h no)"
| "sim_node h (WireNode name [WireArg f None, WireArg s None]) = s @ [LF]"
| "sim_nodes h [] = []"
| "sim_nodes h (n # ns) = sim_node h n @ sim_nodes h ns"


text \<open>Reading a guarded answer never invents success: without an error of the transport the call
  succeeds exactly when the output starts with the marker that tmux prints when all checks hold, and
  the marker is removed; and every error it adds is reported with the outcome that nothing was sent,
  except an answer without any marker, whose effect is unknown.\<close>

theorem unwrap_success_iff:
  "(snd (unwrap g r None) = None \<longleftrightarrow> has_prefix (res_stdout r) guardOK) \<and>
   (has_prefix (res_stdout r) guardOK \<longrightarrow>
      fst (unwrap g r None) = r\<lparr>res_stdout := drop (length guardOK) (res_stdout r)\<rparr>) \<and>
   (\<forall>e. snd (unwrap g r None) = Some e \<longrightarrow>
      oc_effect (outcomeOf e) = (if marker_cause (res_stdout r) = None then EffectUnknown else EffectNotSent))"
proof -
  have c: "marker_cause (res_stdout r) = None" if "has_prefix (res_stdout r) guardOK"
    using that by (auto simp: has_prefix_iff marker_cause_simps)
  show ?thesis
  proof (cases "marker_cause (res_stdout r)")
    case None
    then show ?thesis
      by (auto simp: unwrap_def Let_def guard_error_def outcomeOf_def as_operation_def as_command_def)
  next
    case (Some pc)
    then have "\<not> has_prefix (res_stdout r) guardOK" using c by auto
    with Some show ?thesis
      by (auto simp: unwrap_def Let_def guard_error_def outcomeOf_def as_operation_def as_command_def
          join_errs_def split: prod.splits)
  qed
qed

lemma unwrap_success_iff_witness:
  "snd (unwrap (newGuard zero_identity) (failedResult\<lparr>res_stdout := guardOK @ ''x''\<rparr>) None) = None \<and>
   res_stdout (fst (unwrap (newGuard zero_identity) (failedResult\<lparr>res_stdout := guardOK @ ''x''\<rparr>) None)) = ''x'' \<and>
   (\<exists>e. snd (unwrap (newGuard zero_identity) (failedResult\<lparr>res_stdout := ''x''\<rparr>) None) = Some e \<and>
      oc_effect (outcomeOf e) = EffectUnknown)"
proof -
  have "\<not> has_prefix ''x'' guardOK" "marker_cause ''x'' = None" by (simp_all add: marker_defs marker_cause_def)
  with unwrap_success_iff [of "newGuard zero_identity" "failedResult\<lparr>res_stdout := ''x''\<rparr>"]
    unwrap_success_iff [of "newGuard zero_identity" "failedResult\<lparr>res_stdout := guardOK @ ''x''\<rparr>"]
  show ?thesis
    by (cases "snd (unwrap (newGuard zero_identity) (failedResult\<lparr>res_stdout := ''x''\<rparr>) None)") simp_all
qed

end
