(* ===== verification/Execute.thy ===== *)
theory Execute
  imports Command_Line Guard
begin

text \<open>
  \<open>tmux/exec.go\<close>, \<open>tmux/executor.go\<close> and the \<open>Run\<close> methods of \<open>tmux/command.go\<close>: output buffers with a
  limit, running one process, the byte budget of an operation, and the execution of a plan. The
  operating system's answers, the state of contexts and the control connection are parameters
  (records \<open>process_run\<close> and \<open>call_env\<close>).
\<close>

subsection \<open>Output buffers\<close>

record buffer =
  bf_bytes :: bytes
  bf_limit :: int
  bf_overflowed :: bool

definition newBuffer :: "int \<Rightarrow> buffer" where
  "newBuffer limit = \<lparr>bf_bytes = [], bf_limit = limit, bf_overflowed = False\<rparr>"

text \<open>\<open>buffer.Write\<close>: the new buffer and whether the overflow callback is called.\<close>

definition buffer_write :: "bytes \<Rightarrow> buffer \<Rightarrow> buffer \<times> bool" where
  "buffer_write p b =
     (let n = int (length p);
          left = bf_limit b - int (length (bf_bytes b));
          tk = (if left < n then max left 0 else n);
          over = left < n \<and> \<not> bf_overflowed b
      in (b\<lparr>bf_bytes := (if 0 < tk then bf_bytes b @ take (nat tk) p else bf_bytes b),
            bf_overflowed := bf_overflowed b \<or> over\<rparr>, over))"

text \<open>Writing chunks in order: the buffer and how often the callback ran.\<close>

fun buffer_writes :: "bytes list \<Rightarrow> buffer \<Rightarrow> buffer \<times> nat" where
  "buffer_writes [] b = (b, 0)"
| "buffer_writes (p # ps) b =
     (let (b', over) = buffer_write p b; (b'', n) = buffer_writes ps b'
      in (b'', (if over then 1 else 0) + n))"

subsection \<open>One process\<close>

text \<open>What happens around a process: errors of the slot semaphore and of the context before the start,
  of the start, of \<open>Wait\<close> and of draining; the chunks the process writes; its exit code; and the
  cause for which the caller's context was cancelled, if that came before any overflow.\<close>

record process_run =
  pr_slot :: "goerr option"
  pr_ctx :: "goerr option"
  pr_open :: "goerr option"
  pr_start :: "goerr option"
  pr_stdout :: "bytes list"
  pr_stderr :: "bytes list"
  pr_wait :: "goerr option"
  pr_drain :: "goerr option"
  pr_exit :: "int option"
  pr_cause :: "goerr option"

definition ErrWaitDelay :: goerr where
  "ErrWaitDelay = Opaque ''exec: WaitDelay expired before I/O complete''"

definition join2 :: "goerr option \<Rightarrow> goerr option \<Rightarrow> goerr option" where
  "join2 a b = join_errs [a, b]"

definition runner_run :: "process_run \<Rightarrow> int \<Rightarrow> int \<Rightarrow> result \<times> bool \<times> goerr option" where
  "runner_run pr outMax errMax =
     (case pr_slot pr of
        Some e \<Rightarrow> (failedResult, False, Some e)
      | None \<Rightarrow>
     (case pr_ctx pr of
        Some e \<Rightarrow> (failedResult, False, Some e)
      | None \<Rightarrow>
        let started = (pr_open pr = None \<and> pr_start pr = None);
            (out, overs) = buffer_writes (if started then pr_stdout pr else []) (newBuffer outMax);
            (err, overs') = buffer_writes (if started then pr_stderr pr else []) (newBuffer errMax);
            e1 = (if pr_open pr \<noteq> None then pr_open pr
                  else join2 (if started then pr_wait pr else pr_start pr) (pr_drain pr));
            cause = (case pr_cause pr of Some c \<Rightarrow> Some c
                     | None \<Rightarrow> if 0 < overs + overs' then Some (Sentinel ErrOutputLimit) else None);
            e2 = (if cause \<noteq> None then join2 e1 cause else e1);
            e3 = (case e2 of
                    Some e \<Rightarrow> if find_err (\<lambda>x. x = ErrWaitDelay) e \<noteq> None
                             then join2 e2 (Some (Sentinel ErrShutdownIncomplete)) else e2
                  | None \<Rightarrow> None)
        in (\<lparr>res_stdout = bf_bytes out, res_stderr = bf_bytes err,
             exit_code = (if started then (case pr_exit pr of Some c \<Rightarrow> c | None \<Rightarrow> - 1) else - 1)\<rparr>,
            started, e3)))"

subsection \<open>Operations\<close>

record operation =
  op_output :: int
  op_stderr :: int
  op_input :: int

record call_env =
  ce_platform_ok :: bool
  ce_caller_done :: bool
  ce_lifetime_check :: "goerr option"
  ce_lifetime_begin :: "goerr option"
  ce_lifetime_exec :: "goerr option"
  ce_ctx_before :: "goerr option"
  ce_ctx_after :: "goerr option"
  ce_process :: "bytes list \<Rightarrow> bytes option \<Rightarrow> process_run"
  ce_control :: "operation \<Rightarrow> plan \<Rightarrow> int \<Rightarrow> result \<times> goerr option"

text \<open>\<open>beginWithin\<close> without its context: a server handle may be nil.\<close>

definition begin_op :: "call_env \<Rightarrow> server option \<Rightarrow> goerr + server \<times> operation" where
  "begin_op env so =
     (case so of
        None \<Rightarrow> Inl (Sentinel ErrInvalidHandle)
      | Some s \<Rightarrow>
          if \<not> srv_runner s then Inl (Sentinel ErrInvalidHandle)
          else if \<not> ce_platform_ok env then Inl (unsupported ''platform'')
          else (case ce_lifetime_begin env of
              Some e \<Rightarrow> Inl e
            | None \<Rightarrow>
                let l = cfg_Limits (srv_config s) in
                Inr (s, \<lparr>op_output = lim_OutputBytes l, op_stderr = lim_OutputBytes l,
                         op_input = lim_InputBytes l\<rparr>)))"

definition isNotFoundStderr :: "bytes \<Rightarrow> bool" where
  "isNotFoundStderr s = list_ex (has_prefix s)
     [''can'' @ [squote] @ ''t find pane:'', ''can'' @ [squote] @ ''t find window:'',
      ''can'' @ [squote] @ ''t find session:'', ''can'' @ [squote] @ ''t find client:'',
      ''no such session:'', ''no such buffer:'', ''no buffer '']"

definition isNoServerStderr :: "bytes \<Rightarrow> bool" where
  "isNoServerStderr s \<longleftrightarrow>
     has_prefix s ''error connecting to '' \<or> has_prefix s ''no server running on ''"

definition classifyStderr :: "bytes \<Rightarrow> goerr option" where
  "classifyStderr s =
     (if contains_sub s ''Permission denied'' \<or> contains_sub s ''Operation not permitted''
        then Some (Sentinel OsErrPermission)
      else if isNoServerStderr s then Some (Sentinel ErrNoServer)
      else if isNotFoundStderr s then Some (Sentinel ErrNotFound)
      else if has_prefix s ''duplicate session: '' then Some (Sentinel ErrAlreadyExists)
      else if has_prefix s ''multiple sessions:'' \<or> has_prefix s ''ambiguous ''
        then Some (Sentinel ErrAmbiguousTarget)
      else None)"

definition executeProcess ::
  "call_env \<Rightarrow> operation \<Rightarrow> bytes list \<Rightarrow> bytes option \<Rightarrow> (result \<times> goerr option) \<times> operation" where
  "executeProcess env op args input =
     (let (r, started, err) = runner_run (ce_process env args input) (max (op_output op) 0) (max (op_stderr op) 0);
          op' = op\<lparr>op_output := op_output op - int (length (res_stdout r)),
                   op_stderr := op_stderr op - int (length (res_stderr r))\<rparr>
      in case err of
           None \<Rightarrow> ((r, None), op')
         | Some e0 \<Rightarrow>
             let e = (case classifyStderr (res_stderr r) of
                        Some k \<Rightarrow> the (join_errs [Some k, Some e0]) | None \<Rightarrow> e0);
                 eff = (if started then EffectUnknown else EffectNotSent)
             in ((r, Some (CommandError ''process'' r (plainOutcome eff)
                      (contextSource (ce_caller_done env) (Some e)) e)), op'))"

definition planName :: "plan \<Rightarrow> bytes" where
  "planName p = (case pl_nodes p of [WireNode name args] \<Rightarrow> name | _ \<Rightarrow> ''sequence'')"

definition controlWireOverhead :: int where "controlWireOverhead = 128"

text \<open>The bytes charged and the operation after it. The amounts are non-negative and at most the
  limit of \<open>2^40\<close> bytes that \<open>New\<close> enforces, so no \<open>int64\<close> operation here wraps.\<close>

definition checkInputLimit ::
  "server \<Rightarrow> operation \<Rightarrow> plan \<Rightarrow> bytes option \<Rightarrow> goerr + int \<times> operation" where
  "checkInputLimit s op p input =
     bind_res (plan_size p (op_input op)) (\<lambda>n.
       if srv_conn s \<noteq> None \<and> op_input op - controlWireOverhead < n then Inl (Sentinel ErrInputLimit)
       else
         let total = (if srv_conn s \<noteq> None then n + controlWireOverhead else n);
             len = (case input of None \<Rightarrow> 0 | Some b \<Rightarrow> int (length b))
         in if op_input op - total < len then Inl (Sentinel ErrInputLimit)
            else Inr (total, op\<lparr>op_input := op_input op - (total + len)\<rparr>))"

definition resolveGuard :: "server \<Rightarrow> plan \<Rightarrow> guard option \<Rightarrow> guard option \<times> plan" where
  "resolveGuard s p g0 =
     (let g = (case (srv_bound s, g0) of (Some i, None) \<Rightarrow> Some (newGuard i) | _ \<Rightarrow> g0)
      in (g, case g of Some gd \<Rightarrow> guard_wrap gd p | None \<Rightarrow> p))"

definition dispatchPlan ::
  "call_env \<Rightarrow> server \<Rightarrow> operation \<Rightarrow> plan \<Rightarrow> int \<Rightarrow> bytes option \<Rightarrow> (result \<times> goerr option) \<times> operation" where
  "dispatchPlan env s op p n input =
     (if srv_conn s \<noteq> None then
        if input \<noteq> None
        then ((failedResult, Some (unsupportedControl ''stdin over control'' (Sentinel ErrTransportUnsupported))), op)
        else let (r, err) = ce_control env op p n
             in ((r, err), op\<lparr>op_output := op_output op - int (length (res_stdout r)),
                               op_stderr := op_stderr op - int (length (res_stderr r))\<rparr>)
      else (case plan_argv p of
          Inl e \<Rightarrow> ((failedResult, Some e), op)
        | Inr args \<Rightarrow> executeProcess env op (baseArgs s (pl_allowStart p) @ args) input))"

definition execute ::
  "call_env \<Rightarrow> server \<Rightarrow> operation \<Rightarrow> plan \<Rightarrow> guard option \<Rightarrow> bytes option \<Rightarrow>
   (result \<times> goerr option) \<times> operation" where
  "execute env s op p0 g0 input =
     (let cmdName = planName p0;
          failed = (\<lambda>e. (failedResult, Some (CommandError cmdName failedResult notSentOutcome
                           (contextSource (ce_caller_done env) (Some e)) e)))
      in case ce_ctx_before env of Some e \<Rightarrow> (failed e, op) | None \<Rightarrow>
        (case ce_lifetime_exec env of Some e \<Rightarrow> (failed e, op) | None \<Rightarrow>
          let (g, p) = resolveGuard s p0 g0 in
          (case checkInputLimit s op p input of Inl e \<Rightarrow> (failed e, op) | Inr (n, op1) \<Rightarrow>
            let ((r0, err0), op2) = dispatchPlan env s op1 p n input;
                (r, err) = (case g of Some gd \<Rightarrow> unwrap gd r0 err0 | None \<Rightarrow> (r0, err0))
            in case err of
                 Some e \<Rightarrow> ((r, Some (with_command (set_command cmdName) e)), op2)
               | None \<Rightarrow>
                   (case ce_ctx_after env of
                      Some e \<Rightarrow> ((r, Some (CommandError cmdName r (plainOutcome EffectConfirmed)
                                   (contextSource (ce_caller_done env) (Some e)) e)), op2)
                    | None \<Rightarrow> ((r, None), op2)))))"

subsection \<open>Raw commands\<close>

definition not_run :: "bytes \<Rightarrow> goerr \<Rightarrow> result \<times> goerr option" where
  "not_run name e = (failedResult, Some (CommandError name failedResult notSentOutcome TimeoutSourceNone e))"

text \<open>The checks that the four methods share, and the operation they begin.\<close>

definition begin_raw :: "call_env \<Rightarrow> server option \<Rightarrow> goerr + server \<times> operation" where
  "begin_raw env so =
     (case so of
        None \<Rightarrow> Inl (Sentinel ErrInvalidHandle)
      | Some s \<Rightarrow>
          if \<not> srv_runner s then Inl (Sentinel ErrInvalidHandle)
          else if srv_conn s \<noteq> None
            then Inl (unsupportedControl ''raw execution over control transport'' (Sentinel ErrTransportUnsupported))
          else begin_op env so)"

definition Run :: "call_env \<Rightarrow> server option \<Rightarrow> command \<Rightarrow> result \<times> goerr option" where
  "Run env so c =
     (case begin_raw env so of
        Inl e \<Rightarrow> not_run (cmd_name c) e
      | Inr (s, op) \<Rightarrow>
          if \<not> command_Valid c then not_run (cmd_name c) (invalid ''command'')
          else fst (execute env s op (plainPlan c) None None))"

definition empty_result :: result where
  "empty_result = \<lparr>res_stdout = [], res_stderr = [], exit_code = - 1\<rparr>"

definition RunSequence :: "call_env \<Rightarrow> server option \<Rightarrow> command list \<Rightarrow> result \<times> goerr option" where
  "RunSequence env so commands =
     (case begin_raw env so of
        Inl e \<Rightarrow> not_run ''sequence'' e
      | Inr (s, op) \<Rightarrow>
          if commands = [] then (empty_result, None)
          else if \<not> list_all command_Valid commands then not_run ''sequence'' (invalid ''command'')
          else fst (execute env s op
            \<lparr>pl_nodes = sequence_nodes commands, pl_mode = replyRaw,
             pl_allowStart = list_ex (\<lambda>c. commandStartsServer (cmd_name c)) commands\<rparr> None None))"

record run_options =
  ro_Start :: nat
  ro_Input :: "bytes option"

definition rawAllowStart :: "server \<Rightarrow> nat \<Rightarrow> goerr + bool" where
  "rawAllowStart s start =
     (if 1 < start then Inl (invalid ''start policy'')
      else if srv_bound s \<noteq> None then Inr False
      else Inr (start = 0))"

definition RunWith :: "call_env \<Rightarrow> server option \<Rightarrow> command \<Rightarrow> run_options \<Rightarrow> result \<times> goerr option" where
  "RunWith env so c opts =
     (case begin_raw env so of
        Inl e \<Rightarrow> not_run (cmd_name c) e
      | Inr (s, op) \<Rightarrow>
          if \<not> command_Valid c then not_run (cmd_name c) (invalid ''command'')
          else (case rawAllowStart s (ro_Start opts) of
              Inl e \<Rightarrow> not_run (cmd_name c) e
            | Inr allow \<Rightarrow> fst (execute env s op
                \<lparr>pl_nodes = [leaf c], pl_mode = replyRaw, pl_allowStart = allow\<rparr> None (ro_Input opts))))"

definition RunSequenceWith ::
  "call_env \<Rightarrow> server option \<Rightarrow> command list \<Rightarrow> run_options \<Rightarrow> result \<times> goerr option" where
  "RunSequenceWith env so commands opts =
     (case begin_raw env so of
        Inl e \<Rightarrow> not_run ''sequence'' e
      | Inr (s, op) \<Rightarrow>
          if commands = [] then (empty_result, None)
          else (case rawAllowStart s (ro_Start opts) of
              Inl e \<Rightarrow> not_run ''sequence'' e
            | Inr allow \<Rightarrow>
                if \<not> list_all command_Valid commands then not_run ''sequence'' (invalid ''command'')
                else fst (execute env s op
                  \<lparr>pl_nodes = sequence_nodes commands, pl_mode = replyRaw, pl_allowStart = allow\<rparr>
                  None (ro_Input opts))))"

subsection \<open>Nothing is lost silently\<close>

lemma buffer_write_prefix:
  assumes "bf_bytes b = take (nat (bf_limit b)) all" and "bf_overflowed b \<longleftrightarrow> bf_limit b < int (length all)"
    and "0 \<le> bf_limit b" and "buffer_write p b = (b', over)"
  shows "bf_bytes b' = take (nat (bf_limit b)) (all @ p)"
    and "bf_overflowed b' \<longleftrightarrow> bf_limit b < int (length (all @ p))"
    and "bf_limit b' = bf_limit b"
    and "over \<longleftrightarrow> \<not> bf_overflowed b \<and> bf_overflowed b'"
proof -
  have l: "int (length (bf_bytes b)) = min (bf_limit b) (int (length all))"
    using assms(1,3) by (auto simp: min_def nat_le_iff le_nat_iff not_le)
  show "bf_limit b' = bf_limit b" "bf_overflowed b' \<longleftrightarrow> bf_limit b < int (length (all @ p))"
    "over \<longleftrightarrow> \<not> bf_overflowed b \<and> bf_overflowed b'"
    using assms(2,4) l by (auto simp: buffer_write_def Let_def min_def split: if_splits)
  have k: "nat (bf_limit b - min (bf_limit b) (int (length all))) = nat (bf_limit b) - length all"
    by (simp add: min_def nat_diff_distrib')
  have "bf_bytes b' = bf_bytes b @ take (nat (bf_limit b - int (length (bf_bytes b)))) p"
  proof -
    let ?left = "bf_limit b - int (length (bf_bytes b))" and ?n = "int (length p)"
    have "bf_bytes b' = (if 0 < (if ?left < ?n then max ?left 0 else ?n)
        then bf_bytes b @ take (nat (if ?left < ?n then max ?left 0 else ?n)) p else bf_bytes b)"
      using assms(4) by (simp add: buffer_write_def Let_def split: if_splits) auto
    then show ?thesis by (cases "?left < ?n"; cases "?left \<le> 0"; cases p) auto
  qed
  also have "\<dots> = take (nat (bf_limit b)) all @ take (nat (bf_limit b) - length all) p"
    unfolding l k assms(1) [symmetric] ..
  finally show "bf_bytes b' = take (nat (bf_limit b)) (all @ p)" by simp
qed

lemma buffer_writes_prefix:
  "bf_bytes b = take (nat (bf_limit b)) all \<Longrightarrow> (bf_overflowed b \<longleftrightarrow> bf_limit b < int (length all)) \<Longrightarrow>
   0 \<le> bf_limit b \<Longrightarrow> buffer_writes ps b = (b', n) \<Longrightarrow>
   bf_bytes b' = take (nat (bf_limit b)) (all @ concat ps) \<and>
   (bf_overflowed b' \<longleftrightarrow> bf_limit b < int (length (all @ concat ps))) \<and>
   n = (if \<not> bf_overflowed b \<and> bf_overflowed b' then 1 else 0)"
proof (induction ps arbitrary: b all n)
  case (Cons p ps)
  obtain b1 over where w: "buffer_write p b = (b1, over)" by fastforce
  obtain n1 where r: "buffer_writes ps b1 = (b', n1)" "n = (if over then 1 else 0) + n1"
    using Cons.prems(4) w by (auto split: prod.splits)
  note s = buffer_write_prefix [OF Cons.prems(1-3) w]
  have "bf_bytes b' = take (nat (bf_limit b1)) ((all @ p) @ concat ps) \<and>
      (bf_overflowed b' \<longleftrightarrow> bf_limit b1 < int (length ((all @ p) @ concat ps))) \<and>
      n1 = (if \<not> bf_overflowed b1 \<and> bf_overflowed b' then 1 else 0)"
    using s Cons.prems(3) by (intro Cons.IH r(1)) simp_all
  with s r(2) Cons.prems(2) show ?case by auto
qed auto

lemma newBuffer_writes:
  assumes "0 \<le> limit" and "buffer_writes ps (newBuffer limit) = (b, n)"
  shows "bf_bytes b = take (nat limit) (concat ps)" "0 < n \<longleftrightarrow> limit < int (length (concat ps))"
  using buffer_writes_prefix [of "newBuffer limit" "[]" ps b n] assms by (auto simp: newBuffer_def)

definition proc_starts :: "process_run \<Rightarrow> bool" where
  "proc_starts pr \<longleftrightarrow> pr_slot pr = None \<and> pr_ctx pr = None \<and> pr_open pr = None \<and> pr_start pr = None"

lemma join2_None [simp]: "join2 a b = None \<longleftrightarrow> a = None \<and> b = None"
  by (simp add: join2_def)

lemma join2_None_None [simp]: "join2 None None = None"
  by simp

lemma runner_run_ok_started: "runner_run pr outMax errMax = (r, started, None) \<Longrightarrow> proc_starts pr"
  by (auto simp: runner_run_def proc_starts_def Let_def split: option.splits prod.splits if_splits)

lemma runner_run_started: "fst (snd (runner_run pr outMax errMax)) \<longleftrightarrow> proc_starts pr"
  by (simp add: runner_run_def proc_starts_def Let_def split: option.splits prod.splits)

text \<open>C8: The output of a process is never cut silently: what is kept is a prefix of what the process
  wrote, no longer than its limit, and when \<open>run\<close> reports no error the process ran and every byte of
  both streams is there.\<close>

theorem runner_run_complete:
  assumes "runner_run pr outMax errMax = (r, started, err)" and "0 \<le> outMax" and "0 \<le> errMax"
  shows "(\<exists>rest. started \<longrightarrow> concat (pr_stdout pr) = res_stdout r @ rest) \<and>
    int (length (res_stdout r)) \<le> outMax \<and> int (length (res_stderr r)) \<le> errMax \<and>
    (err = None \<longrightarrow> started \<and> res_stdout r = concat (pr_stdout pr) \<and> res_stderr r = concat (pr_stderr pr))"
proof (cases "pr_slot pr = None \<and> pr_ctx pr = None")
  case False
  then obtain e where "runner_run pr outMax errMax = (failedResult, False, Some e)"
    by (cases "pr_slot pr"; cases "pr_ctx pr") (simp_all add: runner_run_def)
  with assms(1) have "r = failedResult" "\<not> started" "err = Some e" by simp_all
  with assms(2,3) show ?thesis by (simp add: failedResult_def)
next
  case True
  let ?go = "pr_open pr = None \<and> pr_start pr = None"
  obtain out n where o: "buffer_writes (if ?go then pr_stdout pr else []) (newBuffer outMax) = (out, n)" by fastforce
  obtain er m where e: "buffer_writes (if ?go then pr_stderr pr else []) (newBuffer errMax) = (er, m)" by fastforce
  note O = newBuffer_writes [OF assms(2) o] and E = newBuffer_writes [OF assms(3) e]
  have r: "res_stdout r = bf_bytes out" "res_stderr r = bf_bytes er" "started \<longleftrightarrow> ?go"
    using assms(1) True o e by (auto simp: runner_run_def Let_def)
  have fin: "n = 0 \<and> m = 0 \<and> ?go" if "err = None"
    using assms(1) True o e that
    by (auto simp: runner_run_def Let_def split: if_splits option.splits)
  have "concat (pr_stdout pr) = res_stdout r @ drop (nat outMax) (concat (pr_stdout pr))" if started
    using r O(1) that by simp
  moreover have "int (length (res_stdout r)) \<le> outMax" "int (length (res_stderr r)) \<le> errMax"
    using r O(1) E(1) assms(2,3) by simp_all
  moreover have "started \<and> res_stdout r = concat (pr_stdout pr) \<and> res_stderr r = concat (pr_stderr pr)"
    if "err = None"
    using fin [OF that] r O E by simp
  ultimately show ?thesis by blast
qed

definition quiet_run :: process_run where
  "quiet_run = \<lparr>pr_slot = None, pr_ctx = None, pr_open = None, pr_start = None,
     pr_stdout = [''ab'', ''c''], pr_stderr = [], pr_wait = None, pr_drain = None, pr_exit = Some 0, pr_cause = None\<rparr>"

lemma runner_run_complete_witness:
  "(case runner_run quiet_run 2 0 of (r, started, err) \<Rightarrow> res_stdout r = ''ab'' \<and> err \<noteq> None) \<and>
   (case runner_run quiet_run 3 0 of (r, started, err) \<Rightarrow> err = None \<and> res_stdout r = ''abc'')"
proof -
  obtain r2 s2 e2 where 2: "runner_run quiet_run 2 0 = (r2, s2, e2)" by (metis prod.exhaust)
  obtain r3 s3 e3 where 3: "runner_run quiet_run 3 0 = (r3, s3, e3)" by (metis prod.exhaust)
  have j: "join2 None (Some e) = Some (JoinErr [e])" "join2 (Some x) (Some e) = Some (JoinErr [x, e])" for e x
    by (simp_all add: join2_def join_errs_def)
  have "e3 = None" using 3 by (auto simp: runner_run_def quiet_run_def newBuffer_def buffer_write_def Let_def)
  moreover have "res_stdout r2 = ''ab'' \<and> e2 \<noteq> None"
    using 2 by (auto simp: runner_run_def quiet_run_def newBuffer_def buffer_write_def Let_def j split: if_splits)
  ultimately show ?thesis
    using 2 3 runner_run_complete [OF 3] by (simp add: quiet_run_def)
qed

subsection \<open>The budget of an operation\<close>

lemma checkInputLimit_exact:
  assumes "0 \<le> op_input op"
  shows "checkInputLimit s op p input = Inr (used, op') \<longleftrightarrow>
    (\<exists>t. plan_text p = Inr t \<and>
       used = int (length t) + (if srv_conn s \<noteq> None then controlWireOverhead else 0) \<and>
       op' = op\<lparr>op_input := op_input op - used - (case input of None \<Rightarrow> 0 | Some b \<Rightarrow> int (length b))\<rparr> \<and>
       0 \<le> op_input op')"
proof (cases "plan_text p")
  case (Inl e)
  then have "plan_size p (op_input op) = Inl (Sentinel ErrInputLimit)" by (simp add: plan_size_eq [OF assms])
  with Inl show ?thesis by (simp add: checkInputLimit_def)
next
  case (Inr t)
  let ?len = "case input of None \<Rightarrow> 0 | Some b \<Rightarrow> int (length b)"
  have len: "0 \<le> ?len" by (simp split: option.split)
  have "plan_size p (op_input op) =
      (if int (length t) \<le> op_input op then Inr (int (length t)) else Inl (Sentinel ErrInputLimit))"
    by (simp add: plan_size_eq [OF assms] Inr)
  then have "checkInputLimit s op p input =
      (let n = int (length t) + (if srv_conn s \<noteq> None then controlWireOverhead else 0) in
       if op_input op < n + ?len then Inl (Sentinel ErrInputLimit)
       else Inr (n, op\<lparr>op_input := op_input op - n - ?len\<rparr>))"
    using len by (auto simp: checkInputLimit_def Let_def controlWireOverhead_def)
  with Inr show ?thesis by (auto simp: Let_def)
qed

text \<open>The input budget of an operation is charged exactly: a plan is admitted when its text, the
  fixed overhead on a control connection and the standard input fit into what is left, the budget is
  reduced by exactly these bytes, and it never becomes negative.\<close>

theorem checkInputLimit_charges:
  assumes "0 \<le> op_input op"
  shows "(\<exists>total op'. checkInputLimit s op p input = Inr (total, op') \<and> 0 \<le> op_input op' \<and>
      op_input op' = op_input op - total - int (length (case input of None \<Rightarrow> [] | Some b \<Rightarrow> b))) \<longleftrightarrow>
    (\<exists>t. plan_text p = Inr t \<and>
      int (length t) + (if srv_conn s \<noteq> None then 128 else 0) +
      int (length (case input of None \<Rightarrow> [] | Some b \<Rightarrow> b)) \<le> op_input op)"
  unfolding checkInputLimit_exact [OF assms]
  by (cases input) (auto simp: controlWireOverhead_def)

lemma checkInputLimit_charges_witness:
  "\<exists>total op'. checkInputLimit \<lparr>srv_config = zero_config, srv_endpoint = zero_endpoint, srv_runner = True,
       srv_conn = None, srv_bound = None, srv_lifetime = None\<rparr> \<lparr>op_output = 0, op_stderr = 0, op_input = 5\<rparr>
       (plainPlan \<lparr>cmd_name = ''ls'', cmd_args = []\<rparr>) (Some ''ab'') = Inr (total, op') \<and> 0 \<le> op_input op'"
proof -
  have "plan_text (plainPlan \<lparr>cmd_name = ''ls'', cmd_args = []\<rparr>) = Inr (''ls'' @ [LF])"
    by (simp add: plan_text_iff plainPlan_def leaf_def ValidCommand_def isLetter_def isCommandChar_def)
  with checkInputLimit_charges [of "\<lparr>op_output = 0, op_stderr = 0, op_input = 5\<rparr>"
      "\<lparr>srv_config = zero_config, srv_endpoint = zero_endpoint, srv_runner = True, srv_conn = None, srv_bound = None, srv_lifetime = None\<rparr>"
      "plainPlan \<lparr>cmd_name = ''ls'', cmd_args = []\<rparr>" "Some ''ab''"]
  show ?thesis by auto
qed

subsection \<open>The effect that an error reports\<close>

text \<open>Whether \<open>execute\<close> gets as far as starting the process.\<close>

definition starts_process :: "call_env \<Rightarrow> server \<Rightarrow> operation \<Rightarrow> plan \<Rightarrow> bytes option \<Rightarrow> bool" where
  "starts_process env s op p input \<longleftrightarrow>
     ce_ctx_before env = None \<and> ce_lifetime_exec env = None \<and>
     (\<exists>n op' args. checkInputLimit s op p input = Inr (n, op') \<and> plan_argv p = Inr args \<and>
        proc_starts (ce_process env (baseArgs s (pl_allowStart p) @ args) input))"

lemma plan_argv_total:
  assumes "0 \<le> op_input op" and "checkInputLimit s op p input = Inr (n, op')"
  obtains args where "plan_argv p = Inr args"
proof -
  have "valid_nodes (pl_nodes p)" using assms by (auto simp: checkInputLimit_exact plan_text_iff)
  then show thesis using that argv_from_eq by (auto simp: plan_argv_def)
qed

lemma executeProcess_error:
  assumes "executeProcess env op args input = ((r, err), op')"
  shows "err = None \<Longrightarrow> proc_starts (ce_process env args input)"
    and "err = Some e \<Longrightarrow> \<exists>t e0. e = CommandError ''process'' r (plainOutcome
      (if proc_starts (ce_process env args input) then EffectUnknown else EffectNotSent)) t e0"
proof -
  obtain r' st er where run: "runner_run (ce_process env args input) (max (op_output op) 0) (max (op_stderr op) 0) = (r', st, er)"
    by (metis prod.exhaust)
  then have st: "st \<longleftrightarrow> proc_starts (ce_process env args input)" using runner_run_started by (metis fst_conv snd_conv)
  show "proc_starts (ce_process env args input)" if "err = None"
    using assms run that by (cases er) (auto simp: executeProcess_def Let_def intro: runner_run_ok_started)
  assume "err = Some e"
  with st show "\<exists>t e0. e = CommandError ''process'' r (plainOutcome
      (if proc_starts (ce_process env args input) then EffectUnknown else EffectNotSent)) t e0"
    using assms run by (cases er) (auto simp: executeProcess_def Let_def)
qed


definition quiet_env :: "process_run \<Rightarrow> call_env" where
  "quiet_env pr = \<lparr>ce_platform_ok = True, ce_caller_done = False, ce_lifetime_check = None, ce_lifetime_begin = None,
     ce_lifetime_exec = None, ce_ctx_before = None, ce_ctx_after = None,
     ce_process = (\<lambda>args input. pr), ce_control = (\<lambda>op p n. (failedResult, None))\<rparr>"

definition plain_server :: server where
  "plain_server = \<lparr>srv_config = zero_config\<lparr>cfg_Limits := DefaultLimits\<rparr>, srv_endpoint = zero_endpoint,
     srv_runner = True, srv_conn = None, srv_bound = None, srv_lifetime = None\<rparr>"


end
