(* ===== verification/Control_Dispatch.thy ===== *)
theory Control_Dispatch
  imports Execute Control_Codec
begin

text \<open>
  \<open>tmux/control_dispatch.go\<close>, the sequential parts: the text that is written for a request, the
  frames that are collected as its answer, and the reply that is delivered. The channels that
  \<open>collectRequest\<close> selects from are the list of what it receives, in the order it receives it.
\<close>

subsection \<open>Collecting frames\<close>

definition libraryOutput :: "controlFrame \<Rightarrow> bool" where
  "libraryOutput f \<longleftrightarrow> has_prefix (fr_data f) ''TGO-GUARD-1:'' \<or> has_prefix (fr_data f) ''TGO1:''"

text \<open>The bytes after the append, and whether all of them fitted.\<close>

definition appendFrameData :: "bytes \<Rightarrow> bytes \<Rightarrow> int \<Rightarrow> bytes \<times> bool" where
  "appendFrameData dst data limit =
     (let left = limit - int (length dst) in
      if left < int (length data)
      then (if 0 < left then dst @ take (nat left) data else dst, False)
      else (dst @ data, True))"

text \<open>Whether the request is complete, the result and the failure after a frame.\<close>

definition handleCollectFrame ::
  "controlFrame \<Rightarrow> bytes \<Rightarrow> bool \<Rightarrow> int \<Rightarrow> int \<Rightarrow> result \<times> goerr option \<Rightarrow> bool \<times> result \<times> goerr option" where
  "handleCollectFrame f nonce startup outLimit errLimit st =
     (case st of (r, failure) \<Rightarrow>
       if fr_data f = nonce \<and> \<not> fr_failed f then (True, r, failure)
       else if fid_flags (fr_id f) = 0 \<and> \<not> libraryOutput f \<and> (fr_data f = [] \<or> \<not> fr_failed f)
         then (False, r, failure)
       else if fid_flags (fr_id f) = 0 \<and> \<not> libraryOutput f \<and> \<not> startup
         then (False, r, join2 failure (Some (Sentinel ErrProtocol)))
       else if fr_failed f then
         (let (d, ok) = appendFrameData (res_stderr r) (fr_data f) errLimit;
              failure' = (if ok then failure else join2 failure (Some (Sentinel ErrOutputLimit)))
          in (False, r\<lparr>res_stderr := d\<rparr>,
              join_errs [failure', Some (Sentinel ErrControlCommandFailed), classifyStderr (fr_data f)]))
       else
         (let (d, ok) = appendFrameData (res_stdout r) (fr_data f) outLimit
          in (False, r\<lparr>res_stdout := d\<rparr>,
              if ok then failure else join2 failure (Some (Sentinel ErrOutputLimit)))))"

text \<open>What the loop receives: the connection stopped (with its closed error), the caller is done, the
  drain timer that is started then, or a frame. The loop still waits when the list is used up.\<close>

datatype collect_input = ConnStopped "goerr option" | CallerDone | DrainTimeout | FrameArrived controlFrame

fun collectRequest ::
  "bytes \<Rightarrow> int \<Rightarrow> int \<Rightarrow> bool \<Rightarrow> collect_input list \<Rightarrow> result \<times> goerr option \<Rightarrow> (result \<times> goerr option) option" where
  "collectRequest nonce outLimit errLimit startup [] st = None"
| "collectRequest nonce outLimit errLimit startup (ConnStopped closed # xs) (r, failure) =
     Some (r, join2 failure closed)"
| "collectRequest nonce outLimit errLimit startup (CallerDone # xs) (r, failure) =
     collectRequest nonce outLimit errLimit startup xs (r, join2 failure (Some (Sentinel ContextCanceled)))"
| "collectRequest nonce outLimit errLimit startup (DrainTimeout # xs) (r, failure) =
     Some (r, join_errs [failure, Some (Sentinel ErrProtocol), Some (Sentinel ErrShutdownIncomplete)])"
| "collectRequest nonce outLimit errLimit startup (FrameArrived f # xs) st =
     (case handleCollectFrame f nonce startup outLimit errLimit st of
        (True, st') \<Rightarrow> Some st'
      | (False, st') \<Rightarrow> collectRequest nonce outLimit errLimit startup xs st')"

definition collect_start :: "result \<times> goerr option" where
  "collect_start = (\<lparr>res_stdout = [], res_stderr = [], exit_code = - 1\<rparr>, None)"

subsection \<open>The text of a request\<close>

text \<open>\<open>token\<close> on sixteen random bytes.\<close>

definition hex_digit :: "nat \<Rightarrow> byte" where
  "hex_digit n = (if n < 10 then char_of (48 + n) else char_of (87 + n))"

definition hex_encode :: "bytes \<Rightarrow> bytes" where
  "hex_encode bs = concat (map (\<lambda>b. [hex_digit (code b div 16), hex_digit (code b mod 16)]) bs)"

definition token :: "bytes \<Rightarrow> goerr + bytes \<Rightarrow> goerr + bytes" where
  "token prefix random =
     (case random of
        Inl e \<Rightarrow> Inl (Wrapf ''generate token'' e)
      | Inr b \<Rightarrow> Inr (prefix @ hex_encode b @ [LF]))"

definition plan_text_or_empty :: "plan \<Rightarrow> bytes" where
  "plan_text_or_empty p = (case plan_text p of Inr t \<Rightarrow> t | Inl _ \<Rightarrow> [])"

definition buildRequestWire :: "plan \<Rightarrow> int \<Rightarrow> goerr + bytes \<Rightarrow> goerr + bytes \<times> bytes" where
  "buildRequestWire p budget random =
     bind_res (plan_text p) (\<lambda>text'.
     bind_res (token ''TGO-DONE:'' random) (\<lambda>nonce.
       let suffix = plan_text_or_empty (emptyPlan \<lparr>cmd_name = ''display-message'', cmd_args = [''-p'', trim_suffix nonce [LF]]\<rparr>)
       in if budget < int (length text' + length suffix) then Inl (Sentinel ErrInputLimit)
          else Inr (text' @ suffix, nonce)))"

subsection \<open>Replies\<close>

type_synonym reply = "result \<times> goerr option"

definition deliver_reply :: "plan \<Rightarrow> result \<Rightarrow> goerr option \<Rightarrow> effect \<Rightarrow> reply" where
  "deliver_reply p r err eff =
     (r, case err of
           None \<Rightarrow> None
         | Some e \<Rightarrow> Some (CommandError (planName p) r (plainOutcome eff) TimeoutSourceNone e))"

text \<open>The reply of \<open>Connection.run\<close> and \<open>abortRequest\<close> when no answer was received.\<close>

definition abort_reply :: "plan \<Rightarrow> effect \<Rightarrow> timeout_source \<Rightarrow> goerr \<Rightarrow> reply" where
  "abort_reply p eff timeout e =
     (failedResult, Some (CommandError (planName p) failedResult (plainOutcome eff) timeout e))"

text \<open>The effect that a reply reports.\<close>

definition reply_effect :: "reply \<Rightarrow> effect" where
  "reply_effect x = (case snd x of None \<Rightarrow> EffectConfirmed | Some e \<Rightarrow> oc_effect (error_outcome e))"

lemma reply_effect_simps [simp]:
  "reply_effect (r, None) = EffectConfirmed"
  "reply_effect (abort_reply p eff t e) = eff"
  "reply_effect (deliver_reply p r (Some e) eff) = eff"
  "reply_effect (deliver_reply p r None eff) = EffectConfirmed"
  by (simp_all add: reply_effect_def abort_reply_def deliver_reply_def)

text \<open>The first checks of \<open>Connection.run\<close>: what is refused before anything is acquired.\<close>

definition run_refusal :: "plan \<Rightarrow> int \<Rightarrow> int \<Rightarrow> bool \<Rightarrow> reply option" where
  "run_refusal p n queuedBytes callerDone =
     (let failed = (\<lambda>e. Some (abort_reply p EffectNotSent (contextSource callerDone (Some e)) e)) in
      if pl_mode p = replyRaw then
        failed (unsupportedControl ''ambiguous raw/control output; explicitly use subprocess transport''
          (Sentinel ErrTransportUnsupported))
      else if queuedBytes < n then failed (Sentinel ErrResourceLimit)
      else None)"

subsection \<open>The budget covers the marker\<close>

lemma hex_digit_code:
  "n < 16 \<Longrightarrow> code (hex_digit n) = (if n < 10 then 48 + n else 87 + n)"
  by (simp add: hex_digit_def)

lemma hex_digit_graphic: "n < 16 \<Longrightarrow> graphic (hex_digit n)"
  by (simp add: graphic_def hex_digit_code)

lemma hex_digit_not_dquote:
  assumes "n < 16"
  shows "hex_digit n \<noteq> CHR 0x22"
proof
  assume "hex_digit n = CHR 0x22"
  then have "code (hex_digit n) = 34"
    by simp
  with assms show False
    by (simp add: hex_digit_code split: if_splits)
qed

lemma hex_encode_safe: "c \<in> set (hex_encode bs) \<Longrightarrow> isSafeQuoteByte c"
proof -
  assume "c \<in> set (hex_encode bs)"
  then obtain b where "c = hex_digit (code b div 16) \<or> c = hex_digit (code b mod 16)"
    by (auto simp: hex_encode_def)
  moreover have "code b div 16 < 16" "code b mod 16 < 16"
    by (auto intro: less_mult_imp_div_less)
  ultimately obtain n where "n < 16" "c = hex_digit n"
    by blast
  then show ?thesis
    by (auto simp: isSafeQuoteByte_code hex_digit_code)
qed

lemma length_hex_encode [simp]: "length (hex_encode bs) = 2 * length bs"
  by (induction bs) (simp_all add: hex_encode_def)

text \<open>The request that asks for the marker.\<close>

definition marker :: "bytes \<Rightarrow> bytes" where
  "marker random = ''TGO-DONE:'' @ hex_encode random"

definition marker_command :: "bytes \<Rightarrow> command" where
  "marker_command random = \<lparr>cmd_name = ''display-message'', cmd_args = [''-p'', marker random]\<rparr>"

lemma marker_safe: "list_all isSafeQuoteByte (marker random)"
  by (auto simp: marker_def list_all_iff isSafeQuoteByte_code dest: hex_encode_safe)

lemma marker_valid: "ValidString (marker random)"
  using marker_safe [of random] printable_valid [of "marker random"]
  by (auto simp: list_all_iff intro: printable_safe)

lemma marker_nodes_valid: "valid_nodes (pl_nodes (emptyPlan (marker_command random)))"
  using marker_valid
  by (simp add: emptyPlan_def plainPlan_def leaf_def marker_command_def ValidCommand_def isLetter_def
      isCommandChar_def ValidString_iff byte_defs)

lemma marker_command_text:
  "plan_text (emptyPlan (marker_command random)) =
     Inr (''display-message '' @ render_word ''-p'' @ '' '' @ render_word (marker random) @ [LF])"
  using marker_nodes_valid [of random]
  by (simp add: plan_text_iff) (simp add: emptyPlan_def plainPlan_def leaf_def marker_command_def)

lemma length_render_word: "list_all isSafeQuoteByte s \<Longrightarrow> length (render_word s) = length s + 2"
  by (simp add: render_word_def quote_bytes_safe)

lemma length_marker: "length (marker random) = 9 + 2 * length random"
  by (simp add: marker_def)

lemma marker_command_length:
  assumes "plan_text (emptyPlan (marker_command random)) = Inr t"
  shows "length t = 33 + 2 * length random"
proof -
  have "length (render_word ''-p'') = 4"
    by (subst length_render_word) (simp_all add: isSafeQuoteByte_code)
  with assms show ?thesis
    by (auto simp: marker_command_text length_render_word marker_safe length_marker)
qed

lemma token_marker: "token ''TGO-DONE:'' (Inr random) = Inr (marker random @ [LF])"
  by (simp add: token_def marker_def)

text \<open>The text that is written for a request always fits the budget that was reserved for it: for a
  plan whose size was checked against any limit, the size and the fixed overhead that the executor adds
  cover the plan's own line and the line that asks for the completion marker. The dispatcher's check
  therefore never refuses an admitted request, and it writes exactly these two lines, of which the second
  reads back as one display-message command with the marker that ends the answer.\<close>

theorem request_fits_its_budget:
  assumes "plan_size p limit = Inr n" and "0 \<le> limit" and "length random = 16"
  shows "\<exists>t m. plan_text p = Inr t \<and>
     buildRequestWire p (n + controlWireOverhead) (Inr random) = Inr (t @ m @ [LF], marker random @ [LF]) \<and>
     int (length (t @ m @ [LF])) \<le> n + controlWireOverhead \<and>
     ParseSequence m = Inr [marker_command random]"
proof -
  obtain t where t: "plan_text p = Inr t" "n = int (length t)"
    using assms(1,2) by (auto simp: plan_size_eq split: sum.splits if_splits)
  let ?p = "emptyPlan (marker_command random)" and ?m = "render_nodes 0 (pl_nodes (emptyPlan (marker_command random)))"
  note v = marker_nodes_valid [of random]
  then have m: "plan_text ?p = Inr (?m @ [LF])"
    by (simp add: plan_text_iff)
  then have len: "length (?m @ [LF]) = 65"
    using marker_command_length [OF m] assms(3) by simp
  have "ParseSequence ?m = Inr [marker_command random]"
    using ParseSequence_render [OF v]
    by (simp add: emptyPlan_def plainPlan_def leaf_def command_of_def marker_command_def del: render_nodes.simps)
  moreover have "plan_text_or_empty ?p = ?m @ [LF]"
    using m by (simp add: plan_text_or_empty_def)
  moreover have "buildRequestWire p (n + controlWireOverhead) (Inr random) = Inr (t @ ?m @ [LF], marker random @ [LF])"
    using t m len calculation(2)
    by (simp add: buildRequestWire_def token_marker controlWireOverhead_def flip: marker_command_def
        del: render_nodes.simps)
  ultimately show ?thesis
    using t len by (auto simp: controlWireOverhead_def simp del: render_nodes.simps)
qed

lemma request_fits_its_budget_witness:
  "\<exists>m. buildRequestWire (plainPlan \<lparr>cmd_name = ''ls'', cmd_args = []\<rparr>) 131 (Inr (replicate 16 (CHR ''0''))) =
     Inr (''ls'' @ [LF] @ m @ [LF], ''TGO-DONE:30303030303030303030303030303030'' @ [LF])"
proof -
  let ?p = "plainPlan \<lparr>cmd_name = ''ls'', cmd_args = []\<rparr>" and ?r = "replicate 16 (CHR ''0'')"
  have t: "plan_text ?p = Inr (''ls'' @ [LF])"
    by (simp add: plan_text_iff plainPlan_def leaf_def ValidCommand_def isLetter_def isCommandChar_def)
  then have "plan_size ?p 100 = Inr 3"
    by (simp add: plan_size_eq)
  moreover have "hex_encode ?r = ''30303030303030303030303030303030''"
    by code_simp
  ultimately show ?thesis
    using request_fits_its_budget [of ?p 100 3 ?r] t by (auto simp: controlWireOverhead_def marker_def)
qed

subsection \<open>The answer of a request\<close>

text \<open>The frame that ends the answer, the frames of tmux itself (unflagged, without a mark of this
  library) and what they say.\<close>

definition ends_answer :: "bytes \<Rightarrow> controlFrame \<Rightarrow> bool" where
  "ends_answer nonce f \<longleftrightarrow> fr_data f = nonce \<and> \<not> fr_failed f"

definition unrelated :: "bool \<Rightarrow> controlFrame \<Rightarrow> bool" where
  "unrelated startup f \<longleftrightarrow>
     fid_flags (fr_id f) = 0 \<and> \<not> libraryOutput f \<and> (startup \<longrightarrow> fr_data f = [] \<or> \<not> fr_failed f)"

definition output_of :: "bool \<Rightarrow> controlFrame list \<Rightarrow> bytes" where
  "output_of startup fs = concat (map fr_data (filter (\<lambda>f. \<not> unrelated startup f \<and> \<not> fr_failed f) fs))"

definition errors_of :: "bool \<Rightarrow> controlFrame list \<Rightarrow> bytes" where
  "errors_of startup fs = concat (map fr_data (filter (\<lambda>f. \<not> unrelated startup f \<and> fr_failed f) fs))"

text \<open>A frame that no answer without error has.\<close>

definition reports_failure :: "bool \<Rightarrow> controlFrame \<Rightarrow> bool" where
  "reports_failure startup f \<longleftrightarrow> fr_failed f \<and> (unrelated startup f \<longrightarrow> fr_data f \<noteq> [])"

lemma appendFrameData_take:
  assumes "0 \<le> limit"
  shows "appendFrameData (take (nat limit) xs) data limit =
    (take (nat limit) (xs @ data), data = [] \<or> int (length (xs @ data)) \<le> limit)"
proof (cases "int (length xs) \<le> limit")
  case True
  then show ?thesis
    by (auto simp: appendFrameData_def Let_def nat_diff_distrib)
next
  case False
  with assms have "int (length (take (nat limit) xs)) = limit" by simp
  with False show ?thesis
    by (cases "data = []") (simp_all add: appendFrameData_def Let_def)
qed

lemma output_of_snoc:
  "output_of startup (fs @ [f]) = output_of startup fs @ (if unrelated startup f \<or> fr_failed f then [] else fr_data f)"
  "errors_of startup (fs @ [f]) = errors_of startup fs @ (if unrelated startup f \<or> \<not> fr_failed f then [] else fr_data f)"
  by (simp_all add: output_of_def errors_of_def)

text \<open>What the loop holds after the frames \<open>fs\<close>.\<close>

definition gathered ::
  "bool \<Rightarrow> int \<Rightarrow> int \<Rightarrow> controlFrame list \<Rightarrow> result \<times> goerr option \<Rightarrow> bool" where
  "gathered startup outLimit errLimit fs st \<longleftrightarrow>
     res_stdout (fst st) = take (nat outLimit) (output_of startup fs) \<and>
     res_stderr (fst st) = take (nat errLimit) (errors_of startup fs) \<and>
     exit_code (fst st) = - 1 \<and>
     (snd st = None \<longleftrightarrow>
        (\<forall>f \<in> set fs. \<not> reports_failure startup f) \<and> int (length (output_of startup fs)) \<le> outLimit)"

lemma gathered_start: "0 \<le> outLimit \<Longrightarrow> gathered startup outLimit errLimit [] collect_start"
  by (simp add: gathered_def collect_start_def output_of_def errors_of_def)

lemma handleCollectFrame_gathers:
  assumes "gathered startup outLimit errLimit fs st" "\<not> ends_answer nonce f" "0 \<le> outLimit" "0 \<le> errLimit"
  shows "\<exists>st'. handleCollectFrame f nonce startup outLimit errLimit st = (False, st') \<and>
     gathered startup outLimit errLimit (fs @ [f]) st'"
proof -
  obtain r e where st: "st = (r, e)" by (cases st)
  consider (ours) "unrelated startup f" "\<not> reports_failure startup f"
    | (stray) "unrelated startup f" "reports_failure startup f"
    | (fails) "\<not> unrelated startup f" "fr_failed f"
    | (prints) "\<not> unrelated startup f" "\<not> fr_failed f"
    by blast
  then show ?thesis
  proof cases
    case ours
    then have "handleCollectFrame f nonce startup outLimit errLimit st = (False, st)"
      using assms(2) st
      by (auto simp: handleCollectFrame_def ends_answer_def unrelated_def reports_failure_def)
    with ours assms(1) show ?thesis
      by (simp add: gathered_def output_of_snoc)
  next
    case stray
    then have "handleCollectFrame f nonce startup outLimit errLimit st =
        (False, (r, join2 e (Some (Sentinel ErrProtocol))))"
      using assms(2) st
      by (auto simp: handleCollectFrame_def ends_answer_def unrelated_def reports_failure_def)
    with stray assms(1) st show ?thesis
      by (simp add: gathered_def output_of_snoc join2_def del: not_None_eq)
  next
    case fails
    then have "reports_failure startup f"
      by (auto simp: reports_failure_def)
    have "res_stderr r = take (nat errLimit) (errors_of startup fs)"
      using assms(1) st by (simp add: gathered_def)
    moreover have "\<not> (fid_flags (fr_id f) = 0 \<and> \<not> libraryOutput f \<and> (fr_data f = [] \<or> \<not> fr_failed f))"
      "\<not> (fid_flags (fr_id f) = 0 \<and> \<not> libraryOutput f \<and> \<not> startup)"
      using fails by (auto simp: unrelated_def)
    moreover have "\<not> (fr_data f = nonce \<and> \<not> fr_failed f)"
      using fails by simp
    ultimately have "handleCollectFrame f nonce startup outLimit errLimit st =
        (False, r\<lparr>res_stderr := take (nat errLimit) (errors_of startup fs @ fr_data f)\<rparr>,
         join_errs [if fr_data f = [] \<or> int (length (errors_of startup fs @ fr_data f)) \<le> errLimit then e
           else join2 e (Some (Sentinel ErrOutputLimit)),
           Some (Sentinel ErrControlCommandFailed), classifyStderr (fr_data f)])"
      using fails(2) by (simp only: handleCollectFrame_def st appendFrameData_take [OF assms(4)] Let_def prod.case
          if_not_P if_P if_True if_False)
    with fails \<open>reports_failure startup f\<close> assms(1) st show ?thesis
      by (simp add: gathered_def output_of_snoc del: not_None_eq)
  next
    case prints
    then have "\<not> reports_failure startup f"
      by (auto simp: reports_failure_def)
    have "res_stdout r = take (nat outLimit) (output_of startup fs)"
      using assms(1) st by (simp add: gathered_def)
    moreover have "\<not> (fid_flags (fr_id f) = 0 \<and> \<not> libraryOutput f \<and> (fr_data f = [] \<or> \<not> fr_failed f))"
      "\<not> (fid_flags (fr_id f) = 0 \<and> \<not> libraryOutput f \<and> \<not> startup)"
      "\<not> (fr_data f = nonce \<and> \<not> fr_failed f)"
      using prints assms(2) by (auto simp: unrelated_def ends_answer_def)
    ultimately have "handleCollectFrame f nonce startup outLimit errLimit st =
        (False, r\<lparr>res_stdout := take (nat outLimit) (output_of startup fs @ fr_data f)\<rparr>,
         if fr_data f = [] \<or> int (length (output_of startup fs @ fr_data f)) \<le> outLimit then e
         else join2 e (Some (Sentinel ErrOutputLimit)))"
      using prints(2) by (simp only: handleCollectFrame_def st appendFrameData_take [OF assms(3)] Let_def prod.case
          if_not_P if_P if_True if_False)
    with prints \<open>\<not> reports_failure startup f\<close> assms(1) st show ?thesis
      by (auto simp: gathered_def output_of_snoc join2_def)
  qed
qed

lemma collectRequest_gathers:
  assumes "gathered startup outLimit errLimit done st" "\<forall>f \<in> set fs. \<not> ends_answer nonce f"
    and "0 \<le> outLimit" "0 \<le> errLimit"
  shows "\<exists>st'. collectRequest nonce outLimit errLimit startup (map FrameArrived fs @ xs) st =
      collectRequest nonce outLimit errLimit startup xs st' \<and>
    gathered startup outLimit errLimit (done @ fs) st'"
  using assms(1,2)
proof (induction fs arbitrary: "done" st)
  case (Cons f fs)
  obtain st1 where st1: "handleCollectFrame f nonce startup outLimit errLimit st = (False, st1)"
    "gathered startup outLimit errLimit (done @ [f]) st1"
    using handleCollectFrame_gathers [OF Cons.prems(1) _ assms(3,4), of nonce f] Cons.prems(2) by fastforce
  from Cons.IH [OF st1(2)] Cons.prems(2) st1(1) show ?case
    by (cases st) auto
qed auto

text \<open>C21: The answer of a request is its frames up to the completion marker: the output is what the
  frames of its commands hold, in order, cut at the output limit; the error text is that of the failed
  frames, cut likewise; frames of tmux itself add nothing. There is no error exactly when no frame reports
  a failure and the output fits its limit.\<close>

theorem collectRequest_answer:
  assumes "\<forall>f \<in> set fs. \<not> ends_answer nonce f" and "ends_answer nonce m"
    and "0 \<le> outLimit" and "0 \<le> errLimit"
  shows "\<exists>r e. collectRequest nonce outLimit errLimit startup (map FrameArrived (fs @ [m]) @ xs) collect_start = Some (r, e) \<and>
     res_stdout r = take (nat outLimit) (output_of startup fs) \<and>
     res_stderr r = take (nat errLimit) (errors_of startup fs) \<and>
     (e = None \<longleftrightarrow> (\<forall>f \<in> set fs. \<not> reports_failure startup f) \<and> int (length (output_of startup fs)) \<le> outLimit)"
proof -
  obtain st' where st': "collectRequest nonce outLimit errLimit startup (map FrameArrived fs @ FrameArrived m # xs) collect_start =
      collectRequest nonce outLimit errLimit startup (FrameArrived m # xs) st'"
    "gathered startup outLimit errLimit ([] @ fs) st'"
    using collectRequest_gathers [OF gathered_start [OF assms(3)] assms(1,3,4)] by blast
  obtain r e where "st' = (r, e)" by (cases st')
  moreover from this have "handleCollectFrame m nonce startup outLimit errLimit st' = (True, st')"
    using assms(2) by (simp add: handleCollectFrame_def ends_answer_def)
  ultimately show ?thesis
    using st' by (simp add: gathered_def)
qed

lemma collectRequest_answer_witness:
  "let i = \<lparr>fid_time = 1, fid_number = 1, fid_flags = 1\<rparr>;
       out = (\<lambda>d. \<lparr>fr_id = i, fr_data = d, fr_failed = False\<rparr>)
   in \<exists>r e. collectRequest ''done'' 3 9 False (map FrameArrived ([out ''ab'', out ''cd''] @ [out ''done'']) @ []) collect_start =
       Some (r, Some e) \<and> res_stdout r = ''abc''"
  using collectRequest_answer [of "[\<lparr>fr_id = \<lparr>fid_time = 1, fid_number = 1, fid_flags = 1\<rparr>, fr_data = ''ab'', fr_failed = False\<rparr>,
      \<lparr>fr_id = \<lparr>fid_time = 1, fid_number = 1, fid_flags = 1\<rparr>, fr_data = ''cd'', fr_failed = False\<rparr>]" "''done''"
      "\<lparr>fr_id = \<lparr>fid_time = 1, fid_number = 1, fid_flags = 1\<rparr>, fr_data = ''done'', fr_failed = False\<rparr>" 3 9 False "[]"]
  by (auto simp: ends_answer_def output_of_def unrelated_def Let_def)

end
