(* ===== verification/Control_Requests.thy ===== *)
theory Control_Requests
  imports Control_Dispatch
begin

text \<open>
  \<open>tmux/control_dispatch.go\<close>, the goroutines: any number of callers of \<open>Connection.run\<close>, the
  dispatcher, and whoever stops the connection. Each access to the shared state (a semaphore, the
  section under the mutex, the atomic state of a request, a channel) is one step. The channels \<open>done\<close>
  of the callers may be closed at any time; what the dispatcher reads back is any list of inputs of
  \<open>collectRequest\<close>. Semaphores are their documented behaviour: the weight in use.
\<close>

subsection \<open>Requests\<close>

datatype request_state = requestQueued | requestInFlight | requestDelivered | requestCanceled

text \<open>What a call holds of the two semaphores.\<close>

datatype holding = HoldsNone | HoldsCount | HoldsBoth

text \<open>Where a caller is: acquiring, about to enqueue, waiting for its reply, in one of the stages of
  \<open>abortRequest\<close> (the flag tells the second check from the first), or done.\<close>

datatype caller_pc =
    CStarts | CCounted | CAcquired | CWaits
  | CLoads bool timeout_source goerr | CPolls bool timeout_source goerr | CCas timeout_source goerr
  | CAwaits | CReturned reply

text \<open>A call of \<open>run\<close> with its request. The last two fields are only for the statements: whether the
  request was put on the queue, and whether the dispatcher began to write it.\<close>

record controlRequest =
  rq_plan :: plan
  rq_bytes :: int
  rq_stdout :: int
  rq_stderr :: int
  rq_callerDone :: bool
  rq_state :: request_state
  rq_result :: "reply option"
  rq_pc :: caller_pc
  rq_holds :: holding
  rq_enqueued :: bool
  rq_written :: bool

text \<open>Where the dispatcher is. After a reply it goes on, returns, or goes on draining.\<close>

datatype afterwards = GoesOn | Returns | DrainsOn

datatype dispatcher_pc =
    DStarts | DIdle | DTook nat | DOpen nat | DAlive nat | DFlight nat | DBuilt nat bytes bytes | DSent nat bytes
  | DReleases nat reply afterwards | DStores nat reply afterwards | DSends nat reply afterwards
  | DStops | DDrains | DDone

record control =
  ct_depth :: int
  ct_limit :: int
  ct_count :: int
  ct_bytes :: int
  ct_closed :: bool
  ct_terminal :: "goerr option"
  ct_requests :: "nat list"
  ct_calls :: "nat \<Rightarrow> controlRequest"
  ct_next :: nat
  ct_pc :: dispatcher_pc

definition update_call :: "nat \<Rightarrow> (controlRequest \<Rightarrow> controlRequest) \<Rightarrow> control \<Rightarrow> control" where
  "update_call i f w = w\<lparr>ct_calls := (ct_calls w)(i := f (ct_calls w i))\<rparr>"

lemma update_call_simps [simp]:
  "ct_calls (update_call i f w) j = (if j = i then f (ct_calls w i) else ct_calls w j)"
  "ct_depth (update_call i f w) = ct_depth w" "ct_limit (update_call i f w) = ct_limit w"
  "ct_count (update_call i f w) = ct_count w" "ct_bytes (update_call i f w) = ct_bytes w"
  "ct_closed (update_call i f w) = ct_closed w" "ct_terminal (update_call i f w) = ct_terminal w"
  "ct_requests (update_call i f w) = ct_requests w" "ct_next (update_call i f w) = ct_next w"
  "ct_pc (update_call i f w) = ct_pc w"
  by (simp_all add: update_call_def)

definition closed_error :: "control \<Rightarrow> goerr option" where
  "closed_error w = (if ct_closed w then join_errs [Some (Sentinel ErrClosed), ct_terminal w] else None)"

text \<open>\<open>Connection.stop\<close>, as far as requests see it.\<close>

definition stop_requests :: "goerr option \<Rightarrow> control \<Rightarrow> control" where
  "stop_requests e w = (if ct_closed w then w else w\<lparr>ct_closed := True, ct_terminal := e\<rparr>)"

subsection \<open>Callers\<close>

definition new_request :: "plan \<Rightarrow> int \<Rightarrow> int \<Rightarrow> int \<Rightarrow> bool \<Rightarrow> caller_pc \<Rightarrow> controlRequest" where
  "new_request p n out errs callerDone pc =
     \<lparr>rq_plan = p, rq_bytes = n, rq_stdout = max out 0, rq_stderr = max errs 0, rq_callerDone = callerDone,
      rq_state = requestQueued, rq_result = None, rq_pc = pc, rq_holds = HoldsNone, rq_enqueued = False,
      rq_written = False\<rparr>"

definition failed_call :: "goerr \<Rightarrow> controlRequest \<Rightarrow> controlRequest" where
  "failed_call e r = r\<lparr>rq_pc := CReturned (abort_reply (rq_plan r) EffectNotSent (contextSource (rq_callerDone r) (Some e)) e)\<rparr>"

definition releaseRequest :: "nat \<Rightarrow> control \<Rightarrow> control" where
  "releaseRequest i w =
     update_call i (\<lambda>r. r\<lparr>rq_holds := HoldsNone\<rparr>)
       (w\<lparr>ct_bytes := ct_bytes w - rq_bytes (ct_calls w i), ct_count := ct_count w - 1\<rparr>)"

text \<open>The beginning of a call.\<close>

definition begin_run :: "plan \<Rightarrow> int \<Rightarrow> int \<Rightarrow> int \<Rightarrow> bool \<Rightarrow> control \<Rightarrow> control" where
  "begin_run p n out errs callerDone w =
     w\<lparr>ct_calls := (ct_calls w)(ct_next w := new_request p n out errs callerDone
         (case run_refusal p n (ct_limit w) callerDone of Some v \<Rightarrow> CReturned v | None \<Rightarrow> CStarts)),
       ct_next := Suc (ct_next w)\<rparr>"

text \<open>The section of \<open>enqueueRequest\<close>.\<close>

definition enqueueRequest :: "nat \<Rightarrow> control \<Rightarrow> goerr option \<times> control" where
  "enqueueRequest i w =
     (if ct_closed w then (join_errs [Some (Sentinel ErrClosed), ct_terminal w], releaseRequest i w)
      else if int (length (ct_requests w)) < ct_depth w then
        (None, update_call i (\<lambda>r. r\<lparr>rq_enqueued := True\<rparr>) (w\<lparr>ct_requests := ct_requests w @ [i]\<rparr>))
      else (Some (Sentinel ErrResourceLimit), releaseRequest i w))"

text \<open>Receiving the reply, if it is there.\<close>

definition receive_result :: "nat \<Rightarrow> reply \<Rightarrow> control \<Rightarrow> control" where
  "receive_result i v w = update_call i (\<lambda>r. r\<lparr>rq_result := None, rq_pc := CReturned v\<rparr>) w"

abbreviation goto :: "nat \<Rightarrow> caller_pc \<Rightarrow> control \<Rightarrow> control" where
  "goto i pc w \<equiv> update_call i (\<lambda>r. r\<lparr>rq_pc := pc\<rparr>) w"

inductive acquireCapacity :: "nat \<Rightarrow> control \<Rightarrow> control \<Rightarrow> bool" for i where
  count_acquired: "rq_pc (ct_calls w i) = CStarts \<Longrightarrow> ct_count w < ct_depth w \<Longrightarrow>
    acquireCapacity i w (update_call i (\<lambda>r. r\<lparr>rq_holds := HoldsCount, rq_pc := CCounted\<rparr>)
      (w\<lparr>ct_count := ct_count w + 1\<rparr>))"
| count_canceled: "rq_pc (ct_calls w i) = CStarts \<Longrightarrow> join_errs [Some e, closed_error w] = Some e' \<Longrightarrow>
    acquireCapacity i w (update_call i (failed_call e') w)"
| bytes_acquired: "rq_pc (ct_calls w i) = CCounted \<Longrightarrow> ct_bytes w + rq_bytes (ct_calls w i) \<le> ct_limit w \<Longrightarrow>
    acquireCapacity i w (update_call i (\<lambda>r. r\<lparr>rq_holds := HoldsBoth, rq_pc := CAcquired\<rparr>)
      (w\<lparr>ct_bytes := ct_bytes w + rq_bytes (ct_calls w i)\<rparr>))"
| bytes_canceled: "rq_pc (ct_calls w i) = CCounted \<Longrightarrow> join_errs [Some e, closed_error w] = Some e' \<Longrightarrow>
    acquireCapacity i w (update_call i (\<lambda>r. failed_call e' (r\<lparr>rq_holds := HoldsNone\<rparr>))
      (w\<lparr>ct_count := ct_count w - 1\<rparr>))"

inductive abortRequest :: "nat \<Rightarrow> control \<Rightarrow> control \<Rightarrow> bool" for i where
  load_delivered: "rq_pc (ct_calls w i) = CLoads b t e \<Longrightarrow> rq_state (ct_calls w i) = requestDelivered \<Longrightarrow>
    abortRequest i w (goto i CAwaits w)"
| load_other: "rq_pc (ct_calls w i) = CLoads b t e \<Longrightarrow> rq_state (ct_calls w i) \<noteq> requestDelivered \<Longrightarrow>
    abortRequest i w (goto i (CPolls b t e) w)"
| await: "rq_pc (ct_calls w i) = CAwaits \<Longrightarrow> rq_result (ct_calls w i) = Some v \<Longrightarrow>
    abortRequest i w (receive_result i v w)"
| poll_delivered: "rq_pc (ct_calls w i) = CPolls b t e \<Longrightarrow> rq_result (ct_calls w i) = Some v \<Longrightarrow>
    abortRequest i w (receive_result i v w)"
| poll_first: "rq_pc (ct_calls w i) = CPolls False t e \<Longrightarrow> rq_result (ct_calls w i) = None \<Longrightarrow>
    abortRequest i w (goto i (CCas t e) w)"
| poll_second: "rq_pc (ct_calls w i) = CPolls True t e \<Longrightarrow> rq_result (ct_calls w i) = None \<Longrightarrow>
    abortRequest i w (goto i (CReturned (abort_reply (rq_plan (ct_calls w i)) EffectUnknown t e)) w)"
| swapped: "rq_pc (ct_calls w i) = CCas t e \<Longrightarrow> rq_state (ct_calls w i) = requestQueued \<Longrightarrow>
    abortRequest i w (update_call i (\<lambda>r. r\<lparr>rq_state := requestCanceled,
      rq_pc := CReturned (abort_reply (rq_plan r) EffectNotSent t e)\<rparr>) w)"
| not_swapped: "rq_pc (ct_calls w i) = CCas t e \<Longrightarrow> rq_state (ct_calls w i) \<noteq> requestQueued \<Longrightarrow>
    abortRequest i w (goto i (CLoads True t e) w)"

inductive run_step :: "nat \<Rightarrow> control \<Rightarrow> control \<Rightarrow> bool" for i where
  acquire: "acquireCapacity i w w' \<Longrightarrow> run_step i w w'"
| enqueue: "rq_pc (ct_calls w i) = CAcquired \<Longrightarrow> enqueueRequest i w = (None, w') \<Longrightarrow>
    run_step i w (goto i CWaits w')"
| enqueue_fails: "rq_pc (ct_calls w i) = CAcquired \<Longrightarrow> enqueueRequest i w = (Some e, w') \<Longrightarrow>
    run_step i w (update_call i (failed_call e) w')"
| answered: "rq_pc (ct_calls w i) = CWaits \<Longrightarrow> rq_result (ct_calls w i) = Some v \<Longrightarrow>
    run_step i w (receive_result i v w)"
| caller_done: "rq_pc (ct_calls w i) = CWaits \<Longrightarrow>
    run_step i w (goto i (CLoads False (contextSource (rq_callerDone (ct_calls w i)) (Some e)) e) w)"
| stopped: "rq_pc (ct_calls w i) = CWaits \<Longrightarrow> closed_error w = Some e \<Longrightarrow>
    run_step i w (goto i (CLoads False TimeoutSourceNone e) w)"
| aborts: "abortRequest i w w' \<Longrightarrow> run_step i w w'"

subsection \<open>The dispatcher\<close>

abbreviation dispatcher_at :: "dispatcher_pc \<Rightarrow> control \<Rightarrow> control" where
  "dispatcher_at pc w \<equiv> w\<lparr>ct_pc := pc\<rparr>"

text \<open>\<open>deliver\<close> begins: what it will send, and what the dispatcher does then.\<close>

definition deliver :: "nat \<Rightarrow> result \<Rightarrow> goerr option \<Rightarrow> effect \<Rightarrow> afterwards \<Rightarrow> control \<Rightarrow> control" where
  "deliver i r e eff fin w = dispatcher_at (DReleases i (deliver_reply (rq_plan (ct_calls w i)) r e eff) fin) w"

fun resume :: "afterwards \<Rightarrow> dispatcher_pc" where
  "resume GoesOn = DIdle"
| "resume Returns = DStops"
| "resume DrainsOn = DDrains"

text \<open>The three steps of \<open>deliver\<close>: the capacity, the state, the channel.\<close>

inductive deliver_step :: "control \<Rightarrow> control \<Rightarrow> bool" where
  releases: "ct_pc w = DReleases i v fin \<Longrightarrow>
    deliver_step w (dispatcher_at (DStores i v fin) (releaseRequest i w))"
| stores: "ct_pc w = DStores i v fin \<Longrightarrow>
    deliver_step w (dispatcher_at (DSends i v fin) (update_call i (\<lambda>r. r\<lparr>rq_state := requestDelivered\<rparr>) w))"
| sends: "ct_pc w = DSends i v fin \<Longrightarrow> rq_result (ct_calls w i) = None \<Longrightarrow>
    deliver_step w (dispatcher_at (resume fin) (update_call i (\<lambda>r. r\<lparr>rq_result := Some v\<rparr>) w))"

text \<open>The inputs that \<open>collectRequest\<close> used up until it returned.\<close>

definition collected :: "bytes \<Rightarrow> controlRequest \<Rightarrow> collect_input list \<Rightarrow> reply \<Rightarrow> bool" where
  "collected nonce r inputs x \<longleftrightarrow>
     collectRequest nonce (rq_stdout r) (rq_stderr r) False inputs collect_start = Some x \<and>
     collectRequest nonce (rq_stdout r) (rq_stderr r) False (butlast inputs) collect_start = None"

definition answer_effect :: "goerr option \<Rightarrow> effect" where
  "answer_effect e = (if e = None then EffectConfirmed else EffectUnknown)"

inductive dispatchRequest :: "control \<Rightarrow> control \<Rightarrow> bool" where
  is_closed: "ct_pc w = DTook i \<Longrightarrow> closed_error w = Some e \<Longrightarrow>
    dispatchRequest w (deliver i failedResult (Some e) EffectNotSent GoesOn w)"
| is_open: "ct_pc w = DTook i \<Longrightarrow> closed_error w = None \<Longrightarrow> dispatchRequest w (dispatcher_at (DOpen i) w)"
| is_done: "ct_pc w = DOpen i \<Longrightarrow>
    dispatchRequest w (deliver i failedResult (Some (Sentinel ContextCanceled)) EffectNotSent GoesOn w)"
| is_alive: "ct_pc w = DOpen i \<Longrightarrow> dispatchRequest w (dispatcher_at (DAlive i) w)"
| swaps: "ct_pc w = DAlive i \<Longrightarrow> rq_state (ct_calls w i) = requestQueued \<Longrightarrow>
    dispatchRequest w (dispatcher_at (DFlight i) (update_call i (\<lambda>r. r\<lparr>rq_state := requestInFlight\<rparr>) w))"
| swap_fails: "ct_pc w = DAlive i \<Longrightarrow> rq_state (ct_calls w i) \<noteq> requestQueued \<Longrightarrow>
    dispatchRequest w (deliver i failedResult (Some (Sentinel ContextCanceled)) EffectNotSent GoesOn w)"
| wire_fails: "ct_pc w = DFlight i \<Longrightarrow>
    buildRequestWire (rq_plan (ct_calls w i)) (rq_bytes (ct_calls w i)) random = Inl e \<Longrightarrow>
    dispatchRequest w (deliver i failedResult (Some e) EffectNotSent GoesOn w)"
| wire_built: "ct_pc w = DFlight i \<Longrightarrow>
    buildRequestWire (rq_plan (ct_calls w i)) (rq_bytes (ct_calls w i)) random = Inr (payload, nonce) \<Longrightarrow>
    dispatchRequest w (dispatcher_at (DBuilt i payload nonce) w)"
| writes: "ct_pc w = DBuilt i payload nonce \<Longrightarrow>
    dispatchRequest w (dispatcher_at (DSent i nonce) (update_call i (\<lambda>r. r\<lparr>rq_written := True\<rparr>) w))"
| write_fails: "ct_pc w = DBuilt i payload nonce \<Longrightarrow>
    dispatchRequest w (deliver i failedResult (Some e) EffectUnknown Returns
      (update_call i (\<lambda>r. r\<lparr>rq_written := True\<rparr>) (stop_requests (Some e) w)))"
| collects: "ct_pc w = DSent i nonce \<Longrightarrow> collected nonce (ct_calls w i) inputs (r, e) \<Longrightarrow>
    dispatchRequest w (deliver i r e (answer_effect e) GoesOn
      (if inputs \<noteq> [] \<and> last inputs = DrainTimeout
       then stop_requests (join_errs [Some (Sentinel ErrProtocol), Some (Sentinel ErrShutdownIncomplete)]) w else w))"

inductive drainRequests :: "control \<Rightarrow> control \<Rightarrow> bool" where
  drain: "ct_pc w = DDrains \<Longrightarrow> ct_requests w = i # rest \<Longrightarrow> closed_error w = Some e \<Longrightarrow>
    drainRequests w (deliver i failedResult (Some e) EffectNotSent DrainsOn (w\<lparr>ct_requests := rest\<rparr>))"
| drained: "ct_pc w = DDrains \<Longrightarrow> ct_requests w = [] \<Longrightarrow> drainRequests w (dispatcher_at DDone w)"

inductive dispatch :: "control \<Rightarrow> control \<Rightarrow> bool" where
  handshake: "ct_pc w = DStarts \<Longrightarrow> dispatch w (dispatcher_at DIdle w)"
| handshake_fails: "ct_pc w = DStarts \<Longrightarrow> dispatch w (dispatcher_at DStops (stop_requests (Some e) w))"
| context_done: "ct_pc w = DIdle \<Longrightarrow> dispatch w (dispatcher_at DStops w)"
| takes: "ct_pc w = DIdle \<Longrightarrow> ct_requests w = i # rest \<Longrightarrow>
    dispatch w (dispatcher_at (DTook i) (w\<lparr>ct_requests := rest\<rparr>))"
| handles: "dispatchRequest w w' \<Longrightarrow> dispatch w w'"
| delivers: "deliver_step w w' \<Longrightarrow> dispatch w w'"
| deferred_stop: "ct_pc w = DStops \<Longrightarrow> dispatch w (dispatcher_at DDrains (stop_requests cause w))"
| drains: "drainRequests w w' \<Longrightarrow> dispatch w w'"

inductive control_step :: "control \<Rightarrow> control \<Rightarrow> bool" where
  call_begins: "0 \<le> n \<Longrightarrow> control_step w (begin_run p n out errs callerDone w)"
| caller: "i < ct_next w \<Longrightarrow> run_step i w w' \<Longrightarrow> control_step w w'"
| dispatcher: "dispatch w w' \<Longrightarrow> control_step w w'"
| stop: "control_step w (stop_requests e w)"

definition new_control :: "int \<Rightarrow> int \<Rightarrow> control" where
  "new_control depth limit =
     \<lparr>ct_depth = depth, ct_limit = limit, ct_count = 0, ct_bytes = 0, ct_closed = False, ct_terminal = None,
      ct_requests = [], ct_calls = (\<lambda>_. new_request (plainPlan \<lparr>cmd_name = [], cmd_args = []\<rparr>) 0 0 0 False CStarts),
      ct_next = 0, ct_pc = DStarts\<rparr>"

inductive control_reachable :: "control \<Rightarrow> bool" where
  control_start: "0 < depth \<Longrightarrow> 0 < limit \<Longrightarrow> control_reachable (new_control depth limit)"
| control_next: "control_reachable w \<Longrightarrow> control_step w w' \<Longrightarrow> control_reachable w'"

subsection \<open>Invariants\<close>

text \<open>The request that the dispatcher holds.\<close>

fun busy_with :: "dispatcher_pc \<Rightarrow> nat option" where
  "busy_with (DTook i) = Some i"
| "busy_with (DOpen i) = Some i"
| "busy_with (DAlive i) = Some i"
| "busy_with (DFlight i) = Some i"
| "busy_with (DBuilt i payload nonce) = Some i"
| "busy_with (DSent i nonce) = Some i"
| "busy_with (DReleases i v fin) = Some i"
| "busy_with (DStores i v fin) = Some i"
| "busy_with (DSends i v fin) = Some i"
| "busy_with DStarts = None"
| "busy_with DIdle = None"
| "busy_with DStops = None"
| "busy_with DDrains = None"
| "busy_with DDone = None"

text \<open>A reply tells the truth about what was written.\<close>

definition honest :: "reply \<Rightarrow> bool \<Rightarrow> bool" where
  "honest v written \<longleftrightarrow>
     (reply_effect v = EffectNotSent \<longrightarrow> \<not> written) \<and> (reply_effect v = EffectConfirmed \<longrightarrow> written)"

text \<open>A request that waits to be written: what holds of it while it is on the queue or examined.\<close>

definition untouched :: "controlRequest \<Rightarrow> bool" where
  "untouched r \<longleftrightarrow> rq_enqueued r \<and> rq_holds r = HoldsBoth \<and> rq_state r \<in> {requestQueued, requestCanceled} \<and>
     rq_result r = None \<and> \<not> rq_written r"

text \<open>What holds of the request in the dispatcher's hands.\<close>

fun busy_safe :: "dispatcher_pc \<Rightarrow> controlRequest \<Rightarrow> bool" where
  "busy_safe (DFlight i) r \<longleftrightarrow>
     rq_enqueued r \<and> rq_holds r = HoldsBoth \<and> rq_state r = requestInFlight \<and> rq_result r = None \<and> \<not> rq_written r"
| "busy_safe (DBuilt i payload nonce) r \<longleftrightarrow>
     rq_enqueued r \<and> rq_holds r = HoldsBoth \<and> rq_state r = requestInFlight \<and> rq_result r = None \<and> \<not> rq_written r"
| "busy_safe (DSent i nonce) r \<longleftrightarrow>
     rq_enqueued r \<and> rq_holds r = HoldsBoth \<and> rq_state r = requestInFlight \<and> rq_result r = None \<and> rq_written r"
| "busy_safe (DReleases i v fin) r \<longleftrightarrow>
     rq_enqueued r \<and> rq_holds r = HoldsBoth \<and> rq_state r \<noteq> requestDelivered \<and>
     (rq_written r \<longrightarrow> rq_state r = requestInFlight) \<and> rq_result r = None \<and> honest v (rq_written r)"
| "busy_safe (DStores i v fin) r \<longleftrightarrow>
     rq_enqueued r \<and> rq_holds r = HoldsNone \<and> rq_state r \<noteq> requestDelivered \<and>
     (rq_written r \<longrightarrow> rq_state r = requestInFlight) \<and> rq_result r = None \<and> honest v (rq_written r)"
| "busy_safe (DSends i v fin) r \<longleftrightarrow>
     rq_enqueued r \<and> rq_holds r = HoldsNone \<and> rq_state r = requestDelivered \<and> rq_result r = None \<and> honest v (rq_written r)"
| "busy_safe _ r \<longleftrightarrow> untouched r"

text \<open>A request that the dispatcher is done with.\<close>

definition answered_safe :: "controlRequest \<Rightarrow> bool" where
  "answered_safe r \<longleftrightarrow> rq_enqueued r \<and> rq_holds r = HoldsNone \<and> rq_state r = requestDelivered \<and>
     (case rq_result r of Some v \<Rightarrow> honest v (rq_written r) | None \<Rightarrow> (\<exists>v. rq_pc r = CReturned v))"

text \<open>A call that never put its request on the queue.\<close>

definition outside_safe :: "controlRequest \<Rightarrow> bool" where
  "outside_safe r \<longleftrightarrow> \<not> rq_enqueued r \<and> rq_state r = requestQueued \<and> rq_result r = None \<and> \<not> rq_written r \<and>
     (case rq_pc r of
        CStarts \<Rightarrow> rq_holds r = HoldsNone
      | CCounted \<Rightarrow> rq_holds r = HoldsCount
      | CAcquired \<Rightarrow> rq_holds r = HoldsBoth
      | CReturned v \<Rightarrow> rq_holds r = HoldsNone \<and> reply_effect v = EffectNotSent
      | _ \<Rightarrow> False)"

text \<open>Where a request is.\<close>

datatype place = Outside | OnQueue | InHands dispatcher_pc | Answered

definition place_of :: "control \<Rightarrow> nat \<Rightarrow> place" where
  "place_of w i =
     (if i \<in> set (ct_requests w) then OnQueue
      else if busy_with (ct_pc w) = Some i then InHands (ct_pc w)
      else if rq_enqueued (ct_calls w i) then Answered else Outside)"

fun place_safe :: "place \<Rightarrow> controlRequest \<Rightarrow> bool" where
  "place_safe Outside r = outside_safe r"
| "place_safe OnQueue r = untouched r"
| "place_safe (InHands pc) r = busy_safe pc r"
| "place_safe Answered r = answered_safe r"

text \<open>A request in this place may still be written.\<close>

fun may_be_written :: "place \<Rightarrow> controlRequest \<Rightarrow> bool" where
  "may_be_written Outside r \<longleftrightarrow> (\<nexists>v. rq_pc r = CReturned v)"
| "may_be_written OnQueue r \<longleftrightarrow> rq_state r \<noteq> requestCanceled"
| "may_be_written (InHands pc) r \<longleftrightarrow>
     (case pc of DTook _ \<Rightarrow> True | DOpen _ \<Rightarrow> True | DAlive _ \<Rightarrow> True | DFlight _ \<Rightarrow> True | DBuilt _ _ _ \<Rightarrow> True
      | DSent _ _ \<Rightarrow> True | _ \<Rightarrow> False) \<and> rq_state r \<noteq> requestCanceled"
| "may_be_written Answered r \<longleftrightarrow> False"

text \<open>What a caller knows: a reply it returned is true for good, and it waits for a reply that comes.\<close>

definition caller_safe :: "place \<Rightarrow> controlRequest \<Rightarrow> bool" where
  "caller_safe pl r \<longleftrightarrow>
     (case rq_pc r of
        CReturned v \<Rightarrow> honest v (rq_written r) \<and>
          (reply_effect v = EffectNotSent \<longrightarrow> \<not> may_be_written pl r)
      | CAwaits \<Rightarrow> rq_state r = requestDelivered
      | CStarts \<Rightarrow> pl = Outside
      | CCounted \<Rightarrow> pl = Outside
      | CAcquired \<Rightarrow> pl = Outside
      | _ \<Rightarrow> rq_state r \<noteq> requestCanceled)"

definition call_safe :: "control \<Rightarrow> nat \<Rightarrow> bool" where
  "call_safe w i \<longleftrightarrow> place_safe (place_of w i) (ct_calls w i) \<and> caller_safe (place_of w i) (ct_calls w i)"

text \<open>The capacity in use is what the calls hold.\<close>

definition count_held :: "controlRequest \<Rightarrow> int" where
  "count_held r = (if rq_holds r = HoldsNone then 0 else 1)"

definition bytes_held :: "controlRequest \<Rightarrow> int" where
  "bytes_held r = (if rq_holds r = HoldsBoth then rq_bytes r else 0)"

definition capacity_safe :: "control \<Rightarrow> bool" where
  "capacity_safe w \<longleftrightarrow>
     ct_count w = (\<Sum>i < ct_next w. count_held (ct_calls w i)) \<and> ct_count w \<le> ct_depth w \<and>
     ct_bytes w = (\<Sum>i < ct_next w. bytes_held (ct_calls w i)) \<and> ct_bytes w \<le> ct_limit w \<and>
     (\<forall>i < ct_next w. 0 \<le> rq_bytes (ct_calls w i))"

definition queue_safe :: "control \<Rightarrow> bool" where
  "queue_safe w \<longleftrightarrow>
     distinct (ct_requests w) \<and> set (ct_requests w) \<subseteq> {..< ct_next w} \<and>
     (case busy_with (ct_pc w) of Some i \<Rightarrow> i < ct_next w \<and> i \<notin> set (ct_requests w) | None \<Rightarrow> True) \<and>
     (ct_pc w \<in> {DDrains, DDone} \<or> (\<exists>i v. ct_pc w \<in> {DReleases i v DrainsOn, DStores i v DrainsOn, DSends i v DrainsOn}) \<longrightarrow>
        ct_closed w) \<and>
     (ct_pc w = DDone \<longrightarrow> ct_requests w = [])"

definition control_safe :: "control \<Rightarrow> bool" where
  "control_safe w \<longleftrightarrow> (\<forall>i < ct_next w. call_safe w i) \<and> capacity_safe w \<and> queue_safe w"

subsection \<open>Every step keeps the invariants\<close>

lemma update_sum:
  fixes f :: "'a \<Rightarrow> int" and n :: nat
  assumes "i < n" and "\<And>j. j \<noteq> i \<Longrightarrow> h' j = h j"
  shows "(\<Sum>j < n. f (h' j)) = (\<Sum>j < n. f (h j)) - f (h i) + f (h' i)"
proof -
  have "(\<Sum>j < n. f (g j)) = f (g i) + (\<Sum>j \<in> {..<n} - {i}. f (g j))" for g
    by (rule sum.remove) (use assms(1) in auto)
  moreover have "(\<Sum>j \<in> {..<n} - {i}. f (h' j)) = (\<Sum>j \<in> {..<n} - {i}. f (h j))"
    using assms(2) by (intro sum.cong) auto
  ultimately show ?thesis by simp
qed

text \<open>A step that touches the request \<open>i\<close> only.\<close>

lemma safe_update:
  assumes "control_safe w" and "i < ct_next w"
    and "\<And>j. j \<noteq> i \<Longrightarrow> ct_calls w' j = ct_calls w j" and "\<And>j. j \<noteq> i \<Longrightarrow> place_of w' j = place_of w j"
    and "ct_next w' = ct_next w" "ct_depth w' = ct_depth w" "ct_limit w' = ct_limit w"
    and "rq_bytes (ct_calls w' i) = rq_bytes (ct_calls w i)"
    and "ct_count w' = ct_count w - count_held (ct_calls w i) + count_held (ct_calls w' i)" "ct_count w' \<le> ct_depth w"
    and "ct_bytes w' = ct_bytes w - bytes_held (ct_calls w i) + bytes_held (ct_calls w' i)" "ct_bytes w' \<le> ct_limit w"
    and "call_safe w' i" and "queue_safe w'"
  shows "control_safe w'"
proof -
  have "call_safe w' j" if "j < ct_next w" for j
    using assms(1,3,4,13) that by (cases "j = i") (auto simp: control_safe_def call_safe_def)
  moreover have "capacity_safe w'"
  proof -
    have old: "ct_count w = (\<Sum>j < ct_next w. count_held (ct_calls w j))"
        "ct_bytes w = (\<Sum>j < ct_next w. bytes_held (ct_calls w j))" "\<forall>j < ct_next w. 0 \<le> rq_bytes (ct_calls w j)"
      using assms(1) by (auto simp: control_safe_def capacity_safe_def)
    have "0 \<le> rq_bytes (ct_calls w' j)" if "j < ct_next w" for j
      using old(3) that assms(3,8) by (cases "j = i") auto
    then show ?thesis
      using assms(9-12) old(1,2) update_sum [OF assms(2,3), where f = count_held]
        update_sum [OF assms(2,3), where f = bytes_held]
      by (simp add: capacity_safe_def assms(5-7))
  qed
  ultimately show ?thesis
    using assms(5,14) by (simp add: control_safe_def)
qed

lemma safe_holds:
  assumes "control_safe w" and "i < ct_next w"
  shows "call_safe w i" "place_safe (place_of w i) (ct_calls w i)" "caller_safe (place_of w i) (ct_calls w i)"
    and "queue_safe w" "ct_count w \<le> ct_depth w" "ct_bytes w \<le> ct_limit w" "0 \<le> rq_bytes (ct_calls w i)"
  using assms by (auto simp: control_safe_def call_safe_def capacity_safe_def)

lemma place_of_same:
  "ct_requests w' = ct_requests w \<Longrightarrow> ct_pc w' = ct_pc w \<Longrightarrow>
   rq_enqueued (ct_calls w' j) = rq_enqueued (ct_calls w j) \<Longrightarrow> place_of w' j = place_of w j"
  by (simp add: place_of_def)

lemma queue_safe_same:
  "queue_safe w \<Longrightarrow> ct_requests w' = ct_requests w \<Longrightarrow> ct_pc w' = ct_pc w \<Longrightarrow> ct_next w' = ct_next w \<Longrightarrow>
   (ct_closed w \<Longrightarrow> ct_closed w') \<Longrightarrow> queue_safe w'"
  by (auto simp: queue_safe_def split: option.splits)

text \<open>A step of the caller \<open>i\<close> that leaves the queue and the dispatcher alone.\<close>

lemma safe_caller_update:
  assumes "control_safe w" and "i < ct_next w"
    and "ct_requests w2 = ct_requests w" "ct_pc w2 = ct_pc w" "ct_next w2 = ct_next w" "ct_closed w2 = ct_closed w"
      "ct_depth w2 = ct_depth w" "ct_limit w2 = ct_limit w" "ct_calls w2 = ct_calls w"
    and "rq_enqueued (f (ct_calls w i)) = rq_enqueued (ct_calls w i)" "rq_bytes (f (ct_calls w i)) = rq_bytes (ct_calls w i)"
    and "ct_count w2 = ct_count w - count_held (ct_calls w i) + count_held (f (ct_calls w i))" "ct_count w2 \<le> ct_depth w"
    and "ct_bytes w2 = ct_bytes w - bytes_held (ct_calls w i) + bytes_held (f (ct_calls w i))" "ct_bytes w2 \<le> ct_limit w"
    and "place_safe (place_of w i) (f (ct_calls w i))" "caller_safe (place_of w i) (f (ct_calls w i))"
  shows "control_safe (update_call i f w2)"
proof (rule safe_update [OF assms(1,2)])
  have pl: "place_of (update_call i f w2) j = place_of w j" for j
    using assms(3,4,9,10) by (intro place_of_same) auto
  then show "j \<noteq> i \<Longrightarrow> place_of (update_call i f w2) j = place_of w j" for j by simp
  show "call_safe (update_call i f w2) i"
    using assms(9,16,17) pl by (simp add: call_safe_def)
  show "queue_safe (update_call i f w2)"
    using safe_holds(4) [OF assms(1,2)] by (rule queue_safe_same) (use assms in auto)
qed (use assms in auto)

lemma busy_safe_pc [simp]: "busy_safe d (r\<lparr>rq_pc := x\<rparr>) = busy_safe d r"
  by (cases d) (simp_all add: untouched_def)

lemma untouched_pc [simp]: "untouched (r\<lparr>rq_pc := x\<rparr>) = untouched r"
  by (simp add: untouched_def)

lemma failed_call_simps [simp]:
  "rq_enqueued (failed_call e r) = rq_enqueued r" "rq_bytes (failed_call e r) = rq_bytes r"
  "rq_holds (failed_call e r) = rq_holds r" "rq_state (failed_call e r) = rq_state r"
  "rq_result (failed_call e r) = rq_result r" "rq_written (failed_call e r) = rq_written r"
  "rq_pc (failed_call e r) = CReturned (abort_reply (rq_plan r) EffectNotSent (contextSource (rq_callerDone r) (Some e)) e)"
  by (simp_all add: failed_call_def)

lemma held_simps [simp]:
  "count_held (failed_call e r) = count_held r" "bytes_held (failed_call e r) = bytes_held r"
  "count_held (r\<lparr>rq_pc := x\<rparr>) = count_held r" "bytes_held (r\<lparr>rq_pc := x\<rparr>) = bytes_held r"
  "count_held (r\<lparr>rq_state := s\<rparr>) = count_held r" "bytes_held (r\<lparr>rq_state := s\<rparr>) = bytes_held r"
  "count_held (r\<lparr>rq_result := y\<rparr>) = count_held r" "bytes_held (r\<lparr>rq_result := y\<rparr>) = bytes_held r"
  "count_held (r\<lparr>rq_written := b\<rparr>) = count_held r" "bytes_held (r\<lparr>rq_written := b\<rparr>) = bytes_held r"
  by (simp_all add: count_held_def bytes_held_def)

lemma begins_outside:
  assumes "control_safe w" "i < ct_next w" "rq_pc (ct_calls w i) \<in> {CStarts, CCounted, CAcquired}"
  shows "place_of w i = Outside" "outside_safe (ct_calls w i)"
  using safe_holds(2,3) [OF assms(1,2)] assms(3) by (auto simp: caller_safe_def)

lemma acquireCapacity_safe:
  assumes "acquireCapacity i w w'" and "control_safe w" and "i < ct_next w"
  shows "control_safe w'"
  using assms(1)
proof cases
  case count_acquired
  note o = begins_outside [OF assms(2,3)]
  from count_acquired o safe_holds(6) [OF assms(2,3)] show ?thesis
    by (auto intro!: safe_caller_update [OF assms(2,3)]
        simp: outside_safe_def count_held_def bytes_held_def caller_safe_def)
next
  case (count_canceled e e')
  note o = begins_outside [OF assms(2,3)]
  from count_canceled o safe_holds(5,6) [OF assms(2,3)] show ?thesis
    by (auto intro!: safe_caller_update [OF assms(2,3)] simp: outside_safe_def caller_safe_def honest_def)
next
  case bytes_acquired
  note o = begins_outside [OF assms(2,3)]
  from bytes_acquired o safe_holds(5) [OF assms(2,3)] show ?thesis
    by (auto intro!: safe_caller_update [OF assms(2,3)]
        simp: outside_safe_def count_held_def bytes_held_def caller_safe_def)
next
  case (bytes_canceled e e')
  note o = begins_outside [OF assms(2,3)]
  from bytes_canceled o safe_holds(5,6) [OF assms(2,3)] show ?thesis
    by (auto intro!: safe_caller_update [OF assms(2,3)]
        simp: outside_safe_def count_held_def bytes_held_def caller_safe_def honest_def)
qed

text \<open>The callers that have enqueued and not returned.\<close>

definition waiting :: "caller_pc \<Rightarrow> bool" where
  "waiting pc \<longleftrightarrow> (case pc of CWaits \<Rightarrow> True | CLoads _ _ _ \<Rightarrow> True | CPolls _ _ _ \<Rightarrow> True | CCas _ _ \<Rightarrow> True
     | CAwaits \<Rightarrow> True | _ \<Rightarrow> False)"

lemma waiting_simps [simp]:
  "waiting CWaits" "waiting (CLoads b t e)" "waiting (CPolls b t e)" "waiting (CCas t e)" "waiting CAwaits"
  "\<not> waiting (CReturned v)" "\<not> waiting CStarts" "\<not> waiting CCounted" "\<not> waiting CAcquired"
  by (simp_all add: waiting_def)

lemma waiting_place:
  assumes "place_safe p r" and "waiting (rq_pc r)"
  shows "p \<noteq> Outside" "p = Answered \<Longrightarrow> \<exists>v. rq_result r = Some v" "rq_enqueued r"
  using assms
  by (cases p; auto simp: outside_safe_def answered_safe_def waiting_def untouched_def
        split: caller_pc.splits option.splits elim: busy_safe.elims)+

lemma result_answered:
  assumes "place_safe p r" and "rq_result r = Some v"
  shows "p = Answered" "honest v (rq_written r)"
proof -
  show "p = Answered"
  proof (cases p)
    case (InHands d)
    with assms show ?thesis by (cases d) (auto simp: untouched_def)
  qed (use assms in \<open>auto simp: outside_safe_def untouched_def\<close>)
  with assms show "honest v (rq_written r)" by (simp add: answered_safe_def)
qed

lemma place_safe_pc:
  assumes "place_safe p r" and "waiting (rq_pc r)" and "waiting x \<or> (\<exists>v. x = CReturned v)"
  shows "place_safe p (r\<lparr>rq_pc := x\<rparr>)"
  using assms waiting_place [OF assms(1,2)] by (cases p) (auto simp: answered_safe_def)

lemma place_safe_received:
  assumes "place_safe p r" and "rq_result r = Some v"
  shows "place_safe p (r\<lparr>rq_result := None, rq_pc := CReturned v\<rparr>)"
    "caller_safe p (r\<lparr>rq_result := None, rq_pc := CReturned v\<rparr>)"
  using assms result_answered [OF assms] by (auto simp: answered_safe_def caller_safe_def)

lemma receive_result_safe:
  assumes "control_safe w" "i < ct_next w" "rq_result (ct_calls w i) = Some v"
  shows "control_safe (receive_result i v w)"
  unfolding receive_result_def
  using assms place_safe_received [OF safe_holds(2) [OF assms(1,2)] assms(3)] safe_holds(5,6) [OF assms(1,2)]
  by (auto intro!: safe_caller_update [OF assms(1,2)] simp: count_held_def bytes_held_def)

lemma goto_safe:
  assumes "control_safe w" "i < ct_next w" "waiting (rq_pc (ct_calls w i))" "waiting x \<or> (\<exists>v. x = CReturned v)"
    and "caller_safe (place_of w i) ((ct_calls w i)\<lparr>rq_pc := x\<rparr>)"
  shows "control_safe (goto i x w)"
  using assms place_safe_pc [OF safe_holds(2) [OF assms(1,2)] assms(3,4)] safe_holds(5,6) [OF assms(1,2)]
  by (auto intro!: safe_caller_update [OF assms(1,2)])

text \<open>A request that is canceled in time will not be written.\<close>

lemma canceled_place:
  assumes "place_safe p r" and "waiting (rq_pc r)" and "rq_state r = requestQueued"
  shows "place_safe p (r\<lparr>rq_state := requestCanceled, rq_pc := x\<rparr>)" "\<not> rq_written r"
    "\<not> may_be_written p (r\<lparr>rq_state := requestCanceled, rq_pc := x\<rparr>)"
proof -
  have p: "p \<noteq> Outside" "p \<noteq> Answered"
    using waiting_place [OF assms(1,2)] assms(1,3) by (auto simp: answered_safe_def)
  show "place_safe p (r\<lparr>rq_state := requestCanceled, rq_pc := x\<rparr>)"
  proof (cases p)
    case (InHands d)
    with assms show ?thesis by (cases d) (auto simp: untouched_def)
  qed (use assms p in \<open>auto simp: untouched_def\<close>)
  show "\<not> may_be_written p (r\<lparr>rq_state := requestCanceled, rq_pc := x\<rparr>)"
    using p by (cases p) auto
  show "\<not> rq_written r"
  proof (cases p)
    case (InHands d)
    then show ?thesis using assms by (cases d) (auto simp: untouched_def honest_def)
  qed (use assms p in \<open>auto simp: untouched_def\<close>)
qed

lemma abortRequest_safe:
  assumes "abortRequest i w w'" and "control_safe w" and "i < ct_next w"
  shows "control_safe w'"
  using assms(1)
proof cases
  case (load_delivered b t e)
  then show ?thesis by (auto intro!: goto_safe [OF assms(2,3)] simp: caller_safe_def)
next
  case (load_other b t e)
  then show ?thesis
    using safe_holds(3) [OF assms(2,3)] by (auto intro!: goto_safe [OF assms(2,3)] simp: caller_safe_def)
next
  case (await v)
  then show ?thesis by (auto intro: receive_result_safe [OF assms(2,3)])
next
  case (poll_delivered b t e v)
  then show ?thesis by (auto intro: receive_result_safe [OF assms(2,3)])
next
  case (poll_first t e)
  then show ?thesis
    using safe_holds(3) [OF assms(2,3)] by (auto intro!: goto_safe [OF assms(2,3)] simp: caller_safe_def)
next
  case (poll_second t e)
  then show ?thesis by (auto intro!: goto_safe [OF assms(2,3)] simp: caller_safe_def honest_def)
next
  case (swapped t e)
  note c = canceled_place [OF safe_holds(2) [OF assms(2,3)], unfolded swapped(2), simplified, OF swapped(3)]
  show ?thesis
    unfolding swapped(1)
    using swapped c safe_holds(5,6) [OF assms(2,3)]
    by (auto intro!: safe_caller_update [OF assms(2,3)] simp: caller_safe_def honest_def count_held_def bytes_held_def)
next
  case (not_swapped t e)
  then show ?thesis
    using safe_holds(3) [OF assms(2,3)] by (auto intro!: goto_safe [OF assms(2,3)] simp: caller_safe_def)
qed

lemma releaseRequest_simps [simp]:
  "ct_calls (releaseRequest i w) j = (if j = i then (ct_calls w i)\<lparr>rq_holds := HoldsNone\<rparr> else ct_calls w j)"
  "ct_depth (releaseRequest i w) = ct_depth w" "ct_limit (releaseRequest i w) = ct_limit w"
  "ct_count (releaseRequest i w) = ct_count w - 1" "ct_bytes (releaseRequest i w) = ct_bytes w - rq_bytes (ct_calls w i)"
  "ct_closed (releaseRequest i w) = ct_closed w" "ct_terminal (releaseRequest i w) = ct_terminal w"
  "ct_requests (releaseRequest i w) = ct_requests w" "ct_next (releaseRequest i w) = ct_next w"
  "ct_pc (releaseRequest i w) = ct_pc w"
  by (simp_all add: releaseRequest_def)

lemma enqueue_fails_safe:
  assumes "control_safe w" "i < ct_next w" "rq_pc (ct_calls w i) = CAcquired"
  shows "control_safe (update_call i (failed_call e) (releaseRequest i w))"
proof (rule safe_update [OF assms(1,2)])
  note o = begins_outside [OF assms(1,2)]
  let ?w = "update_call i (failed_call e) (releaseRequest i w)"
  have pl: "place_of ?w j = place_of w j" for j by (rule place_of_same) auto
  then show "j \<noteq> i \<Longrightarrow> place_of ?w j = place_of w j" for j by simp
  show "call_safe ?w i"
    using pl o assms(3) by (auto simp: call_safe_def outside_safe_def caller_safe_def honest_def)
  show "queue_safe ?w"
    using safe_holds(4) [OF assms(1,2)] by (rule queue_safe_same) auto
  show "ct_count ?w = ct_count w - count_held (ct_calls w i) + count_held (ct_calls ?w i)"
    "ct_bytes ?w = ct_bytes w - bytes_held (ct_calls w i) + bytes_held (ct_calls ?w i)"
    using o(2) assms(3) by (auto simp: outside_safe_def count_held_def bytes_held_def)
  show "ct_count ?w \<le> ct_depth w" "ct_bytes ?w \<le> ct_limit w"
    using safe_holds(5-7) [OF assms(1,2)] by auto
qed auto

lemma enqueue_safe:
  assumes "control_safe w" "i < ct_next w" "rq_pc (ct_calls w i) = CAcquired" "\<not> ct_closed w"
  shows "control_safe (goto i CWaits (update_call i (\<lambda>r. r\<lparr>rq_enqueued := True\<rparr>) (w\<lparr>ct_requests := ct_requests w @ [i]\<rparr>)))"
    (is "control_safe ?w")
proof (rule safe_update [OF assms(1,2)])
  have o: "place_of w i = Outside" "outside_safe (ct_calls w i)"
    using begins_outside [OF assms(1,2)] assms(3) by auto
  then have free: "i \<notin> set (ct_requests w)" "busy_with (ct_pc w) \<noteq> Some i"
    by (auto simp: place_of_def split: if_splits)
  show "j \<noteq> i \<Longrightarrow> place_of ?w j = place_of w j" for j
    by (simp add: place_of_def)
  have "place_of ?w i = OnQueue" by (simp add: place_of_def)
  then show "call_safe ?w i"
    using o assms(3) by (auto simp: call_safe_def outside_safe_def untouched_def caller_safe_def)
  show "queue_safe ?w"
    using safe_holds(4) [OF assms(1,2)] free assms(2,4) by (auto simp: queue_safe_def split: option.splits)
qed (use safe_holds(5,6) [OF assms(1,2)] in \<open>auto simp: count_held_def bytes_held_def\<close>)

lemma run_step_safe:
  assumes "run_step i w w'" and "control_safe w" and "i < ct_next w"
  shows "control_safe w'"
  using assms(1)
proof cases
  case acquire
  then show ?thesis using acquireCapacity_safe assms(2,3) by blast
next
  case (enqueue w2)
  then show ?thesis
    using enqueue_safe [OF assms(2,3)] by (auto simp: enqueueRequest_def split: if_splits)
next
  case (enqueue_fails e w2)
  then show ?thesis
    using enqueue_fails_safe [OF assms(2,3)] by (auto simp: enqueueRequest_def split: if_splits)
next
  case (answered v)
  then show ?thesis using receive_result_safe [OF assms(2,3)] by simp
next
  case (caller_done e)
  then show ?thesis
    using safe_holds(3) [OF assms(2,3)] by (auto intro!: goto_safe [OF assms(2,3)] simp: caller_safe_def)
next
  case (stopped e)
  then show ?thesis
    using safe_holds(3) [OF assms(2,3)] by (auto intro!: goto_safe [OF assms(2,3)] simp: caller_safe_def)
next
  case aborts
  then show ?thesis using abortRequest_safe assms(2,3) by blast
qed

lemma place_taken_other:
  assumes "j \<noteq> i" and "set (ct_requests w') - {i} = set (ct_requests w) - {i}"
    and "busy_with (ct_pc w) \<in> {None, Some i}" "busy_with (ct_pc w') \<in> {None, Some i}"
    and "rq_enqueued (ct_calls w' j) = rq_enqueued (ct_calls w j)"
  shows "place_of w' j = place_of w j"
proof -
  have "j \<in> set (ct_requests w') \<longleftrightarrow> j \<in> set (ct_requests w)" using assms(1,2) by blast
  moreover have "busy_with (ct_pc w) \<noteq> Some j" "busy_with (ct_pc w') \<noteq> Some j"
    using assms(1,3,4) by auto
  ultimately show ?thesis by (simp add: place_of_def assms(5))
qed

text \<open>A step of the dispatcher with the request \<open>i\<close> in its hands, before or after.\<close>

lemma safe_dispatcher_update:
  assumes "control_safe w" and "i < ct_next w" and "busy_with (ct_pc w) = Some i"
    and "busy_with (ct_pc w') = Some i \<or> (busy_with (ct_pc w') = None \<and> ct_pc w' \<noteq> DDone \<and> (ct_pc w' = DDrains \<longrightarrow> ct_closed w'))"
    and "\<forall>j v. ct_pc w' \<in> {DReleases j v DrainsOn, DStores j v DrainsOn, DSends j v DrainsOn} \<longrightarrow> ct_closed w'"
    and "\<And>j. j \<noteq> i \<Longrightarrow> ct_calls w' j = ct_calls w j" "ct_requests w' = ct_requests w"
    and "ct_next w' = ct_next w" "ct_depth w' = ct_depth w" "ct_limit w' = ct_limit w"
    and "rq_bytes (ct_calls w' i) = rq_bytes (ct_calls w i)"
    and "ct_count w' = ct_count w - count_held (ct_calls w i) + count_held (ct_calls w' i)" "ct_count w' \<le> ct_depth w"
    and "ct_bytes w' = ct_bytes w - bytes_held (ct_calls w i) + bytes_held (ct_calls w' i)" "ct_bytes w' \<le> ct_limit w"
    and "place_safe (if busy_with (ct_pc w') = Some i then InHands (ct_pc w') else Answered) (ct_calls w' i)"
      "caller_safe (if busy_with (ct_pc w') = Some i then InHands (ct_pc w') else Answered) (ct_calls w' i)"
  shows "control_safe w'"
proof (rule safe_update [OF assms(1,2)])
  have i: "i \<notin> set (ct_requests w)"
    using safe_holds(4) [OF assms(1,2)] assms(3) by (simp add: queue_safe_def)
  have "busy_with (ct_pc w') \<in> {None, Some i}" using assms(4) by auto
  then show "place_of w' j = place_of w j" if "j \<noteq> i" for j
    using that assms(3,6,7) by (intro place_taken_other) auto
  have "rq_enqueued (ct_calls w' i)" if "busy_with (ct_pc w') \<noteq> Some i"
    using assms(16) that by (simp add: answered_safe_def)
  then show "call_safe w' i"
    using assms(7,16,17) i by (auto simp: call_safe_def place_of_def)
  show "queue_safe w'"
    using safe_holds(4) [OF assms(1,2)] assms(3-5,7,8) i by (auto simp: queue_safe_def)
qed (use assms in auto)

text \<open>What is known of the request in the dispatcher's hands.\<close>

lemma in_hands:
  assumes "control_safe w" and "busy_with (ct_pc w) = Some i"
  shows "i < ct_next w" "place_of w i = InHands (ct_pc w)" "busy_safe (ct_pc w) (ct_calls w i)"
    "caller_safe (InHands (ct_pc w)) (ct_calls w i)"
proof -
  have q: "queue_safe w" using assms(1) by (simp add: control_safe_def)
  with assms(2) show i: "i < ct_next w" by (simp add: queue_safe_def)
  from q assms(2) show pl: "place_of w i = InHands (ct_pc w)"
    by (simp add: place_of_def queue_safe_def)
  with safe_holds(2,3) [OF assms(1) i]
  show "busy_safe (ct_pc w) (ct_calls w i)" "caller_safe (InHands (ct_pc w)) (ct_calls w i)"
    by auto
qed

text \<open>Going on with a request that keeps its capacity.\<close>

lemma hands_on:
  assumes "control_safe w" and "busy_with (ct_pc w) = Some i" and "busy_with pc = Some i"
    and "w' = dispatcher_at pc (update_call i f w2)" and "w2 = w \<or> w2 = stop_requests e w"
    and "\<forall>j v. pc \<in> {DReleases j v DrainsOn, DStores j v DrainsOn, DSends j v DrainsOn} \<longrightarrow> ct_closed w"
    and "rq_bytes (f (ct_calls w i)) = rq_bytes (ct_calls w i)" "rq_holds (f (ct_calls w i)) = rq_holds (ct_calls w i)"
    and "busy_safe pc (f (ct_calls w i))" "caller_safe (InHands pc) (f (ct_calls w i))"
  shows "control_safe w'"
proof -
  note i = in_hands(1) [OF assms(1,2)]
  have w2: "ct_calls w2 = ct_calls w" "ct_requests w2 = ct_requests w" "ct_next w2 = ct_next w" "ct_depth w2 = ct_depth w"
      "ct_limit w2 = ct_limit w" "ct_count w2 = ct_count w" "ct_bytes w2 = ct_bytes w" "ct_closed w \<Longrightarrow> ct_closed w2"
    using assms(5) by (auto simp: stop_requests_def)
  have h: "count_held (f (ct_calls w i)) = count_held (ct_calls w i)" "bytes_held (f (ct_calls w i)) = bytes_held (ct_calls w i)"
    using assms(7,8) by (simp_all add: count_held_def bytes_held_def)
  show ?thesis
    by (rule safe_dispatcher_update [OF assms(1) i assms(2)])
      (use assms(3,4,6-10) w2 h safe_holds(5,6) [OF assms(1) i] in auto)
qed

lemma update_call_id: "update_call i (\<lambda>r. r) w = w"
  by (simp add: update_call_def)

lemma caller_safe_moves:
  assumes "caller_safe (InHands d) r" and "may_be_written (InHands d') r \<Longrightarrow> may_be_written (InHands d) r"
  shows "caller_safe (InHands d') r"
  using assms by (auto simp: caller_safe_def split: caller_pc.splits)

lemma moves_on:
  assumes "control_safe w" and "busy_with (ct_pc w) = Some i" and "busy_with pc = Some i"
    and "w2 = w \<or> w2 = stop_requests e w"
    and "\<forall>j v. pc \<in> {DReleases j v DrainsOn, DStores j v DrainsOn, DSends j v DrainsOn} \<longrightarrow> ct_closed w"
    and "busy_safe pc (ct_calls w i)"
    and "may_be_written (InHands pc) (ct_calls w i) \<Longrightarrow> may_be_written (InHands (ct_pc w)) (ct_calls w i)"
  shows "control_safe (dispatcher_at pc w2)"
proof (rule hands_on [where f = "\<lambda>r. r", OF assms(1-3) _ assms(4)])
  show "caller_safe (InHands pc) (ct_calls w i)"
    using in_hands(4) [OF assms(1,2)] assms(7) by (rule caller_safe_moves)
qed (use assms in \<open>simp_all add: update_call_id\<close>)

lemma honest_replies [simp]:
  "honest (deliver_reply p r (Some e) EffectNotSent) written \<longleftrightarrow> \<not> written"
  "honest (deliver_reply p r (Some e) EffectUnknown) written"
  "written \<Longrightarrow> honest (deliver_reply p r eo (answer_effect eo)) written"
  by (cases eo; simp add: honest_def answer_effect_def)+

lemma deliver_step_safe:
  assumes "deliver_step w w'" and "control_safe w"
  shows "control_safe w'"
  using assms(1)
proof cases
  case (releases i v fin)
  then have b: "busy_with (ct_pc w) = Some i" by simp
  note h = in_hands [OF assms(2) b]
  have c: "caller_safe (InHands (DStores i v fin)) ((ct_calls w i)\<lparr>rq_holds := HoldsNone\<rparr>)"
    using h(4) releases(2) by (auto simp: caller_safe_def split: caller_pc.splits)
  have d: "fin = DrainsOn \<Longrightarrow> ct_closed w"
    using safe_holds(4) [OF assms(2) h(1)] releases(2) by (auto simp: queue_safe_def)
  show ?thesis
    unfolding releases(1)
    by (rule safe_dispatcher_update [OF assms(2) h(1) b])
      (use h(3) c d releases(2) safe_holds(5-7) [OF assms(2) h(1)] in \<open>auto simp: count_held_def bytes_held_def\<close>)
next
  case (stores i v fin)
  then have b: "busy_with (ct_pc w) = Some i" by simp
  note h = in_hands [OF assms(2) b]
  have c: "caller_safe (InHands (DSends i v fin)) ((ct_calls w i)\<lparr>rq_state := requestDelivered\<rparr>)"
    using h(4) stores(2) by (auto simp: caller_safe_def split: caller_pc.splits)
  have d: "fin = DrainsOn \<Longrightarrow> ct_closed w"
    using safe_holds(4) [OF assms(2) h(1)] stores(2) by (auto simp: queue_safe_def)
  show ?thesis
    unfolding stores(1)
    by (rule hands_on [OF assms(2) b _ refl disjI1 [OF refl]])
      (use h(3) c d stores(2) in auto)
next
  case (sends i v fin)
  then have b: "busy_with (ct_pc w) = Some i" by simp
  note h = in_hands [OF assms(2) b]
  have c: "caller_safe Answered ((ct_calls w i)\<lparr>rq_result := Some v\<rparr>)"
    using h(3,4) sends(2) by (auto simp: caller_safe_def split: caller_pc.splits)
  have d: "fin = DrainsOn \<Longrightarrow> ct_closed w"
    using safe_holds(4) [OF assms(2) h(1)] sends(2) by (auto simp: queue_safe_def)
  have r: "busy_with (resume fin) = None" "resume fin \<noteq> DDone" "resume fin = DDrains \<longleftrightarrow> fin = DrainsOn"
      "resume fin \<notin> {DReleases j v' DrainsOn, DStores j v' DrainsOn, DSends j v' DrainsOn}" for j v'
    by (cases fin; simp)+
  show ?thesis
    unfolding sends(1)
    by (rule safe_dispatcher_update [OF assms(2) h(1) b])
      (use h(3) c d r sends(2) safe_holds(5-7) [OF assms(2) h(1)] in \<open>auto simp: answered_safe_def\<close>)
qed

lemma dispatchRequest_safe:
  assumes "dispatchRequest w w'" and "control_safe w"
  shows "control_safe w'"
  using assms(1)
proof cases
  case (is_closed i e)
  then have b: "busy_with (ct_pc w) = Some i" by simp
  show ?thesis
    unfolding is_closed(1) deliver_def
    by (rule moves_on [OF assms(2) b _ disjI1 [OF refl]])
      (use in_hands(3) [OF assms(2) b] is_closed(2) in \<open>auto simp: untouched_def\<close>)
next
  case (is_open i)
  then have b: "busy_with (ct_pc w) = Some i" by simp
  show ?thesis
    unfolding is_open(1)
    by (rule moves_on [OF assms(2) b _ disjI1 [OF refl]]) (use in_hands(3) [OF assms(2) b] is_open(2) in auto)
next
  case (is_done i)
  then have b: "busy_with (ct_pc w) = Some i" by simp
  show ?thesis
    unfolding is_done(1) deliver_def
    by (rule moves_on [OF assms(2) b _ disjI1 [OF refl]])
      (use in_hands(3) [OF assms(2) b] is_done(2) in \<open>auto simp: untouched_def\<close>)
next
  case (is_alive i)
  then have b: "busy_with (ct_pc w) = Some i" by simp
  show ?thesis
    unfolding is_alive(1)
    by (rule moves_on [OF assms(2) b _ disjI1 [OF refl]]) (use in_hands(3) [OF assms(2) b] is_alive(2) in auto)
next
  case (swaps i)
  then have b: "busy_with (ct_pc w) = Some i" by simp
  note h = in_hands [OF assms(2) b]
  have c: "caller_safe (InHands (DFlight i)) ((ct_calls w i)\<lparr>rq_state := requestInFlight\<rparr>)"
    using h(3,4) swaps(2,3) by (auto simp: caller_safe_def untouched_def split: caller_pc.splits)
  show ?thesis
    unfolding swaps(1)
    by (rule hands_on [OF assms(2) b _ refl disjI1 [OF refl]])
      (use h(3) c swaps(2) in \<open>auto simp: untouched_def\<close>)
next
  case (swap_fails i)
  then have b: "busy_with (ct_pc w) = Some i" by simp
  show ?thesis
    unfolding swap_fails(1) deliver_def
    by (rule moves_on [OF assms(2) b _ disjI1 [OF refl]])
      (use in_hands(3) [OF assms(2) b] swap_fails(2) in \<open>auto simp: untouched_def\<close>)
next
  case (wire_fails i random e)
  then have b: "busy_with (ct_pc w) = Some i" by simp
  show ?thesis
    unfolding wire_fails(1) deliver_def
    by (rule moves_on [OF assms(2) b _ disjI1 [OF refl]])
      (use in_hands(3) [OF assms(2) b] wire_fails(2) in auto)
next
  case (wire_built i random payload nonce)
  then have b: "busy_with (ct_pc w) = Some i" by simp
  show ?thesis
    unfolding wire_built(1)
    by (rule moves_on [OF assms(2) b _ disjI1 [OF refl]]) (use in_hands(3) [OF assms(2) b] wire_built(2) in auto)
next
  case (writes i payload nonce)
  then have b: "busy_with (ct_pc w) = Some i" by simp
  note h = in_hands [OF assms(2) b]
  have c: "caller_safe (InHands (DSent i nonce)) ((ct_calls w i)\<lparr>rq_written := True\<rparr>)"
    using h(3,4) writes(2) by (auto simp: caller_safe_def honest_def split: caller_pc.splits)
  show ?thesis
    unfolding writes(1)
    by (rule hands_on [OF assms(2) b _ refl disjI1 [OF refl]]) (use h(3) c writes(2) in auto)
next
  case (write_fails i payload nonce e)
  then have b: "busy_with (ct_pc w) = Some i" by simp
  note h = in_hands [OF assms(2) b]
  let ?pc = "DReleases i (deliver_reply (rq_plan (ct_calls w i)) failedResult (Some e) EffectUnknown) Returns"
  have c: "caller_safe (InHands ?pc) ((ct_calls w i)\<lparr>rq_written := True\<rparr>)"
    using h(3,4) write_fails(2) by (auto simp: caller_safe_def honest_def split: caller_pc.splits)
  have w': "w' = dispatcher_at ?pc (update_call i (\<lambda>r. r\<lparr>rq_written := True\<rparr>) (stop_requests (Some e) w))"
    unfolding write_fails(1) deliver_def by (simp add: stop_requests_def)
  show ?thesis
    by (rule hands_on [OF assms(2) b _ w' disjI2 [OF refl]]) (use h(3) c write_fails(2) in auto)
next
  case (collects i nonce inputs r e)
  then have b: "busy_with (ct_pc w) = Some i" by simp
  show ?thesis
    unfolding collects(1) deliver_def
    by (rule moves_on [OF assms(2) b, where e = "join_errs [Some (Sentinel ErrProtocol), Some (Sentinel ErrShutdownIncomplete)]"])
      (use in_hands(3) [OF assms(2) b] collects(2) in \<open>auto simp: stop_requests_def\<close>)
qed

text \<open>Nobody has a request in hands that is still on the queue.\<close>

lemma safe_idle_update:
  assumes "control_safe w" and "busy_with (ct_pc w) = None" and "w' = dispatcher_at pc (if s then stop_requests e w else w)"
    and "busy_with pc = None" and "pc = DDone \<longrightarrow> ct_requests w = []" and "pc \<in> {DDrains, DDone} \<longrightarrow> s \<or> ct_closed w"
  shows "control_safe w'"
proof -
  have w': "ct_calls w' = ct_calls w" "ct_requests w' = ct_requests w" "ct_next w' = ct_next w" "ct_depth w' = ct_depth w"
      "ct_limit w' = ct_limit w" "ct_count w' = ct_count w" "ct_bytes w' = ct_bytes w" "ct_pc w' = pc"
      "ct_closed w' \<longleftrightarrow> s \<or> ct_closed w"
    using assms(3) by (auto simp: stop_requests_def)
  have "place_of w' j = place_of w j" for j
    using assms(2,4) by (simp add: place_of_def w')
  moreover have "queue_safe w'"
    using assms(1,2,4-6) by (auto simp: control_safe_def queue_safe_def w')
  ultimately show ?thesis
    using assms(1) by (simp add: control_safe_def call_safe_def capacity_safe_def w')
qed

lemma take_safe:
  assumes "control_safe w" and "busy_with (ct_pc w) = None" and "ct_requests w = i # rest"
    and "busy_with pc = Some i" and "untouched (ct_calls w i) \<Longrightarrow> busy_safe pc (ct_calls w i)"
    and "may_be_written (InHands pc) (ct_calls w i) \<Longrightarrow> rq_state (ct_calls w i) \<noteq> requestCanceled"
    and "\<forall>j v. pc \<in> {DReleases j v DrainsOn, DStores j v DrainsOn, DSends j v DrainsOn} \<longrightarrow> ct_closed w"
  shows "control_safe (dispatcher_at pc (w\<lparr>ct_requests := rest\<rparr>))" (is "control_safe ?w")
proof -
  have q: "queue_safe w" using assms(1) by (simp add: control_safe_def)
  then have i: "i < ct_next w" "i \<notin> set rest" using assms(3) by (auto simp: queue_safe_def)
  note h = safe_holds [OF assms(1) i(1)]
  have pl: "place_of w i = OnQueue" using assms(3) by (simp add: place_of_def)
  show ?thesis
  proof (rule safe_update [OF assms(1) i(1)])
    show "place_of ?w j = place_of w j" if "j \<noteq> i" for j
      using that assms(2-4) by (intro place_taken_other) auto
    have "caller_safe (InHands pc) (ct_calls w i)"
      using h(3) assms(6) unfolding pl by (auto simp: caller_safe_def split: caller_pc.splits)
    moreover have "busy_safe pc (ct_calls w i)" using h(2) pl assms(5) by simp
    ultimately show "call_safe ?w i" using assms(4) i(2) by (simp add: call_safe_def place_of_def)
    show "queue_safe ?w" using q assms(2-4,7) by (auto simp: queue_safe_def)
  qed (use h(5,6) in auto)
qed

lemma dispatch_safe:
  assumes "dispatch w w'" and "control_safe w"
  shows "control_safe w'"
  using assms(1)
proof cases
  case handshake
  then show ?thesis by (auto intro!: safe_idle_update [OF assms(2), where s = False])
next
  case (handshake_fails e)
  then show ?thesis by (auto intro!: safe_idle_update [OF assms(2), where s = True and e = "Some e"])
next
  case context_done
  then show ?thesis by (auto intro!: safe_idle_update [OF assms(2), where s = False])
next
  case (takes i rest)
  then show ?thesis by (auto intro!: take_safe [OF assms(2)])
next
  case handles
  then show ?thesis using assms(2) by (rule dispatchRequest_safe)
next
  case delivers
  then show ?thesis using assms(2) by (rule deliver_step_safe)
next
  case (deferred_stop cause)
  then show ?thesis by (auto intro!: safe_idle_update [OF assms(2), where s = True and e = cause])
next
  case drains
  then show ?thesis
  proof cases
    case (drain i rest e)
    then have "ct_closed w" by (simp add: closed_error_def split: if_splits)
    with drain have "control_safe (dispatcher_at (DReleases i (deliver_reply (rq_plan (ct_calls w i)) failedResult (Some e)
        EffectNotSent) DrainsOn) (w\<lparr>ct_requests := rest\<rparr>))"
      by (intro take_safe [OF assms(2)]) (auto simp: untouched_def)
    with drain(1) show ?thesis by (simp add: deliver_def)
  next
    case drained
    moreover have "ct_closed w"
      using drained(2) assms(2) by (simp add: control_safe_def queue_safe_def)
    ultimately show ?thesis by (auto intro!: safe_idle_update [OF assms(2), where s = False])
  qed
qed

lemma begin_run_safe:
  assumes "control_safe w" and "0 \<le> n"
  shows "control_safe (begin_run p n out errs callerDone w)" (is "control_safe ?w")
proof -
  let ?r = "ct_calls ?w (ct_next w)"
  have q: "queue_safe w" using assms(1) by (simp add: control_safe_def)
  have out: "ct_next w \<notin> set (ct_requests w)" "busy_with (ct_pc w) \<noteq> Some (ct_next w)"
    using q by (auto simp: queue_safe_def)
  have w: "ct_requests ?w = ct_requests w" "ct_pc ?w = ct_pc w" "ct_closed ?w = ct_closed w" "ct_depth ?w = ct_depth w"
      "ct_limit ?w = ct_limit w" "ct_count ?w = ct_count w" "ct_bytes ?w = ct_bytes w" "ct_next ?w = Suc (ct_next w)"
      "\<And>j. j \<noteq> ct_next w \<Longrightarrow> ct_calls ?w j = ct_calls w j"
    by (simp_all add: begin_run_def)
  have r: "count_held ?r = 0" "bytes_held ?r = 0" "rq_bytes ?r = n" "rq_enqueued ?r = False"
    by (simp_all add: begin_run_def new_request_def count_held_def bytes_held_def)
  have "call_safe ?w i" if "i < Suc (ct_next w)" for i
  proof (cases "i = ct_next w")
    case True
    have "place_of ?w (ct_next w) = Outside" using out r(4) by (simp add: place_of_def w)
    moreover have "run_refusal p n (ct_limit w) callerDone = Some v \<Longrightarrow> reply_effect v = EffectNotSent" for v
      by (auto simp: run_refusal_def Let_def split: if_splits)
    ultimately show ?thesis
      using True
      by (auto simp: call_safe_def outside_safe_def caller_safe_def honest_def begin_run_def new_request_def
          split: option.splits)
  next
    case False
    then have "place_of ?w i = place_of w i" by (simp add: place_of_def w)
    with False that assms(1) show ?thesis by (simp add: call_safe_def control_safe_def w)
  qed
  moreover have "queue_safe ?w"
    using q by (auto simp: queue_safe_def w split: option.splits)
  moreover have "capacity_safe ?w"
  proof -
    have "(\<Sum>j < Suc (ct_next w). f (ct_calls ?w j)) = (\<Sum>j < ct_next w. f (ct_calls w j)) + f ?r"
      for f :: "controlRequest \<Rightarrow> int"
      by (simp add: w)
    with assms r show ?thesis
      by (auto simp: control_safe_def capacity_safe_def w less_Suc_eq)
  qed
  ultimately show ?thesis by (simp add: control_safe_def w)
qed

lemma stop_safe: "control_safe w \<Longrightarrow> control_safe (stop_requests e w)"
proof -
  assume a: "control_safe w"
  have "place_of (stop_requests e w) j = place_of w j" for j by (simp add: place_of_def stop_requests_def)
  with a show ?thesis
    by (auto simp: control_safe_def call_safe_def capacity_safe_def queue_safe_def stop_requests_def split: option.splits)
qed

lemma new_control_safe: "0 < depth \<Longrightarrow> 0 < limit \<Longrightarrow> control_safe (new_control depth limit)"
  by (simp add: control_safe_def new_control_def capacity_safe_def queue_safe_def)

lemma control_step_safe: "control_step w w' \<Longrightarrow> control_safe w \<Longrightarrow> control_safe w'"
  by (auto elim!: control_step.cases intro: begin_run_safe run_step_safe dispatch_safe stop_safe)

lemma control_reachable_safe: "control_reachable w \<Longrightarrow> control_safe w"
  by (induction rule: control_reachable.induct) (auto intro: new_control_safe control_step_safe)

subsection \<open>What a caller is told\<close>

lemma enqueueRequest_calls:
  "enqueueRequest i w = (e, w') \<Longrightarrow> j \<noteq> i \<Longrightarrow> ct_calls w' j = ct_calls w j"
  "enqueueRequest i w = (e, w') \<Longrightarrow> ct_next w' = ct_next w"
  by (auto simp: enqueueRequest_def split: if_splits)

lemma run_step_other:
  assumes "run_step i w w'"
  shows "j \<noteq> i \<Longrightarrow> ct_calls w' j = ct_calls w j" "ct_next w' = ct_next w" "\<nexists>v. rq_pc (ct_calls w i) = CReturned v"
    "ct_pc w' = ct_pc w" "ct_closed w' = ct_closed w" "ct_closed w \<Longrightarrow> ct_requests w' = ct_requests w"
  using assms
  by (induction rule: run_step.induct;
      auto simp: receive_result_def enqueueRequest_def releaseRequest_def split: if_splits
        elim!: acquireCapacity.cases abortRequest.cases)+

lemma stop_requests_simps [simp]:
  "ct_calls (stop_requests e w) = ct_calls w" "ct_next (stop_requests e w) = ct_next w"
  "ct_requests (stop_requests e w) = ct_requests w" "ct_pc (stop_requests e w) = ct_pc w" "ct_closed (stop_requests e w)"
  by (simp_all add: stop_requests_def)

lemma deliver_simps [simp]:
  "ct_calls (deliver i r e eff fin w) = ct_calls w" "ct_next (deliver i r e eff fin w) = ct_next w"
  "ct_requests (deliver i r e eff fin w) = ct_requests w" "ct_closed (deliver i r e eff fin w) = ct_closed w"
  "ct_pc (deliver i r e eff fin w) = DReleases i (deliver_reply (rq_plan (ct_calls w i)) r e eff) fin"
  by (simp_all add: deliver_def)

lemma dispatch_pcs: "dispatch w w' \<Longrightarrow> rq_pc (ct_calls w' j) = rq_pc (ct_calls w j) \<and> ct_next w' = ct_next w"
  by (auto elim!: dispatch.cases dispatchRequest.cases deliver_step.cases drainRequests.cases)

lemma returned_stays:
  assumes "control_step w w'" and "i < ct_next w" and "rq_pc (ct_calls w i) = CReturned v"
  shows "i < ct_next w' \<and> rq_pc (ct_calls w' i) = CReturned v"
  using assms(1)
proof cases
  case (caller j)
  then have "i \<noteq> j" using run_step_other(3) assms(3) by blast
  with caller show ?thesis using run_step_other(1,2) assms(2,3) by simp
next
  case dispatcher
  then show ?thesis using dispatch_pcs assms(2,3) by simp
qed (use assms in \<open>auto simp: begin_run_def\<close>)

lemma later_reachable: "control_step\<^sup>*\<^sup>* w w' \<Longrightarrow> control_reachable w \<Longrightarrow> control_reachable w'"
  by (induction rule: rtranclp_induct) (auto intro: control_next)

text \<open>C18: What \<open>run\<close> tells its caller is true for good. However callers, the dispatcher and the stop of the
  connection interleave: when a call returned a result that says the command was not sent, the dispatcher
  has not begun to write it and never will; when it returned a confirmed result, it was written.\<close>

theorem run_tells_the_truth:
  assumes "control_reachable w" and "i < ct_next w" and "rq_pc (ct_calls w i) = CReturned v"
    and "control_step\<^sup>*\<^sup>* w w'"
  shows "rq_pc (ct_calls w' i) = CReturned v \<and>
    (reply_effect v = EffectNotSent \<longrightarrow> \<not> rq_written (ct_calls w' i)) \<and>
    (reply_effect v = EffectConfirmed \<longrightarrow> rq_written (ct_calls w' i))"
proof -
  have r: "i < ct_next w' \<and> rq_pc (ct_calls w' i) = CReturned v"
    using assms(4,2,3) by (induction rule: rtranclp_induct) (auto dest: returned_stays)
  moreover have "control_safe w'"
    using later_reachable [OF assms(4,1)] by (rule control_reachable_safe)
  ultimately show ?thesis
    using safe_holds(3) [of w' i] by (auto simp: caller_safe_def honest_def)
qed

lemma run_tells_the_truth_witness:
  "\<exists>w. control_reachable w \<and> 0 < ct_next w \<and>
     (\<forall>w'. control_step\<^sup>*\<^sup>* w w' \<longrightarrow> \<not> rq_written (ct_calls w' 0))"
proof -
  let ?p = "plainPlan \<lparr>cmd_name = ''ls'', cmd_args = []\<rparr>"
  let ?w = "begin_run ?p 3 0 0 False (new_control 1 200)"
  have w: "control_reachable ?w"
    by (rule control_next [OF control_start call_begins]) simp_all
  obtain v where v: "rq_pc (ct_calls ?w 0) = CReturned v" "reply_effect v = EffectNotSent"
    by (auto simp: begin_run_def new_control_def new_request_def run_refusal_def plainPlan_def)
  have n: "0 < ct_next ?w" by (simp add: begin_run_def)
  have "\<not> rq_written (ct_calls w' 0)" if "control_step\<^sup>*\<^sup>* ?w w'" for w'
    using run_tells_the_truth [OF w n v(1) that] v(2) by simp
  with w n show ?thesis by blast
qed

subsection \<open>Capacity\<close>

lemma sum_card:
  "finite A \<Longrightarrow> B \<subseteq> A \<Longrightarrow> (\<And>i. i \<in> B \<Longrightarrow> f i = (1::int)) \<Longrightarrow> (\<And>i. i \<in> A \<Longrightarrow> 0 \<le> f i) \<Longrightarrow> int (card B) \<le> sum f A"
proof -
  assume a: "finite A" "B \<subseteq> A" "\<And>i. i \<in> B \<Longrightarrow> f i = 1" "\<And>i. i \<in> A \<Longrightarrow> 0 \<le> f i"
  then have "int (card B) = sum f B" by simp
  also have "\<dots> \<le> sum f A" using a by (intro sum_mono2) auto
  finally show ?thesis .
qed

lemma count_held_nonneg: "0 \<le> count_held r"
  by (simp add: count_held_def)

lemma queue_has_room:
  assumes "control_safe w" "i < ct_next w" "rq_pc (ct_calls w i) = CAcquired"
  shows "int (length (ct_requests w)) < ct_depth w"
proof -
  have o: "place_of w i = Outside" "outside_safe (ct_calls w i)"
    using begins_outside [OF assms(1,2)] assms(3) by auto
  then have i: "i \<notin> set (ct_requests w)" "count_held (ct_calls w i) = 1"
    using assms(3) by (auto simp: place_of_def outside_safe_def count_held_def split: if_splits)
  have q: "distinct (ct_requests w)" "set (ct_requests w) \<subseteq> {..< ct_next w}"
    using assms(1) by (auto simp: control_safe_def queue_safe_def)
  have held: "count_held (ct_calls w j) = 1" if "j \<in> set (ct_requests w)" for j
  proof -
    have "place_of w j = OnQueue" using that by (simp add: place_of_def)
    with safe_holds(2) [OF assms(1), of j] q(2) that show ?thesis
      by (auto simp: untouched_def count_held_def)
  qed
  have "int (card (insert i (set (ct_requests w)))) \<le> (\<Sum>j < ct_next w. count_held (ct_calls w j))"
    using assms(2) i(2) q(2) held count_held_nonneg by (intro sum_card) auto
  also have "\<dots> \<le> ct_depth w"
    using assms(1) by (simp add: control_safe_def capacity_safe_def)
  finally show ?thesis
    using i(1) q(1) by (simp add: distinct_card)
qed

definition all_returned :: "control \<Rightarrow> bool" where
  "all_returned w \<longleftrightarrow> (\<forall>i < ct_next w. \<exists>v. rq_pc (ct_calls w i) = CReturned v)"

lemma nothing_held:
  assumes "control_safe w" and "all_returned w" and "ct_requests w = []" and "busy_with (ct_pc w) = None"
  shows "ct_count w = 0" "ct_bytes w = 0"
proof -
  have "rq_holds (ct_calls w i) = HoldsNone" if i: "i < ct_next w" for i
    using safe_holds(2) [OF assms(1) i] assms(2-4) i
    by (auto simp: place_of_def all_returned_def outside_safe_def answered_safe_def split: if_splits)
  then have "(\<Sum>i < ct_next w. count_held (ct_calls w i)) = 0" "(\<Sum>i < ct_next w. bytes_held (ct_calls w i)) = 0"
    by (simp_all add: count_held_def bytes_held_def)
  then show "ct_count w = 0" "ct_bytes w = 0"
    using assms(1) by (simp_all add: control_safe_def capacity_safe_def)
qed

text \<open>C20: The two limits of a connection hold at every moment, with any number of callers: the requests
  admitted are at most the queue depth, and their bytes at most the queued bytes. A request that has
  acquired its capacity always finds room on the channel, so that enqueueing never fails for lack of room;
  and when all calls have returned and the dispatcher rests, all capacity is free again.\<close>

theorem capacity_is_kept:
  assumes "control_reachable w"
  shows "0 \<le> ct_count w \<and> ct_count w \<le> ct_depth w \<and> 0 \<le> ct_bytes w \<and> ct_bytes w \<le> ct_limit w \<and>
    (\<forall>i < ct_next w. rq_pc (ct_calls w i) = CAcquired \<longrightarrow> fst (enqueueRequest i w) \<noteq> Some (Sentinel ErrResourceLimit)) \<and>
    (all_returned w \<and> ct_requests w = [] \<and> busy_with (ct_pc w) = None \<longrightarrow> ct_count w = 0 \<and> ct_bytes w = 0)"
proof -
  have s: "control_safe w" using assms by (rule control_reachable_safe)
  then have c: "capacity_safe w" by (simp add: control_safe_def)
  then have "0 \<le> ct_count w" "0 \<le> ct_bytes w"
    by (auto simp: capacity_safe_def count_held_def bytes_held_def intro!: sum_nonneg)
  moreover have "fst (enqueueRequest i w) \<noteq> Some (Sentinel ErrResourceLimit)"
    if "i < ct_next w" "rq_pc (ct_calls w i) = CAcquired" for i
    using queue_has_room [OF s that] by (auto simp: enqueueRequest_def join_errs_def)
  ultimately show ?thesis
    using c nothing_held [OF s] by (simp add: capacity_safe_def)
qed

lemma capacity_is_kept_witness:
  "ct_count (new_control 4 4096) = 0 \<and> ct_bytes (new_control 4 4096) \<le> 4096"
proof -
  have "control_reachable (new_control 4 4096)" by (rule control_start) auto
  from capacity_is_kept [OF this] show ?thesis
    by (simp add: all_returned_def new_control_def)
qed

subsection \<open>The dispatcher finishes\<close>

fun rest_rank :: "afterwards \<Rightarrow> nat" where
  "rest_rank GoesOn = 3"
| "rest_rank Returns = 2"
| "rest_rank DrainsOn = 1"

fun pc_rank :: "dispatcher_pc \<Rightarrow> nat" where
  "pc_rank DDone = 0"
| "pc_rank DDrains = 1"
| "pc_rank DStops = 2"
| "pc_rank DIdle = 3"
| "pc_rank DStarts = 4"
| "pc_rank (DSends i v fin) = rest_rank fin + 1"
| "pc_rank (DStores i v fin) = rest_rank fin + 2"
| "pc_rank (DReleases i v fin) = rest_rank fin + 3"
| "pc_rank (DSent i nonce) = 7"
| "pc_rank (DBuilt i payload nonce) = 8"
| "pc_rank (DFlight i) = 9"
| "pc_rank (DAlive i) = 10"
| "pc_rank (DOpen i) = 11"
| "pc_rank (DTook i) = 12"

definition dispatcher_left :: "control \<Rightarrow> nat" where
  "dispatcher_left w = 10 * length (ct_requests w) + pc_rank (ct_pc w)"

lemma resume_rank: "pc_rank (resume fin) = rest_rank fin"
  by (cases fin) simp_all

lemma dispatch_decreases: "dispatch w w' \<Longrightarrow> dispatcher_left w' < dispatcher_left w"
  by (auto simp: dispatcher_left_def releaseRequest_def resume_rank
      elim!: dispatch.cases dispatchRequest.cases deliver_step.cases drainRequests.cases)

lemma dispatch_keeps_closed: "dispatch w w' \<Longrightarrow> ct_closed w \<Longrightarrow> ct_closed w'"
  by (auto simp: releaseRequest_def stop_requests_def
      elim!: dispatch.cases dispatchRequest.cases deliver_step.cases drainRequests.cases)

lemma closed_step:
  assumes "control_step w w'" and "ct_closed w"
  shows "ct_closed w' \<and> dispatcher_left w' \<le> dispatcher_left w"
  using assms(1)
proof cases
  case (caller i)
  with assms(2) run_step_other [OF caller(2)] show ?thesis by (simp add: dispatcher_left_def)
next
  case dispatcher
  with assms(2) dispatch_decreases dispatch_keeps_closed show ?thesis by (auto intro: less_imp_le)
qed (use assms in \<open>auto simp: begin_run_def dispatcher_left_def\<close>)

text \<open>The dispatcher is never stuck once the connection is closed: the answer that it waits for ends with
  the stop of the connection.\<close>

lemma closed_dispatch:
  assumes "control_safe w" and "ct_closed w" and "ct_pc w \<noteq> DDone"
  shows "\<exists>w'. dispatch w w'"
proof -
  obtain e where e: "closed_error w = Some e"
    using assms(2) by (auto simp: closed_error_def join_errs_def)
  show ?thesis
  proof (cases "ct_pc w")
    case (DFlight i)
    then show ?thesis
      by (cases "buildRequestWire (rq_plan (ct_calls w i)) (rq_bytes (ct_calls w i)) (Inr [])")
        (auto dest: handles [OF wire_fails] handles [OF wire_built])
  next
    case (DSent i nonce)
    have "collected nonce (ct_calls w i) [ConnStopped (closed_error w)]
        (fst collect_start, join2 None (closed_error w))"
      by (simp add: collected_def collect_start_def)
    with DSent show ?thesis using handles [OF collects] by blast
  next
    case (DSends i v fin)
    then have "rq_result (ct_calls w i) = None"
      using in_hands(3) [OF assms(1), of i] by simp
    with DSends show ?thesis using delivers [OF sends] by blast
  next
    case DDrains
    with e show ?thesis
      by (cases "ct_requests w") (blast intro: drains [OF drain] drains [OF drained])+
  qed (use assms e in \<open>blast intro: dispatch.intros dispatchRequest.intros deliver_step.intros\<close>)+
qed

lemma done_answers:
  assumes "control_safe w" and "ct_pc w = DDone" and "i < ct_next w" and "waiting (rq_pc (ct_calls w i))"
  shows "\<exists>v. rq_result (ct_calls w i) = Some v"
proof -
  have "place_of w i \<in> {Answered, Outside}"
    using assms(1,2) by (auto simp: place_of_def control_safe_def queue_safe_def)
  with waiting_place [OF safe_holds(2) [OF assms(1,3)] assms(4)] show ?thesis by auto
qed

text \<open>C19: Once a connection is closed its dispatcher comes to an end and leaves no caller behind. A closed
  connection stays closed; no step of anyone gives the dispatcher more to do, each of its own steps gives
  it less, and until it is done it always has a step to take; and when it is done, every caller that still
  waits has its reply. A caller that saw its request delivered waits only for the send that is next.\<close>

theorem dispatcher_leaves_nobody:
  assumes "control_reachable w" and "ct_closed w"
  shows "(\<forall>w'. control_step w w' \<longrightarrow> ct_closed w' \<and> dispatcher_left w' \<le> dispatcher_left w) \<and>
    (\<forall>w'. dispatch w w' \<longrightarrow> dispatcher_left w' < dispatcher_left w) \<and>
    (ct_pc w = DDone \<or> (\<exists>w'. dispatch w w')) \<and>
    (ct_pc w = DDone \<longrightarrow> (\<forall>i < ct_next w. waiting (rq_pc (ct_calls w i)) \<longrightarrow> rq_result (ct_calls w i) \<noteq> None)) \<and>
    (\<forall>i < ct_next w. rq_pc (ct_calls w i) = CAwaits \<longrightarrow>
       rq_result (ct_calls w i) \<noteq> None \<or> (\<exists>v fin. ct_pc w = DSends i v fin))"
proof -
  have s: "control_safe w" using assms(1) by (rule control_reachable_safe)
  have "rq_result (ct_calls w i) \<noteq> None \<or> (\<exists>v fin. ct_pc w = DSends i v fin)"
    if "i < ct_next w" "rq_pc (ct_calls w i) = CAwaits" for i
  proof -
    have p: "place_safe (place_of w i) (ct_calls w i)" "rq_state (ct_calls w i) = requestDelivered"
      using safe_holds(2,3) [OF s that(1)] that(2) by (auto simp: caller_safe_def)
    show ?thesis
    proof (cases "place_of w i")
      case (InHands d)
      then have d: "ct_pc w = d" "busy_with d = Some i" by (auto simp: place_of_def split: if_splits)
      from p InHands have "busy_safe d (ct_calls w i)" by simp
      with p(2) d show ?thesis by (cases d) (auto simp: untouched_def)
    qed (use p that waiting_place [OF p(1)] in \<open>auto simp: untouched_def\<close>)
  qed
  moreover have "\<forall>w'. control_step w w' \<longrightarrow> ct_closed w' \<and> dispatcher_left w' \<le> dispatcher_left w"
    using closed_step assms(2) by blast
  moreover have "ct_pc w = DDone \<longrightarrow> (\<forall>i < ct_next w. waiting (rq_pc (ct_calls w i)) \<longrightarrow> rq_result (ct_calls w i) \<noteq> None)"
    using done_answers [OF s] by blast
  ultimately show ?thesis
    using dispatch_decreases closed_dispatch [OF s assms(2)] by blast
qed

lemma dispatcher_leaves_nobody_witness:
  "\<exists>w'. dispatch (stop_requests None (new_control 4 4096)) w' \<and>
     dispatcher_left w' < dispatcher_left (stop_requests None (new_control 4 4096))"
proof -
  have "control_reachable (stop_requests None (new_control 4 4096))"
    by (rule control_next [OF control_start stop]) simp_all
  from dispatcher_leaves_nobody [OF this] show ?thesis
    by (auto simp: new_control_def)
qed

end
