(* ===== verification/Tmux_Handles.thy ===== *)
theory Tmux_Handles
  imports Execute Tmux_Ids
begin

text \<open>
  \<open>tmux/handles.go\<close>: handles to sessions, windows, panes, clients and window links, their checks, and
  the guard that binds what they do to the daemon where they were observed. A control connection is its
  generation; whether it is still open is a field of \<open>call_env\<close> each time it is asked.
\<close>

subsection \<open>Handles\<close>

record handle =
  h_server :: "server option"
  h_origin :: server_identity
  h_id :: bytes
  h_kind :: object_kind
  h_client :: clientCheck

definition no_client :: clientCheck where
  "no_client = \<lparr>cc_name = [], cc_pid = 0, cc_created = 0\<rparr>"

definition zeroHandle :: handle where
  "zeroHandle = \<lparr>h_server = None, h_origin = zero_identity, h_id = [], h_kind = KindOther [], h_client = no_client\<rparr>"

definition id_Valid :: "object_kind \<Rightarrow> bytes \<Rightarrow> bool" where
  "id_Valid kind i =
     (case kind of
        ObjectKindSession \<Rightarrow> SessionID_Valid i
      | ObjectKindWindow \<Rightarrow> WindowID_Valid i
      | ObjectKindPane \<Rightarrow> PaneID_Valid i
      | ObjectKindClient \<Rightarrow> ClientName_Valid i
      | _ \<Rightarrow> False)"

definition handle_valid :: "handle \<Rightarrow> bool" where
  "handle_valid h \<longleftrightarrow>
     \<not> (h_server h = None \<or> (\<not> identity_isZero (h_origin h) \<and> \<not> identity_valid (h_origin h))) \<and>
     id_Valid (h_kind h) (h_id h)"

definition unprobedHandle :: "server option \<Rightarrow> bytes \<Rightarrow> object_kind \<Rightarrow> handle" where
  "unprobedHandle s i kind = \<lparr>h_server = s, h_origin = zero_identity, h_id = i, h_kind = kind, h_client = no_client\<rparr>"

definition newHandle :: "server \<Rightarrow> bytes \<Rightarrow> object_kind \<Rightarrow> server_identity \<Rightarrow> handle" where
  "newHandle s i kind origin = \<lparr>h_server = Some s, h_origin = origin, h_id = i, h_kind = kind, h_client = no_client\<rparr>"

definition handle_check :: "call_env \<Rightarrow> handle \<Rightarrow> goerr option" where
  "handle_check env h =
     (if \<not> handle_valid h then Some (Sentinel ErrInvalidHandle)
      else (case h_server h of
          None \<Rightarrow> Some (Sentinel ErrInvalidHandle)
        | Some s \<Rightarrow>
            if identity_valid (h_origin h) \<and>
               (srv_endpoint s \<noteq> id_endpoint (h_origin h) \<or>
                (case srv_conn s of Some gen \<Rightarrow> gen \<noteq> id_generation (h_origin h) | None \<Rightarrow> False))
            then Some (Sentinel ErrInvalidHandle)
            else if srv_lifetime s \<noteq> None then ce_lifetime_check env
            else None))"

definition expectedOrigin :: "handle \<Rightarrow> server_identity option" where
  "expectedOrigin h =
     (if identity_valid (h_origin h) then Some (h_origin h)
      else case h_server h of Some s \<Rightarrow> srv_bound s | None \<Rightarrow> None)"

definition handle_guard :: "handle \<Rightarrow> guard option" where
  "handle_guard h =
     (if \<not> identity_valid (h_origin h) then
        (case h_server h of Some s \<Rightarrow> map_option newGuard (srv_bound s) | None \<Rightarrow> None)
      else let g = newGuard (h_origin h) in
        Some (if h_kind h = ObjectKindClient then g\<lparr>g_clients := [h_client h]\<rparr> else g))"

definition handle_equal :: "handle \<Rightarrow> handle \<Rightarrow> bool" where
  "handle_equal h other \<longleftrightarrow>
     handle_valid h \<and> handle_valid other \<and> h_kind h = h_kind other \<and> h_id h = h_id other \<and>
     map_option srv_endpoint (h_server h) = map_option srv_endpoint (h_server other) \<and>
     identity_Equal (h_origin h) (h_origin other) \<and> h_client h = h_client other"

definition withOrigin :: "handle \<Rightarrow> bytes \<Rightarrow> object_kind \<Rightarrow> handle" where
  "withOrigin h i kind =
     \<lparr>h_server = h_server h, h_origin = h_origin h, h_id = i, h_kind = kind, h_client = no_client\<rparr>"

text \<open>\<open>actWithin\<close>; the flag only chooses the deadline of the context.\<close>

definition actWithin :: "call_env \<Rightarrow> handle \<Rightarrow> bytes \<Rightarrow> bytes \<Rightarrow> bytes list \<Rightarrow> goerr option" where
  "actWithin env h label name args =
     (case handle_check env h of
        Some e \<Rightarrow> opError label (Some e)
      | None \<Rightarrow>
          (case begin_op env (h_server h) of
             Inl e \<Rightarrow> opError label (Some e)
           | Inr (s, op) \<Rightarrow>
               (case execute env s op (emptyPlan \<lparr>cmd_name = name, cmd_args = args\<rparr>) (handle_guard h) None of
                  ((r, err), op') \<Rightarrow> opError label err)))"

subsection \<open>Window links\<close>

record window_link =
  wl_h :: handle
  wl_session :: bytes
  wl_index :: int

definition link_Valid :: "window_link \<Rightarrow> bool" where
  "link_Valid l \<longleftrightarrow> handle_valid (wl_h l) \<and> h_kind (wl_h l) = ObjectKindWindow \<and> SessionID_Valid (wl_session l) \<and>
     0 \<le> wl_index l"

definition link_Equal :: "window_link \<Rightarrow> window_link \<Rightarrow> bool" where
  "link_Equal l other \<longleftrightarrow> link_Valid l \<and> link_Valid other \<and> handle_equal (wl_h l) (wl_h other) \<and>
     wl_session l = wl_session other \<and> wl_index l = wl_index other"

definition link_Window :: "window_link \<Rightarrow> handle" where
  "link_Window l = (if link_Valid l then wl_h l else zeroHandle)"

definition link_Session :: "window_link \<Rightarrow> handle" where
  "link_Session l = (if link_Valid l then withOrigin (wl_h l) (wl_session l) ObjectKindSession else zeroHandle)"

definition link_target :: "window_link \<Rightarrow> bytes" where
  "link_target l = wl_session l @ '':'' @ itoa (wl_index l)"

definition link_check :: "call_env \<Rightarrow> window_link \<Rightarrow> goerr option" where
  "link_check env l = (if link_Valid l then handle_check env (wl_h l) else Some (Sentinel ErrInvalidHandle))"

definition link_guard :: "window_link \<Rightarrow> guard" where
  "link_guard l =
     (let origin = h_origin (wl_h l);
          i = (if identity_valid origin then origin
               else case h_server (wl_h l) of
                   Some s \<Rightarrow> (case srv_bound s of Some b \<Rightarrow> b | None \<Rightarrow> origin)
                 | None \<Rightarrow> origin)
      in \<lparr>g_identity = i,
          g_links = [\<lparr>lc_session = wl_session l, lc_index = wl_index l, lc_window = h_id (wl_h l)\<rparr>],
          g_clients = []\<rparr>)"

definition link_act :: "call_env \<Rightarrow> window_link \<Rightarrow> bytes \<Rightarrow> bytes \<Rightarrow> bytes list \<Rightarrow> goerr option" where
  "link_act env l label name args =
     (case link_check env l of
        Some e \<Rightarrow> opError label (Some e)
      | None \<Rightarrow>
          (case begin_op env (h_server (wl_h l)) of
             Inl e \<Rightarrow> opError label (Some e)
           | Inr (s, op) \<Rightarrow>
               (case execute env s op (emptyPlan \<lparr>cmd_name = name, cmd_args = args\<rparr>) (Some (link_guard l)) None of
                  ((r, err), op') \<Rightarrow> opError label err)))"

subsection \<open>Two handles in one operation\<close>

text \<open>\<open>verified\<close> is the answer of \<open>verifiedInfo\<close> on the first server, and the operation after it.\<close>

type_synonym verified_identity = "server \<Rightarrow> operation \<Rightarrow> (goerr + server_identity) \<times> operation"

definition sharedHandleIdentity ::
  "verified_identity \<Rightarrow> operation \<Rightarrow> handle \<Rightarrow> handle \<Rightarrow> (goerr + server_identity) \<times> operation" where
  "sharedHandleIdentity verified op a b =
     (if identity_valid (h_origin a) then (Inr (h_origin a), op)
      else if identity_valid (h_origin b) then (Inr (h_origin b), op)
      else (case h_server a of
          None \<Rightarrow> (Inl (Sentinel ErrInvalidHandle), op)
        | Some s \<Rightarrow> (case srv_bound s of Some i \<Rightarrow> (Inr i, op) | None \<Rightarrow> verified s op)))"

text \<open>Both handles get the identity.\<close>

definition bind_both ::
  "verified_identity \<Rightarrow> handle \<Rightarrow> handle \<Rightarrow> server \<times> operation \<Rightarrow> goerr + (server \<times> operation) \<times> handle \<times> handle" where
  "bind_both verified a b so =
     (case sharedHandleIdentity verified (snd so) a b of
        (Inl e, op) \<Rightarrow> Inl e
      | (Inr i, op) \<Rightarrow> Inr ((fst so, op), a\<lparr>h_origin := i\<rparr>, b\<lparr>h_origin := i\<rparr>))"

definition beginHandles ::
  "call_env \<Rightarrow> verified_identity \<Rightarrow> handle \<Rightarrow> handle \<Rightarrow> goerr + (server \<times> operation) \<times> handle \<times> handle" where
  "beginHandles env verified a b =
     (case handle_check env a of Some e \<Rightarrow> Inl e | None \<Rightarrow>
      (case handle_check env b of Some e \<Rightarrow> Inl e | None \<Rightarrow>
        if map_option srv_endpoint (h_server a) \<noteq> map_option srv_endpoint (h_server b) \<or>
           map_option srv_lifetime (h_server a) \<noteq> map_option srv_lifetime (h_server b)
        then Inl (Sentinel ErrInvalidHandle)
        else if identity_valid (h_origin a) \<and> identity_valid (h_origin b) \<and> \<not> identity_Equal (h_origin a) (h_origin b)
        then Inl (Sentinel ErrInvalidHandle)
        else bind_res (begin_op env (h_server a)) (bind_both verified a b)))"

subsection \<open>Handles over a subprocess\<close>

text \<open>\<open>original\<close> and \<open>identity\<close> are the fields of the connection.\<close>

definition SubprocessServer :: "server \<Rightarrow> server_identity \<Rightarrow> nat \<Rightarrow> server" where
  "SubprocessServer original identity gen =
     original\<lparr>srv_bound := Some identity, srv_lifetime := Some gen, srv_conn := None\<rparr>"

definition ViaSubprocess :: "call_env \<Rightarrow> (nat \<Rightarrow> server \<times> server_identity) \<Rightarrow> server option \<Rightarrow> goerr + server" where
  "ViaSubprocess env conns so =
     (case so of
        None \<Rightarrow> Inl (the (opError ''Server.ViaSubprocess'' (Some (Sentinel ErrInvalidHandle))))
      | Some s \<Rightarrow>
          if \<not> srv_runner s then Inl (the (opError ''Server.ViaSubprocess'' (Some (Sentinel ErrInvalidHandle))))
          else (case (if srv_lifetime s \<noteq> None then ce_lifetime_begin env else None) of
              Some e \<Rightarrow> Inl (the (opError ''Server.ViaSubprocess'' (Some e)))
            | None \<Rightarrow> (case srv_conn s of
                  Some gen \<Rightarrow> (case conns gen of (original, identity) \<Rightarrow> Inr (SubprocessServer original identity gen))
                | None \<Rightarrow> Inr s)))"

definition usingSubprocess ::
  "call_env \<Rightarrow> (nat \<Rightarrow> server \<times> server_identity) \<Rightarrow> handle \<Rightarrow> bytes \<Rightarrow> goerr + handle" where
  "usingSubprocess env conns h label =
     (case handle_check env h of
        Some e \<Rightarrow> Inl (the (opError label (Some e)))
      | None \<Rightarrow>
          (case ViaSubprocess env conns (h_server h) of
             Inl e \<Rightarrow> Inl (the (opError label (Some e)))
           | Inr s \<Rightarrow> Inr (h\<lparr>h_server := Some s\<rparr>)))"

subsection \<open>Selecting\<close>

record select_options =
  so_PreserveZoom :: bool
  so_Last :: bool

definition select_args :: "handle \<Rightarrow> select_options \<Rightarrow> bytes list" where
  "select_args h opts =
     [''-t'', h_id h] @ (if so_PreserveZoom opts then [''-Z''] else []) @ (if so_Last opts then [''-l''] else [])"

definition Window_SelectWith :: "call_env \<Rightarrow> handle \<Rightarrow> select_options \<Rightarrow> goerr option" where
  "Window_SelectWith env w opts = actWithin env w ''Window.Select'' ''select-window'' (select_args w opts)"

definition Pane_SelectWith :: "call_env \<Rightarrow> handle \<Rightarrow> select_options \<Rightarrow> goerr option" where
  "Pane_SelectWith env p opts = actWithin env p ''Pane.Select'' ''select-pane'' (select_args p opts)"

subsection \<open>Facts\<close>

lemma handle_equal_iff:
  "handle_equal h other \<longleftrightarrow>
     handle_valid h \<and> handle_valid other \<and> h_kind h = h_kind other \<and> h_id h = h_id other \<and>
     map_option srv_endpoint (h_server h) = map_option srv_endpoint (h_server other) \<and>
     h_origin h = h_origin other \<and> h_client h = h_client other"
  by (simp add: handle_equal_def)

lemma handle_check_None:
  "handle_check env h = None \<Longrightarrow> handle_valid h \<and> (\<exists>s. h_server h = Some s \<and>
     (identity_valid (h_origin h) \<longrightarrow> srv_endpoint s = id_endpoint (h_origin h)))"
  by (auto simp: handle_check_def split: if_splits option.splits)

text \<open>Handles of one operation are bound to one daemon, and no handle is bound to another daemon than the
  one it was observed on.\<close>

lemma beginHandles_one_daemon:
  assumes "beginHandles env verified a b = Inr ((s, op), a', b')"
  shows "h_origin a' = h_origin b' \<and> h_id a' = h_id a \<and> h_id b' = h_id b \<and>
    (identity_valid (h_origin a) \<longrightarrow> h_origin a' = h_origin a) \<and>
    (identity_valid (h_origin b) \<longrightarrow> h_origin b' = h_origin b)"
proof -
  obtain i op0 where i: "sharedHandleIdentity verified op0 a b = (Inr i, op)" "a' = a\<lparr>h_origin := i\<rparr>" "b' = b\<lparr>h_origin := i\<rparr>"
      "identity_valid (h_origin a) \<Longrightarrow> identity_valid (h_origin b) \<Longrightarrow> h_origin a = h_origin b"
  proof -
    obtain so where "bind_both verified a b so = Inr ((s, op), a', b')"
        "identity_valid (h_origin a) \<Longrightarrow> identity_valid (h_origin b) \<Longrightarrow> h_origin a = h_origin b"
      using assms by (auto simp: beginHandles_def bind_res_Inr_iff split: option.split_asm if_split_asm)
    with that show ?thesis by (auto simp: bind_both_def split: prod.split_asm sum.split_asm)
  qed
  then have "(identity_valid (h_origin a) \<longrightarrow> i = h_origin a) \<and> (identity_valid (h_origin b) \<longrightarrow> i = h_origin b)"
    by (auto simp: sharedHandleIdentity_def split: if_splits)
  with i(2,3) show ?thesis by simp
qed

text \<open>The subprocess server of a connection keeps its daemon.\<close>

lemma usingSubprocess_keeps:
  assumes "usingSubprocess env conns h label = Inr h'"
  shows "h_id h' = h_id h \<and> h_kind h' = h_kind h \<and> h_origin h' = h_origin h \<and>
    (\<exists>s. h_server h' = Some s \<and> srv_conn s = None)"
  using assms
  by (auto simp: usingSubprocess_def ViaSubprocess_def SubprocessServer_def split: option.splits if_splits sum.splits prod.splits)

subsection \<open>What a handle does reaches the daemon it was observed on\<close>

lemma unwrap_None:
  "snd (unwrap g r err) = None \<Longrightarrow> err = None \<and> has_prefix (res_stdout r) guardOK"
  by (auto simp: unwrap_def Let_def split: option.split_asm if_split_asm prod.split_asm)

text \<open>A guarded execution succeeds only on an answer that begins with the mark of the guard.\<close>

lemma execute_guarded:
  assumes "execute env s op p (Some g) input = ((r, None), op')"
  shows "\<exists>n op1 op2 r0. dispatchPlan env s op1 (guard_wrap g p) n input = ((r0, None), op2) \<and>
    has_prefix (res_stdout r0) guardOK"
proof -
  have rg: "resolveGuard s p (Some g) = (Some g, guard_wrap g p)"
    by (simp add: resolveGuard_def Let_def split: option.splits)
  obtain n op1 where c: "checkInputLimit s op (guard_wrap g p) input = Inr (n, op1)"
    using assms rg by (auto simp: execute_def Let_def split: option.split_asm sum.split_asm)
  obtain r0 err0 op2 where d: "dispatchPlan env s op1 (guard_wrap g p) n input = ((r0, err0), op2)"
    by (metis prod.exhaust)
  have "snd (unwrap g r0 err0) = None"
    using assms rg c d by (auto simp: execute_def Let_def split: option.split_asm prod.split_asm)
  with d unwrap_None show ?thesis by blast
qed

text \<open>C22: An operation on a handle that was observed on a daemon succeeds only against that daemon: it is
  sent to the endpoint of the handle's origin, wrapped in the guard of that identity (and of the client,
  for a client's handle), and success is reported only when the answer begins with the mark that tmux
  prints when the checks of the guard hold.\<close>

theorem act_reaches_its_daemon:
  assumes "actWithin env h label name args = None" and "identity_valid (h_origin h)"
  shows "\<exists>s g n op1 op2 r0. h_server h = Some s \<and> srv_endpoint s = id_endpoint (h_origin h) \<and>
     g_identity g = h_origin h \<and> g_clients g = (if h_kind h = ObjectKindClient then [h_client h] else []) \<and>
     dispatchPlan env s op1 (guard_wrap g (emptyPlan \<lparr>cmd_name = name, cmd_args = args\<rparr>)) n None = ((r0, None), op2) \<and>
     has_prefix (res_stdout r0) guardOK"
proof -
  have ck: "handle_check env h = None"
    using assms(1) by (auto simp: actWithin_def split: option.split_asm)
  from handle_check_None [OF ck] assms(2) obtain s
    where s: "h_server h = Some s" "srv_endpoint s = id_endpoint (h_origin h)"
    by auto
  obtain g where g: "handle_guard h = Some g" "g_identity g = h_origin h"
      "g_clients g = (if h_kind h = ObjectKindClient then [h_client h] else [])"
    using assms(2) by (simp add: handle_guard_def Let_def newGuard_def)
  obtain s1 op where b: "begin_op env (h_server h) = Inr (s1, op)"
    using assms(1) ck by (auto simp: actWithin_def split: sum.split_asm)
  have "s1 = s"
    using b s(1) by (auto simp: begin_op_def Let_def split: if_split_asm option.split_asm)
  obtain r op' where "execute env s op (emptyPlan \<lparr>cmd_name = name, cmd_args = args\<rparr>) (Some g) None = ((r, None), op')"
    using assms(1) ck b g(1) \<open>s1 = s\<close> by (auto simp: actWithin_def split: prod.split_asm)
  from execute_guarded [OF this] s g(2,3) show ?thesis by blast
qed

definition tiny_identity :: server_identity where
  "tiny_identity = \<lparr>id_endpoint = zero_endpoint, id_socket = ''/s'', id_pid = 1, id_started = 5, id_generation = 0\<rparr>"

definition tiny_window :: handle where
  "tiny_window = newHandle plain_server ''@1'' ObjectKindWindow tiny_identity"

lemma tiny_window_valid: "handle_check (quiet_env pr) tiny_window = None"
proof -
  have "''@1'' = CHR ''@'' # itoa_nat 1"
    by code_simp
  then have "validID ''@1'' (CHR ''@'')"
    by (auto simp: validID_iff intro: exI [where x = 1])
  then show ?thesis
    by (simp add: handle_check_def handle_valid_def id_Valid_def WindowID_Valid_def tiny_window_def newHandle_def
        plain_server_def tiny_identity_def identity_valid_def zero_time_def)
qed

lemma act_reaches_its_daemon_witness:
  "\<exists>s g n op1 op2 r0. srv_endpoint s = zero_endpoint \<and> g_identity g = tiny_identity \<and>
     dispatchPlan (quiet_env (quiet_run\<lparr>pr_stdout := [guardOK]\<rparr>)) s op1
       (guard_wrap g (emptyPlan \<lparr>cmd_name = ''ls'', cmd_args = []\<rparr>)) n None = ((r0, None), op2)"
proof -
  let ?env = "quiet_env (quiet_run\<lparr>pr_stdout := [guardOK]\<rparr>)"
  have b: "begin_op ?env (h_server tiny_window) =
      Inr (plain_server, \<lparr>op_output = 4194304, op_stderr = 4194304, op_input = 1048576\<rparr>)"
    by code_simp
  have "snd (fst (execute ?env plain_server \<lparr>op_output = 4194304, op_stderr = 4194304, op_input = 1048576\<rparr>
      (emptyPlan \<lparr>cmd_name = ''ls'', cmd_args = []\<rparr>) (handle_guard tiny_window) None)) = None"
    by code_simp
  with b have act: "actWithin ?env tiny_window ''x'' ''ls'' [] = None"
    by (simp add: actWithin_def tiny_window_valid case_prod_beta)
  have i: "h_origin tiny_window = tiny_identity" "identity_valid tiny_identity" "id_endpoint tiny_identity = zero_endpoint"
    by (simp_all add: tiny_window_def newHandle_def tiny_identity_def identity_valid_def zero_time_def)
  show ?thesis
    using act_reaches_its_daemon [OF act] unfolding i by (blast intro: i(2))
qed

text \<open>The same for a link, whose guard also checks that the window is linked where the link says.\<close>

lemma link_act_reaches_its_daemon:
  assumes "link_act env l label name args = None" and "identity_valid (h_origin (wl_h l))"
  shows "\<exists>s n op1 op2 r0. h_server (wl_h l) = Some s \<and> srv_endpoint s = id_endpoint (h_origin (wl_h l)) \<and>
     g_identity (link_guard l) = h_origin (wl_h l) \<and>
     g_links (link_guard l) = [\<lparr>lc_session = wl_session l, lc_index = wl_index l, lc_window = h_id (wl_h l)\<rparr>] \<and>
     dispatchPlan env s op1 (guard_wrap (link_guard l) (emptyPlan \<lparr>cmd_name = name, cmd_args = args\<rparr>)) n None = ((r0, None), op2) \<and>
     has_prefix (res_stdout r0) guardOK"
proof -
  have ck: "handle_check env (wl_h l) = None"
    using assms(1) by (auto simp: link_act_def link_check_def split: option.split_asm if_split_asm)
  from handle_check_None [OF ck] assms(2) obtain s
    where s: "h_server (wl_h l) = Some s" "srv_endpoint s = id_endpoint (h_origin (wl_h l))"
    by auto
  have lc: "link_check env l = None"
    using assms(1) by (cases "link_check env l") (auto simp: link_act_def)
  obtain s1 op where b: "begin_op env (h_server (wl_h l)) = Inr (s1, op)"
    using assms(1) lc by (auto simp: link_act_def split: sum.split_asm)
  have "s1 = s"
    using b s(1) by (auto simp: begin_op_def Let_def split: if_split_asm option.split_asm)
  obtain r op' where "execute env s op (emptyPlan \<lparr>cmd_name = name, cmd_args = args\<rparr>) (Some (link_guard l)) None = ((r, None), op')"
    using assms(1) lc b \<open>s1 = s\<close> by (auto simp: link_act_def split: prod.split_asm)
  from execute_guarded [OF this] s assms(2) show ?thesis by (simp add: link_guard_def Let_def)
qed

end
