(* ===== verification/Tmux_Version.thy ===== *)
theory Tmux_Version
  imports Wire_Argv Go_Errors Go_Text
begin

text \<open>
  \<open>tmux/version.go\<close>: the parser of version strings and the oldest version that is supported.
\<close>

subsection \<open>The standard library\<close>

text \<open>\<open>strings.EqualFold\<close> with a lower-case ASCII text without \<open>k\<close>: besides the two cases of each
  letter, \<open>s\<close> folds with U+017F.\<close>

definition lower :: "byte \<Rightarrow> byte" where
  "lower c = (if 65 \<le> code c \<and> code c \<le> 90 then char_of (code c + 32) else c)"

fun equal_fold :: "bytes \<Rightarrow> bytes \<Rightarrow> bool" where
  "equal_fold [] t \<longleftrightarrow> t = []"
| "equal_fold (c # s) [] \<longleftrightarrow> False"
| "equal_fold (c # s) (d # t) \<longleftrightarrow>
     (lower c = d \<and> equal_fold s t) \<or>
     (d = CHR ''s'' \<and> c = CHR 0xC5 \<and> (case s of [] \<Rightarrow> False | c2 # s2 \<Rightarrow> c2 = CHR 0xBF \<and> equal_fold s2 t))"

text \<open>\<open>strconv.Atoi\<close> on digits: the value, clamped with an error when it does not fit.\<close>

definition atoi_digits :: "bytes \<Rightarrow> int \<times> bool" where
  "atoi_digits s = (if digits_val s < 2 ^ 63 then (int (digits_val s), True) else (2 ^ 63 - 1, False))"

subsection \<open>Parsing\<close>

text \<open>The leftmost-first match of \<open>versionPattern\<close>: an optional word of letters, underscores and dashes
  that a dash ends, two numbers with a dot, an optional small letter, and anything without a line end. The
  word ends where the first digit stands, so there is only one way to match.\<close>

definition prefix_char :: "byte \<Rightarrow> bool" where
  "prefix_char c \<longleftrightarrow> 97 \<le> code c \<and> code c \<le> 122 \<or> 65 \<le> code c \<and> code c \<le> 90 \<or> c = CHR ''_'' \<or> c = CHR ''-''"

definition split_patch :: "bytes \<Rightarrow> bytes \<times> bytes" where
  "split_patch s = (case s of c # t \<Rightarrow> if 97 \<le> code c \<and> code c \<le> 122 then ([c], t) else ([], s) | [] \<Rightarrow> ([], []))"

definition versionPattern :: "bytes \<Rightarrow> (bytes \<times> bytes \<times> bytes \<times> bytes \<times> bytes) option" where
  "versionPattern s =
     (let word = takeWhile prefix_char s; s1 = dropWhile prefix_char s;
          major = takeWhile is_digit s1; s2 = dropWhile is_digit s1;
          minor = takeWhile is_digit (tl s2); s3 = dropWhile is_digit (tl s2);
          (patch, suffix) = split_patch s3
      in if word \<noteq> [] \<and> (length word < 2 \<or> last word \<noteq> CHR ''-'') then None
         else if major = [] \<or> s2 = [] \<or> hd s2 \<noteq> CHR ''.'' \<or> minor = [] \<or> LF \<in> set suffix then None
         else Some (butlast word, major, minor, patch, suffix))"

definition ParseVersion :: "bytes \<Rightarrow> version" where
  "ParseVersion raw =
     (let v = zero_version\<lparr>v_raw := raw\<rparr>;
          s = TrimSpace (trim_prefix raw ''tmux '') in
      if equal_fold s ''master'' \<or> equal_fold s ''next''
      then v\<lparr>v_major := 3, v_minor := 9, v_suffix := s, v_recognized := True\<rparr>
      else case versionPattern s of
          None \<Rightarrow> v
        | Some (prefix, major, minor, patch, suffix) \<Rightarrow>
            (case atoi_digits major of
               (a, False) \<Rightarrow> v\<lparr>v_major := a\<rparr>
             | (a, True) \<Rightarrow>
                 (case atoi_digits minor of
                    (b, False) \<Rightarrow> v\<lparr>v_major := a, v_minor := b\<rparr>
                  | (b, True) \<Rightarrow> v\<lparr>v_major := a, v_minor := b, v_patch := patch,
                      v_suffix := (if prefix \<noteq> [] \<and> suffix \<noteq> [] then prefix @ ''-'' @ trim_prefix suffix ''-''
                                   else if prefix \<noteq> [] then prefix else suffix),
                      v_recognized := (prefix = [] \<and> suffix = [])\<rparr>)))"

definition AtLeast :: "version \<Rightarrow> int \<Rightarrow> int \<Rightarrow> bool" where
  "AtLeast v major minor \<longleftrightarrow> major < v_major v \<or> (v_major v = major \<and> minor \<le> v_minor v)"

definition version_String :: "version \<Rightarrow> bytes" where
  "version_String v = v_raw v"

definition minMajorVersion :: int where "minMajorVersion = 3"
definition minMinorVersion :: int where "minMinorVersion = 6"

definition supportedVersion :: "version \<Rightarrow> goerr option" where
  "supportedVersion v =
     (if minMajorVersion < v_major v \<or> (v_major v = minMajorVersion \<and> minMinorVersion \<le> v_minor v) then None
      else Some (unsupportedVersion ''tmux version (requires 3.6+)'' v))"

lemma supportedVersion_AtLeast: "supportedVersion v = None \<longleftrightarrow> AtLeast v 3 6"
  by (simp add: supportedVersion_def AtLeast_def minMajorVersion_def minMinorVersion_def)

lemma ParseVersion_raw [simp]: "v_raw (ParseVersion raw) = raw"
  by (simp add: ParseVersion_def Let_def zero_version_def split: option.splits prod.splits bool.splits)

subsection \<open>Releases\<close>

text \<open>The text of a release: two numbers and an optional letter.\<close>

definition release_text :: "nat \<Rightarrow> nat \<Rightarrow> bytes \<Rightarrow> bytes" where
  "release_text major minor patch = itoa_nat major @ ''.'' @ itoa_nat minor @ patch"

definition patch_ok :: "bytes \<Rightarrow> bool" where
  "patch_ok p \<longleftrightarrow> p = [] \<or> (\<exists>c. p = [c] \<and> 97 \<le> code c \<and> code c \<le> 122)"

lemma digit_in_release: "is_digit c \<Longrightarrow> graphic c \<and> \<not> prefix_char c"
  by (auto simp: is_digit_def graphic_def prefix_char_def)

lemma release_graphic: "patch_ok p \<Longrightarrow> list_all graphic (release_text a b p)"
  by (auto simp: release_text_def patch_ok_def list_all_iff dest!: set_itoa_nat digit_in_release) (auto simp: graphic_def)

lemma takeWhile_itoa:
  "\<not> is_digit c \<Longrightarrow> takeWhile is_digit (itoa_nat n @ c # s) = itoa_nat n"
  "\<not> is_digit c \<Longrightarrow> dropWhile is_digit (itoa_nat n @ c # s) = c # s"
  "takeWhile is_digit (itoa_nat n) = itoa_nat n" "dropWhile is_digit (itoa_nat n) = []"
  by (simp_all add: takeWhile_append2 dropWhile_append2 set_itoa_nat)

lemma versionPattern_release:
  assumes "patch_ok p"
  shows "versionPattern (release_text a b p) = Some ([], itoa_nat a, itoa_nat b, p, [])"
proof -
  have hd: "takeWhile prefix_char (itoa_nat n @ s) = []" "dropWhile prefix_char (itoa_nat n @ s) = itoa_nat n @ s" for n s
    using digit_in_release set_itoa_nat [of "hd (itoa_nat n)" n] by (cases "itoa_nat n"; simp)+
  have dot: "\<not> is_digit (CHR ''.'')" by (simp add: is_digit_def)
  have "takeWhile is_digit (itoa_nat b @ p) = itoa_nat b \<and> dropWhile is_digit (itoa_nat b @ p) = p"
    using assms by (auto simp: patch_ok_def is_digit_def takeWhile_itoa)
  moreover have "split_patch p = (p, [])"
    using assms by (auto simp: patch_ok_def split_patch_def)
  ultimately show ?thesis
    using dot by (simp add: versionPattern_def release_text_def hd takeWhile_itoa Let_def)
qed

lemma equal_fold_head: "lower c \<noteq> d \<Longrightarrow> d \<noteq> CHR ''s'' \<Longrightarrow> \<not> equal_fold (c # s) (d # t)"
  by simp

text \<open>A release is parsed into its numbers and its letter, with or without the name of the program.\<close>

lemma ParseVersion_release:
  assumes "patch_ok p" and "a < 2 ^ 63" and "b < 2 ^ 63" and "raw = release_text a b p \<or> raw = ''tmux '' @ release_text a b p"
  shows "ParseVersion raw = \<lparr>v_raw = raw, v_major = int a, v_minor = int b, v_patch = p, v_suffix = [], v_recognized = True\<rparr>"
proof -
  obtain c s where c: "itoa_nat a = c # s" "is_digit c"
    using set_itoa_nat [of "hd (itoa_nat a)" a] by (cases "itoa_nat a") auto
  then have "\<not> has_prefix (release_text a b p) ''tmux ''"
    by (auto simp: release_text_def is_digit_def)
  then have trim: "trim_prefix raw ''tmux '' = release_text a b p"
    using assms(4) by (auto simp: trim_prefix_def)
  have "lower c = c" "c \<noteq> CHR ''m''" "c \<noteq> CHR ''n''"
    using c(2) by (auto simp: lower_def is_digit_def)
  then have "\<not> equal_fold (release_text a b p) ''master''" "\<not> equal_fold (release_text a b p) ''next''"
    by (simp_all add: release_text_def c(1))
  then show ?thesis
    using assms(2,3) trim TrimSpace_graphic [OF release_graphic [OF assms(1)]] versionPattern_release [OF assms(1)]
    by (simp add: ParseVersion_def Let_def atoi_digits_def zero_version_def)
qed

text \<open>Releases are supported from 3.6 on.\<close>

lemma supported_release:
  assumes "patch_ok p" and "a < 2 ^ 63" and "b < 2 ^ 63"
  shows "supportedVersion (ParseVersion (release_text a b p)) = None \<longleftrightarrow> 3 < a \<or> (a = 3 \<and> 6 \<le> b)"
  using ParseVersion_release [OF assms] by (auto simp: supportedVersion_AtLeast AtLeast_def)

end
