(* ===== verification/Read_Decode.thy ===== *)
theory Read_Decode
  imports Tmux_Handles Tmux_Version Wire_Formats "HOL-Library.State_Monad"
begin

text \<open>
  \<open>tmux/decode.go\<close> and \<open>tmux/records.go\<close>: the rows that tmux prints, decoded into typed records. A
  \<open>recordDecoder\<close> threads its first error through the reading of the fields: that is the state of the
  state monad below. A row is a map from field names.
\<close>

type_synonym row = "bytes \<rightharpoonup> bytes"

record recordDecoder =
  rd_kind :: bytes
  rd_raw :: row

type_synonym 'a decoding = "(goerr option, 'a) state"

abbreviation ret :: "'a \<Rightarrow> 'a decoding" where
  "ret \<equiv> State_Monad.return"

subsection \<open>Fields\<close>

definition fail :: "recordDecoder \<Rightarrow> bytes \<Rightarrow> goerr \<Rightarrow> unit decoding" where
  "fail d field e = State (\<lambda>err. ((), case err of None \<Rightarrow> Some (decodeError (rd_kind d) field e) | Some _ \<Rightarrow> err))"

abbreviation fail_record :: "recordDecoder \<Rightarrow> bytes \<Rightarrow> unit decoding" where
  "fail_record d field \<equiv> fail d field (Sentinel ErrRecord)"

definition str :: "recordDecoder \<Rightarrow> bytes \<Rightarrow> bytes decoding" where
  "str d field = (case rd_raw d field of
      Some v \<Rightarrow> ret v
    | None \<Rightarrow> do { fail_record d field; ret [] })"

text \<open>The value beside an error does not matter: the record is dropped.\<close>

definition integer :: "recordDecoder \<Rightarrow> bytes \<Rightarrow> int decoding" where
  "integer d field = do {
     s \<leftarrow> str d field;
     (case atoi s of Some v \<Rightarrow> ret v | None \<Rightarrow> do { fail_record d field; ret 0 })
   }"

definition nonnegative :: "recordDecoder \<Rightarrow> bytes \<Rightarrow> int decoding" where
  "nonnegative d field = do {
     v \<leftarrow> integer d field;
     (if v < 0 then fail_record d field else ret ());
     ret v
   }"

definition optionalNonnegative :: "recordDecoder \<Rightarrow> bytes \<Rightarrow> int decoding" where
  "optionalNonnegative d field = do {
     s \<leftarrow> str d field;
     if s = [] then ret 0
     else (case atoi s of
         Some v \<Rightarrow> if v < 0 then do { fail_record d field; ret 0 } else ret v
       | None \<Rightarrow> do { fail_record d field; ret 0 })
   }"

definition boolean :: "recordDecoder \<Rightarrow> bytes \<Rightarrow> bool decoding" where
  "boolean d field = do {
     v \<leftarrow> str d field;
     (if v \<noteq> ''0'' \<and> v \<noteq> ''1'' then fail_record d field else ret ());
     ret (v = ''1'')
   }"

definition timestamp :: "recordDecoder \<Rightarrow> bytes \<Rightarrow> time decoding" where
  "timestamp d field = do {
     s \<leftarrow> str d field;
     (case parse_int 64 s of
        Some n \<Rightarrow> do { (if n < 0 then fail_record d field else ret ()); ret n }
      | None \<Rightarrow> do { fail_record d field; ret 0 })
   }"

definition check_field :: "recordDecoder \<Rightarrow> bytes \<Rightarrow> bool \<Rightarrow> unit decoding" where
  "check_field d field ok = (if ok then ret () else fail_record d field)"

subsection \<open>Rows\<close>

text \<open>A later field of the same name replaces an earlier one.\<close>

definition recordMap :: "bytes list \<Rightarrow> bytes list \<Rightarrow> row" where
  "recordMap names values = map_of (rev (zip names values))"

definition parseRaw :: "bytes \<Rightarrow> bytes list \<Rightarrow> bytes \<Rightarrow> goerr + row list" where
  "parseRaw data names kind =
     (case ParseRecords data (int (length names)) of
        Inl e \<Rightarrow> Inl (decodeError kind ''record'' e)
      | Inr rows \<Rightarrow> Inr (map (recordMap names) rows))"

subsection \<open>Records\<close>

record server_info =
  sv_raw :: row
  sv_Identity :: server_identity
  sv_Version :: version

record session_info =
  ss_raw :: row
  ss_ID :: bytes
  ss_Name :: bytes
  ss_Path :: bytes
  ss_Created :: time
  ss_Activity :: time
  ss_Attached :: int
  ss_WindowCount :: int
  ss_Group :: "bytes gvalue"
  ss_h :: handle

record window_info =
  wi_raw :: row
  wi_ID :: bytes
  wi_Name :: bytes
  wi_Width :: int
  wi_Height :: int
  wi_PaneCount :: int
  wi_Layout :: bytes
  wi_Zoomed :: bool
  wi_h :: handle

record window_link_info =
  li_raw :: row
  li_SessionID :: bytes
  li_WindowID :: bytes
  li_WindowName :: bytes
  li_Index :: int
  li_Active :: bool
  li_Flags :: bytes
  li_link :: window_link

record selection_info =
  sel_StartX :: int
  sel_StartY :: int
  sel_EndX :: int
  sel_EndY :: int
  sel_Rectangle :: bool
  sel_ScrollPosition :: int

record pane_info =
  pn_raw :: row
  pn_ID :: bytes
  pn_WindowID :: bytes
  pn_SessionID :: "bytes gvalue"
  pn_SessionName :: "bytes gvalue"
  pn_WindowName :: "bytes gvalue"
  pn_WindowIndex :: "int gvalue"
  pn_Index :: int
  pn_Title :: bytes
  pn_CurrentPath :: bytes
  pn_CurrentCommand :: bytes
  pn_PID :: int
  pn_TTY :: bytes
  pn_Width :: int
  pn_Height :: int
  pn_Left :: int
  pn_Top :: int
  pn_Active :: bool
  pn_HistorySize :: int
  pn_Alternate :: bool
  pn_Dead :: bool
  pn_DeadStatus :: "int gvalue"
  pn_CursorX :: int
  pn_CursorY :: int
  pn_Mode :: "bytes gvalue"
  pn_Selection :: "selection_info gvalue"
  pn_h :: handle

record client_info =
  cl_raw :: row
  cl_Name :: bytes
  cl_TTY :: bytes
  cl_PID :: int
  cl_Created :: time
  cl_Activity :: time
  cl_Width :: int
  cl_Height :: int
  cl_SessionID :: "bytes gvalue"
  cl_Control :: bool
  cl_ReadOnly :: bool
  cl_Flags :: "bytes list"
  cl_h :: handle

definition raw_value :: "row \<Rightarrow> bytes \<Rightarrow> bytes option" where
  "raw_value r name = r name"

subsection \<open>Decoding\<close>

definition decodeIdentity :: "server \<Rightarrow> recordDecoder \<Rightarrow> server_identity decoding" where
  "decodeIdentity s d = do {
     pid \<leftarrow> nonnegative d ''pid'';
     started \<leftarrow> timestamp d ''start_time'';
     socket \<leftarrow> str d ''socket_path'';
     let i = \<lparr>id_endpoint = srv_endpoint s, id_socket = socket, id_pid = pid, id_started = started,
              id_generation = (case srv_conn s of Some gen \<Rightarrow> gen
                | None \<Rightarrow> (case srv_bound s of Some b \<Rightarrow> id_generation b | None \<Rightarrow> 0))\<rparr>;
     check_field d ''identity'' (identity_valid i);
     ret i
   }"

definition decoder :: "server \<Rightarrow> recordDecoder \<Rightarrow> server_identity option \<Rightarrow> server_identity decoding" where
  "decoder s d expected = do {
     i \<leftarrow> decodeIdentity s d;
     (case expected of
        Some x \<Rightarrow> if identity_valid x \<and> \<not> sameDaemon i x then fail d ''identity'' (Sentinel ErrServerChanged) else ret ()
      | None \<Rightarrow> ret ());
     raw \<leftarrow> str d ''version'';
     (case supportedVersion (ParseVersion raw) of Some e \<Rightarrow> fail d ''version'' e | None \<Rightarrow> ret ());
     ret i
   }"

text \<open>The record when no field failed.\<close>

definition decoded :: "'a decoding \<Rightarrow> goerr + 'a" where
  "decoded m = (case run_state m None of (v, None) \<Rightarrow> Inr v | (_, Some e) \<Rightarrow> Inl e)"

definition decodeSession :: "server \<Rightarrow> row \<Rightarrow> server_identity option \<Rightarrow> goerr + session_info" where
  "decodeSession s m expected =
     (let d = \<lparr>rd_kind = ''session'', rd_raw = m\<rparr> in decoded (do {
       i \<leftarrow> decoder s d expected;
       sid \<leftarrow> str d ''session_id'';
       check_field d ''session_id'' (SessionID_Valid sid);
       grouped \<leftarrow> boolean d ''session_grouped'';
       group \<leftarrow> (if grouped then do { g \<leftarrow> str d ''session_group''; ret (Present g) } else ret Unavailable);
       name \<leftarrow> str d ''session_name'';
       path \<leftarrow> str d ''session_path'';
       created \<leftarrow> timestamp d ''session_created'';
       activity \<leftarrow> timestamp d ''session_activity'';
       attached \<leftarrow> nonnegative d ''session_attached'';
       windows \<leftarrow> nonnegative d ''session_windows'';
       ret \<lparr>ss_raw = m, ss_ID = sid, ss_Name = name, ss_Path = path, ss_Created = created, ss_Activity = activity,
            ss_Attached = attached, ss_WindowCount = windows, ss_Group = group,
            ss_h = newHandle s sid ObjectKindSession i\<rparr>
     }))"

definition decodeWindow ::
  "server \<Rightarrow> row \<Rightarrow> server_identity option \<Rightarrow> goerr + window_info \<times> window_link_info" where
  "decodeWindow s m expected =
     (let d = \<lparr>rd_kind = ''window'', rd_raw = m\<rparr> in decoded (do {
       i \<leftarrow> decoder s d expected;
       wid \<leftarrow> str d ''window_id'';
       check_field d ''window_id'' (WindowID_Valid wid);
       sid \<leftarrow> str d ''session_id'';
       check_field d ''session_id'' (SessionID_Valid sid);
       let wh = newHandle s wid ObjectKindWindow i;
       name \<leftarrow> str d ''window_name'';
       width \<leftarrow> nonnegative d ''window_width'';
       height \<leftarrow> nonnegative d ''window_height'';
       panes \<leftarrow> nonnegative d ''window_panes'';
       layout \<leftarrow> str d ''window_layout'';
       zoomed \<leftarrow> boolean d ''window_zoomed_flag'';
       windex \<leftarrow> nonnegative d ''window_index'';
       name' \<leftarrow> str d ''window_name'';
       active \<leftarrow> boolean d ''window_active'';
       flags \<leftarrow> str d ''window_flags'';
       ret (\<lparr>wi_raw = m, wi_ID = wid, wi_Name = name, wi_Width = width, wi_Height = height, wi_PaneCount = panes,
             wi_Layout = layout, wi_Zoomed = zoomed, wi_h = wh\<rparr>,
            \<lparr>li_raw = m, li_SessionID = sid, li_WindowID = wid, li_WindowName = name', li_Index = windex,
             li_Active = active, li_Flags = flags,
             li_link = \<lparr>wl_h = wh, wl_session = sid, wl_index = windex\<rparr>\<rparr>)
     }))"

definition decodePaneSelection :: "recordDecoder \<Rightarrow> bool \<Rightarrow> selection_info gvalue decoding" where
  "decodePaneSelection d inMode = do {
     selection \<leftarrow> str d ''selection_present'';
     present \<leftarrow> (if inMode \<and> selection \<noteq> [] then boolean d ''selection_present'' else ret False);
     if present then do {
       startX \<leftarrow> nonnegative d ''selection_start_x'';
       startY \<leftarrow> nonnegative d ''selection_start_y'';
       endX \<leftarrow> nonnegative d ''selection_end_x'';
       endY \<leftarrow> nonnegative d ''selection_end_y'';
       rectangle \<leftarrow> boolean d ''rectangle_toggle'';
       position \<leftarrow> nonnegative d ''scroll_position'';
       ret (Present \<lparr>sel_StartX = startX, sel_StartY = startY, sel_EndX = endX, sel_EndY = endY,
         sel_Rectangle = rectangle, sel_ScrollPosition = position\<rparr>)
     } else ret Unavailable
   }"

text \<open>The optional texts and the index of \<open>paneContext\<close> never fail.\<close>

definition optional_text :: "row \<Rightarrow> bytes \<Rightarrow> bytes gvalue" where
  "optional_text m field = (case m field of Some v \<Rightarrow> if v \<noteq> [] then Present v else Unavailable | None \<Rightarrow> Unavailable)"

definition optional_index :: "row \<Rightarrow> bytes \<Rightarrow> int gvalue" where
  "optional_index m field =
     (case m field of
        Some v \<Rightarrow> if v = [] then Unavailable
          else (case atoi v of Some i \<Rightarrow> if 0 \<le> i then Present i else Unavailable | None \<Rightarrow> Unavailable)
      | None \<Rightarrow> Unavailable)"

definition optional_session :: "recordDecoder \<Rightarrow> bytes gvalue decoding" where
  "optional_session d = do {
     sid \<leftarrow> str d ''session_id'';
     if sid = [] then ret Unavailable
     else do { check_field d ''session_id'' (SessionID_Valid sid); ret (Present sid) }
   }"

record paneContext =
  pc_sessionID :: "bytes gvalue"
  pc_sessionName :: "bytes gvalue"
  pc_windowName :: "bytes gvalue"
  pc_windowIndex :: "int gvalue"

definition decodePaneContext :: "recordDecoder \<Rightarrow> row \<Rightarrow> paneContext decoding" where
  "decodePaneContext d m = do {
     sid \<leftarrow> optional_session d;
     ret \<lparr>pc_sessionID = sid, pc_sessionName = optional_text m ''session_name'',
          pc_windowName = optional_text m ''window_name'', pc_windowIndex = optional_index m ''window_index''\<rparr>
   }"

definition pane_status :: "recordDecoder \<Rightarrow> bool \<Rightarrow> int gvalue decoding" where
  "pane_status d dead = do {
     status \<leftarrow> (if dead then str d ''pane_dead_status'' else ret []);
     if dead \<and> status \<noteq> [] then do { v \<leftarrow> integer d ''pane_dead_status''; ret (Present v) } else ret Unavailable
   }"

definition pane_mode :: "recordDecoder \<Rightarrow> bool \<Rightarrow> bytes gvalue decoding" where
  "pane_mode d inMode = (if inMode then do { v \<leftarrow> str d ''pane_mode''; ret (Present v) } else ret (Present []))"

definition decodePane :: "server \<Rightarrow> row \<Rightarrow> server_identity option \<Rightarrow> goerr + pane_info" where
  "decodePane s m expected =
     (let d = \<lparr>rd_kind = ''pane'', rd_raw = m\<rparr> in decoded (do {
       i \<leftarrow> decoder s d expected;
       paneID \<leftarrow> str d ''pane_id'';
       check_field d ''pane_id'' (PaneID_Valid paneID);
       wid \<leftarrow> str d ''window_id'';
       check_field d ''window_id'' (WindowID_Valid wid);
       dead \<leftarrow> boolean d ''pane_dead'';
       deadStatus \<leftarrow> pane_status d dead;
       modes \<leftarrow> nonnegative d ''pane_in_mode'';
       mode \<leftarrow> pane_mode d (0 < modes);
       selection \<leftarrow> decodePaneSelection d (0 < modes);
       pCtx \<leftarrow> decodePaneContext d m;
       index \<leftarrow> nonnegative d ''pane_index'';
       title \<leftarrow> str d ''pane_title'';
       path \<leftarrow> str d ''pane_current_path'';
       cmd \<leftarrow> str d ''pane_current_command'';
       pid \<leftarrow> optionalNonnegative d ''pane_pid'';
       tty \<leftarrow> str d ''pane_tty'';
       width \<leftarrow> nonnegative d ''pane_width'';
       height \<leftarrow> nonnegative d ''pane_height'';
       left \<leftarrow> nonnegative d ''pane_left'';
       top \<leftarrow> nonnegative d ''pane_top'';
       active \<leftarrow> boolean d ''pane_active'';
       history \<leftarrow> nonnegative d ''history_size'';
       alternate \<leftarrow> boolean d ''alternate_on'';
       cursorX \<leftarrow> nonnegative d ''cursor_x'';
       cursorY \<leftarrow> nonnegative d ''cursor_y'';
       ret \<lparr>pn_raw = m, pn_ID = paneID, pn_WindowID = wid, pn_SessionID = pc_sessionID pCtx,
            pn_SessionName = pc_sessionName pCtx, pn_WindowName = pc_windowName pCtx,
            pn_WindowIndex = pc_windowIndex pCtx, pn_Index = index, pn_Title = title, pn_CurrentPath = path,
            pn_CurrentCommand = cmd, pn_PID = pid, pn_TTY = tty, pn_Width = width, pn_Height = height,
            pn_Left = left, pn_Top = top, pn_Active = active, pn_HistorySize = history, pn_Alternate = alternate,
            pn_Dead = dead, pn_DeadStatus = deadStatus, pn_CursorX = cursorX, pn_CursorY = cursorY,
            pn_Mode = mode, pn_Selection = selection, pn_h = newHandle s paneID ObjectKindPane i\<rparr>
     }))"

text \<open>A control client without a terminal may leave a dimension out.\<close>

definition dimension :: "recordDecoder \<Rightarrow> bool \<Rightarrow> bytes \<Rightarrow> int decoding" where
  "dimension d control field =
     (if control then do { s \<leftarrow> str d field; if s = [] then ret 0 else nonnegative d field }
      else nonnegative d field)"

definition flag_list :: "bytes \<Rightarrow> bytes list" where
  "flag_list f = (if f \<noteq> [] then split_byte (CHR '','') f else [])"

definition decodeClient :: "server \<Rightarrow> row \<Rightarrow> server_identity option \<Rightarrow> goerr + client_info" where
  "decodeClient s m expected =
     (let d = \<lparr>rd_kind = ''client'', rd_raw = m\<rparr> in decoded (do {
       i \<leftarrow> decoder s d expected;
       cname \<leftarrow> str d ''client_name'';
       check_field d ''client_name'' (ClientName_Valid cname);
       f \<leftarrow> str d ''client_flags'';
       sid \<leftarrow> optional_session d;
       cpid \<leftarrow> nonnegative d ''client_pid'';
       created \<leftarrow> timestamp d ''client_created'';
       let ch = (newHandle s cname ObjectKindClient i)
         \<lparr>h_client := \<lparr>cc_name = cname, cc_pid = cpid, cc_created = created\<rparr>\<rparr>;
       control \<leftarrow> boolean d ''client_control_mode'';
       tty \<leftarrow> str d ''client_tty'';
       activity \<leftarrow> timestamp d ''client_activity'';
       width \<leftarrow> dimension d control ''client_width'';
       height \<leftarrow> dimension d control ''client_height'';
       readOnly \<leftarrow> boolean d ''client_readonly'';
       ret \<lparr>cl_raw = m, cl_Name = cname, cl_TTY = tty, cl_PID = cpid, cl_Created = created, cl_Activity = activity,
            cl_Width = width, cl_Height = height, cl_SessionID = sid, cl_Control = control, cl_ReadOnly = readOnly,
            cl_Flags = flag_list f, cl_h = ch\<rparr>
     }))"

definition serverInfo :: "server \<Rightarrow> row \<Rightarrow> goerr + server_info" where
  "serverInfo s raw =
     (let d = \<lparr>rd_kind = ''server'', rd_raw = raw\<rparr> in
      case run_state (decodeIdentity s d) None of (i, err0) \<Rightarrow>
      (let changed = (case srv_bound s of
              Some b \<Rightarrow> identity_valid b \<and> err0 = None \<and> \<not> sameDaemon i b | None \<Rightarrow> False);
           (_, err1) = run_state (if changed then fail d ''identity'' (Sentinel ErrServerChanged) else ret ()) err0;
           (text, err) = run_state (str d ''version'') err1;
           v = ParseVersion text
       in case err of
            Some e \<Rightarrow> Inl (the (afterError ''Server.Probe'' (Some e) []))
          | None \<Rightarrow> (case supportedVersion v of
                Some e \<Rightarrow> Inl e
              | None \<Rightarrow> Inr \<lparr>sv_raw = raw, sv_Identity = i, sv_Version = v\<rparr>)))"

subsection \<open>The schema\<close>

definition schema_Identity :: "bytes list" where
  "schema_Identity = [''pid'', ''start_time'', ''socket_path'', ''version'']"

definition schema_Session :: "bytes list" where
  "schema_Session = [''session_id'', ''session_name'', ''session_path'', ''session_created'', ''session_activity'',
     ''session_attached'', ''session_windows'', ''session_group'', ''session_grouped'']"

definition schema_Window :: "bytes list" where
  "schema_Window = [''window_id'', ''window_name'', ''window_width'', ''window_height'', ''window_panes'',
     ''window_layout'', ''window_zoomed_flag'', ''session_id'', ''window_index'', ''window_active'', ''window_flags'']"

definition schema_Pane :: "bytes list" where
  "schema_Pane = [''pane_id'', ''window_id'', ''pane_index'', ''pane_title'', ''pane_current_path'',
     ''pane_current_command'', ''pane_pid'', ''pane_tty'', ''pane_width'', ''pane_height'', ''pane_left'', ''pane_top'',
     ''pane_active'', ''history_size'', ''alternate_on'', ''pane_dead'', ''pane_dead_status'', ''cursor_x'', ''cursor_y'',
     ''pane_in_mode'', ''pane_mode'', ''selection_present'', ''selection_start_x'', ''selection_start_y'',
     ''selection_end_x'', ''selection_end_y'', ''rectangle_toggle'', ''scroll_position'', ''session_id'',
     ''session_name'', ''window_name'', ''window_index'']"

definition schema_Client :: "bytes list" where
  "schema_Client = [''client_name'', ''client_tty'', ''client_pid'', ''client_created'', ''client_activity'',
     ''client_width'', ''client_height'', ''session_id'', ''client_control_mode'', ''client_readonly'', ''client_flags'']"

definition WithIdentity :: "bytes list \<Rightarrow> bytes list" where
  "WithIdentity names = schema_Identity @ names"

definition fieldsFor :: "object_kind \<Rightarrow> bytes list" where
  "fieldsFor kind =
     (case kind of
        ObjectKindSession \<Rightarrow> WithIdentity schema_Session
      | ObjectKindWindow \<Rightarrow> WithIdentity schema_Window
      | ObjectKindWindowLink \<Rightarrow> WithIdentity schema_Window
      | ObjectKindPane \<Rightarrow> WithIdentity schema_Pane
      | ObjectKindClient \<Rightarrow> WithIdentity schema_Client
      | KindOther _ \<Rightarrow> schema_Identity)"

subsection \<open>When decoding succeeds\<close>

text \<open>Each step ends without an error exactly when it began without one and its field is right.\<close>

named_theorems decoding_ok

definition sticky :: "'a decoding \<Rightarrow> bool" where
  "sticky m \<longleftrightarrow> (\<forall>s v. run_state m s = (v, None) \<longrightarrow> s = None)"

lemma ret_ok [decoding_ok]: "run_state (ret v) s = (v', None) \<longleftrightarrow> s = None \<and> v' = v"
  by auto

lemma bind_run:
  "run_state (State_Monad.bind m f) s = (v, None) \<longleftrightarrow>
   (\<exists>a s'. run_state m s = (a, s') \<and> run_state (f a) s' = (v, None))"
  by (auto split: prod.splits)

lemma bind_ok [decoding_ok]:
  "(\<And>a. sticky (f a)) \<Longrightarrow> run_state (State_Monad.bind m f) s = (v, None) \<longleftrightarrow>
   (\<exists>a. run_state m s = (a, None) \<and> run_state (f a) None = (v, None))"
  by (fastforce simp: sticky_def split: prod.splits)

lemma fail_ok [decoding_ok]: "run_state (fail d field e) s = (u, None) \<longleftrightarrow> False"
  by (auto simp: fail_def split: option.splits)

lemma check_field_ok [decoding_ok]: "run_state (check_field d field ok) s = (u, None) \<longleftrightarrow> s = None \<and> ok"
  by (auto simp: check_field_def decoding_ok)

lemma str_ok [decoding_ok]: "run_state (str d field) s = (v, None) \<longleftrightarrow> s = None \<and> rd_raw d field = Some v"
  by (auto simp: str_def fail_def split: option.splits)

definition int_text :: "recordDecoder \<Rightarrow> bytes \<Rightarrow> int \<Rightarrow> bool" where
  "int_text d field v \<longleftrightarrow> (\<exists>t. rd_raw d field = Some t \<and> atoi t = Some v)"

lemma integer_ok [decoding_ok]: "run_state (integer d field) s = (v, None) \<longleftrightarrow> s = None \<and> int_text d field v"
  by (auto simp: integer_def str_def fail_def int_text_def split: option.splits)

lemma nonnegative_ok [decoding_ok]:
  "run_state (nonnegative d field) s = (v, None) \<longleftrightarrow> s = None \<and> int_text d field v \<and> 0 \<le> v"
  by (auto simp: nonnegative_def integer_def str_def fail_def int_text_def split: option.splits prod.splits if_splits)

lemma optionalNonnegative_ok [decoding_ok]:
  "run_state (optionalNonnegative d field) s = (v, None) \<longleftrightarrow>
   s = None \<and> (rd_raw d field = Some [] \<and> v = 0 \<or> (int_text d field v \<and> 0 \<le> v \<and> rd_raw d field \<noteq> Some []))"
  by (auto simp: optionalNonnegative_def str_def fail_def int_text_def split: option.splits prod.splits if_splits)

lemma boolean_ok [decoding_ok]:
  "run_state (boolean d field) s = (v, None) \<longleftrightarrow> s = None \<and> rd_raw d field = Some (if v then ''1'' else ''0'')"
  by (auto simp: boolean_def str_def fail_def split: option.splits prod.splits if_splits)

lemma timestamp_ok [decoding_ok]:
  "run_state (timestamp d field) s = (v, None) \<longleftrightarrow> s = None \<and> int_text d field v \<and> 0 \<le> v"
  by (auto simp: timestamp_def str_def fail_def int_text_def split: option.splits prod.splits if_splits)

lemma if_ok [decoding_ok]:
  "run_state (if b then m else n) s = (v, None) \<longleftrightarrow> (if b then run_state m s = (v, None) else run_state n s = (v, None))"
  by simp

lemma sticky_rules [decoding_ok]:
  "sticky (ret v)" "sticky (fail d field e)" "sticky (check_field d field ok)" "sticky (str d field)"
  "sticky (integer d field)" "sticky (nonnegative d field)" "sticky (optionalNonnegative d field)"
  "sticky (boolean d field)" "sticky (timestamp d field)"
  by (simp_all add: sticky_def decoding_ok del: State_Monad.run_state_bind)

lemma sticky_bind [decoding_ok]: "(\<And>a. sticky (f a)) \<Longrightarrow> sticky m \<Longrightarrow> sticky (State_Monad.bind m f)"
  by (simp add: sticky_def split: prod.splits)

lemma sticky_cases [decoding_ok]:
  "sticky m \<Longrightarrow> sticky n \<Longrightarrow> sticky (if b then m else n)"
  "sticky m \<Longrightarrow> (\<And>x. sticky (f x)) \<Longrightarrow> sticky (case eo of None \<Rightarrow> m | Some x \<Rightarrow> f x)"
  by (auto split: option.splits)

declare State_Monad.run_state_bind [simp del]

lemma decoded_ok: "decoded m = Inr v \<longleftrightarrow> run_state m None = (v, None)"
  by (auto simp: decoded_def split: prod.splits option.splits)

definition identity_generation :: "server \<Rightarrow> nat" where
  "identity_generation s =
     (case srv_conn s of Some gen \<Rightarrow> gen | None \<Rightarrow> (case srv_bound s of Some b \<Rightarrow> id_generation b | None \<Rightarrow> 0))"

definition identity_row :: "server \<Rightarrow> recordDecoder \<Rightarrow> server_identity \<Rightarrow> bool" where
  "identity_row s d i \<longleftrightarrow>
     int_text d ''pid'' (id_pid i) \<and> int_text d ''start_time'' (id_started i) \<and> 0 \<le> id_started i \<and>
     rd_raw d ''socket_path'' = Some (id_socket i) \<and> id_endpoint i = srv_endpoint s \<and>
     id_generation i = identity_generation s \<and> identity_valid i"

lemma decodeIdentity_ok [decoding_ok]:
  "run_state (decodeIdentity s d) e = (i, None) \<longleftrightarrow> e = None \<and> identity_row s d i"
proof
  assume "run_state (decodeIdentity s d) e = (i, None)"
  then show "e = None \<and> identity_row s d i"
    by (auto simp: decodeIdentity_def decoding_ok Let_def identity_row_def identity_generation_def)
next
  assume "e = None \<and> identity_row s d i"
  then show "run_state (decodeIdentity s d) e = (i, None)"
    by (cases i) (auto simp: decodeIdentity_def decoding_ok Let_def identity_row_def identity_generation_def identity_valid_def)
qed

lemma sticky_decodeIdentity [decoding_ok]: "sticky (decodeIdentity s d)"
  by (simp add: sticky_def decodeIdentity_ok)

definition supported_row :: "recordDecoder \<Rightarrow> bool" where
  "supported_row d \<longleftrightarrow> (\<exists>raw. rd_raw d ''version'' = Some raw \<and> AtLeast (ParseVersion raw) 3 6)"

definition same_as :: "server_identity option \<Rightarrow> server_identity \<Rightarrow> bool" where
  "same_as expected i \<longleftrightarrow> (\<forall>x. expected = Some x \<and> identity_valid x \<longrightarrow> sameDaemon i x)"

lemma decoder_ok [decoding_ok]:
  "run_state (decoder s d expected) e = (i, None) \<longleftrightarrow>
   e = None \<and> identity_row s d i \<and> same_as expected i \<and> supported_row d"
  unfolding supported_row_def same_as_def
  by (cases expected) (auto simp: decoder_def decoding_ok simp flip: supportedVersion_AtLeast split: option.splits if_splits)

lemma sticky_decoder [decoding_ok]: "sticky (decoder s d expected)"
  by (simp add: sticky_def decoder_ok)

text \<open>Long records are taken apart from their end, where no error is left.\<close>

lemmas row_defs = Let_def decoded_ok bind_run ret_ok fail_ok check_field_ok str_ok integer_ok nonnegative_ok
  optionalNonnegative_ok boolean_ok timestamp_ok decoder_ok

lemma decodeSession_ok:
  assumes "decodeSession s m expected = Inr v"
  shows "ss_raw v = m" "ss_h v = newHandle s (ss_ID v) ObjectKindSession (h_origin (ss_h v))" "SessionID_Valid (ss_ID v)"
    "identity_row s \<lparr>rd_kind = ''session'', rd_raw = m\<rparr> (h_origin (ss_h v))" "same_as expected (h_origin (ss_h v))"
    "m ''session_id'' = Some (ss_ID v)" "m ''session_name'' = Some (ss_Name v)" "m ''session_path'' = Some (ss_Path v)"
    "0 \<le> ss_Attached v" "0 \<le> ss_WindowCount v" "0 \<le> ss_Created v"
  using assms by (auto simp: decodeSession_def row_defs newHandle_def split: if_splits)

lemma decodeWindow_ok:
  assumes "decodeWindow s m expected = Inr (v, l)"
  shows "wi_raw v = m" "wi_h v = newHandle s (wi_ID v) ObjectKindWindow (h_origin (wi_h v))" "WindowID_Valid (wi_ID v)"
    "identity_row s \<lparr>rd_kind = ''window'', rd_raw = m\<rparr> (h_origin (wi_h v))" "same_as expected (h_origin (wi_h v))"
    "m ''window_id'' = Some (wi_ID v)" "0 \<le> wi_Width v" "0 \<le> wi_Height v" "0 \<le> wi_PaneCount v"
    "li_link l = \<lparr>wl_h = wi_h v, wl_session = li_SessionID l, wl_index = li_Index l\<rparr>" "li_WindowID l = wi_ID v"
    "SessionID_Valid (li_SessionID l)" "0 \<le> li_Index l" "m ''session_id'' = Some (li_SessionID l)"
  using assms by (auto simp: decodeWindow_def row_defs newHandle_def)

lemma parts_run:
  "run_state (decodePaneSelection d inMode) s = (v, None) \<Longrightarrow> s = None"
  "run_state (optional_session d) s = (v', None) \<Longrightarrow> s = None"
  "run_state (decodePaneContext d m) s = (c, None) \<Longrightarrow> s = None"
  "run_state (dimension d control field) s = (n, None) \<Longrightarrow> s = None"
  "run_state (pane_status d dead) s = (st, None) \<Longrightarrow> s = None"
  "run_state (pane_mode d inMode) s = (v', None) \<Longrightarrow> s = None"
  by (auto simp: pane_status_def pane_mode_def decodePaneSelection_def decodePaneContext_def optional_session_def dimension_def row_defs split: if_splits)

lemma decodePane_ok:
  assumes "decodePane s m expected = Inr v"
  shows "pn_raw v = m" "pn_h v = newHandle s (pn_ID v) ObjectKindPane (h_origin (pn_h v))" "PaneID_Valid (pn_ID v)"
    "identity_row s \<lparr>rd_kind = ''pane'', rd_raw = m\<rparr> (h_origin (pn_h v))" "same_as expected (h_origin (pn_h v))"
    "m ''pane_id'' = Some (pn_ID v)" "WindowID_Valid (pn_WindowID v)" "m ''window_id'' = Some (pn_WindowID v)"
    "0 \<le> pn_Width v" "0 \<le> pn_Height v" "0 \<le> pn_Left v" "0 \<le> pn_Top v" "0 \<le> pn_Index v" "0 \<le> pn_PID v"
  using assms by (auto simp: decodePane_def row_defs newHandle_def dest!: parts_run)

lemma decodeClient_ok:
  assumes "decodeClient s m expected = Inr v"
  shows "cl_raw v = m" "ClientName_Valid (cl_Name v)" "m ''client_name'' = Some (cl_Name v)"
    "cl_h v = (newHandle s (cl_Name v) ObjectKindClient (h_origin (cl_h v)))
       \<lparr>h_client := \<lparr>cc_name = cl_Name v, cc_pid = cl_PID v, cc_created = cl_Created v\<rparr>\<rparr>"
    "identity_row s \<lparr>rd_kind = ''client'', rd_raw = m\<rparr> (h_origin (cl_h v))" "same_as expected (h_origin (cl_h v))"
    "0 \<le> cl_PID v" "0 \<le> cl_Created v"
  using assms by (auto simp: decodeClient_def row_defs newHandle_def split: if_splits dest!: parts_run)

lemma serverInfo_ok:
  assumes "serverInfo s m = Inr v"
  shows "sv_raw v = m" "identity_row s \<lparr>rd_kind = ''server'', rd_raw = m\<rparr> (sv_Identity v)"
    "same_as (srv_bound s) (sv_Identity v)" "AtLeast (sv_Version v) 3 6"
proof -
  let ?d = "\<lparr>rd_kind = ''server'', rd_raw = m\<rparr>"
  obtain i err0 where i: "run_state (decodeIdentity s ?d) None = (i, err0)" by fastforce
  have ok: "err0 = None \<and> (case srv_bound s of Some b \<Rightarrow> identity_valid b \<longrightarrow> sameDaemon i b | None \<Rightarrow> True) \<and>
      sv_raw v = m \<and> sv_Identity v = i \<and> supportedVersion (sv_Version v) = None"
    using assms i
    by (auto simp: serverInfo_def Let_def decoding_ok split: option.split_asm prod.split_asm if_split_asm)
  with i have "identity_row s ?d i" using decodeIdentity_ok by blast
  with ok show "sv_raw v = m" "identity_row s ?d (sv_Identity v)" "same_as (srv_bound s) (sv_Identity v)"
      "AtLeast (sv_Version v) 3 6"
    by (auto simp: same_as_def simp flip: supportedVersion_AtLeast)
qed

text \<open>The handle of a decoded record passes its checks, and its guard names the daemon that answered.\<close>

lemma new_handle_valid:
  assumes "identity_row s d i" and "id_Valid kind x"
  shows "handle_valid ((newHandle s x kind i)\<lparr>h_client := c\<rparr>)" "handle_valid (newHandle s x kind i)"
  using assms by (simp_all add: handle_valid_def newHandle_def identity_row_def)

lemma identity_valid_endpoint: "identity_row s d i \<Longrightarrow> identity_valid i \<and> id_endpoint i = srv_endpoint s"
  by (simp add: identity_row_def)

end
