(* ===== verification/Read_Query.thy ===== *)
theory Read_Query
  imports Read_Decode "HOL-Library.Char_ord" "HOL-Library.List_Lexorder"
begin

text \<open>
  \<open>tmux/query.go\<close> and \<open>tmux/read.go\<close>: the requests that ask tmux for records, the reading of the
  answer, and the sorted lists that are returned. A method that may run tmux twice has one \<open>call_env\<close>
  for each run. \<open>verified\<close> is what the control connection learned when it attached. \<open>sort.Slice\<close>
  leaves the order of equal elements open; the model takes the stable order.
\<close>

subsection \<open>Requests\<close>

record query_options =
  qo_Filter :: bytes
  qo_ExtraFields :: "bytes list"

record record_query =
  qr_Kind :: object_kind
  qr_Fields :: "bytes list"
  qr_Filter :: bytes

record read_request =
  rr_kind :: object_kind
  rr_fields :: "bytes list"
  rr_node :: wireNode

definition validFormatName :: "bytes \<Rightarrow> bool" where
  "validFormatName s \<longleftrightarrow> s \<noteq> [] \<and>
     list_all (\<lambda>b. 97 \<le> code b \<and> code b \<le> 122 \<or> 65 \<le> code b \<and> code b \<le> 90 \<or> is_digit b \<or>
       b = CHR ''_'' \<or> b = CHR ''-'' \<or> b = CHR ''@'') s"

text \<open>The loop over the extra fields: \<open>out\<close> is also what was seen.\<close>

fun add_fields :: "bytes list \<Rightarrow> bytes list \<Rightarrow> goerr + bytes list" where
  "add_fields out [] = Inr out"
| "add_fields out (f # fs) =
     (if \<not> validFormatName f then Inl (invalid ''format field name'')
      else if f \<in> set out then add_fields out fs
      else add_fields (out @ [f]) fs)"

definition queryFields :: "bytes list \<Rightarrow> bytes list \<Rightarrow> goerr + bytes list" where
  "queryFields base extra =
     (if MaxRecordFields < int (length extra) then Inl (invalid ''field count'')
      else bind_res (add_fields base extra) (\<lambda>out.
        if MaxRecordFields < int (length out) then Inl (invalid ''field count'') else Inr out))"

definition numericID :: "bytes \<Rightarrow> nat" where
  "numericID s = (case parse_uint 32 (tl s) of Some n \<Rightarrow> n | None \<Rightarrow> 0)"

definition listCommandAndArgs :: "object_kind \<Rightarrow> bytes \<Rightarrow> goerr + bytes \<times> bytes list" where
  "listCommandAndArgs kind target =
     (case kind of
        ObjectKindSession \<Rightarrow> Inr (''list-sessions'', [])
      | ObjectKindWindow \<Rightarrow> Inr (''list-windows'', if target = [] then [''-a''] else [])
      | ObjectKindPane \<Rightarrow> Inr (''list-panes'', if target = [] then [''-a''] else [])
      | ObjectKindClient \<Rightarrow> Inr (''list-clients'', [])
      | _ \<Rightarrow> Inl (invalid ''object kind''))"

definition listFields ::
  "object_kind \<Rightarrow> bytes list \<Rightarrow> bytes \<Rightarrow> bytes \<Rightarrow> bytes list \<Rightarrow> goerr + read_request" where
  "listFields kind names flt target scope =
     bind_res (listCommandAndArgs kind target) (\<lambda>(name, args0).
       let args1 = args0 @ scope @ (if target \<noteq> [] then [''-t'', target] else []) in
       if flt \<noteq> [] \<and> \<not> ValidString flt then Inl (invalid ''filter'')
       else let args = args1 @ (if flt \<noteq> [] then [''-f'', flt] else []) @ [''-F'', RecordFormat names] in
         Inr \<lparr>rr_kind = kind, rr_fields = names, rr_node = leaf \<lparr>cmd_name = name, cmd_args = args\<rparr>\<rparr>)"

definition listRequest :: "object_kind \<Rightarrow> query_options \<Rightarrow> bytes \<Rightarrow> bytes list \<Rightarrow> goerr + read_request" where
  "listRequest kind opts target scope =
     bind_res (queryFields (fieldsFor kind) (qo_ExtraFields opts)) (\<lambda>names.
       listFields kind names (qo_Filter opts) target scope)"

definition recordQueryRequest :: "record_query \<Rightarrow> goerr + read_request" where
  "recordQueryRequest query =
     bind_res (queryFields [] (qr_Fields query)) (\<lambda>names.
       if names = [] \<or> MaxRecordFields < int (length names) then Inl (invalid ''field count'')
       else listFields (qr_Kind query) names (qr_Filter query) [] [])"

definition inspectRequest :: "object_kind \<Rightarrow> bytes \<Rightarrow> query_options \<Rightarrow> goerr + read_request" where
  "inspectRequest kind target opts =
     bind_res (queryFields (fieldsFor kind) (qo_ExtraFields opts)) (\<lambda>names.
       let c = (if kind = ObjectKindClient
                then \<lparr>cmd_name = ''list-clients'', cmd_args = [''-f'', clientFilter target, ''-F'', RecordFormat names]\<rparr>
                else \<lparr>cmd_name = ''display-message'', cmd_args = [''-p'', ''-t'', target, RecordFormat names]\<rparr>)
       in Inr \<lparr>rr_kind = kind, rr_fields = names, rr_node = leaf c\<rparr>)"

definition readBoundary :: bytes where "readBoundary = ''TGO1:0:''"

definition identityNode :: wireNode where
  "identityNode = leaf \<lparr>cmd_name = ''display-message'', cmd_args = [''-p'', RecordFormat schema_Identity]\<rparr>"

definition boundaryNode :: wireNode where
  "boundaryNode = leaf \<lparr>cmd_name = ''display-message'', cmd_args = [''-p'', readBoundary]\<rparr>"

text \<open>The command list of \<open>readRecords\<close>: an identity probe unless the connection verified its daemon,
  and a boundary between the requests.\<close>

fun request_nodes :: "nat \<Rightarrow> read_request list \<Rightarrow> wireNode list" where
  "request_nodes i [] = []"
| "request_nodes i (r # rs) = (if 0 < i then [boundaryNode] else []) @ rr_node r # request_nodes (Suc i) rs"

definition read_plan :: "bool \<Rightarrow> read_request list \<Rightarrow> plan" where
  "read_plan probed requests =
     \<lparr>pl_nodes = (if probed then [identityNode] else []) @ request_nodes 0 requests, pl_mode = replyRecords,
      pl_allowStart = False\<rparr>"

subsection \<open>The answer\<close>

text \<open>The loop of \<open>decodeRead\<close>: the rows of the current request, which \<open>requests[current]\<close> heads, and
  those of the requests after it.\<close>

function read_loop :: "read_request \<Rightarrow> read_request list \<Rightarrow> row list \<Rightarrow> source \<Rightarrow> goerr + row list list" where
  "read_loop rq rqs rows r =
     (if src_rest r = [] then
        (if rqs = [] then Inr [rows] else Inl (decodeError ''read'' ''boundary'' (Sentinel ErrRecord)))
      else (case ReadRecordFields (int (length (src_rest r))) r of
          (Inl e, r') \<Rightarrow> Inl (decodeError (kind_text (rr_kind rq)) ''record'' e)
        | (Inr values, r') \<Rightarrow>
            if values = [] then
              (case rqs of
                 [] \<Rightarrow> Inl (decodeError ''read'' ''boundary'' (Sentinel ErrRecord))
               | rq2 # rqs2 \<Rightarrow> bind_res (read_loop rq2 rqs2 [] r') (\<lambda>out. Inr (rows # out)))
            else if length values \<noteq> length (rr_fields rq)
              then Inl (decodeError (kind_text (rr_kind rq)) ''record'' (Sentinel ErrRecord))
            else read_loop rq rqs (rows @ [recordMap (rr_fields rq) values]) r'))"
  by pat_completeness auto
termination read_loop
  by (relation "measure (\<lambda>(rq, rqs, rows, r). length (src_rest r))")
     (auto dest!: sym [of _ "ReadRecordFields _ _"] ReadRecordFields_shorter)

declare read_loop.simps [simp del]

definition read_requests :: "read_request list \<Rightarrow> source \<Rightarrow> goerr + row list list" where
  "read_requests requests r =
     (case requests of
        [] \<Rightarrow> Inl (decodeError ''read'' ''boundary'' (Sentinel ErrRecord))
      | rq # rqs \<Rightarrow> read_loop rq rqs [] r)"

definition decodeRead ::
  "server \<Rightarrow> server_info \<Rightarrow> bytes \<Rightarrow> bool \<Rightarrow> read_request list \<Rightarrow> goerr + server_info \<times> row list list" where
  "decodeRead s verified data probed requests =
     (let reader = bytes_reader data in
      if \<not> probed then bind_res (read_requests requests reader) (\<lambda>rows. Inr (verified, rows))
      else (case ReadRecordFields (int (length data)) reader of
          (Inr values, r') \<Rightarrow>
            if length values \<noteq> length schema_Identity
            then Inl (DiscoveryError (decodeError ''server'' ''record'' (Sentinel ErrRecord)))
            else (case serverInfo s (recordMap schema_Identity values) of
                Inl e \<Rightarrow> Inl (DiscoveryError e)
              | Inr info \<Rightarrow> bind_res (read_requests requests r') (\<lambda>rows. Inr (info, rows)))
        | (Inl e, r') \<Rightarrow> Inl (DiscoveryError (decodeError ''server'' ''record'' (Sentinel ErrRecord)))))"

definition readError :: "bytes \<Rightarrow> goerr \<Rightarrow> goerr" where
  "readError label e = (if as_discovery e \<noteq> None then e else the (afterError label (Some e) []))"

text \<open>A malformed answer is asked for once more; the first error is reported when that fails too.\<close>

definition readRecords ::
  "call_env \<Rightarrow> call_env \<Rightarrow> server \<Rightarrow> server_info \<Rightarrow> bytes \<Rightarrow> operation \<Rightarrow> read_request list \<Rightarrow>
   goerr + server_info \<times> row list list" where
  "readRecords env env' s verified label op requests =
     (let probed = (srv_conn s = None); p = read_plan probed requests in
      case execute env s op p None None of
        ((r, Some e), op') \<Rightarrow>
          Inl (if probed \<and> \<not> has_prefix (res_stdout r) RecordPrefix then DiscoveryError e else e)
      | ((r, None), op') \<Rightarrow>
          (case decodeRead s verified (res_stdout r) probed requests of
             Inr v \<Rightarrow> Inr v
           | Inl e \<Rightarrow>
               if \<not> err_is e ErrRecord then Inl (readError label e)
               else (case execute env' s op' p None None of
                   ((r2, Some e2), _) \<Rightarrow> Inl (readError label e)
                 | ((r2, None), _) \<Rightarrow>
                     (case decodeRead s verified (res_stdout r2) probed requests of
                        Inl e2 \<Rightarrow> Inl (readError label e)
                      | Inr v \<Rightarrow> Inr v))))"

subsection \<open>Sorted lists\<close>

abbreviation after_error :: "bytes \<Rightarrow> goerr \<Rightarrow> goerr" where
  "after_error label e \<equiv> the (afterError label (Some e) [])"

definition after :: "bytes \<Rightarrow> goerr + 'a \<Rightarrow> goerr + 'a" where
  "after label r = (case r of Inl e \<Rightarrow> Inl (after_error label e) | Inr v \<Rightarrow> Inr v)"

definition decodeSessions :: "server \<Rightarrow> bytes \<Rightarrow> row list \<Rightarrow> server_identity \<Rightarrow> goerr + session_info list" where
  "decodeSessions s label rows i =
     bind_res (map_res (\<lambda>m. after label (decodeSession s m (Some i))) rows) (\<lambda>out.
       Inr (sort_key (\<lambda>v. numericID (ss_ID v)) out))"

text \<open>The elements whose id was not seen before.\<close>

fun first_of_each :: "('a \<Rightarrow> bytes) \<Rightarrow> bytes set \<Rightarrow> 'a list \<Rightarrow> 'a list" where
  "first_of_each f seen [] = []"
| "first_of_each f seen (x # xs) =
     (if f x \<in> seen then first_of_each f seen xs else x # first_of_each f (insert (f x) seen) xs)"

definition decodeWindows ::
  "server \<Rightarrow> bytes \<Rightarrow> row list \<Rightarrow> server_identity \<Rightarrow> goerr + window_info list \<times> window_link_info list" where
  "decodeWindows s label rows i =
     bind_res (map_res (\<lambda>m. after label (decodeWindow s m (Some i))) rows) (\<lambda>pairs.
       Inr (sort_key (\<lambda>v. numericID (wi_ID v)) (first_of_each wi_ID {} (map fst pairs)),
            sort_key (\<lambda>l. numericID (li_SessionID l)) (sort_key li_Index (map snd pairs))))"

definition decodePanes :: "server \<Rightarrow> bytes \<Rightarrow> row list \<Rightarrow> server_identity \<Rightarrow> goerr + pane_info list" where
  "decodePanes s label rows i =
     bind_res (map_res (\<lambda>m. after label (decodePane s m (Some i))) rows) (\<lambda>out.
       Inr (sort_key (\<lambda>v. numericID (pn_ID v)) (first_of_each pn_ID {} out)))"

definition decodeClients :: "server \<Rightarrow> bytes \<Rightarrow> row list \<Rightarrow> server_identity \<Rightarrow> goerr + client_info list" where
  "decodeClients s label rows i =
     bind_res (map_res (\<lambda>m. after label (decodeClient s m (Some i))) rows) (\<lambda>out.
       Inr (sort_key cl_Name out))"

subsection \<open>The answer, exactly\<close>

text \<open>The output of the requests: \<open>display-message\<close> ends the boundary with a line end.\<close>

lemma readBoundary_empty: "readBoundary @ [LF] = EncodeRecord []"
  by code_simp

abbreviation records_text :: "bytes list list \<Rightarrow> bytes" where
  "records_text g \<equiv> concat (map EncodeRecord g)"

fun answer_text :: "bytes list list list \<Rightarrow> bytes" where
  "answer_text [] = []"
| "answer_text (g # gs) = records_text g @ (if gs = [] then [] else EncodeRecord [] @ answer_text gs)"

definition fits :: "read_request \<Rightarrow> bytes list list \<Rightarrow> bool" where
  "fits rq g \<longleftrightarrow> list_all (\<lambda>vals. vals \<noteq> [] \<and> row_ok (int (length (rr_fields rq))) vals) g"

definition request_rows :: "read_request \<Rightarrow> bytes list list \<Rightarrow> row list" where
  "request_rows rq g = map (recordMap (rr_fields rq)) g"

lemma fits_Nil [simp]: "fits rq []"
  by (simp add: fits_def)

lemma fits_Cons [simp]:
  "fits rq (v # g) \<longleftrightarrow> v \<noteq> [] \<and> row_ok (int (length (rr_fields rq))) v \<and> fits rq g"
  by (simp add: fits_def)

lemma first_record:
  assumes "src_rest r = EncodeRecord fs @ rest" and "length fs \<le> 1024" and "length (src_rest r) < 2 ^ 63"
  shows "ReadRecordFields (int (length (src_rest r))) r = (Inr fs, r\<lparr>src_rest   := rest\<rparr>)"
  by (subst ReadRecordFields_exact) (use assms in auto)

lemma read_loop_complete:
  "list_all2 fits rqs gs \<Longrightarrow> fits rq g \<Longrightarrow> src_rest r = answer_text (g # gs) \<Longrightarrow> length (src_rest r) < 2 ^ 63 \<Longrightarrow>
   read_loop rq rqs rows r = Inr ((rows @ request_rows rq g) # map2 request_rows rqs gs)"
proof (induction rqs gs arbitrary: rq g r rows rule: list_all2_induct)
  case Nil
  then show ?case
  proof (induction g arbitrary: rows r)
    case Nil
    then show ?case by (subst read_loop.simps) (simp add: request_rows_def)
  next
    case (Cons v g)
    have "ReadRecordFields (int (length (src_rest r))) r = (Inr v, r\<lparr>src_rest := records_text g\<rparr>)"
      using Cons.prems by (intro first_record) (auto simp: fits_def)
    then show ?case
      using Cons.prems
      by (subst read_loop.simps) (auto simp: Cons.IH fits_def request_rows_def)
  qed
next
  case (Cons rq2 rqs g2 gs)
  from Cons.prems Cons.hyps show ?case
  proof (induction g arbitrary: rows r)
    case Nil
    have "ReadRecordFields (int (length (src_rest r))) r = (Inr [], r\<lparr>src_rest := answer_text (g2 # gs)\<rparr>)"
      using Nil.prems by (intro first_record) (auto simp: )
    then show ?case
      using Nil.prems Cons.IH [of rq2 g2 "r\<lparr>src_rest := answer_text (g2 # gs)\<rparr>" "[]"]
      by (subst read_loop.simps) (auto simp: request_rows_def bind_res_def)
  next
    case (Cons v g)
    have "ReadRecordFields (int (length (src_rest r))) r =
        (Inr v, r\<lparr>src_rest := records_text g @ EncodeRecord [] @ answer_text (g2 # gs)\<rparr>)"
      using Cons.prems by (intro first_record) (auto simp: fits_def)
    then show ?case
      using Cons.prems
      by (subst read_loop.simps) (auto simp: Cons.IH fits_def request_rows_def)
  qed
qed

lemma read_loop_sound:
  "read_loop rq rqs rows r = Inr out \<Longrightarrow> src_end r = Sentinel IoEOF \<Longrightarrow> length (src_rest r) < 2 ^ 63 \<Longrightarrow>
   \<exists>g gs. src_rest r = answer_text (g # gs) \<and> fits rq g \<and> list_all2 fits rqs gs \<and>
     out = (rows @ request_rows rq g) # map2 request_rows rqs gs"
proof (induction rq rqs rows r arbitrary: out rule: read_loop.induct)
  case (1 rq rqs rows r)
  show ?case
  proof (cases "src_rest r = []")
    case True
    with "1.prems"(1) have "rqs = [] \<and> out = [rows]"
      by (subst (asm) read_loop.simps) (simp split: if_split_asm)
    with True show ?thesis
      by (intro exI [where x = "[]"]) (simp add: fits_def request_rows_def)
  next
    case False
    obtain x r' where rd: "ReadRecordFields (int (length (src_rest r))) r = (x, r')" by fastforce
    obtain vals where x: "x = Inr vals"
      using "1.prems"(1) False rd by (subst (asm) read_loop.simps) (cases x; simp)
    note rd = rd [unfolded x]
    have v: "src_rest r = EncodeRecord vals @ src_rest r'" "src_end r' = Sentinel IoEOF" "length vals \<le> 1024"
      using rd "1.prems"(2,3) by (simp_all add: ReadRecordFields_exact)
    then have l: "length (src_rest r') < 2 ^ 63" using "1.prems"(3) by simp
    show ?thesis
    proof (cases "vals = []")
      case True
      obtain rq2 rqs2 out2 where o: "rqs = rq2 # rqs2" "read_loop rq2 rqs2 [] r' = Inr out2" "out = rows # out2"
        using "1.prems"(1) False rd True
        by (subst (asm) read_loop.simps) (auto split: list.split_asm simp: bind_res_Inr_iff)
      obtain g gs where "src_rest r' = answer_text (g # gs)" "fits rq2 g" "list_all2 fits rqs2 gs"
          "out2 = request_rows rq2 g # map2 request_rows rqs2 gs"
        using "1.IH"(1) [OF False rd [symmetric] refl True o(1) o(2) v(2) l] by auto
      with o v(1) True show ?thesis
        by (rule_tac x = "[]" in exI, rule_tac x = "g # gs" in exI) (simp add: request_rows_def)
    next
      case v0: False
      have o: "length vals = length (rr_fields rq)"
          "read_loop rq rqs (rows @ [recordMap (rr_fields rq) vals]) r' = Inr out"
        using "1.prems"(1) False rd v0 by (subst (asm) read_loop.simps, simp split: if_split_asm)+
      obtain g gs where "src_rest r' = answer_text (g # gs)" "fits rq g" "list_all2 fits rqs gs"
          "out = (rows @ [recordMap (rr_fields rq) vals] @ request_rows rq g) # map2 request_rows rqs gs"
        using "1.IH"(2) [OF False rd [symmetric] refl v0 _ o(2) v(2) l] o(1) by auto
      with v v0 o(1) show ?thesis
        by (intro exI [where x = "vals # g"] exI [where x = gs]) (simp add: request_rows_def)
    qed
  qed
qed

lemma read_requests_iff:
  assumes "src_end r = Sentinel IoEOF" and "length (src_rest r) < 2 ^ 63" and "requests \<noteq> []"
  shows "read_requests requests r = Inr out \<longleftrightarrow>
    (\<exists>gs. src_rest r = answer_text gs \<and> list_all2 fits requests gs \<and> out = map2 request_rows requests gs)"
proof -
  obtain rq rqs where rq: "requests = rq # rqs" using assms(3) by (cases requests) auto
  show ?thesis
  proof
    assume "read_requests requests r = Inr out"
    then have "read_loop rq rqs [] r = Inr out" by (simp add: read_requests_def rq)
    from read_loop_sound [OF this assms(1,2)] obtain g gs where
      "src_rest r = answer_text (g # gs)" "fits rq g" "list_all2 fits rqs gs"
      "out = request_rows rq g # map2 request_rows rqs gs" by auto
    then show "\<exists>gs. src_rest r = answer_text gs \<and> list_all2 fits requests gs \<and> out = map2 request_rows requests gs"
      by (intro exI [where x = "g # gs"]) (simp add: rq)
  next
    assume "\<exists>gs. src_rest r = answer_text gs \<and> list_all2 fits requests gs \<and> out = map2 request_rows requests gs"
    then obtain g gs where "src_rest r = answer_text (g # gs)" "fits rq g" "list_all2 fits rqs gs"
      "out = request_rows rq g # map2 request_rows rqs gs"
      by (auto simp: rq list_all2_Cons1)
    with read_loop_complete [OF this(3,2,1) assms(2), of "[]"]
    show "read_requests requests r = Inr out" by (simp add: read_requests_def rq)
  qed
qed

lemma decodeRead_iff:
  assumes "length data < 2 ^ 63" and "requests \<noteq> []"
  shows "decodeRead s verified data True requests = Inr (info, out) \<longleftrightarrow>
    (\<exists>values gs. data = EncodeRecord values @ answer_text gs \<and> length values = length schema_Identity \<and>
       serverInfo s (recordMap schema_Identity values) = Inr info \<and>
       list_all2 fits requests gs \<and> out = map2 request_rows requests gs)"
proof
  let ?r = "bytes_reader data"
  have r: "src_rest ?r = data" "src_end ?r = Sentinel IoEOF" by (simp_all add: bytes_reader_def)
  {
    assume d: "decodeRead s verified data True requests = Inr (info, out)"
    obtain x r' where rd: "ReadRecordFields (int (length data)) ?r = (x, r')" by fastforce
    obtain vals where x: "x = Inr vals" using d rd by (cases x) (auto simp: decodeRead_def)
    have rest: "data = EncodeRecord vals @ src_rest r'" "src_end r' = Sentinel IoEOF"
      using rd x r assms(1) by (simp_all add: ReadRecordFields_exact)
    have "length (src_rest r') < 2 ^ 63" using rest(1) assms(1) by simp
    from read_requests_iff [OF rest(2) this assms(2)] d rd x rest(1)
    show "\<exists>values gs. data = EncodeRecord values @ answer_text gs \<and> length values = length schema_Identity \<and>
       serverInfo s (recordMap schema_Identity values) = Inr info \<and>
       list_all2 fits requests gs \<and> out = map2 request_rows requests gs"
      by (intro exI [where x = vals]) (auto simp: decodeRead_def bind_res_Inr_iff split: if_split_asm sum.split_asm)
  next
    assume "\<exists>values gs. data = EncodeRecord values @ answer_text gs \<and> length values = length schema_Identity \<and>
       serverInfo s (recordMap schema_Identity values) = Inr info \<and>
       list_all2 fits requests gs \<and> out = map2 request_rows requests gs"
    then obtain vals gs where v: "data = EncodeRecord vals @ answer_text gs" "length vals = length schema_Identity"
        "serverInfo s (recordMap schema_Identity vals) = Inr info"
        "list_all2 fits requests gs" "out = map2 request_rows requests gs" by blast
    have "ReadRecordFields (int (length data)) ?r = (Inr vals, ?r\<lparr>src_rest := answer_text gs\<rparr>)"
      using first_record [of ?r vals "answer_text gs"] v(1,2) r(1) assms(1) by (simp add: schema_Identity_def)
    moreover have "read_requests requests (?r\<lparr>src_rest := answer_text gs\<rparr>) = Inr out"
      using v assms r by (subst read_requests_iff) auto
    ultimately show "decodeRead s verified data True requests = Inr (info, out)"
      using v(2,3) by (simp add: decodeRead_def bind_res_def)
  }
qed

text \<open>A small daemon.\<close>

definition tiny_rows :: "bytes list" where
  "tiny_rows = [''7'', ''5'', ''/s'', ''3.6'']"

lemma tiny_atoi: "atoi ''7'' = Some 7" "atoi ''5'' = Some 5" "atoi ''0'' = Some 0" "atoi ''1'' = Some 1" "atoi ''6'' = Some 6"
  by (simp_all add: parse_int_def parse_uint_def is_digit_def digits_val_def digit_val_def Let_def)

lemma tiny_version: "supportedVersion (ParseVersion ''3.6'') = None"
proof -
  have "''3.6'' = release_text 3 6 []" by code_simp
  then show ?thesis using supported_release [of "[]" 3 6] by (simp add: patch_ok_def)
qed

definition tiny_daemon :: server_identity where
  "tiny_daemon = \<lparr>id_endpoint = zero_endpoint, id_socket = ''/s'', id_pid = 7, id_started = 5, id_generation = 0\<rparr>"

lemma tiny_identity_row:
  "m ''pid'' = Some ''7'' \<Longrightarrow> m ''start_time'' = Some ''5'' \<Longrightarrow> m ''socket_path'' = Some ''/s'' \<Longrightarrow>
   identity_row plain_server \<lparr>rd_kind = k, rd_raw = m\<rparr> tiny_daemon"
  by (simp add: identity_row_def int_text_def tiny_atoi tiny_daemon_def plain_server_def identity_generation_def
      identity_valid_def zero_time_def)

definition tiny_info :: server_info where
  "tiny_info =
     \<lparr>sv_raw = recordMap schema_Identity tiny_rows, sv_Identity = tiny_daemon, sv_Version = ParseVersion ''3.6''\<rparr>"

lemma tiny_serverInfo:
  "serverInfo plain_server (recordMap schema_Identity tiny_rows) = Inr tiny_info"
proof -
  let ?m = "recordMap schema_Identity tiny_rows"
  have m: "?m ''pid'' = Some ''7''" "?m ''start_time'' = Some ''5''" "?m ''socket_path'' = Some ''/s''" "?m ''version'' = Some ''3.6''"
    by (simp_all add: recordMap_def schema_Identity_def tiny_rows_def)
  then have "run_state (decodeIdentity plain_server \<lparr>rd_kind = ''server'', rd_raw = ?m\<rparr>) None = (tiny_daemon, None)"
    by (simp add: decodeIdentity_ok tiny_identity_row)
  with m(4) show ?thesis
    by (simp add: serverInfo_def plain_server_def str_def tiny_version tiny_info_def)
qed

text \<open>C23: The answer to a list of reads is taken apart exactly: it is accepted when, and only when, it is the
  identity record of a supported, expected daemon followed by one group of canonical records for each
  request, each with the fields that were asked for, and a boundary between the groups. The rows that are
  returned are then the rows of these groups, each for its own request.\<close>

theorem decodeRead_exact:
  assumes "length data < 2 ^ 63" and "requests \<noteq> []"
  shows "decodeRead s verified data True requests = Inr (info, out) \<longleftrightarrow>
    (\<exists>values gs. data = EncodeRecord values @ answer_text gs \<and> length values = length schema_Identity \<and>
       serverInfo s (recordMap schema_Identity values) = Inr info \<and>
       list_all2 fits requests gs \<and> out = map2 request_rows requests gs)"
  by (rule decodeRead_iff [OF assms])

lemma decodeRead_exact_witness:
  "decodeRead plain_server tiny_info (EncodeRecord tiny_rows @ answer_text [[[''a'']], [[''b''], [''c'']]]) True
     [\<lparr>rr_kind = ObjectKindSession, rr_fields = [''x''], rr_node = identityNode\<rparr>,
      \<lparr>rr_kind = ObjectKindPane, rr_fields = [''y''], rr_node = identityNode\<rparr>] =
   Inr (tiny_info, [[[''x'' \<mapsto> ''a'']], [[''y'' \<mapsto> ''b''], [''y'' \<mapsto> ''c'']]])"
  (is "decodeRead _ _ ?data _ ?requests = _")
proof -
  have "length ?data \<le> 999" by code_simp
  then have "length ?data < 2 ^ 63" by simp
  moreover have "list_all2 fits ?requests [[[''a'']], [[''b''], [''c'']]]" by simp
  moreover have "map2 request_rows ?requests [[[''a'']], [[''b''], [''c'']]] =
      [[[''x'' \<mapsto> ''a'']], [[''y'' \<mapsto> ''b''], [''y'' \<mapsto> ''c'']]]"
    by (simp add: request_rows_def recordMap_def)
  moreover have "length tiny_rows = length schema_Identity" by (simp add: tiny_rows_def schema_Identity_def)
  ultimately have "\<exists>values gs. ?data = EncodeRecord values @ answer_text gs \<and> length values = length schema_Identity \<and>
      serverInfo plain_server (recordMap schema_Identity values) = Inr tiny_info \<and> list_all2 fits ?requests gs \<and>
      [[[''x'' \<mapsto> ''a'']], [[''y'' \<mapsto> ''b''], [''y'' \<mapsto> ''c'']]] = map2 request_rows ?requests gs"
    using tiny_serverInfo
    by (intro exI [where x = tiny_rows] exI [where x = "[[[''a'']], [[''b''], [''c'']]]"]) simp
  with \<open>length ?data < 2 ^ 63\<close> show ?thesis by (simp only: decodeRead_exact list.distinct simp_thms)
qed

end
