(* ===== verification/Read_Objects.thy ===== *)
theory Read_Objects
  imports Read_Query
begin

text \<open>
  The methods of \<open>tmux/query.go\<close>, \<open>tmux/read.go\<close>, \<open>tmux/handles.go\<close> and \<open>tmux/version.go\<close> that read:
  the lists of a server, of a session and of a window, the look-up of one object, its \<open>Info\<close>, and the
  expansion of formats. Each run of tmux has its \<open>call_env\<close>: the second one is the repeated run after a
  malformed answer. \<open>verified\<close> is what each control connection learned when it attached.
\<close>

subsection \<open>Reading rows in an operation\<close>

abbreviation op_error :: "bytes \<Rightarrow> goerr \<Rightarrow> goerr" where
  "op_error label e \<equiv> the (opError label (Some e))"

definition labelled :: "bytes \<Rightarrow> goerr + 'a \<Rightarrow> goerr + 'a" where
  "labelled label r = (case r of Inl e \<Rightarrow> Inl (op_error label e) | Inr v \<Rightarrow> Inr v)"

type_synonym 'a step_result = "(goerr + 'a) \<times> operation"

definition parseOrRetry ::
  "call_env \<Rightarrow> server \<Rightarrow> operation \<Rightarrow> plan \<Rightarrow> guard option \<Rightarrow> result \<Rightarrow> bytes list \<Rightarrow> bytes \<Rightarrow> row list step_result" where
  "parseOrRetry env' s op p g r names kind =
     (case parseRaw (res_stdout r) names kind of
        Inr rows \<Rightarrow> (Inr rows, op)
      | Inl e \<Rightarrow>
          if \<not> err_is e ErrRecord then (Inl e, op)
          else (case execute env' s op p g None of
              ((r2, Some e2), op2) \<Rightarrow> (Inl e, op2)
            | ((r2, None), op2) \<Rightarrow>
                (case parseRaw (res_stdout r2) names kind of
                   Inl e2 \<Rightarrow> (Inl e, op2)
                 | Inr rows \<Rightarrow> (Inr rows, op2))))"

text \<open>What \<open>listRaw\<close> and \<open>inspect\<close> share: one execution of the request.\<close>

definition read_rows ::
  "call_env \<Rightarrow> call_env \<Rightarrow> server \<Rightarrow> bytes \<Rightarrow> operation \<Rightarrow> read_request \<Rightarrow> guard option \<Rightarrow> row list step_result" where
  "read_rows env env' s label op req g =
     (let p = \<lparr>pl_nodes = [rr_node req], pl_mode = replyRecords, pl_allowStart = False\<rparr> in
      case execute env s op p g None of
        ((r, Some e), op1) \<Rightarrow> (Inl e, op1)
      | ((r, None), op1) \<Rightarrow>
          (case parseOrRetry env' s op1 p g r (rr_fields req) (kind_text (rr_kind req)) of
             (rows, op2) \<Rightarrow> (after label rows, op2)))"

definition listRaw ::
  "call_env \<Rightarrow> call_env \<Rightarrow> server \<Rightarrow> bytes \<Rightarrow> operation \<Rightarrow> object_kind \<Rightarrow> server_identity \<Rightarrow> query_options \<Rightarrow>
   bytes \<Rightarrow> bytes list \<Rightarrow> row list step_result" where
  "listRaw env env' s label op kind expected opts target scope =
     (case listRequest kind opts target scope of
        Inl e \<Rightarrow> (Inl e, op)
      | Inr req \<Rightarrow> read_rows env env' s label op req (if identity_valid expected then Some (newGuard expected) else None))"

definition inspectedRow :: "bytes \<Rightarrow> object_kind \<Rightarrow> row list \<Rightarrow> goerr + row" where
  "inspectedRow label kind rows =
     (if kind = ObjectKindClient \<and> rows = [] then Inl (op_error label (Sentinel ErrNotFound))
      else (case rows of
          [m] \<Rightarrow>
            if (kind = ObjectKindSession \<or> kind = ObjectKindWindow \<or> kind = ObjectKindPane) \<and>
               (case m (kind_text kind @ ''_id'') of Some v \<Rightarrow> v | None \<Rightarrow> []) = []
            then Inl (op_error label (Sentinel ErrNotFound))
            else Inr m
        | _ \<Rightarrow> Inl (after_error label (decodeError (kind_text kind) ''record count'' (Sentinel ErrRecord)))))"

definition inspect ::
  "call_env \<Rightarrow> call_env \<Rightarrow> server \<Rightarrow> bytes \<Rightarrow> operation \<Rightarrow> object_kind \<Rightarrow> bytes \<Rightarrow> guard option \<Rightarrow> query_options \<Rightarrow>
   row step_result" where
  "inspect env env' s label op kind target g opts =
     (case inspectRequest kind target opts of
        Inl e \<Rightarrow> (Inl e, op)
      | Inr req \<Rightarrow> (case read_rows env env' s label op req g of
          (rows, op2) \<Rightarrow> (bind_res rows (inspectedRow label kind), op2)))"

definition probe :: "call_env \<Rightarrow> server \<Rightarrow> operation \<Rightarrow> server_info step_result" where
  "probe env s op =
     (case execute env s op (recordsPlan \<lparr>cmd_name = ''display-message'', cmd_args = [''-p'', RecordFormat schema_Identity]\<rparr>)
          None None of
        ((r, Some e), op') \<Rightarrow> (Inl (DiscoveryError e), op')
      | ((r, None), op') \<Rightarrow>
          ((case parseRaw (res_stdout r) schema_Identity ''server'' of
              Inl e \<Rightarrow> Inl (DiscoveryError (after_error ''Server.Probe'' e))
            | Inr [m] \<Rightarrow> (case serverInfo s m of Inl e \<Rightarrow> Inl (DiscoveryError e) | Inr info \<Rightarrow> Inr info)
            | Inr _ \<Rightarrow> Inl (DiscoveryError (after_error ''Server.Probe''
                (decodeError ''server'' ''record count'' (Sentinel ErrRecord))))), op'))"

definition verifiedInfo :: "call_env \<Rightarrow> (server \<Rightarrow> server_info) \<Rightarrow> server \<Rightarrow> operation \<Rightarrow> server_info step_result" where
  "verifiedInfo env verified s op = (if srv_conn s \<noteq> None then (Inr (verified s), op) else probe env s op)"

definition Probe :: "call_env \<Rightarrow> server option \<Rightarrow> goerr + server_info" where
  "Probe env so = labelled ''Server.Probe'' (bind_res (begin_op env so) (\<lambda>(s, op). fst (probe env s op)))"

subsection \<open>The lists of a server\<close>

text \<open>\<open>listed\<close> is the body that the four list methods share.\<close>

definition listed ::
  "(server \<Rightarrow> bytes \<Rightarrow> row list \<Rightarrow> server_identity \<Rightarrow> goerr + 'a) \<Rightarrow> object_kind \<Rightarrow> bytes \<Rightarrow>
   call_env \<Rightarrow> call_env \<Rightarrow> (server \<Rightarrow> server_info) \<Rightarrow> server option \<Rightarrow> query_options \<Rightarrow> goerr + 'a" where
  "listed dec kind label env env' verified so opts =
     labelled label (bind_res (begin_op env so) (\<lambda>(s, op).
       bind_res (listRequest kind opts [] []) (\<lambda>req.
       bind_res (readRecords env env' s (verified s) label op [req]) (\<lambda>(info, rows).
       dec s label (hd rows) (sv_Identity info)))))"

definition SessionsWith where
  "SessionsWith = listed decodeSessions ObjectKindSession ''Server.Sessions''"

definition WindowsWith where
  "WindowsWith = listed (\<lambda>s label rows i. bind_res (decodeWindows s label rows i) (\<lambda>(ws, ls). Inr ws))
     ObjectKindWindow ''Server.Windows''"

definition PanesWith where
  "PanesWith = listed decodePanes ObjectKindPane ''Server.Panes''"

definition ClientsWith where
  "ClientsWith = listed decodeClients ObjectKindClient ''Server.Clients''"

definition QueryRecords ::
  "call_env \<Rightarrow> call_env \<Rightarrow> (server \<Rightarrow> server_info) \<Rightarrow> server option \<Rightarrow> record_query \<Rightarrow>
   goerr + server_identity \<times> version \<times> row list" where
  "QueryRecords env env' verified so query =
     labelled ''Server.QueryRecords'' (bind_res (begin_op env so) (\<lambda>(s, op).
       bind_res (recordQueryRequest query) (\<lambda>req.
       bind_res (readRecords env env' s (verified s) ''Server.QueryRecords'' op [req]) (\<lambda>(info, rows).
       Inr (sv_Identity info, sv_Version info, hd rows)))))"

subsection \<open>Looking up one object\<close>

definition lookup ::
  "call_env \<Rightarrow> call_env \<Rightarrow> (server \<Rightarrow> server_info) \<Rightarrow> server option \<Rightarrow> bytes \<Rightarrow> object_kind \<Rightarrow> bytes \<Rightarrow>
   goerr + server \<times> row" where
  "lookup env env' verified so label kind oid =
     (if kind = ObjectKindSession \<and> \<not> SessionID_Valid oid \<or> kind = ObjectKindWindow \<and> \<not> WindowID_Valid oid \<or>
         kind = ObjectKindPane \<and> \<not> PaneID_Valid oid
      then Inl (invalid ''object ID'')
      else bind_res (begin_op env so) (\<lambda>(s, op).
        bind_res (inspectRequest kind oid \<lparr>qo_Filter = [], qo_ExtraFields = []\<rparr>) (\<lambda>req.
        bind_res (readRecords env env' s (verified s) label op [req]) (\<lambda>(info, rows).
        bind_res (inspectedRow label kind (hd rows)) (\<lambda>m. Inr (s, m))))))"

text \<open>\<open>looked_up\<close> is the body that \<open>Session\<close>, \<open>Window\<close> and \<open>Pane\<close> share: the handle of the decoded record,
  which must be the one that was asked for.\<close>

definition looked_up ::
  "bytes \<Rightarrow> object_kind \<Rightarrow> (server \<Rightarrow> row \<Rightarrow> goerr + bytes \<times> handle) \<Rightarrow>
   call_env \<Rightarrow> call_env \<Rightarrow> (server \<Rightarrow> server_info) \<Rightarrow> server option \<Rightarrow> bytes \<Rightarrow> goerr + handle" where
  "looked_up label kind dec env env' verified so oid =
     (case lookup env env' verified so label kind oid of
        Inl e \<Rightarrow> Inl (op_error label e)
      | Inr (s, m) \<Rightarrow>
          (case dec s m of
             Inl e \<Rightarrow> Inl (after_error label e)
           | Inr (found, h) \<Rightarrow>
               if found \<noteq> oid then Inl (after_error label (decodeError (kind_text kind) ''ID'' (Sentinel ErrProtocol)))
               else Inr h))"

definition decode_session :: "server \<Rightarrow> row \<Rightarrow> goerr + bytes \<times> handle" where
  "decode_session s m = bind_res (decodeSession s m None) (\<lambda>v. Inr (ss_ID v, ss_h v))"

definition decode_window :: "server \<Rightarrow> row \<Rightarrow> goerr + bytes \<times> handle" where
  "decode_window s m = bind_res (decodeWindow s m None) (\<lambda>(v, l). Inr (wi_ID v, wi_h v))"

definition decode_pane :: "server \<Rightarrow> row \<Rightarrow> goerr + bytes \<times> handle" where
  "decode_pane s m = bind_res (decodePane s m None) (\<lambda>v. Inr (pn_ID v, pn_h v))"

definition Server_Session ::
  "call_env \<Rightarrow> call_env \<Rightarrow> (server \<Rightarrow> server_info) \<Rightarrow> server option \<Rightarrow> bytes \<Rightarrow> goerr + handle" where
  "Server_Session = looked_up ''Server.Session'' ObjectKindSession decode_session"

definition Server_Window ::
  "call_env \<Rightarrow> call_env \<Rightarrow> (server \<Rightarrow> server_info) \<Rightarrow> server option \<Rightarrow> bytes \<Rightarrow> goerr + handle" where
  "Server_Window = looked_up ''Server.Window'' ObjectKindWindow decode_window"

definition Server_Pane ::
  "call_env \<Rightarrow> call_env \<Rightarrow> (server \<Rightarrow> server_info) \<Rightarrow> server option \<Rightarrow> bytes \<Rightarrow> goerr + handle" where
  "Server_Pane = looked_up ''Server.Pane'' ObjectKindPane decode_pane"

text \<open>Handles without a round trip.\<close>

definition known_handle :: "bytes \<Rightarrow> bytes \<Rightarrow> object_kind \<Rightarrow> (bytes \<Rightarrow> bool) \<Rightarrow> server option \<Rightarrow> bytes \<Rightarrow> goerr + handle" where
  "known_handle label what kind ok so oid =
     (if (case so of None \<Rightarrow> True | Some s \<Rightarrow> \<not> srv_runner s) then Inl (op_error label (Sentinel ErrInvalidHandle))
      else if \<not> ok oid then Inl (op_error label (invalid what))
      else Inr (unprobedHandle so oid kind))"

definition SessionHandle :: "server option \<Rightarrow> bytes \<Rightarrow> goerr + handle" where
  "SessionHandle = known_handle ''Server.SessionHandle'' ''session ID'' ObjectKindSession SessionID_Valid"

definition WindowHandle :: "server option \<Rightarrow> bytes \<Rightarrow> goerr + handle" where
  "WindowHandle = known_handle ''Server.WindowHandle'' ''window ID'' ObjectKindWindow WindowID_Valid"

definition PaneHandle :: "server option \<Rightarrow> bytes \<Rightarrow> goerr + handle" where
  "PaneHandle = known_handle ''Server.PaneHandle'' ''pane ID'' ObjectKindPane PaneID_Valid"

definition ClientHandle :: "server option \<Rightarrow> bytes \<Rightarrow> goerr + handle" where
  "ClientHandle = known_handle ''Server.ClientHandle'' ''client name'' ObjectKindClient ClientName_Valid"

text \<open>The loop of \<open>FindSession\<close>: \<open>found\<close> is the zero handle until a session has the name.\<close>

fun find_session :: "bytes \<Rightarrow> handle \<Rightarrow> session_info list \<Rightarrow> goerr + handle" where
  "find_session exactName found [] = Inr found"
| "find_session exactName found (v # vs) =
     (if ss_Name v = exactName then
        if handle_valid found then Inl (Sentinel ErrAmbiguousTarget) else find_session exactName (ss_h v) vs
      else find_session exactName found vs)"

abbreviation no_options :: query_options where
  "no_options \<equiv> \<lparr>qo_Filter = [], qo_ExtraFields = []\<rparr>"

definition FindSession ::
  "call_env \<Rightarrow> call_env \<Rightarrow> (server \<Rightarrow> server_info) \<Rightarrow> server option \<Rightarrow> bytes \<Rightarrow> goerr + handle" where
  "FindSession env env' verified so exactName =
     labelled ''Server.FindSession''
       (if exactName = [] \<or> \<not> ValidString exactName then Inl (invalid ''name'')
        else bind_res (SessionsWith env env' verified so no_options) (\<lambda>sessions.
          bind_res (find_session exactName zeroHandle sessions) (\<lambda>found.
          if handle_valid found then Inr found else Inl (Sentinel ErrNotFound))))"

definition Server_Client ::
  "call_env \<Rightarrow> call_env \<Rightarrow> (server \<Rightarrow> server_info) \<Rightarrow> server option \<Rightarrow> bytes \<Rightarrow> goerr + handle" where
  "Server_Client env env' verified so name =
     labelled ''Server.Client''
       (if \<not> ClientName_Valid name then Inl (invalid ''client name'')
        else bind_res (ClientsWith env env' verified so no_options) (\<lambda>clients.
          case find (\<lambda>v. cl_Name v = name) clients of
            Some v \<Rightarrow> Inr (cl_h v)
          | None \<Rightarrow> Inl (Sentinel ErrNotFound)))"

subsection \<open>Info\<close>

definition in_handle :: "call_env \<Rightarrow> handle \<Rightarrow> (server \<times> operation \<Rightarrow> goerr + 'a) \<Rightarrow> goerr + 'a" where
  "in_handle env h body =
     (case handle_check env h of Some e \<Rightarrow> Inl e | None \<Rightarrow> bind_res (begin_op env (h_server h)) body)"

definition inspectWith :: "call_env \<Rightarrow> call_env \<Rightarrow> handle \<Rightarrow> bytes \<Rightarrow> query_options \<Rightarrow> goerr + row" where
  "inspectWith env env' h label opts =
     in_handle env h (\<lambda>(s, op). fst (inspect env env' s label op (h_kind h) (h_id h) (handle_guard h) opts))"

text \<open>\<open>info_of\<close> is the body that the four methods share; \<open>oid\<close> is the id of the decoded record.\<close>

definition info_of ::
  "bytes \<Rightarrow> (server \<Rightarrow> row \<Rightarrow> server_identity option \<Rightarrow> goerr + 'a) \<Rightarrow> ('a \<Rightarrow> bytes) \<Rightarrow>
   call_env \<Rightarrow> call_env \<Rightarrow> handle \<Rightarrow> query_options \<Rightarrow> goerr + 'a" where
  "info_of label dec oid env env' h opts =
     (case inspectWith env env' h label opts of
        Inl e \<Rightarrow> Inl (op_error label e)
      | Inr m \<Rightarrow>
          (case dec (the (h_server h)) m (expectedOrigin h) of
             Inl e \<Rightarrow> Inl (after_error label e)
           | Inr v \<Rightarrow> if oid v \<noteq> h_id h then Inl (after_error label (Sentinel ErrProtocol)) else Inr v))"

definition Session_InfoWith :: "call_env \<Rightarrow> call_env \<Rightarrow> handle \<Rightarrow> query_options \<Rightarrow> goerr + session_info" where
  "Session_InfoWith = info_of ''Session.Info'' decodeSession ss_ID"

definition Window_InfoWith :: "call_env \<Rightarrow> call_env \<Rightarrow> handle \<Rightarrow> query_options \<Rightarrow> goerr + window_info" where
  "Window_InfoWith = info_of ''Window.Info'' (\<lambda>s m i. bind_res (decodeWindow s m i) (\<lambda>(v, l). Inr v)) wi_ID"

definition Pane_InfoWith :: "call_env \<Rightarrow> call_env \<Rightarrow> handle \<Rightarrow> query_options \<Rightarrow> goerr + pane_info" where
  "Pane_InfoWith = info_of ''Pane.Info'' decodePane pn_ID"

definition Client_InfoWith :: "call_env \<Rightarrow> call_env \<Rightarrow> handle \<Rightarrow> query_options \<Rightarrow> goerr + client_info" where
  "Client_InfoWith = info_of ''Client.Info'' decodeClient cl_Name"

definition WindowLink_InfoWith :: "call_env \<Rightarrow> call_env \<Rightarrow> window_link \<Rightarrow> query_options \<Rightarrow> goerr + window_link_info" where
  "WindowLink_InfoWith env env' l opts =
     (case (case link_check env l of
              Some e \<Rightarrow> Inl e
            | None \<Rightarrow> bind_res (begin_op env (h_server (wl_h l))) (\<lambda>(s, op).
                fst (inspect env env' s ''WindowLink.Info'' op ObjectKindWindow (link_target l) (Some (link_guard l)) opts))) of
        Inl e \<Rightarrow> Inl (op_error ''WindowLink.Info'' e)
      | Inr m \<Rightarrow>
          (case decodeWindow (the (h_server (wl_h l))) m (Some (h_origin (wl_h l))) of
             Inl e \<Rightarrow> Inl (after_error ''WindowLink.Info'' e)
           | Inr (w, v) \<Rightarrow>
               if li_SessionID v \<noteq> wl_session l \<or> li_Index v \<noteq> wl_index l \<or> li_WindowID v \<noteq> h_id (wl_h l)
               then Inl (after_error ''WindowLink.Info'' (Sentinel ErrLinkChanged)) else Inr v))"

definition Pane_Window :: "call_env \<Rightarrow> call_env \<Rightarrow> handle \<Rightarrow> goerr + handle" where
  "Pane_Window env env' p =
     labelled ''Pane.Window'' (bind_res (Pane_InfoWith env env' p no_options) (\<lambda>v.
       Inr (withOrigin (pn_h v) (pn_WindowID v) ObjectKindWindow)))"

subsection \<open>The lists of a session and of a window\<close>

definition windowsWith ::
  "call_env \<Rightarrow> call_env \<Rightarrow> server \<Rightarrow> bytes \<Rightarrow> operation \<Rightarrow> server_identity \<Rightarrow> query_options \<Rightarrow> bytes \<Rightarrow>
   (window_info list \<times> window_link_info list) step_result" where
  "windowsWith env env' s label op i opts target =
     (case listRaw env env' s label op ObjectKindWindow i opts target [] of
        (rows, op') \<Rightarrow> (bind_res rows (\<lambda>ms. decodeWindows s label ms i), op'))"

definition sessions ::
  "call_env \<Rightarrow> call_env \<Rightarrow> server \<Rightarrow> bytes \<Rightarrow> operation \<Rightarrow> server_identity \<Rightarrow> query_options \<Rightarrow> session_info list step_result" where
  "sessions env env' s label op i opts =
     (case listRaw env env' s label op ObjectKindSession i opts [] [] of
        (rows, op') \<Rightarrow> (bind_res rows (\<lambda>ms. decodeSessions s label ms i), op'))"

definition panes ::
  "call_env \<Rightarrow> call_env \<Rightarrow> server \<Rightarrow> bytes \<Rightarrow> operation \<Rightarrow> server_identity \<Rightarrow> query_options \<Rightarrow> bytes \<Rightarrow> bytes list \<Rightarrow>
   pane_info list step_result" where
  "panes env env' s label op i opts target scope =
     (case listRaw env env' s label op ObjectKindPane i opts target scope of
        (rows, op') \<Rightarrow> (bind_res rows (\<lambda>ms. decodePanes s label ms i), op'))"

definition Session_WindowInfos ::
  "call_env \<Rightarrow> call_env \<Rightarrow> handle \<Rightarrow> goerr + window_info list \<times> window_link_info list" where
  "Session_WindowInfos env env' h =
     labelled ''Session.WindowInfos'' (in_handle env h (\<lambda>(s, op).
       fst (windowsWith env env' s ''Session.WindowInfos'' op (h_origin h) no_options (h_id h))))"

definition Session_Windows :: "call_env \<Rightarrow> call_env \<Rightarrow> handle \<Rightarrow> goerr + window_link list" where
  "Session_Windows env env' h =
     labelled ''Session.Windows'' (in_handle env h (\<lambda>(s, op).
       bind_res (fst (windowsWith env env' s ''Session.Windows'' op (h_origin h) no_options (h_id h)))
         (\<lambda>(ws, links). Inr (map li_link links))))"

definition Window_Links :: "call_env \<Rightarrow> call_env \<Rightarrow> handle \<Rightarrow> goerr + window_link list" where
  "Window_Links env env' w =
     labelled ''Window.Links'' (in_handle env w (\<lambda>(s, op).
       bind_res (fst (windowsWith env env' s ''Window.Links'' op (h_origin w)
           \<lparr>qo_Filter = eqFormat ''window_id'' (h_id w), qo_ExtraFields = []\<rparr> []))
         (\<lambda>(ws, links). case map li_link (filter (\<lambda>l. li_WindowID l = h_id w) links) of
            [] \<Rightarrow> Inl (Sentinel ErrNotFound) | out \<Rightarrow> Inr out)))"

definition Window_PanesWith :: "call_env \<Rightarrow> call_env \<Rightarrow> handle \<Rightarrow> query_options \<Rightarrow> goerr + pane_info list" where
  "Window_PanesWith env env' w opts =
     labelled ''Window.Panes'' (in_handle env w (\<lambda>(s, op).
       fst (panes env env' s ''Window.Panes'' op (h_origin w) opts (h_id w) [])))"

definition Window_ActivePane :: "call_env \<Rightarrow> call_env \<Rightarrow> handle \<Rightarrow> goerr + handle" where
  "Window_ActivePane env env' w =
     labelled ''Window.ActivePane'' (bind_res (Window_PanesWith env env' w no_options) (\<lambda>ps.
       case find pn_Active ps of Some p \<Rightarrow> Inr (pn_h p) | None \<Rightarrow> Inl (Sentinel ErrNotFound)))"

definition Session_PanesWith :: "call_env \<Rightarrow> call_env \<Rightarrow> handle \<Rightarrow> query_options \<Rightarrow> goerr + pane_info list" where
  "Session_PanesWith env env' h opts =
     labelled ''Session.Panes'' (in_handle env h (\<lambda>(s, op).
       fst (panes env env' s ''Session.Panes'' op (h_origin h) opts (h_id h) [''-s''])))"

definition Session_Clients :: "call_env \<Rightarrow> call_env \<Rightarrow> handle \<Rightarrow> goerr + client_info list" where
  "Session_Clients env env' h =
     (case in_handle env h (\<lambda>(s, op).
        bind_res (fst (listRaw env env' s ''Session.Clients'' op ObjectKindClient (h_origin h) no_options (h_id h) []))
          (\<lambda>rows. Inr (s, rows))) of
        Inl e \<Rightarrow> Inl (op_error ''Session.Clients'' e)
      | Inr (s, rows) \<Rightarrow> decodeClients s ''Session.Clients'' rows (h_origin h))"

subsection \<open>Formats\<close>

definition formatPlan :: "handle \<Rightarrow> bytes \<Rightarrow> plan" where
  "formatPlan h fmt =
     (if h_kind h = ObjectKindClient
      then recordsPlan \<lparr>cmd_name = ''list-clients'', cmd_args = [''-f'', clientFilter (h_id h), ''-F'', fmt]\<rparr>
      else recordsPlan \<lparr>cmd_name = ''display-message'', cmd_args = [''-p'', ''-t'', h_id h, fmt]\<rparr>)"

definition rawFormats :: "bytes list \<Rightarrow> goerr + bytes list" where
  "rawFormats exprs = (if list_all ValidString exprs then Inr exprs else Inl (invalid ''format''))"

definition formatMulti :: "call_env \<Rightarrow> handle \<Rightarrow> bytes \<Rightarrow> bytes list \<Rightarrow> goerr + bytes list" where
  "formatMulti env h label exprs =
     (if exprs = [] then Inr []
      else labelled label (
        case handle_check env h of Some e \<Rightarrow> Inl e | None \<Rightarrow>
        bind_res (rawFormats exprs) (\<lambda>raw.
        bind_res (begin_op env (h_server h)) (\<lambda>(s, op).
        case execute env s op (formatPlan h (ExpressionsFormat raw)) (handle_guard h) None of
          ((r, Some e), op') \<Rightarrow> Inl e
        | ((r, None), op') \<Rightarrow>
            (case ParseRecords (res_stdout r) (int (length exprs)) of
               Inl e \<Rightarrow> Inl (after_error label (JoinErr [e, Sentinel ErrRecord]))
             | Inr [] \<Rightarrow>
                 if h_kind h = ObjectKindClient then Inl (op_error label (Sentinel ErrNotFound))
                 else Inl (after_error label (JoinErr [Sentinel ErrRecord]))
             | Inr [fs] \<Rightarrow> Inr fs
             | Inr _ \<Rightarrow> Inl (after_error label (JoinErr [Sentinel ErrRecord])))))))"

definition handle_format :: "call_env \<Rightarrow> handle \<Rightarrow> bytes \<Rightarrow> bytes \<Rightarrow> goerr + bytes" where
  "handle_format env h label expr = bind_res (formatMulti env h label [expr]) (\<lambda>rs. Inr (hd rs))"

subsection \<open>Several lists in one read\<close>

record readRequests =
  rq_Sessions :: "query_options gvalue"
  rq_Windows :: "query_options gvalue"
  rq_Panes :: "query_options gvalue"
  rq_Clients :: "query_options gvalue"

record read_result =
  out_Server :: server_info
  out_Sessions :: "session_info list"
  out_Windows :: "window_info list"
  out_Links :: "window_link_info list"
  out_Panes :: "pane_info list"
  out_Clients :: "client_info list"

definition request_lists :: "readRequests \<Rightarrow> goerr + read_request list" where
  "request_lists rq =
     bind_res (map_res (\<lambda>(kind, opts). listRequest kind opts [] [])
       (concat (map (\<lambda>(kind, v). case value_get v of Some opts \<Rightarrow> [(kind, opts)] | None \<Rightarrow> [])
         [(ObjectKindSession, rq_Sessions rq), (ObjectKindWindow, rq_Windows rq),
          (ObjectKindPane, rq_Panes rq), (ObjectKindClient, rq_Clients rq)])))
       (\<lambda>requests. if requests = [] then Inl (invalid ''read request'') else Inr requests)"

definition decode_list :: "server \<Rightarrow> bytes \<Rightarrow> server_identity \<Rightarrow> object_kind \<Rightarrow> row list \<Rightarrow> read_result \<Rightarrow> goerr + read_result" where
  "decode_list s label i kind rows out =
     (case kind of
        ObjectKindSession \<Rightarrow> bind_res (decodeSessions s label rows i) (\<lambda>vs. Inr (out\<lparr>out_Sessions := vs\<rparr>))
      | ObjectKindWindow \<Rightarrow>
          bind_res (decodeWindows s label rows i) (\<lambda>(ws, ls). Inr (out\<lparr>out_Windows := ws, out_Links := ls\<rparr>))
      | ObjectKindPane \<Rightarrow> bind_res (decodePanes s label rows i) (\<lambda>vs. Inr (out\<lparr>out_Panes := vs\<rparr>))
      | ObjectKindClient \<Rightarrow> bind_res (decodeClients s label rows i) (\<lambda>vs. Inr (out\<lparr>out_Clients := vs\<rparr>))
      | ObjectKindWindowLink \<Rightarrow> Inl (invalid ''object kind'')
      | KindOther _ \<Rightarrow> Inr out)"

fun decodeLists_loop ::
  "server \<Rightarrow> bytes \<Rightarrow> server_identity \<Rightarrow> read_request list \<Rightarrow> row list list \<Rightarrow> read_result \<Rightarrow> goerr + read_result" where
  "decodeLists_loop s label i (req # reqs) (rows # rest) out =
     bind_res (decode_list s label i (rr_kind req) rows out) (decodeLists_loop s label i reqs rest)"
| "decodeLists_loop s label i _ _ out = Inr out"

definition decodeLists ::
  "server \<Rightarrow> bytes \<Rightarrow> server_info \<Rightarrow> read_request list \<Rightarrow> row list list \<Rightarrow> goerr + read_result" where
  "decodeLists s label info requests rows =
     decodeLists_loop s label (sv_Identity info) requests rows
       \<lparr>out_Server = info, out_Sessions = [], out_Windows = [], out_Links = [], out_Panes = [], out_Clients = []\<rparr>"

definition readLists ::
  "call_env \<Rightarrow> call_env \<Rightarrow> (server \<Rightarrow> server_info) \<Rightarrow> server \<Rightarrow> bytes \<Rightarrow> operation \<Rightarrow> readRequests \<Rightarrow>
   goerr + read_result" where
  "readLists env env' verified s label op request =
     bind_res (request_lists request) (\<lambda>requests.
     bind_res (readRecords env env' s (verified s) label op requests) (\<lambda>(info, rows).
     decodeLists s label info requests rows))"

definition Server_Read ::
  "call_env \<Rightarrow> call_env \<Rightarrow> (server \<Rightarrow> server_info) \<Rightarrow> server option \<Rightarrow> readRequests \<Rightarrow> goerr + read_result" where
  "Server_Read env env' verified so request =
     labelled ''Server.Read'' (bind_res (begin_op env so) (\<lambda>(s, op).
       readLists env env' verified s ''Server.Read'' op request))"

subsection \<open>Versions and capabilities\<close>

definition executableVersion :: "call_env \<Rightarrow> operation \<Rightarrow> version step_result" where
  "executableVersion env op =
     (case executeProcess env op [''-V''] None of
        ((r, Some e), op') \<Rightarrow> (Inl e, op')
      | ((r, None), op') \<Rightarrow>
          (let v = ParseVersion (trim_suffix (res_stdout r) [LF]) in
           (if v_raw v = [] then Inl (decodeError ''version'' ''version'' (Sentinel ErrProtocol)) else Inr v, op')))"

definition Server_Version :: "call_env \<Rightarrow> (server \<Rightarrow> server_info) \<Rightarrow> server option \<Rightarrow> goerr + version" where
  "Server_Version env verified so =
     labelled ''Server.Version'' (bind_res (begin_op env so) (\<lambda>(s, op).
       if srv_bound s \<noteq> None
       then bind_res (fst (verifiedInfo env verified s op)) (\<lambda>info. Inr (sv_Version info))
       else fst (executableVersion env op)))"

definition Usage :: "call_env \<Rightarrow> server option \<Rightarrow> goerr + bytes" where
  "Usage env so =
     labelled ''Server.Usage'' (bind_res (begin_op env so) (\<lambda>(s, op).
       case executeProcess env op [''-h''] None of
         ((r, Some e), op') \<Rightarrow> Inl e
       | ((r, None), op') \<Rightarrow>
           (let usage = TrimSpace (res_stdout r) in
            if usage = [] then Inl (decodeError ''usage'' ''usage'' (Sentinel ErrProtocol)) else Inr usage)))"

record capabilities =
  cap_Identity :: server_identity
  cap_Version :: version
  cap_Transport :: transport
  cap_Support :: bool
  cap_Commands :: "bytes list"

text \<open>The loop that checks the names; a row has one field.\<close>

definition command_names :: "bytes list list \<Rightarrow> goerr + bytes list" where
  "command_names rows =
     map_res (\<lambda>row. case NewCommand (hd row) [] of
        Inl e \<Rightarrow> Inl (after_error ''Server.Capabilities'' (decodeError ''commands'' ''command_list_name'' e))
      | Inr c \<Rightarrow> Inr (hd row)) rows"

definition Capabilities ::
  "call_env \<Rightarrow> call_env \<Rightarrow> (server \<Rightarrow> server_info) \<Rightarrow> server option \<Rightarrow> goerr + capabilities" where
  "Capabilities env env' verified so =
     labelled ''Server.Capabilities'' (bind_res (begin_op env so) (\<lambda>(s, op).
       case verifiedInfo env verified s op of
         (Inl e, op1) \<Rightarrow> Inl e
       | (Inr info, op1) \<Rightarrow>
           (case execute env' s op1 (recordsPlan \<lparr>cmd_name = ''list-commands'', cmd_args = [''-F'', RecordFormat [''command_list_name'']]\<rparr>)
              (Some (newGuard (sv_Identity info))) None of
              ((r, Some e), op2) \<Rightarrow> Inl e
            | ((r, None), op2) \<Rightarrow>
                (case ParseRecords (res_stdout r) 1 of
                   Inl e \<Rightarrow> Inl (after_error ''Server.Capabilities'' (decodeError ''commands'' ''command_list_name'' e))
                 | Inr rows \<Rightarrow> bind_res (command_names rows) (\<lambda>names.
                     Inr \<lparr>cap_Identity = sv_Identity info, cap_Version = sv_Version info,
                          cap_Transport = server_Transport (Some s), cap_Support = server_Support (Some s),
                          cap_Commands = sort names\<rparr>)))))"

definition HasCommand :: "capabilities \<Rightarrow> bytes \<Rightarrow> bool" where
  "HasCommand c name \<longleftrightarrow> name \<in> set (cap_Commands c)"

subsection \<open>What is read belongs to the daemon that answered\<close>

text \<open>The handle of a record: for the named object of the server, observed on the daemon \<open>i\<close>.\<close>

definition bound_to :: "server \<Rightarrow> server_identity \<Rightarrow> object_kind \<Rightarrow> bytes \<Rightarrow> handle \<Rightarrow> bool" where
  "bound_to s i kind oid h \<longleftrightarrow>
     h_server h = Some s \<and> h_kind h = kind \<and> h_id h = oid \<and> handle_valid h \<and>
     id_endpoint (h_origin h) = srv_endpoint s \<and> sameDaemon (h_origin h) i"

lemma bound_toI:
  assumes "identity_row s d (h_origin h)" "same_as (Some i) (h_origin h)" "identity_valid i"
    "id_Valid kind oid" "h = newHandle s oid kind (h_origin h) \<or> h = (newHandle s oid kind (h_origin h))\<lparr>h_client := c\<rparr>"
  shows "bound_to s i kind oid h"
proof -
  have "h_server h = Some s" "h_kind h = kind" "h_id h = oid"
    using assms(5) by (metis newHandle_def handle.select_convs handle.surjective handle.update_convs(5))+
  moreover have "handle_valid h"
    using assms(5) new_handle_valid [OF assms(1,4)] by metis
  ultimately show ?thesis
    using assms(1-3) by (simp add: bound_to_def identity_row_def same_as_def)
qed

lemma decodeSession_bound:
  "decodeSession s m (Some i) = Inr v \<Longrightarrow> identity_valid i \<Longrightarrow> bound_to s i ObjectKindSession (ss_ID v) (ss_h v)"
  using decodeSession_ok(2-5) [of s m "Some i" v] by (intro bound_toI) (auto simp: id_Valid_def)

lemma decodeWindow_bound:
  "decodeWindow s m (Some i) = Inr (v, l) \<Longrightarrow> identity_valid i \<Longrightarrow> bound_to s i ObjectKindWindow (wi_ID v) (wi_h v)"
  using decodeWindow_ok(2-5) [of s m "Some i" v l] by (intro bound_toI) (auto simp: id_Valid_def)

lemma decodePane_bound:
  "decodePane s m (Some i) = Inr v \<Longrightarrow> identity_valid i \<Longrightarrow> bound_to s i ObjectKindPane (pn_ID v) (pn_h v)"
  using decodePane_ok(2-5) [of s m "Some i" v] by (intro bound_toI) (auto simp: id_Valid_def)

lemma decodeClient_bound:
  "decodeClient s m (Some i) = Inr v \<Longrightarrow> identity_valid i \<Longrightarrow> bound_to s i ObjectKindClient (cl_Name v) (cl_h v)"
  using decodeClient_ok(2,4-6) [of s m "Some i" v] by (intro bound_toI) (auto simp: id_Valid_def)

lemma after_Inr [simp]: "after label r = Inr v \<longleftrightarrow> r = Inr v"
  by (cases r) (simp_all add: after_def)

lemma labelled_Inr [simp]: "labelled label r = Inr v \<longleftrightarrow> r = Inr v"
  by (cases r) (simp_all add: labelled_def)

lemma list_all2_image:
  "list_all2 P xs ys \<Longrightarrow> (\<And>x y. P x y \<Longrightarrow> Q y) \<Longrightarrow> list_all Q ys"
  by (induction rule: list_all2_induct) auto

lemma set_first_of_each: "set (first_of_each f seen xs) \<subseteq> set xs"
  by (induction f seen xs rule: first_of_each.induct) auto

lemma ids_first_of_each: "f ` set (first_of_each f seen xs) = f ` set xs - seen"
  by (induction f seen xs rule: first_of_each.induct) auto

lemma distinct_first_of_each: "distinct (map f (first_of_each f seen xs))"
proof (induction f seen xs rule: first_of_each.induct)
  case (2 f seen x xs)
  then show ?case using ids_first_of_each [of f "insert (f x) seen" xs] by auto
qed simp

text \<open>The lists are sorted by number, without duplicates, and of the daemon.\<close>

definition id_list :: "server \<Rightarrow> server_identity \<Rightarrow> object_kind \<Rightarrow> ('a \<Rightarrow> bytes) \<Rightarrow> ('a \<Rightarrow> handle) \<Rightarrow> 'a list \<Rightarrow> bool" where
  "id_list s i kind oid h xs \<longleftrightarrow>
     list_all (\<lambda>x. bound_to s i kind (oid x) (h x)) xs \<and> sorted (map (\<lambda>x. numericID (oid x)) xs)"

lemma decodeSessions_list:
  assumes "decodeSessions s label rows i = Inr vs" and "identity_valid i"
  shows "id_list s i ObjectKindSession ss_ID ss_h vs \<and> length vs = length rows"
proof -
  obtain out where o: "list_all2 (\<lambda>m v. decodeSession s m (Some i) = Inr v) rows out"
      "vs = sort_key (\<lambda>v. numericID (ss_ID v)) out"
    using assms(1) by (auto simp: decodeSessions_def bind_res_Inr_iff map_res_Inr_list_all2)
  have "list_all (\<lambda>v. bound_to s i ObjectKindSession (ss_ID v) (ss_h v)) out"
    using o(1) decodeSession_bound [OF _ assms(2)] by (rule list_all2_image)
  with o show ?thesis by (simp add: id_list_def list_all_iff list_all2_lengthD)
qed

lemma decodePanes_list:
  assumes "decodePanes s label rows i = Inr vs" and "identity_valid i"
  shows "id_list s i ObjectKindPane pn_ID pn_h vs \<and> distinct (map pn_ID vs)"
proof -
  obtain out where o: "list_all2 (\<lambda>m v. decodePane s m (Some i) = Inr v) rows out"
      "vs = sort_key (\<lambda>v. numericID (pn_ID v)) (first_of_each pn_ID {} out)"
    using assms(1) by (auto simp: decodePanes_def bind_res_Inr_iff map_res_Inr_list_all2)
  have "list_all (\<lambda>v. bound_to s i ObjectKindPane (pn_ID v) (pn_h v)) out"
    using o(1) decodePane_bound [OF _ assms(2)] by (rule list_all2_image)
  with o(2) set_first_of_each [of pn_ID "{}" out] distinct_first_of_each [of pn_ID "{}" out]
  show ?thesis by (auto simp: id_list_def list_all_iff distinct_map)
qed

lemma decodeClients_list:
  assumes "decodeClients s label rows i = Inr vs" and "identity_valid i"
  shows "list_all (\<lambda>v. bound_to s i ObjectKindClient (cl_Name v) (cl_h v)) vs \<and> sorted (map cl_Name vs)"
proof -
  obtain out where o: "list_all2 (\<lambda>m v. decodeClient s m (Some i) = Inr v) rows out" "vs = sort_key cl_Name out"
    using assms(1) by (auto simp: decodeClients_def bind_res_Inr_iff map_res_Inr_list_all2)
  have "list_all (\<lambda>v. bound_to s i ObjectKindClient (cl_Name v) (cl_h v)) out"
    using o(1) decodeClient_bound [OF _ assms(2)] by (rule list_all2_image)
  with o(2) show ?thesis by (simp add: list_all_iff)
qed

text \<open>Every slot has its window, and every window has a slot.\<close>

definition link_list :: "server \<Rightarrow> server_identity \<Rightarrow> window_info list \<Rightarrow> window_link_info list \<Rightarrow> bool" where
  "link_list s i ws ls \<longleftrightarrow>
     list_all (\<lambda>l. link_Valid (li_link l) \<and> bound_to s i ObjectKindWindow (li_WindowID l) (wl_h (li_link l)) \<and>
       wl_session (li_link l) = li_SessionID l \<and> wl_index (li_link l) = li_Index l) ls \<and>
     li_WindowID ` set ls = wi_ID ` set ws \<and> sorted (map (\<lambda>l. numericID (li_SessionID l)) ls)"

lemma decodeWindows_list:
  assumes "decodeWindows s label rows i = Inr (ws, ls)" and "identity_valid i"
  shows "id_list s i ObjectKindWindow wi_ID wi_h ws \<and> distinct (map wi_ID ws) \<and> link_list s i ws ls"
proof -
  obtain out where o: "list_all2 (\<lambda>m v. decodeWindow s m (Some i) = Inr v) rows out"
      "ws = sort_key (\<lambda>v. numericID (wi_ID v)) (first_of_each wi_ID {} (map fst out))"
      "ls = sort_key (\<lambda>l. numericID (li_SessionID l)) (sort_key li_Index (map snd out))"
    using assms(1) by (auto simp: decodeWindows_def bind_res_Inr_iff map_res_Inr_list_all2)
  have "list_all (\<lambda>(v, l). bound_to s i ObjectKindWindow (wi_ID v) (wi_h v) \<and> li_WindowID l = wi_ID v \<and>
      li_link l = \<lparr>wl_h = wi_h v, wl_session = li_SessionID l, wl_index = li_Index l\<rparr> \<and>
      SessionID_Valid (li_SessionID l) \<and> 0 \<le> li_Index l) out"
    using o(1) by (rule list_all2_image) (use decodeWindow_bound [OF _ assms(2)] decodeWindow_ok(10-13) in auto)
  then have a: "v \<in> set out \<Longrightarrow> bound_to s i ObjectKindWindow (wi_ID (fst v)) (wi_h (fst v)) \<and>
      li_WindowID (snd v) = wi_ID (fst v) \<and>
      li_link (snd v) = \<lparr>wl_h = wi_h (fst v), wl_session = li_SessionID (snd v), wl_index = li_Index (snd v)\<rparr> \<and>
      SessionID_Valid (li_SessionID (snd v)) \<and> 0 \<le> li_Index (snd v)" for v
    by (auto simp: list_all_iff case_prod_beta)
  have ids: "wi_ID ` set ws = wi_ID ` set (map fst out)"
    using o(2) ids_first_of_each [of wi_ID "{}" "map fst out"] by simp
  have "li_WindowID ` set ls = wi_ID ` set (map fst out)"
    using o(3) a by (simp add: image_image)
  moreover have "list_all (\<lambda>l. link_Valid (li_link l) \<and> bound_to s i ObjectKindWindow (li_WindowID l) (wl_h (li_link l)) \<and>
       wl_session (li_link l) = li_SessionID l \<and> wl_index (li_link l) = li_Index l) ls"
    using o(3) a by (auto simp: list_all_iff link_Valid_def bound_to_def)
  ultimately have "link_list s i ws ls"
    using ids o(3) by (simp add: link_list_def)
  moreover have "list_all (\<lambda>x. bound_to s i ObjectKindWindow (wi_ID x) (wi_h x)) ws"
    using o(2) a set_first_of_each [of wi_ID "{}" "map fst out"] by (fastforce simp: list_all_iff)
  ultimately show ?thesis
    using o(2) distinct_first_of_each [of wi_ID "{}" "map fst out"] by (simp add: id_list_def distinct_map)
qed

definition read_result_ok :: "server \<Rightarrow> server_identity \<Rightarrow> read_result \<Rightarrow> bool" where
  "read_result_ok s i out \<longleftrightarrow>
     id_list s i ObjectKindSession ss_ID ss_h (out_Sessions out) \<and>
     id_list s i ObjectKindWindow wi_ID wi_h (out_Windows out) \<and> distinct (map wi_ID (out_Windows out)) \<and>
     link_list s i (out_Windows out) (out_Links out) \<and>
     id_list s i ObjectKindPane pn_ID pn_h (out_Panes out) \<and> distinct (map pn_ID (out_Panes out)) \<and>
     list_all (\<lambda>v. bound_to s i ObjectKindClient (cl_Name v) (cl_h v)) (out_Clients out) \<and>
     sorted (map cl_Name (out_Clients out))"

lemma decode_list_ok:
  assumes "decode_list s label i kind rows out = Inr out'" and "identity_valid i" and "read_result_ok s i out"
  shows "read_result_ok s i out' \<and> out_Server out' = out_Server out"
  using assms decodeSessions_list [OF _ assms(2)] decodeWindows_list [OF _ assms(2)] decodePanes_list [OF _ assms(2)]
    decodeClients_list [OF _ assms(2)]
  by (cases kind) (auto simp: decode_list_def bind_res_Inr_iff read_result_ok_def)

lemma decodeLists_loop_ok:
  "decodeLists_loop s label i reqs rows out = Inr out' \<Longrightarrow> identity_valid i \<Longrightarrow> read_result_ok s i out \<Longrightarrow>
   read_result_ok s i out' \<and> out_Server out' = out_Server out"
proof (induction s label i reqs rows out rule: decodeLists_loop.induct)
  case (1 s label i req reqs rows rest out)
  then obtain o1 where "decode_list s label i (rr_kind req) rows out = Inr o1"
      "decodeLists_loop s label i reqs rest o1 = Inr out'"
    by (auto simp: bind_res_Inr_iff)
  with "1.IH" [of o1] decode_list_ok [OF this(1)] "1.prems"(2,3) show ?case by auto
qed auto

text \<open>The daemon of an answer: the one of the connection, or the one that answered the probe.\<close>

lemma decodeRead_info:
  "decodeRead s v data probed requests = Inr (info, rows) \<Longrightarrow>
   (if probed then \<exists>m. serverInfo s m = Inr info else info = v)"
  by (auto simp: decodeRead_def bind_res_Inr_iff Let_def split: if_split_asm sum.split_asm prod.split_asm)

lemma readRecords_info:
  assumes "readRecords env env' s v label op requests = Inr (info, rows)"
  shows "if srv_conn s = None then identity_valid (sv_Identity info) \<and> AtLeast (sv_Version info) 3 6 \<and>
      same_as (srv_bound s) (sv_Identity info) else info = v"
proof -
  obtain data where "decodeRead s v data (srv_conn s = None) requests = Inr (info, rows)"
    using assms by (auto simp: readRecords_def Let_def split: prod.split_asm option.split_asm sum.split_asm if_split_asm)
  note info = decodeRead_info [OF this]
  show ?thesis
  proof (cases "srv_conn s = None")
    case True
    with info obtain m where "serverInfo s m = Inr info" by auto
    from serverInfo_ok(2-4) [OF this] identity_valid_endpoint True show ?thesis by simp
  next
    case False
    with info show ?thesis by (simp del: not_None_eq)
  qed
qed

lemma readLists_one_daemon:
  assumes "readLists env env' verified s label op request = Inr out"
    and "srv_conn s = None \<or> identity_valid (sv_Identity (verified s))"
  shows "read_result_ok s (sv_Identity (out_Server out)) out \<and> identity_valid (sv_Identity (out_Server out)) \<and>
    (srv_conn s = None \<longrightarrow> AtLeast (sv_Version (out_Server out)) 3 6 \<and> same_as (srv_bound s) (sv_Identity (out_Server out)))"
proof -
  obtain requests info rows where r: "readRecords env env' s (verified s) label op requests = Inr (info, rows)"
      "decodeLists s label info requests rows = Inr out"
    using assms(1) by (auto simp: readLists_def bind_res_Inr_iff)
  have v: "identity_valid (sv_Identity info)"
    using readRecords_info [OF r(1)] assms(2) by (auto split: if_split_asm)
  have "read_result_ok s (sv_Identity info) out \<and> out_Server out = info"
    using decodeLists_loop_ok [OF r(2) [unfolded decodeLists_def] v]
    by (simp add: read_result_ok_def id_list_def link_list_def)
  with readRecords_info [OF r(1)] v show ?thesis by auto
qed


definition tiny_session :: "bytes list" where
  "tiny_session = tiny_rows @ [''$1'', ''main'', ''/'', ''5'', ''6'', ''0'', ''1'', '''', ''0'']"

lemma tiny_decodeSession:
  "\<exists>v. decodeSession plain_server (recordMap (fieldsFor ObjectKindSession) tiny_session) (Some tiny_daemon) = Inr v"
proof -
  let ?m = "recordMap (fieldsFor ObjectKindSession) tiny_session"
  have m: "?m ''pid'' = Some ''7''" "?m ''start_time'' = Some ''5''" "?m ''socket_path'' = Some ''/s''" "?m ''version'' = Some ''3.6''"
    "?m ''session_id'' = Some ''$1''" "?m ''session_grouped'' = Some ''0''" "?m ''session_name'' = Some ''main''"
    "?m ''session_path'' = Some ''/''" "?m ''session_created'' = Some ''5''" "?m ''session_activity'' = Some ''6''"
    "?m ''session_attached'' = Some ''0''" "?m ''session_windows'' = Some ''1''"
    by (simp_all add: recordMap_def fieldsFor_def WithIdentity_def schema_Identity_def schema_Session_def tiny_rows_def tiny_session_def)
  let ?d = "\<lparr>rd_kind = ''session'', rd_raw = ?m\<rparr>"
  have "''$1'' = CHR ''$'' # itoa_nat 1" by code_simp
  then have "SessionID_Valid ''$1''"
    by (auto simp: SessionID_Valid_def validID_iff intro: exI [where x = 1])
  moreover have "supported_row ?d"
    using tiny_version m(4) by (simp add: supported_row_def supportedVersion_AtLeast)
  then have "run_state (decoder plain_server ?d (Some tiny_daemon)) None = (tiny_daemon, None)"
    using m by (simp add: decoder_ok tiny_identity_row same_as_def sameDaemon_def)
  ultimately show ?thesis
    using m by (simp add: decodeSession_def decoded_def str_def nonnegative_def integer_def timestamp_def boolean_def check_field_def
      State_Monad.run_state_bind tiny_atoi)
qed

definition tiny_answer :: bytes where
  "tiny_answer = EncodeRecord tiny_rows @ answer_text [[tiny_session]]"

definition tiny_read_env :: call_env where
  "tiny_read_env = quiet_env (quiet_run\<lparr>pr_stdout := [tiny_answer]\<rparr>)"

definition tiny_reads :: readRequests where
  "tiny_reads = \<lparr>rq_Sessions = Present no_options, rq_Windows = Unavailable, rq_Panes = Unavailable, rq_Clients = Unavailable\<rparr>"

definition tiny_request :: read_request where
  "tiny_request = \<lparr>rr_kind = ObjectKindSession, rr_fields = fieldsFor ObjectKindSession, 
     rr_node = leaf \<lparr>cmd_name = ''list-sessions'', cmd_args = [''-F'', RecordFormat (fieldsFor ObjectKindSession)]\<rparr>\<rparr>"

lemma tiny_requests: "request_lists tiny_reads = Inr [tiny_request]"
  by (simp add: request_lists_def tiny_reads_def tiny_request_def listRequest_def listFields_def listCommandAndArgs_def
     queryFields_def value_get_def MaxRecordFields_def fieldsFor_def WithIdentity_def schema_Session_def schema_Identity_def Let_def)

lemma tiny_read:
  "\<exists>out v. Server_Read tiny_read_env tiny_read_env (\<lambda>s. tiny_info) (Some plain_server) tiny_reads = Inr out \<and> out_Sessions out = [v]"
proof -
  let ?op = "\<lparr>op_output = 4194304, op_stderr = 4194304, op_input = 1048576\<rparr>"
  have b: "begin_op tiny_read_env (Some plain_server) = Inr (plain_server, ?op)"
    by code_simp
  have "snd (fst (execute tiny_read_env plain_server ?op (read_plan True [tiny_request]) None None)) = None"
    by code_simp
  moreover have "res_stdout (fst (fst (execute tiny_read_env plain_server ?op (read_plan True [tiny_request]) None None))) = tiny_answer"
    by code_simp
  ultimately obtain r op' where x: "execute tiny_read_env plain_server ?op (read_plan True [tiny_request]) None None = ((r, None), op')"
     "res_stdout r = tiny_answer"
    by (metis prod.collapse)
  have "length tiny_answer \<le> 999" by code_simp
  then have "length tiny_answer < 2 ^ 63" by simp
  then have "decodeRead plain_server tiny_info tiny_answer True [tiny_request] =
     Inr (tiny_info,
      [[recordMap (fieldsFor ObjectKindSession) tiny_session]])"
    using tiny_serverInfo
    by (subst decodeRead_iff, simp, simp, intro exI [where x = tiny_rows] exI [where x = "[[tiny_session]]"])
      (simp add: tiny_answer_def tiny_rows_def tiny_session_def tiny_request_def request_rows_def fieldsFor_def schema_Identity_def
         WithIdentity_def schema_Session_def)
  moreover obtain v where "decodeSession plain_server (recordMap (fieldsFor ObjectKindSession) tiny_session) (Some tiny_daemon) = Inr v"
    using tiny_decodeSession ..
  ultimately show ?thesis
    using b x
    by (simp add: Server_Read_def readLists_def tiny_requests readRecords_def plain_server_def decodeLists_def decode_list_def tiny_request_def 
      decodeSessions_def after_def tiny_info_def)
qed


text \<open>What \<open>Info\<close> returns is about the object that was asked for, decoded for the daemon of its handle.\<close>

lemma info_of_ok:
  assumes "info_of label dec oid env env' h opts = Inr v"
  shows "\<exists>m s. h_server h = Some s \<and> dec s m (expectedOrigin h) = Inr v \<and> oid v = h_id h"
  using assms
  by (auto simp: info_of_def inspectWith_def in_handle_def bind_res_Inr_iff begin_op_def
      split: sum.split_asm if_split_asm option.split_asm)

lemma Pane_Info_is_of_this_object:
  assumes "Pane_InfoWith env env' h opts = Inr v"
  shows "pn_ID v = h_id h \<and> h_server (pn_h v) = h_server h \<and> h_id (pn_h v) = h_id h \<and> handle_valid (pn_h v) \<and>
    same_as (expectedOrigin h) (h_origin (pn_h v))"
proof -
  obtain m s where m: "h_server h = Some s" "decodePane s m (expectedOrigin h) = Inr v" "pn_ID v = h_id h"
    using info_of_ok [OF assms [unfolded Pane_InfoWith_def]] by blast
  note ok = decodePane_ok [OF m(2)]
  have "handle_valid (pn_h v)"
    using new_handle_valid(2) [OF ok(4), of ObjectKindPane "pn_ID v"] ok(2,3) by (simp add: id_Valid_def)
  moreover have "h_server (pn_h v) = Some s" "h_id (pn_h v) = pn_ID v"
    using ok(2) by (metis newHandle_def handle.select_convs(1), metis newHandle_def handle.select_convs(3))
  ultimately show ?thesis using ok(5) m by simp
qed

end
