(* ===== verification/Tmux_Program.thy ===== *)
theory Tmux_Program
  imports Command_Line "HOL-Library.Char_ord" "HOL-Library.List_Lexorder" "HOL-Library.Sublist" "HOL-Library.Multiset"
begin

text \<open>
  \<open>tmux/program.go\<close>: the program a pane starts with, its arguments and environment, and the names that
  tmux stores unchanged; and the sizes of \<open>tmux/layout.go\<close>. A Go map is the list of its entries, each key
  once; the order is the one in which a loop happens to see them.
\<close>

subsection \<open>UTF-8\<close>

text \<open>\<open>utf8.ValidString\<close>: a continuation byte in a range, and any one.\<close>

definition byte_in :: "nat \<Rightarrow> nat \<Rightarrow> byte \<Rightarrow> bool" where
  "byte_in lo hi c \<longleftrightarrow> lo \<le> code c \<and> code c \<le> hi"

abbreviation continuation :: "byte \<Rightarrow> bool" where
  "continuation \<equiv> byte_in 0x80 0xBF"

text \<open>The length of the valid rune that a text begins with, 0 when there is none.\<close>

definition rune_len :: "bytes \<Rightarrow> nat" where
  "rune_len s =
     (case s of
        [] \<Rightarrow> 0
      | b # t \<Rightarrow>
          if code b < 0x80 then 1
          else (case t of
              [] \<Rightarrow> 0
            | b2 # t2 \<Rightarrow>
                if byte_in 0xC2 0xDF b \<and> continuation b2 then 2
                else (case t2 of
                    [] \<Rightarrow> 0
                  | b3 # t3 \<Rightarrow>
                      if continuation b3 \<and>
                         (b = CHR 0xE0 \<and> byte_in 0xA0 0xBF b2 \<or> b = CHR 0xED \<and> byte_in 0x80 0x9F b2 \<or>
                          (byte_in 0xE1 0xEC b \<or> byte_in 0xEE 0xEF b) \<and> continuation b2)
                      then 3
                      else (case t3 of
                          [] \<Rightarrow> 0
                        | b4 # t4 \<Rightarrow>
                            if continuation b3 \<and> continuation b4 \<and>
                               (b = CHR 0xF0 \<and> byte_in 0x90 0xBF b2 \<or> b = CHR 0xF4 \<and> byte_in 0x80 0x8F b2 \<or>
                                byte_in 0xF1 0xF3 b \<and> continuation b2)
                            then 4 else 0))))"

function utf8_valid :: "bytes \<Rightarrow> bool" where
  "utf8_valid s =
     (if s = [] then True else if rune_len s = 0 then False else utf8_valid (drop (rune_len s) s))"
  by pat_completeness auto
termination utf8_valid
  by (relation "measure length") (auto intro: diff_less)

declare utf8_valid.simps [simp del]

text \<open>In a valid text the runes below 128 are the bytes below 128.\<close>

definition control_free :: "bytes \<Rightarrow> bool" where
  "control_free s \<longleftrightarrow> list_all (\<lambda>c. 32 \<le> code c \<and> code c \<noteq> 127) s"

subsection \<open>Names\<close>

definition literal :: "bytes \<Rightarrow> goerr + bytes" where
  "literal s = (if \<not> ValidString s then Inl (invalid ''NUL literal'') else Inr (LiteralFormat s))"

definition sessionName :: "bytes \<Rightarrow> bool \<Rightarrow> goerr option" where
  "sessionName name optional =
     (if optional \<and> name = [] then None
      else if name = [] \<or> \<not> utf8_valid name \<or> list_ex (\<lambda>c. c \<in> {CHR '':'', CHR ''.'', backslash}) name \<or> \<not> control_free name
      then Some (invalid ''session name would be normalized'')
      else None)"

definition windowName :: "bytes \<Rightarrow> goerr option" where
  "windowName name =
     (if \<not> utf8_valid name \<or> backslash \<in> set name \<or> \<not> control_free name
      then Some (invalid ''window name would be normalized'') else None)"

definition env_letter :: "byte \<Rightarrow> bool" where
  "env_letter c \<longleftrightarrow> 97 \<le> code c \<and> code c \<le> 122 \<or> 65 \<le> code c \<and> code c \<le> 90 \<or> c = CHR ''_''"

definition envName :: "bytes \<Rightarrow> bool" where
  "envName name \<longleftrightarrow>
     (case name of
        [] \<Rightarrow> False
      | c # cs \<Rightarrow> (env_letter c) \<and> list_all (\<lambda>c. env_letter c \<or> is_digit c) cs)"

subsection \<open>Programs\<close>

datatype program_kind = programDefault | programExec | programShell

record program =
  pg_kind :: program_kind
  pg_name :: bytes
  pg_args :: "bytes list"

definition Exec :: "bytes \<Rightarrow> bytes list \<Rightarrow> program" where
  "Exec name args = \<lparr>pg_kind = programExec, pg_name = name, pg_args = args\<rparr>"

definition Shell :: "bytes \<Rightarrow> program" where
  "Shell script = \<lparr>pg_kind = programShell, pg_name = script, pg_args = []\<rparr>"

definition no_program :: program where
  "no_program = \<lparr>pg_kind = programDefault, pg_name = [], pg_args = []\<rparr>"

definition execLauncher :: bytes where
  "execLauncher = ''exec '' @ [dquote] @ ''$@'' @ [dquote]"

definition environmentLauncher :: bytes where
  "environmentLauncher =
     ''while [ '' @ [dquote] @ ''$1'' @ [dquote] @ '' != '' @ [dquote] @ ''--'' @ [dquote] @ '' ]; do'' @ [LF] @
     '' export '' @ [dquote] @ ''$1'' @ [dquote] @ '' || exit'' @ [LF] @
     '' shift'' @ [LF] @ ''done'' @ [LF] @ ''shift'' @ [LF] @ execLauncher"

definition shellEnvironmentLauncher :: bytes where
  "shellEnvironmentLauncher =
     ''s=$1; shift; exec env '' @ [dquote] @ ''$@'' @ [dquote] @ '' '' @ [dquote] @ ''${SHELL:-/bin/sh}'' @ [dquote] @
     '' -c '' @ [dquote] @ ''$s'' @ [dquote]"

definition leading_dash :: "bytes \<Rightarrow> bool" where
  "leading_dash name \<longleftrightarrow> has_prefix name ''-'' \<and> CHR ''/'' \<notin> set name"

definition program_argv :: "program \<Rightarrow> goerr + bytes list" where
  "program_argv p =
     (if \<not> ValidString (pg_name p) then Inl (invalid ''program NUL'')
      else (case pg_kind p of
          programDefault \<Rightarrow> Inr []
        | programExec \<Rightarrow>
            if pg_name p = [] then Inl (invalid ''executable'')
            else if \<not> list_all ValidString (pg_args p) then Inl (invalid ''program argument NUL'')
            else if pg_args p \<noteq> [] then Inr (pg_name p # pg_args p)
            else if leading_dash (pg_name p)
              then Inl (unsupported ''zero-argument executable beginning with dash; use an explicit path'')
            else Inr [''/bin/sh'', ''-c'', execLauncher, ''gotmux-exec'', pg_name p]
        | programShell \<Rightarrow> Inr [pg_name p]))"

type_synonym env = "(bytes \<times> bytes) list"

definition env_value :: "env \<Rightarrow> bytes \<Rightarrow> bytes" where
  "env_value env k = (case map_of env k of Some v \<Rightarrow> v | None \<Rightarrow> [])"

definition sortedEnvKeys :: "env \<Rightarrow> goerr + bytes list" where
  "sortedEnvKeys env =
     (if list_all (\<lambda>(k, v). envName k \<and> ValidString v) env then Inr (sort (map fst env))
      else Inl (invalid ''program environment''))"

definition assignments :: "env \<Rightarrow> bytes list \<Rightarrow> bytes list" where
  "assignments env keys = map (\<lambda>k. k @ ''='' @ env_value env k) keys"

definition wrapProgramEnv :: "program \<Rightarrow> env \<Rightarrow> bytes list \<Rightarrow> goerr + bytes list" where
  "wrapProgramEnv p env keys =
     (case pg_kind p of
        programDefault \<Rightarrow> Inl (unsupported ''environment overrides require an explicit Exec or Shell program'')
      | programExec \<Rightarrow>
          if leading_dash (pg_name p)
          then Inl (unsupported ''environment launcher requires an explicit path for a leading-dash executable'')
          else Inr ([''/bin/sh'', ''-c'', environmentLauncher, ''gotmux-env''] @ assignments env keys @ [''--''] @
            pg_name p # pg_args p)
      | programShell \<Rightarrow>
          Inr ([''/bin/sh'', ''-c'', shellEnvironmentLauncher, ''gotmux-env'', pg_name p] @ assignments env keys))"

definition programArgs :: "bytes \<Rightarrow> env \<Rightarrow> program \<Rightarrow> goerr + bytes list \<times> bytes list" where
  "programArgs dir env p =
     bind_res (if dir \<noteq> [] then bind_res (literal dir) (\<lambda>v. Inr [''-c'', v]) else Inr []) (\<lambda>args.
     bind_res (sortedEnvKeys env) (\<lambda>keys.
     bind_res (program_argv p) (\<lambda>argv.
       if keys = [] then Inr (args, argv)
       else bind_res (wrapProgramEnv p env keys) (\<lambda>argv'. Inr (args, argv')))))"

text \<open>What the builders of commands append for a program.\<close>

definition operands :: "bytes list \<Rightarrow> bytes list" where
  "operands argv = (if argv \<noteq> [] then ''--'' # argv else [])"

subsection \<open>Sizes\<close>

record csize =
  sz_Width :: int
  sz_Height :: int

definition size_valid :: "csize \<Rightarrow> bool" where
  "size_valid s \<longleftrightarrow> 0 \<le> sz_Width s \<and> 0 \<le> sz_Height s \<and> sz_Width s \<le> 2 ^ 20 \<and> sz_Height s \<le> 2 ^ 20"

record split_size =
  sp_Cells :: int
  sp_Percent :: int

definition split_size_args :: "split_size \<Rightarrow> goerr + bytes list" where
  "split_size_args s =
     (if sp_Cells s < 0 \<or> sp_Cells s > 2 ^ 20 \<or> sp_Percent s < 0 \<or> sp_Percent s > 100 \<or>
         sp_Cells s \<noteq> 0 \<and> sp_Percent s \<noteq> 0
      then Inl (invalid ''split size'')
      else if sp_Cells s \<noteq> 0 then Inr [''-l'', itoa (sp_Cells s)]
      else if sp_Percent s \<noteq> 0 then Inr [''-l'', itoa (sp_Percent s) @ ''%'']
      else Inr [])"

definition resizeArgs :: "bytes \<Rightarrow> csize \<Rightarrow> goerr + bytes list" where
  "resizeArgs oid s =
     (if \<not> size_valid s \<or> sz_Width s = 0 \<and> sz_Height s = 0 then Inl (invalid ''size'')
      else Inr ([''-t'', oid] @ (if 0 < sz_Width s then [''-x'', itoa (sz_Width s)] else []) @
        (if 0 < sz_Height s then [''-y'', itoa (sz_Height s)] else [])))"

subsection \<open>Facts\<close>

lemma LiteralFormat_valid: "ValidString s \<Longrightarrow> ValidString (LiteralFormat s)"
  by (auto simp: ValidString_iff LiteralFormat_def NUL_def)

lemma literal_Inr: "literal s = Inr v \<longleftrightarrow> ValidString s \<and> v = LiteralFormat s"
  by (auto simp: literal_def)

lemma envName_valid: "envName k \<Longrightarrow> ValidString k \<and> CHR ''='' \<notin> set k \<and> k \<noteq> [] \<and> hd k \<noteq> CHR ''-''"
  by (cases k) (auto simp: envName_def ValidString_iff NUL_def list_all_iff env_letter_def is_digit_def)

lemma launchers_valid: "ValidString execLauncher" "ValidString environmentLauncher" "ValidString shellEnvironmentLauncher"
  by code_simp+

lemma sortedEnvKeys_Inr:
  "sortedEnvKeys env = Inr keys \<longleftrightarrow> list_all (\<lambda>(k, v). envName k \<and> ValidString v) env \<and> keys = sort (map fst env)"
  by (auto simp: sortedEnvKeys_def)

lemma assignments_ok:
  assumes "list_all (\<lambda>(k, v). envName k \<and> ValidString v) env"
  shows "list_all ValidString (assignments env (sort (map fst env))) \<and> ''--'' \<notin> set (assignments env (sort (map fst env)))"
proof -
  have k: "envName k \<and> ValidString (env_value env k)" if "k \<in> set (map fst env)" for k
    using assms that by (fastforce simp: list_all_iff env_value_def ValidString_iff dest!: map_of_SomeD sym [of "Some _"] split: option.split)
  have "k @ ''='' @ v \<noteq> ''--''" if "envName k" for k v
    using envName_valid [OF that] by (cases k) auto
  then show ?thesis
    using k envName_valid by (fastforce simp: assignments_def list_all_iff ValidString_iff NUL_def)
qed

lemma sort_Nil_iff [simp]: "sort xs = [] \<longleftrightarrow> xs = []"
  by (metis length_0_conv length_sort)

lemma programArgs_Inr:
  assumes "programArgs dir env p = Inr (extra, argv)"
  shows "extra = (if dir = [] then [] else [''-c'', LiteralFormat dir])" "ValidString dir"
    "list_all (\<lambda>(k, v). envName k \<and> ValidString v) env"
    "\<exists>base. program_argv p = Inr base \<and>
       (if env = [] then argv = base else wrapProgramEnv p env (sort (map fst env)) = Inr argv)"
proof -
  have "ValidString []" by (simp add: ValidString_iff)
  with assms show "extra = (if dir = [] then [] else [''-c'', LiteralFormat dir])" "ValidString dir"
      "list_all (\<lambda>(k, v). envName k \<and> ValidString v) env"
      "\<exists>base. program_argv p = Inr base \<and>
       (if env = [] then argv = base else wrapProgramEnv p env (sort (map fst env)) = Inr argv)"
    by (auto simp: programArgs_def bind_res_Inr_iff sortedEnvKeys_Inr literal_Inr split: if_split_asm)
qed

text \<open>C26: An \<open>Exec\<close> program is never run as a shell line: tmux gets at least two operands, which end with the
  executable and its arguments as they are, no argument holds a NUL, and when there are environment
  overrides the operands of the launcher up to its first \<open>--\<close> are the assignments in the order of their
  names, and those after it the program.\<close>

theorem Exec_arguments:
  assumes "programArgs dir env (Exec name args) = Inr (extra, argv)"
  shows "list_all ValidString (extra @ argv) \<and> 2 \<le> length argv \<and> suffix (name # args) argv \<and>
    (env \<noteq> [] \<longrightarrow>
      takeWhile (\<lambda>a. a \<noteq> ''--'') (drop 4 argv) = assignments env (sort (map fst env)) \<and>
      tl (dropWhile (\<lambda>a. a \<noteq> ''--'') (drop 4 argv)) = name # args)"
proof -
  note c = programArgs_Inr [OF assms]
  obtain base where a: "list_all ValidString extra" "list_all (\<lambda>(k, v). envName k \<and> ValidString v) env"
      "program_argv (Exec name args) = Inr base"
      "if env = [] then argv = base else wrapProgramEnv (Exec name args) env (sort (map fst env)) = Inr argv"
    using c LiteralFormat_valid [OF c(2)] by (auto simp: ValidString_iff NUL_def)
  have n: "ValidString name" "list_all ValidString args" "name \<noteq> []"
    using a(3) by (auto simp: program_argv_def Exec_def split: if_split_asm)
  have v: "ValidString ''/bin/sh''" "ValidString ''-c''" "ValidString ''gotmux-exec''" "ValidString ''gotmux-env''" "ValidString ''--''"
    by code_simp+
  show ?thesis
  proof (cases "env = []")
    case True
    then show ?thesis
      using a(1,3,4) n v launchers_valid
      by (cases args) (auto simp: program_argv_def Exec_def suffix_def Cons_eq_append_conv split: if_split_asm)
  next
    case False
    let ?as = "assignments env (sort (map fst env))"
    have argv: "argv = [''/bin/sh'', ''-c'', environmentLauncher, ''gotmux-env''] @ ?as @ [''--''] @ name # args"
      using a(4) False by (auto simp: wrapProgramEnv_def Exec_def split: if_split_asm)
    have "a \<in> set ?as \<Longrightarrow> a \<noteq> ''--''" for a
      using assignments_ok [OF a(2)] by blast
    then have t: "takeWhile (\<lambda>a. a \<noteq> ''--'') (?as @ ''--'' # name # args) = ?as"
        "dropWhile (\<lambda>a. a \<noteq> ''--'') (?as @ ''--'' # name # args) = ''--'' # name # args"
      by (simp_all add: takeWhile_append dropWhile_append)
    have "suffix (name # args) argv"
      unfolding suffix_def argv by (intro exI [where x = "[''/bin/sh'', ''-c'', environmentLauncher, ''gotmux-env''] @ ?as @ [''--'']"]) simp
    then show ?thesis
      using assignments_ok [OF a(2)] a(1) n v launchers_valid t by (simp add: argv)
  qed
qed

lemma Exec_arguments_witness:
  "\<exists>extra argv. programArgs ''/tmp'' [(''B'', ''2''), (''A'', ''--'')] (Exec ''vim'' [''x'']) = Inr (extra, argv) \<and>
     takeWhile (\<lambda>a. a \<noteq> ''--'') (drop 4 argv) = [''A=--'', ''B=2'']"
proof -
  have s: "sort [''B'', ''A''] = [''A'', ''B'']" by code_simp
  obtain extra argv where a: "programArgs ''/tmp'' [(''B'', ''2''), (''A'', ''--'')] (Exec ''vim'' [''x'']) = Inr (extra, argv)"
    by (simp add: programArgs_def literal_def sortedEnvKeys_def envName_def env_letter_def ValidString_iff NUL_def program_argv_def
        Exec_def wrapProgramEnv_def leading_dash_def)
  moreover have "assignments [(''B'', ''2''), (''A'', ''--'')] (sort [''B'', ''A'']) = [''A=--'', ''B=2'']"
    unfolding s by (simp add: assignments_def env_value_def)
  ultimately show ?thesis using Exec_arguments [OF a] by simp
qed

text \<open>The arguments do not depend on the order in which the map is seen.\<close>

lemma programArgs_order:
  assumes "distinct (map fst env)" and "mset env = mset env'"
  shows "programArgs dir env p = programArgs dir env' p"
proof -
  have s: "set env = set env'" using assms(2) by (rule mset_eq_setD)
  have k: "mset (map fst env) = mset (map fst env')" using assms(2) by simp
  then have "distinct (map fst env')" using assms(1) mset_eq_imp_distinct_iff by blast
  then have "map_of env = map_of env'" using assms(1) s by (simp add: map_of_inject_set)
  then have "env_value env = env_value env'" by (simp add: env_value_def fun_eq_iff)
  moreover have "sort (map fst env) = sort (map fst env')"
    using k by (metis properties_for_sort mset_sort sorted_sort)
  moreover have "list_all P env = list_all P env'" for P
    using s by (simp add: list_all_iff)
  moreover from calculation(1) have "assignments env = assignments env'"
    by (simp add: assignments_def fun_eq_iff)
  ultimately have "sortedEnvKeys env = sortedEnvKeys env'" "wrapProgramEnv p env = wrapProgramEnv p env'"
    by (simp_all add: sortedEnvKeys_def wrapProgramEnv_def fun_eq_iff split: program_kind.split)
  then show ?thesis by (simp add: programArgs_def cong: if_cong)
qed

end
