(* ===== verification/Tmux_Create.thy ===== *)
theory Tmux_Create
  imports Read_Objects Tmux_Program
begin

text \<open>
  \<open>tmux/create.go\<close>: creating sessions, windows and panes. A creation that fails after tmux has done it
  reports what was created; \<open>ctx_end\<close> is the error of the operation's context when the method returns. A
  failed method returns the object beside its error when it could be decoded.
\<close>

subsection \<open>Options\<close>

definition border_Valid :: "bytes \<Rightarrow> bool" where
  "border_Valid b \<longleftrightarrow> b \<in> {''single'', ''double'', ''heavy'', ''simple'', ''number''}"

record newSessionOptions =
  ns_Name :: bytes
  ns_Dir :: bytes
  ns_Window :: bytes
  ns_Program :: program
  ns_Env :: env
  ns_TmuxEnv :: env
  ns_Size :: csize
  ns_Start :: nat
  ns_Group :: bytes

record newWindowOptions =
  nw_Name :: bytes
  nw_Dir :: bytes
  nw_Program :: program
  nw_Env :: env
  nw_TmuxEnv :: env
  nw_Index :: "int option"
  nw_Before :: bool
  nw_After :: bool
  nw_Select :: bool

record splitOptions =
  spl_Direction :: nat
  spl_Size :: split_size
  spl_Dir :: bytes
  spl_Program :: program
  spl_Env :: env
  spl_TmuxEnv :: env
  spl_Select :: bool
  spl_Before :: bool
  spl_FullSize :: bool
  spl_KillTarget :: bool
  spl_Zoom :: bool
  spl_Title :: bytes
  spl_BorderLines :: bytes
  spl_Style :: bytes
  spl_ActiveBorderStyle :: bytes
  spl_InactiveBorderStyle :: bytes
  spl_Message :: bytes

record newPaneOptions =
  np_Width :: bytes
  np_Height :: bytes
  np_X :: bytes
  np_Y :: bytes
  np_Modal :: bool
  np_Dir :: bytes
  np_Program :: program
  np_Env :: env
  np_TmuxEnv :: env
  np_Select :: bool
  np_Zoom :: bool
  np_Title :: bytes
  np_BorderLines :: bytes
  np_Style :: bytes
  np_ActiveBorderStyle :: bytes
  np_InactiveBorderStyle :: bytes
  np_FloatOverZoom :: bool
  np_CloseOnClick :: bool
  np_CaptureAllKeys :: bool

subsection \<open>Arguments\<close>

text \<open>A flag with a checked value: nothing for the empty value.\<close>

definition flag_value :: "bytes \<Rightarrow> bytes \<Rightarrow> (bytes \<Rightarrow> bytes) \<Rightarrow> bytes \<Rightarrow> goerr + bytes list" where
  "flag_value flag what f v =
     (if v = [] then Inr [] else if \<not> ValidString v then Inl (invalid what) else Inr [flag, f v])"

text \<open>The flags of a list of steps, or the first error.\<close>

definition all_flags :: "(goerr + bytes list) list \<Rightarrow> goerr + bytes list" where
  "all_flags rs = bind_res (map_res (\<lambda>r. r) rs) (\<lambda>fs. Inr (concat fs))"

definition border_flag :: "bytes \<Rightarrow> goerr + bytes list" where
  "border_flag b =
     (if b = [] then Inr [] else if \<not> border_Valid b then Inl (invalid ''border lines'') else Inr [''-B'', b])"

definition flag_if :: "bool \<Rightarrow> bytes \<Rightarrow> bytes list" where
  "flag_if b flag = (if b then [flag] else [])"

definition tmuxEnvArgs :: "env \<Rightarrow> goerr + bytes list" where
  "tmuxEnvArgs env =
     (if env = [] then Inr []
      else if list_all (\<lambda>(k, v). envName k \<and> ValidString v) env
      then Inr (concat (map (\<lambda>k. [''-e'', k @ ''='' @ env_value env k]) (sort (map fst env))))
      else Inl (invalid ''environment entry''))"

definition sessionSizeArgs :: "csize \<Rightarrow> bytes list" where
  "sessionSizeArgs s =
     (if sz_Width s \<noteq> 0 then [''-x'', itoa (sz_Width s)] else []) @
     (if sz_Height s \<noteq> 0 then [''-y'', itoa (sz_Height s)] else [])"

text \<open>\<open>windowName\<close> and \<open>literal\<close> of an optional name.\<close>

definition name_flag :: "bytes \<Rightarrow> goerr + bytes list" where
  "name_flag name =
     (if name = [] then Inr []
      else case windowName name of Some e \<Rightarrow> Inl e | None \<Rightarrow> bind_res (literal name) (\<lambda>v. Inr [''-n'', v]))"

definition group_flag :: "bytes \<Rightarrow> goerr + bytes list" where
  "group_flag name =
     (if name = [] then Inr [] else case sessionName name False of Some e \<Rightarrow> Inl e | None \<Rightarrow> Inr [''-t'', name])"

definition newSessionArgs :: "newSessionOptions \<Rightarrow> goerr + bytes list" where
  "newSessionArgs opts =
     bind_res (programArgs (ns_Dir opts) (ns_Env opts) (ns_Program opts)) (\<lambda>(extra, argv).
     bind_res (tmuxEnvArgs (ns_TmuxEnv opts)) (\<lambda>envArgs.
     bind_res (name_flag (ns_Window opts)) (\<lambda>window.
     bind_res (group_flag (ns_Group opts)) (\<lambda>group.
       Inr ([''-d'', ''-P'', ''-F'', RecordFormat (fieldsFor ObjectKindSession)] @
         (if ns_Name opts \<noteq> [] then [''-s'', LiteralFormat (ns_Name opts)] else []) @
         window @ group @ sessionSizeArgs (ns_Size opts) @ envArgs @ extra @ operands argv)))))"

definition newWindowTarget :: "bytes \<Rightarrow> newWindowOptions \<Rightarrow> goerr + bytes" where
  "newWindowTarget sessionID opts =
     (if 1 < length (filter id [nw_Index opts \<noteq> None, nw_Before opts, nw_After opts])
      then Inl (invalid ''window placement'')
      else (case nw_Index opts of
          None \<Rightarrow> Inr (sessionID @ '':'')
        | Some i \<Rightarrow> if i < 0 \<or> 2 ^ 30 < i then Inl (invalid ''index'') else Inr (sessionID @ '':'' @ itoa i)))"

definition newWindowArgs :: "bytes \<Rightarrow> newWindowOptions \<Rightarrow> goerr + bytes list" where
  "newWindowArgs sessionID opts =
     bind_res (newWindowTarget sessionID opts) (\<lambda>target.
     bind_res (programArgs (nw_Dir opts) (nw_Env opts) (nw_Program opts)) (\<lambda>(extra, argv).
     bind_res (tmuxEnvArgs (nw_TmuxEnv opts)) (\<lambda>envArgs.
     bind_res (name_flag (nw_Name opts)) (\<lambda>name.
       Inr ([''-P'', ''-F'', RecordFormat (fieldsFor ObjectKindWindow), ''-t'', target] @
         flag_if (nw_Before opts) ''-b'' @ flag_if (nw_After opts) ''-a'' @ flag_if (\<not> nw_Select opts) ''-d'' @
         name @ envArgs @ extra @ operands argv)))))"

definition Horizontal :: nat where "Horizontal = 1"

definition splitLayoutFlags :: "splitOptions \<Rightarrow> bytes list" where
  "splitLayoutFlags opts =
     [if spl_Direction opts = Horizontal then ''-h'' else ''-v''] @ flag_if (\<not> spl_Select opts) ''-d'' @
     flag_if (spl_Before opts) ''-b'' @ flag_if (spl_FullSize opts) ''-f'' @ flag_if (spl_Zoom opts) ''-Z''"

definition splitTitleBorderFlags :: "splitOptions \<Rightarrow> goerr + bytes list" where
  "splitTitleBorderFlags opts =
     all_flags [flag_value ''-T'' ''title'' LiteralFormat (spl_Title opts), border_flag (spl_BorderLines opts)]"

definition splitColorStyleFlags :: "splitOptions \<Rightarrow> goerr + bytes list" where
  "splitColorStyleFlags opts =
     all_flags [flag_value ''-s'' ''style'' id (spl_Style opts),
       flag_value ''-S'' ''active border style'' id (spl_ActiveBorderStyle opts),
       flag_value ''-R'' ''inactive border style'' id (spl_InactiveBorderStyle opts),
       flag_value ''-m'' ''message'' LiteralFormat (spl_Message opts)]"

definition splitStyleFlags :: "splitOptions \<Rightarrow> goerr + bytes list" where
  "splitStyleFlags opts = all_flags [splitTitleBorderFlags opts, splitColorStyleFlags opts]"

definition splitRecordFormat :: "bytes list \<Rightarrow> bytes" where
  "splitRecordFormat fs =
     RecordPrefix @ itoa_nat (length fs) @ '':'' @
     concat (map (\<lambda>f. if f = ''pane_current_command'' \<or> f = ''pane_current_path'' then ''0:,''
       else ''#{n:'' @ f @ ''}:#{'' @ f @ ''},'') fs)"

definition splitArgs :: "bytes \<Rightarrow> splitOptions \<Rightarrow> goerr + bytes list" where
  "splitArgs paneID opts =
     bind_res (split_size_args (spl_Size opts)) (\<lambda>size.
     bind_res (programArgs (spl_Dir opts) (spl_Env opts) (spl_Program opts)) (\<lambda>(extra, argv).
     bind_res (tmuxEnvArgs (spl_TmuxEnv opts)) (\<lambda>envArgs.
     bind_res (splitStyleFlags opts) (\<lambda>styleArgs.
       Inr ([''-P'', ''-F'', splitRecordFormat (fieldsFor ObjectKindPane), ''-t'', paneID] @
         splitLayoutFlags opts @ styleArgs @ size @ envArgs @ extra @ operands argv)))))"

definition newPaneGeometryFlags :: "newPaneOptions \<Rightarrow> goerr + bytes list" where
  "newPaneGeometryFlags opts =
     all_flags [flag_value ''-x'' ''width'' id (np_Width opts), flag_value ''-y'' ''height'' id (np_Height opts),
       flag_value ''-X'' ''x position'' id (np_X opts), flag_value ''-Y'' ''y position'' id (np_Y opts)]"

definition newPaneModalFlags :: "newPaneOptions \<Rightarrow> bytes list" where
  "newPaneModalFlags opts =
     (if np_Modal opts then ''-O'' # flag_if (np_CloseOnClick opts) ''-C'' @ flag_if (np_CaptureAllKeys opts) ''-K'' else []) @
     flag_if (np_FloatOverZoom opts) ''-A'' @ flag_if (\<not> np_Select opts) ''-d'' @ flag_if (np_Zoom opts) ''-Z''"

definition newPaneStyleFlags :: "newPaneOptions \<Rightarrow> goerr + bytes list" where
  "newPaneStyleFlags opts =
     all_flags [flag_value ''-T'' ''title'' LiteralFormat (np_Title opts), border_flag (np_BorderLines opts),
       flag_value ''-s'' ''style'' id (np_Style opts),
       flag_value ''-S'' ''active border style'' id (np_ActiveBorderStyle opts),
       flag_value ''-R'' ''inactive border style'' id (np_InactiveBorderStyle opts)]"

definition newPaneArgs :: "bytes \<Rightarrow> newPaneOptions \<Rightarrow> goerr + bytes list" where
  "newPaneArgs targetID opts =
     bind_res (programArgs (np_Dir opts) (np_Env opts) (np_Program opts)) (\<lambda>(extra, argv).
     bind_res (tmuxEnvArgs (np_TmuxEnv opts)) (\<lambda>envArgs.
     bind_res (newPaneGeometryFlags opts) (\<lambda>geo.
     bind_res (newPaneStyleFlags opts) (\<lambda>style.
       Inr ([''-P'', ''-F'', splitRecordFormat (fieldsFor ObjectKindPane), ''-t'', targetID] @
         geo @ newPaneModalFlags opts @ style @ envArgs @ extra @ operands argv)))))"

subsection \<open>What was created\<close>

definition createdFromHandle :: "handle \<Rightarrow> created_object" where
  "createdFromHandle h =
     \<lparr>co_kind = h_kind h, co_raw_id = h_id h, co_identity = Present (h_origin h), co_session = Unavailable,
      co_window_index = Unavailable\<rparr>"

definition id_field :: "object_kind \<Rightarrow> bytes option" where
  "id_field kind =
     (case kind of ObjectKindSession \<Rightarrow> Some ''session_id'' | ObjectKindWindow \<Rightarrow> Some ''window_id''
      | ObjectKindPane \<Rightarrow> Some ''pane_id'' | _ \<Rightarrow> None)"

text \<open>The first field of the name: the loop over the fields of the kind.\<close>

fun first_index :: "'a \<Rightarrow> 'a list \<Rightarrow> nat option" where
  "first_index x [] = None"
| "first_index x (y # ys) = (if y = x then Some 0 else map_option Suc (first_index x ys))"

definition recoverCreated :: "bytes \<Rightarrow> object_kind \<Rightarrow> created_object list" where
  "recoverCreated data kind =
     (case ParseRecords data (int (length (fieldsFor kind))) of
        Inl e \<Rightarrow> []
      | Inr rows \<Rightarrow>
          (case rows of
             [row] \<Rightarrow>
               if row = [] then []
               else (case id_field kind of
                   None \<Rightarrow> []
                 | Some field \<Rightarrow>
                     (case first_index field (fieldsFor kind) of
                        None \<Rightarrow> []
                      | Some i \<Rightarrow> [\<lparr>co_kind = kind, co_raw_id = row ! i, co_identity = Unavailable,
                          co_session = Unavailable, co_window_index = Unavailable\<rparr>]))
           | _ \<Rightarrow> []))"

definition rejectionComplete :: "goerr \<Rightarrow> bool" where
  "rejectionComplete e =
     (case as_command e of
        Some (CommandError n r oc t e') \<Rightarrow>
          t = TimeoutSourceNone \<and> \<not> err_is e ContextCanceled \<and> \<not> err_is e ContextDeadlineExceeded \<and>
          \<not> err_is e ErrOutputLimit \<and> \<not> err_is e ErrProtocol \<and> \<not> err_is e ErrClosed \<and>
          \<not> err_is e ErrServerChanged \<and> \<not> err_is e ErrNoServer
      | _ \<Rightarrow> False)"

definition creationError :: "bytes \<Rightarrow> goerr \<Rightarrow> bytes \<Rightarrow> object_kind \<Rightarrow> goerr" where
  "creationError name e data kind =
     (let oc = outcomeOf e;
          oc1 = oc\<lparr>oc_created := oc_created oc @ recoverCreated data kind\<rparr>;
          oc2 = (if name = ''NewSession'' \<and> err_is e ErrAlreadyExists \<and> data = [] \<and> oc_created oc1 = [] \<and>
                    rejectionComplete e
                 then oc1\<lparr>oc_effect := EffectRejected\<rparr> else oc1)
      in OperationError name oc2 e)"

text \<open>The object and the error that a method returns.\<close>

type_synonym 'a made = "'a option \<times> goerr option"

abbreviation not_made :: "goerr \<Rightarrow> 'a made" where
  "not_made e \<equiv> (None, Some e)"

definition after_created :: "bytes \<Rightarrow> goerr \<Rightarrow> created_object list \<Rightarrow> goerr" where
  "after_created label e created = the (afterError label (Some e) created)"

text \<open>The end that the creating methods share: \<open>decode\<close> gives the object and its handle.\<close>

definition created_result ::
  "bytes \<Rightarrow> object_kind \<Rightarrow> (row \<Rightarrow> goerr + 'a \<times> handle) \<Rightarrow> goerr option \<Rightarrow> bytes \<Rightarrow> 'a made" where
  "created_result label kind decode ctx_end data =
     (let failed = (\<lambda>e. not_made (after_created label e (recoverCreated data kind))) in
      case parseRaw data (fieldsFor kind) (kind_text kind) of
        Inl e \<Rightarrow> failed e
      | Inr [m] \<Rightarrow>
          (case decode m of
             Inl e \<Rightarrow> failed e
           | Inr (v, h) \<Rightarrow>
               (case ctx_end of
                  Some e \<Rightarrow> (Some v, Some (after_created label e [createdFromHandle h]))
                | None \<Rightarrow> (Some v, None)))
      | Inr _ \<Rightarrow> failed (decodeError (kind_text kind) ''record count'' (Sentinel ErrRecord)))"

text \<open>The execution of the three methods on a handle; \<open>name\<close> is the label of a failed execution.\<close>

definition create_in ::
  "bytes \<Rightarrow> bytes \<Rightarrow> object_kind \<Rightarrow> call_env \<Rightarrow> goerr option \<Rightarrow> handle \<Rightarrow> (goerr + wireNode list) \<Rightarrow>
   (server \<Rightarrow> row \<Rightarrow> goerr + 'a \<times> handle) \<Rightarrow> 'a made" where
  "create_in label name kind env ctx_end h nodes decode =
     (case in_handle env h (\<lambda>(s, op). bind_res nodes (\<lambda>ns. Inr (s, op, ns))) of
        Inl e \<Rightarrow> not_made (op_error label e)
      | Inr (s, op, ns) \<Rightarrow>
          (case execute env s op \<lparr>pl_nodes = ns, pl_mode = replyRecords, pl_allowStart = False\<rparr> (handle_guard h) None of
             ((r, Some e), op') \<Rightarrow> not_made (creationError name e (res_stdout r) kind)
           | ((r, None), op') \<Rightarrow> created_result label kind (decode s) ctx_end (res_stdout r)))"

definition Session_NewWindow :: "call_env \<Rightarrow> goerr option \<Rightarrow> handle \<Rightarrow> newWindowOptions \<Rightarrow> window_link made" where
  "Session_NewWindow env ctx_end h opts =
     create_in ''Session.NewWindow'' ''NewWindow'' ObjectKindWindow env ctx_end h
       (bind_res (newWindowArgs (h_id h) opts) (\<lambda>args. Inr [leaf \<lparr>cmd_name = ''new-window'', cmd_args = args\<rparr>]))
       (\<lambda>s m. bind_res (decodeWindow s m (expectedOrigin h)) (\<lambda>(w, l). Inr (li_link l, wl_h (li_link l))))"

text \<open>What the split of a pane runs.\<close>

definition split_nodes :: "bytes \<Rightarrow> splitOptions \<Rightarrow> goerr + wireNode list" where
  "split_nodes oid opts =
     (if Horizontal < spl_Direction opts then Inl (invalid ''direction'')
      else bind_res (splitArgs oid opts) (\<lambda>args.
        Inr ([leaf \<lparr>cmd_name = ''split-window'', cmd_args = args\<rparr>] @
          (if spl_KillTarget opts then [leaf \<lparr>cmd_name = ''kill-pane'', cmd_args = [''-t'', oid]\<rparr>] else []))))"

definition Pane_Split :: "call_env \<Rightarrow> goerr option \<Rightarrow> handle \<Rightarrow> splitOptions \<Rightarrow> handle made" where
  "Pane_Split env ctx_end h opts =
     create_in ''Pane.Split'' ''Split'' ObjectKindPane env ctx_end h
       (split_nodes (h_id h) opts)
       (\<lambda>s m. bind_res (decodePane s m (expectedOrigin h)) (\<lambda>v. Inr (pn_h v, pn_h v)))"

definition createNewPane :: "call_env \<Rightarrow> goerr option \<Rightarrow> handle \<Rightarrow> bytes \<Rightarrow> bytes \<Rightarrow> newPaneOptions \<Rightarrow> handle made" where
  "createNewPane env ctx_end h opName targetID opts =
     create_in opName opName ObjectKindPane env ctx_end h
       (bind_res (newPaneArgs targetID opts) (\<lambda>args. Inr [leaf \<lparr>cmd_name = ''new-pane'', cmd_args = args\<rparr>]))
       (\<lambda>s m. bind_res (decodePane s m (expectedOrigin h)) (\<lambda>v. Inr (pn_h v, pn_h v)))"

definition Window_NewPane :: "call_env \<Rightarrow> goerr option \<Rightarrow> handle \<Rightarrow> newPaneOptions \<Rightarrow> handle made" where
  "Window_NewPane env ctx_end w opts = createNewPane env ctx_end w ''Window.NewPane'' (h_id w) opts"

definition Pane_NewPane :: "call_env \<Rightarrow> goerr option \<Rightarrow> handle \<Rightarrow> newPaneOptions \<Rightarrow> handle made" where
  "Pane_NewPane env ctx_end p opts = createNewPane env ctx_end p ''Pane.NewPane'' (h_id p) opts"

subsection \<open>Sessions\<close>

record startGuard =
  sg_guard :: "guard option"
  sg_allowStart :: bool

text \<open>\<open>envs i\<close> is the environment of the \<open>i\<close>-th run of tmux in the method.\<close>

definition resolveStartGuard ::
  "(nat \<Rightarrow> call_env) \<Rightarrow> (server \<Rightarrow> server_info) \<Rightarrow> server \<Rightarrow> operation \<Rightarrow> nat \<Rightarrow> startGuard step_result" where
  "resolveStartGuard envs verified s op start =
     (case verifiedInfo (envs 0) verified s op of
        (Inr info, op1) \<Rightarrow> (Inr \<lparr>sg_guard = Some (newGuard (sv_Identity info)), sg_allowStart = False\<rparr>, op1)
      | (Inl e, op1) \<Rightarrow>
          if err_is e ErrNoServer \<and> start = 0 \<and> srv_conn s = None \<and> srv_bound s = None then
            (case executableVersion (envs 1) op1 of
               (Inl e', op2) \<Rightarrow> (Inl e', op2)
             | (Inr v, op2) \<Rightarrow>
                 (case supportedVersion v of
                    Some e' \<Rightarrow> (Inl e', op2)
                  | None \<Rightarrow> (Inr \<lparr>sg_guard = None, sg_allowStart = True\<rparr>, op2)))
          else if err_is e ErrNoServer \<and> start = 1 then (Inl (Sentinel ErrNoServer), op1)
          else (Inl e, op1))"

text \<open>The loop of \<open>exactGroupTarget\<close>; \<open>target\<close> is the last session of the name so far.\<close>

fun find_group :: "bytes \<Rightarrow> bytes \<Rightarrow> session_info list \<Rightarrow> bytes" where
  "find_group name target [] = target"
| "find_group name target (v # vs) =
     (if value_get (ss_Group v) = Some name then ss_ID v
      else find_group name (if ss_Name v = name then ss_ID v else target) vs)"

definition exactGroupTarget ::
  "(nat \<Rightarrow> call_env) \<Rightarrow> server \<Rightarrow> bytes \<Rightarrow> operation \<Rightarrow> server_identity \<Rightarrow> bytes \<Rightarrow> bytes step_result" where
  "exactGroupTarget envs s label op i name =
     (case sessions (envs 2) (envs 3) s label op i no_options of
        (Inl e, op') \<Rightarrow> (Inl e, op')
      | (Inr vs, op') \<Rightarrow>
          (let target = find_group name [] vs in
           (if target = [] then Inl (Sentinel ErrNotFound) else Inr target, op')))"

text \<open>The argument after the first \<open>-t\<close> is replaced.\<close>

definition replace_target :: "bytes list \<Rightarrow> bytes \<Rightarrow> goerr + bytes list" where
  "replace_target args target =
     (case first_index ''-t'' args of
        None \<Rightarrow> Inl (Sentinel ErrProtocol)
      | Some i \<Rightarrow> if length args \<le> i + 1 then Inl (Sentinel ErrProtocol) else Inr (args[i + 1 := target]))"

definition exactGroupArgs ::
  "(nat \<Rightarrow> call_env) \<Rightarrow> server \<Rightarrow> bytes \<Rightarrow> operation \<Rightarrow> startGuard \<Rightarrow> bytes list \<Rightarrow> bytes \<Rightarrow> bytes list step_result" where
  "exactGroupArgs envs s label op sg args name =
     (if name = [] then (Inr args, op)
      else (case sg_guard sg of
          None \<Rightarrow> (Inl (Sentinel ErrNotFound), op)
        | Some g \<Rightarrow>
            (case exactGroupTarget envs s label op (g_identity g) name of
               (Inl e, op') \<Rightarrow> (Inl e, op')
             | (Inr target, op') \<Rightarrow> (replace_target args target, op'))))"

definition supportedStablePattern :: bytes where
  "supportedStablePattern =
     ''^([a-zA-Z_-]+-)?(([4-9]|[1-9][0-9]+)[.][0-9]+|3[.]([6-9]|[1-9][0-9]+))[a-z]?(-.*)?$'' @ ''|^master$|^next$''"

definition startupVersionCondition :: bytes where
  "startupVersionCondition = ''#{m/r:'' @ supportedStablePattern @ '',#{version}}''"

definition unsupportedStartupVersion :: bytes where
  "unsupportedStartupVersion = ''TGO-GUARD-1:unsupported-version'' @ [LF]"

definition newSessionPlan :: "bytes list \<Rightarrow> startGuard \<Rightarrow> plan" where
  "newSessionPlan args sg =
     (let p = (recordsPlan \<lparr>cmd_name = ''new-session'', cmd_args = args\<rparr>)\<lparr>pl_allowStart := sg_allowStart sg\<rparr> in
      if pl_allowStart p
      then p\<lparr>pl_nodes := [leaf \<lparr>cmd_name = ''start-server'', cmd_args = []\<rparr>,
               conditionNode startupVersionCondition (pl_nodes p) [markerNode unsupportedStartupVersion] []]\<rparr>
      else p)"

text \<open>What \<open>NewSession\<close> does up to its execution.\<close>

definition prepare_session ::
  "(nat \<Rightarrow> call_env) \<Rightarrow> (server \<Rightarrow> server_info) \<Rightarrow> server \<Rightarrow> operation \<Rightarrow> newSessionOptions \<Rightarrow>
   (startGuard \<times> bytes list) step_result" where
  "prepare_session envs verified s op opts =
     (case sessionName (ns_Name opts) True of
        Some e \<Rightarrow> (Inl e, op)
      | None \<Rightarrow>
          if 1 < ns_Start opts \<or> \<not> size_valid (ns_Size opts) then (Inl (invalid ''startup policy or size''), op)
          else (case newSessionArgs opts of
              Inl e \<Rightarrow> (Inl e, op)
            | Inr args \<Rightarrow>
                (case resolveStartGuard envs verified s op (ns_Start opts) of
                   (Inl e, op1) \<Rightarrow> (Inl e, op1)
                 | (Inr sg, op1) \<Rightarrow>
                     (case exactGroupArgs envs s ''Server.NewSession'' op1 sg args (ns_Group opts) of
                        (Inl e, op2) \<Rightarrow> (Inl e, op2)
                      | (Inr args', op2) \<Rightarrow> (Inr (sg, args'), op2)))))"

definition NewSession ::
  "(nat \<Rightarrow> call_env) \<Rightarrow> goerr option \<Rightarrow> (server \<Rightarrow> server_info) \<Rightarrow> server option \<Rightarrow> newSessionOptions \<Rightarrow> handle made" where
  "NewSession envs ctx_end verified so opts =
     (case begin_op (envs 0) so of
        Inl e \<Rightarrow> not_made (op_error ''Server.NewSession'' e)
      | Inr (s, op) \<Rightarrow>
          (case prepare_session envs verified s op opts of
             (Inl e, op2) \<Rightarrow> not_made (op_error ''Server.NewSession'' e)
           | (Inr (sg, args), op2) \<Rightarrow>
               (case execute (envs 4) s op2 (newSessionPlan args sg) (sg_guard sg) None of
                  ((r, eo), op3) \<Rightarrow>
                    if res_stdout r = unsupportedStartupVersion
                    then not_made (op_error ''Server.NewSession''
                      (unsupported ''answering tmux version requires recognized stable 3.6+''))
                    else (case eo of
                        Some e \<Rightarrow> not_made (creationError ''NewSession'' e (res_stdout r) ObjectKindSession)
                      | None \<Rightarrow> created_result ''Server.NewSession'' ObjectKindSession
                          (\<lambda>m. bind_res (decodeSession s m (map_option g_identity (sg_guard sg))) (\<lambda>v. Inr (ss_h v, ss_h v)))
                          ctx_end (res_stdout r)))))"

subsection \<open>The operand of a group\<close>

lemma first_index_append:
  "x \<notin> set xs \<Longrightarrow> first_index x (xs @ x # ys) = Some (length xs)"
  by (induction xs) auto

lemma replace_target_append:
  "''-t'' \<notin> set pre \<Longrightarrow> replace_target (pre @ ''-t'' # v # post) target = Inr (pre @ ''-t'' # target # post)"
  by (simp add: replace_target_def first_index_append list_update_append)

lemma LiteralFormat_dash_t: "LiteralFormat s = ''-t'' \<longleftrightarrow> s = ''-t''"
proof
  assume "LiteralFormat s = ''-t''"
  then show "s = ''-t''"
    by (cases s; cases "tl s"; cases "tl (tl s)") (auto simp: LiteralFormat_def split: if_split_asm)
qed (simp add: LiteralFormat_def)

lemma not_the_flag:
  "RecordFormat fs \<noteq> ''-t''" "''-t'' \<noteq> RecordFormat fs" "''-t'' = LiteralFormat s \<longleftrightarrow> s = ''-t''"
  by (simp_all add: RecordFormat_def RecordPrefix_def eq_commute [of "''-t''" "LiteralFormat s"] LiteralFormat_dash_t)

lemma newSessionArgs_Inr:
  assumes "newSessionArgs opts = Inr args"
  shows "\<exists>post. args = [''-d'', ''-P'', ''-F'', RecordFormat (fieldsFor ObjectKindSession)] @
    (if ns_Name opts \<noteq> [] then [''-s'', LiteralFormat (ns_Name opts)] else []) @
    (if ns_Window opts \<noteq> [] then [''-n'', LiteralFormat (ns_Window opts)] else []) @
    (if ns_Group opts \<noteq> [] then [''-t'', ns_Group opts] else []) @ post"
  using assms
  by (auto simp: newSessionArgs_def bind_res_Inr_iff name_flag_def group_flag_def literal_Inr split: if_split_asm option.split_asm)

text \<open>When a session joins a group, the operand of its \<open>-t\<close> flag, and no other argument, is replaced by
  the id of the group's session, provided that neither the name of the session nor that of its window is
  itself \<open>-t\<close>.\<close>

theorem group_operand_is_replaced:
  assumes "newSessionArgs opts = Inr args" and "ns_Group opts \<noteq> []"
    and "ns_Name opts \<noteq> ''-t''" and "ns_Window opts \<noteq> ''-t''"
  shows "\<exists>pre post. args = pre @ ''-t'' # ns_Group opts # post \<and> replace_target args target = Inr (pre @ ''-t'' # target # post)"
proof -
  let ?pre = "[''-d'', ''-P'', ''-F'', RecordFormat (fieldsFor ObjectKindSession)] @
    (if ns_Name opts \<noteq> [] then [''-s'', LiteralFormat (ns_Name opts)] else []) @
    (if ns_Window opts \<noteq> [] then [''-n'', LiteralFormat (ns_Window opts)] else [])"
  obtain post where p: "args = ?pre @ ''-t'' # ns_Group opts # post"
    using newSessionArgs_Inr [OF assms(1)] assms(2) by auto
  have "''-t'' \<notin> set ?pre"
    using assms(3,4) by (simp add: not_the_flag)
  from replace_target_append [OF this] p show ?thesis by blast
qed

definition tiny_group :: newSessionOptions where
  "tiny_group =
     \<lparr>ns_Name = ''n'', ns_Dir = [], ns_Window = [], ns_Program = no_program, ns_Env = [], ns_TmuxEnv = [],
      ns_Size = \<lparr>sz_Width = 80, sz_Height = 24\<rparr>, ns_Start = 0, ns_Group = ''g''\<rparr>"

lemma group_operand_is_replaced_witness:
  "\<exists>pre post. newSessionArgs tiny_group = Inr (pre @ ''-t'' # ''g'' # post) \<and>
     replace_target (pre @ ''-t'' # ''g'' # post) ''$4'' = Inr (pre @ ''-t'' # ''$4'' # post)"
proof -
  have "\<not> isl (newSessionArgs tiny_group)" by code_simp
  then obtain args where a: "newSessionArgs tiny_group = Inr args"
    by (cases "newSessionArgs tiny_group") auto
  have "ns_Group tiny_group = ''g''" "ns_Name tiny_group = ''n''" "ns_Window tiny_group = []" by (simp_all add: tiny_group_def)
  then show ?thesis using a group_operand_is_replaced [OF a, where target = "''$4''"] by auto
qed

text \<open>A session named \<open>-t\<close> loses its group: the flag itself is overwritten, and the name of the group is
  left as an operand.\<close>

lemma group_flag_is_lost:
  assumes "newSessionArgs opts = Inr args" and "ns_Group opts \<noteq> []" and "ns_Name opts = ''-t''" and "ns_Window opts = []"
  shows "sessionName (ns_Name opts) True = None \<and>
    (\<exists>pre post. args = pre @ [''-s'', ''-t'', ''-t'', ns_Group opts] @ post \<and>
       replace_target args target = Inr (pre @ [''-s'', ''-t'', target, ns_Group opts] @ post))"
proof -
  let ?pre = "[''-d'', ''-P'', ''-F'', RecordFormat (fieldsFor ObjectKindSession)]"
  obtain post where p: "args = (?pre @ [''-s'']) @ ''-t'' # ''-t'' # ns_Group opts # post"
    using newSessionArgs_Inr [OF assms(1)] assms(2-4) by (auto simp: LiteralFormat_dash_t)
  have "''-t'' \<notin> set (?pre @ [''-s''])" by (simp add: not_the_flag)
  from replace_target_append [OF this] p
  have "replace_target args target = Inr ((?pre @ [''-s'']) @ ''-t'' # target # ns_Group opts # post)" by blast
  with p have "args = ?pre @ [''-s'', ''-t'', ''-t'', ns_Group opts] @ post \<and>
      replace_target args target = Inr (?pre @ [''-s'', ''-t'', target, ns_Group opts] @ post)" by simp
  moreover have "sessionName ''-t'' True = None" by code_simp
  ultimately show ?thesis using assms(3) by metis
qed

subsection \<open>A created object is never lost\<close>

lemma recordMap_field:
  "distinct fs \<Longrightarrow> length fs = length vs \<Longrightarrow> i < length fs \<Longrightarrow> recordMap fs vs (fs ! i) = Some (vs ! i)"
  unfolding recordMap_def
  by (subst map_of_inject_set [THEN iffD2, of _ "zip fs vs"]) (simp_all add: rev_map [symmetric] map_of_zip_nth)

text \<open>The kinds of object that are created, with the place of their id among the fields.\<close>

definition id_place :: "object_kind \<Rightarrow> nat option" where
  "id_place kind =
     (case id_field kind of None \<Rightarrow> None | Some f \<Rightarrow> first_index f (fieldsFor kind))"

lemma id_places:
  "id_place ObjectKindSession = Some 4" "id_place ObjectKindWindow = Some 4" "id_place ObjectKindPane = Some 4"
  by code_simp+

lemma fields_distinct:
  "kind \<in> {ObjectKindSession, ObjectKindWindow, ObjectKindPane} \<Longrightarrow>
   distinct (fieldsFor kind) \<and> 4 < length (fieldsFor kind) \<and> length (fieldsFor kind) \<le> 1024 \<and>
   id_field kind = Some (fieldsFor kind ! 4)"
proof -
  have "list_all (\<lambda>kind. distinct (fieldsFor kind) \<and> 4 < length (fieldsFor kind) \<and> length (fieldsFor kind) \<le> 100 \<and>
      id_field kind = Some (fieldsFor kind ! 4)) [ObjectKindSession, ObjectKindWindow, ObjectKindPane]"
    by code_simp
  then show "kind \<in> {ObjectKindSession, ObjectKindWindow, ObjectKindPane} \<Longrightarrow> ?thesis"
    by auto
qed

lemma one_row:
  assumes "length row = length (fieldsFor kind)" and "length (EncodeRecord row) < 2 ^ 63"
    and "kind \<in> {ObjectKindSession, ObjectKindWindow, ObjectKindPane}"
  shows "ParseRecords (EncodeRecord row) (int (length (fieldsFor kind))) = Inr [row]"
  using ParseRecords_concat [of "[row]" "int (length (fieldsFor kind))"] assms fields_distinct [OF assms(3)] by simp

lemma recoverCreated_row:
  assumes "length row = length (fieldsFor kind)" and "length (EncodeRecord row) < 2 ^ 63"
    and "kind \<in> {ObjectKindSession, ObjectKindWindow, ObjectKindPane}"
  shows "map co_raw_id (recoverCreated (EncodeRecord row) kind) = [row ! 4]"
proof -
  have "row \<noteq> []" using assms(1) fields_distinct [OF assms(3)] by auto
  moreover have "id_place kind = Some 4" using assms(3) id_places by auto
  ultimately show ?thesis
    using one_row [OF assms] by (auto simp: recoverCreated_def id_place_def split: option.splits)
qed

definition lost :: "('a \<Rightarrow> bytes) \<Rightarrow> bytes \<Rightarrow> 'a made \<Rightarrow> bool" where
  "lost oid i m \<longleftrightarrow>
     (case m of
        (Some v, _) \<Rightarrow> oid v \<noteq> i
      | (None, None) \<Rightarrow> True
      | (None, Some e) \<Rightarrow> i \<notin> co_raw_id ` set (oc_created (outcomeOf e)))"

lemma created_result_not_lost:
  assumes "length row = length (fieldsFor kind)" and "length (EncodeRecord row) < 2 ^ 63"
    and "kind \<in> {ObjectKindSession, ObjectKindWindow, ObjectKindPane}"
    and "\<And>m v h. decode m = Inr (v, h) \<Longrightarrow> m (fieldsFor kind ! 4) = Some (oid v)"
  shows "\<not> lost oid (row ! 4) (created_result label kind decode ctx_end (EncodeRecord row))"
proof -
  let ?m = "recordMap (fieldsFor kind) row"
  note f = fields_distinct [OF assms(3)]
  have rows: "parseRaw (EncodeRecord row) (fieldsFor kind) (kind_text kind) = Inr [?m]"
    using one_row [OF assms(1-3)] by (simp add: parseRaw_def)
  have m: "?m (fieldsFor kind ! 4) = Some (row ! 4)"
    using f assms(1) by (simp add: recordMap_field)
  have rec: "row ! 4 \<in> co_raw_id ` set (recoverCreated (EncodeRecord row) kind)"
    using recoverCreated_row [OF assms(1-3)] by (metis list.set_intros(1) set_map)
  show ?thesis
  proof (cases "decode ?m")
    case (Inl e)
    then show ?thesis
      using rec by (simp add: created_result_def rows lost_def after_created_def afterError_def)
  next
    case (Inr vh)
    obtain v h where vh: "vh = (v, h)" by fastforce
    have "oid v = row ! 4"
      using assms(4) [of ?m v h] Inr vh m by simp
    then show ?thesis
      by (simp add: created_result_def rows lost_def Inr vh split: option.split)
  qed
qed

text \<open>The same for a split pane, whose target may be killed by the same command list.\<close>

lemma split_pane_is_not_lost:
  assumes "in_handle env h (\<lambda>(s, op). bind_res (split_nodes (h_id h) opts) (\<lambda>ns. Inr (s, op, ns))) = Inr (s, op, ns)"
    and "execute env s op \<lparr>pl_nodes = ns, pl_mode = replyRecords, pl_allowStart = False\<rparr> (handle_guard h) None = ((r, eo), op')"
    and "res_stdout r = EncodeRecord row" and "length row = length (fieldsFor ObjectKindPane)"
    and "length (EncodeRecord row) < 2 ^ 63"
  shows "\<not> lost h_id (row ! 4) (Pane_Split env ctx_end h opts)"
proof (cases eo)
  case None
  have p: "fieldsFor ObjectKindPane ! 4 = ''pane_id''" by code_simp
  let ?d = "\<lambda>m. bind_res (decodePane s m (expectedOrigin h)) (\<lambda>v. Inr (pn_h v, pn_h v))"
  have d: "m (fieldsFor ObjectKindPane ! 4) = Some (h_id v)" if "?d m = Inr (v, h')" for m v h'
    using that decodePane_ok(2,6) [of s m "expectedOrigin h"] unfolding p
    by (auto simp: bind_res_Inr_iff) (metis newHandle_def handle.select_convs(3))
  have "\<not> lost h_id (row ! 4) (created_result ''Pane.Split'' ObjectKindPane ?d ctx_end (EncodeRecord row))"
    by (rule created_result_not_lost [OF assms(4,5)]) (simp, erule d)
  with None assms(1-3) show ?thesis
    by (simp add: Pane_Split_def create_in_def)
next
  case (Some e)
  have "row ! 4 \<in> co_raw_id ` set (recoverCreated (EncodeRecord row) ObjectKindPane)"
    using recoverCreated_row [OF assms(4,5)] by (metis insertI1 insert_commute list.set_intros(1) set_map)
  then show ?thesis
    using Some assms(1-3)
    by (auto simp: Pane_Split_def create_in_def lost_def creationError_def Let_def image_Un)
qed

text \<open>C25: A window that tmux reports as created is never lost: when the answer holds the record of the new
  window, the method returns the slot of that window or an error whose outcome lists it, also when the
  command then fails, when the record does not decode, or when the context ends.\<close>

theorem new_window_is_not_lost:
  assumes "in_handle env h (\<lambda>(s, op). bind_res (newWindowArgs (h_id h) opts) (\<lambda>args. Inr (s, op, args))) = Inr (s, op, args)"
    and "execute env s op (recordsPlan \<lparr>cmd_name = ''new-window'', cmd_args = args\<rparr>) (handle_guard h) None = ((r, eo), op')"
    and "res_stdout r = EncodeRecord row" and "length row = length (fieldsFor ObjectKindWindow)"
    and "length (EncodeRecord row) < 2 ^ 63"
  shows "\<not> lost (\<lambda>l. h_id (wl_h l)) (row ! 4) (Session_NewWindow env ctx_end h opts)"
proof -
  let ?d = "\<lambda>m. bind_res (decodeWindow s m (expectedOrigin h)) (\<lambda>(w, l). Inr (li_link l, wl_h (li_link l)))"
  have p: "fieldsFor ObjectKindWindow ! 4 = ''window_id''" by code_simp
  have d: "m (fieldsFor ObjectKindWindow ! 4) = Some (h_id (wl_h v))" if "?d m = Inr (v, h')" for m v h'
    using that decodeWindow_ok(2,6,10) [of s m "expectedOrigin h"] unfolding p
    by (auto simp: bind_res_Inr_iff) (metis newHandle_def handle.select_convs(3))
  have i: "in_handle env h (\<lambda>(s, op). bind_res (bind_res (newWindowArgs (h_id h) opts)
      (\<lambda>args. Inr [leaf \<lparr>cmd_name = ''new-window'', cmd_args = args\<rparr>])) (\<lambda>ns. Inr (s, op, ns))) =
      Inr (s, op, [leaf \<lparr>cmd_name = ''new-window'', cmd_args = args\<rparr>])"
    using assms(1) by (auto simp: in_handle_def bind_res_Inr_iff split: option.split_asm)
  show ?thesis
  proof (cases eo)
    case None
    have "\<not> lost (\<lambda>l. h_id (wl_h l)) (row ! 4) (created_result ''Session.NewWindow'' ObjectKindWindow ?d ctx_end (EncodeRecord row))"
      by (rule created_result_not_lost [OF assms(4,5)]) (simp, erule d)
    with None i assms(2,3) show ?thesis
      by (simp add: Session_NewWindow_def create_in_def recordsPlan_def plainPlan_def commandStartsServer_def)
  next
    case (Some e)
    have "row ! 4 \<in> co_raw_id ` set (recoverCreated (EncodeRecord row) ObjectKindWindow)"
      using recoverCreated_row [OF assms(4,5)] by (metis insertI1 insert_commute list.set_intros(1) set_map)
    then show ?thesis
      using Some i assms(2,3)
      by (auto simp: Session_NewWindow_def create_in_def recordsPlan_def plainPlan_def commandStartsServer_def lost_def creationError_def Let_def image_Un)
  qed
qed

definition tiny_session_handle :: handle where
  "tiny_session_handle = unprobedHandle (Some plain_server) ''$1'' ObjectKindSession"

definition tiny_new_window :: newWindowOptions where
  "tiny_new_window =
     \<lparr>nw_Name = ''w'', nw_Dir = [], nw_Program = no_program, nw_Env = [], nw_TmuxEnv = [], nw_Index = Some 3, nw_Before = False,
      nw_After = False, nw_Select = True\<rparr>"

definition tiny_row :: "bytes list" where
  "tiny_row = replicate 4 ''x'' @ ''@7'' # replicate 10 []"

lemma tiny_session_checked: "handle_check (quiet_env pr) tiny_session_handle = None"
proof -
  have "''$1'' = CHR ''$'' # itoa_nat 1"
    by code_simp
  then have "validID ''$1'' (CHR ''$'')"
    by (auto simp: validID_iff intro: exI [where x = 1])
  then show ?thesis
    by (simp add: handle_check_def handle_valid_def id_Valid_def SessionID_Valid_def tiny_session_handle_def unprobedHandle_def
        plain_server_def identity_isZero_iff zero_identity_def identity_valid_def)
qed

text \<open>The process is killed after it created the window, and the record does not decode.\<close>

lemma new_window_is_not_lost_witness:
  "\<not> lost (\<lambda>l. h_id (wl_h l)) ''@7''
     (Session_NewWindow (quiet_env (quiet_run\<lparr>pr_stdout := [EncodeRecord tiny_row], pr_wait := Some (Opaque ''signal'')\<rparr>))
       None tiny_session_handle tiny_new_window)"
proof -
  let ?env = "quiet_env (quiet_run\<lparr>pr_stdout := [EncodeRecord tiny_row], pr_wait := Some (Opaque ''signal'')\<rparr>)"
  let ?op = "\<lparr>op_output = 4194304, op_stderr = 4194304, op_input = 1048576\<rparr>"
  let ?args = "[''-P'', ''-F'', RecordFormat (fieldsFor ObjectKindWindow), ''-t'', ''$1:3'', ''-n'', ''w'']"
  let ?run = "execute ?env plain_server ?op (recordsPlan \<lparr>cmd_name = ''new-window'', cmd_args = ?args\<rparr>)
    (handle_guard tiny_session_handle) None"
  have b: "begin_op ?env (h_server tiny_session_handle) = Inr (plain_server, ?op)"
    by code_simp
  have "case newWindowArgs (h_id tiny_session_handle) tiny_new_window of Inl e \<Rightarrow> False | Inr args \<Rightarrow> args = ?args"
    by code_simp
  then have "newWindowArgs (h_id tiny_session_handle) tiny_new_window = Inr ?args"
    by (simp split: sum.split_asm)
  then have i: "in_handle ?env tiny_session_handle (\<lambda>(s, op). bind_res (newWindowArgs (h_id tiny_session_handle) tiny_new_window)
      (\<lambda>args. Inr (s, op, args))) = Inr (plain_server, ?op, ?args)"
    using b by (simp add: in_handle_def tiny_session_checked)
  have "res_stdout (fst (fst ?run)) = EncodeRecord tiny_row"
    by code_simp
  then obtain r eo op' where r: "?run = ((r, eo), op')" "res_stdout r = EncodeRecord tiny_row"
    by (metis prod.collapse)
  have "length (EncodeRecord tiny_row) \<le> 999" "length tiny_row = length (fieldsFor ObjectKindWindow)" "tiny_row ! 4 = ''@7''"
    by code_simp+
  then show ?thesis
    using new_window_is_not_lost [OF i r] by simp
qed

end
