(* ===== verification/Tmux_Operations.thy ===== *)
theory Tmux_Operations
  imports Tmux_Create
begin

text \<open>
  \<open>tmux/operations.go\<close> and \<open>tmux/layout.go\<close>: what is done to sessions, windows, panes and slots. Most
  methods are one command on their handle; moving windows and panes binds two handles to one daemon, looks
  for a free slot, and reads back the slot that tmux made. \<open>envs i\<close> is the environment of the \<open>i\<close>-th run
  of tmux in a method.
\<close>

subsection \<open>Servers\<close>

definition verifiedIdentity ::
  "call_env \<Rightarrow> (server \<Rightarrow> server_info) \<Rightarrow> server \<Rightarrow> operation \<Rightarrow> server_identity step_result" where
  "verifiedIdentity env verified s op =
     (case verifiedInfo env verified s op of (r, op') \<Rightarrow> (bind_res r (\<lambda>info. Inr (sv_Identity info)), op'))"

definition endpointAction ::
  "(nat \<Rightarrow> call_env) \<Rightarrow> (server \<Rightarrow> server_info) \<Rightarrow> server option \<Rightarrow> bytes \<Rightarrow> bytes \<Rightarrow> bytes list \<Rightarrow> goerr option" where
  "endpointAction envs verified so label name args =
     (case begin_op (envs 0) so of
        Inl e \<Rightarrow> opError label (Some e)
      | Inr (s, op) \<Rightarrow>
          (case verifiedIdentity (envs 0) verified s op of
             (Inl e, op') \<Rightarrow> opError label (Some e)
           | (Inr i, op') \<Rightarrow>
               opError label (snd (fst (execute (envs 1) s op' (emptyPlan \<lparr>cmd_name = name, cmd_args = args\<rparr>)
                 (Some (newGuard i)) None)))))"

definition Server_Kill ::
  "(nat \<Rightarrow> call_env) \<Rightarrow> (server \<Rightarrow> server_info) \<Rightarrow> server option \<Rightarrow> goerr option" where
  "Server_Kill envs verified so = endpointAction envs verified so ''Server.Kill'' ''kill-server'' []"

definition KillOtherSessions ::
  "(nat \<Rightarrow> call_env) \<Rightarrow> (server \<Rightarrow> server_info) \<Rightarrow> server option \<Rightarrow> bytes \<Rightarrow> goerr option" where
  "KillOtherSessions envs verified so target =
     (if \<not> SessionID_Valid target then opError ''Server.KillOtherSessions'' (Some (invalid ''target session''))
      else endpointAction envs verified so ''Server.KillOtherSessions'' ''kill-session'' [''-a'', ''-t'', target])"

subsection \<open>Sessions and windows\<close>

text \<open>An operation whose arguments are checked first.\<close>

definition act_checked :: "call_env \<Rightarrow> handle \<Rightarrow> bytes \<Rightarrow> bytes \<Rightarrow> goerr + bytes list \<Rightarrow> goerr option" where
  "act_checked env h label name args =
     (case args of Inl e \<Rightarrow> opError label (Some e) | Inr as \<Rightarrow> actWithin env h label name as)"

definition checked_name :: "goerr option \<Rightarrow> 'a \<Rightarrow> goerr + 'a" where
  "checked_name err v = (case err of Some e \<Rightarrow> Inl e | None \<Rightarrow> Inr v)"

definition Session_Kill where "Session_Kill env s = actWithin env s ''Session.Kill'' ''kill-session'' [''-t'', h_id s]"

definition Session_Rename :: "call_env \<Rightarrow> handle \<Rightarrow> bytes \<Rightarrow> goerr option" where
  "Session_Rename env s name =
     act_checked env s ''Session.Rename'' ''rename-session''
       (checked_name (sessionName name False) [''-t'', h_id s, ''--'', LiteralFormat name])"

definition LockScreen where "LockScreen env s = actWithin env s ''Session.LockScreen'' ''lock-session'' [''-t'', h_id s]"

definition RenumberWindows where
  "RenumberWindows env s = actWithin env s ''Session.RenumberWindows'' ''move-window'' [''-r'', ''-t'', h_id s @ '':'']"

definition KillOtherWindows where
  "KillOtherWindows env s = actWithin env s ''Session.KillOtherWindows'' ''kill-window'' [''-a'', ''-t'', h_id s @ '':'']"

definition ClearAlerts where
  "ClearAlerts env s = actWithin env s ''Session.ClearAlerts'' ''kill-session'' [''-C'', ''-t'', h_id s]"

definition LastWindow where "LastWindow env s = actWithin env s ''Session.LastWindow'' ''last-window'' [''-t'', h_id s]"
definition NextWindow where "NextWindow env s = actWithin env s ''Session.NextWindow'' ''next-window'' [''-t'', h_id s]"

definition PreviousWindow where
  "PreviousWindow env s = actWithin env s ''Session.PreviousWindow'' ''previous-window'' [''-t'', h_id s]"

definition Window_Rename :: "call_env \<Rightarrow> handle \<Rightarrow> bytes \<Rightarrow> goerr option" where
  "Window_Rename env w name =
     act_checked env w ''Window.Rename'' ''rename-window''
       (bind_res (checked_name (windowName name) name) (\<lambda>n. bind_res (literal n) (\<lambda>v. Inr [''-t'', h_id w, ''--'', v])))"

definition Window_Kill where "Window_Kill env w = actWithin env w ''Window.Kill'' ''kill-window'' [''-t'', h_id w]"

definition Rotate :: "call_env \<Rightarrow> handle \<Rightarrow> bool \<Rightarrow> goerr option" where
  "Rotate env w rv = actWithin env w ''Window.Rotate'' ''rotate-window'' [''-t'', h_id w, if rv then ''-D'' else ''-U'']"

definition LastPane where "LastPane env w = actWithin env w ''Window.LastPane'' ''last-pane'' [''-t'', h_id w]"

definition SelectLayout :: "call_env \<Rightarrow> handle \<Rightarrow> bytes \<Rightarrow> goerr option" where
  "SelectLayout env w lay =
     act_checked env w ''Window.SelectLayout'' ''select-layout''
       (if lay = [] \<or> \<not> ValidString lay then Inl (invalid ''layout'') else Inr [''-t'', h_id w, ''--'', lay])"

definition NextLayout where "NextLayout env w = actWithin env w ''Window.NextLayout'' ''select-layout'' [''-t'', h_id w, ''-n'']"

definition PreviousLayout where
  "PreviousLayout env w = actWithin env w ''Window.PreviousLayout'' ''select-layout'' [''-t'', h_id w, ''-p'']"

definition Window_Resize :: "call_env \<Rightarrow> handle \<Rightarrow> csize \<Rightarrow> goerr option" where
  "Window_Resize env w sz = act_checked env w ''Window.Resize'' ''resize-window'' (resizeArgs (h_id w) sz)"

subsection \<open>Slots\<close>

definition link_Select where
  "link_Select env l = link_act env l ''WindowLink.Select'' ''select-window'' [''-t'', link_target l]"

definition UnlinkWith :: "call_env \<Rightarrow> window_link \<Rightarrow> bool \<Rightarrow> goerr option" where
  "UnlinkWith env l force =
     link_act env l ''WindowLink.Unlink'' ''unlink-window'' ([''-t'', link_target l] @ flag_if force ''-k'')"

subsection \<open>Panes\<close>

definition Pane_Kill where "Pane_Kill env p = actWithin env p ''Pane.Kill'' ''kill-pane'' [''-t'', h_id p]"
definition Pane_Select where "Pane_Select env p = actWithin env p ''Pane.Select'' ''select-pane'' [''-t'', h_id p]"

definition SetTitle :: "call_env \<Rightarrow> handle \<Rightarrow> bytes \<Rightarrow> goerr option" where
  "SetTitle env p title =
     act_checked env p ''Pane.SetTitle'' ''select-pane'' (bind_res (literal title) (\<lambda>v. Inr [''-t'', h_id p, ''-T'', v]))"

definition SetInputEnabled :: "call_env \<Rightarrow> handle \<Rightarrow> bool \<Rightarrow> goerr option" where
  "SetInputEnabled env p enabled =
     actWithin env p ''Pane.SetInputEnabled'' ''select-pane'' [''-t'', h_id p, if enabled then ''-e'' else ''-d'']"

definition ClearHistory where "ClearHistory env p = actWithin env p ''Pane.ClearHistory'' ''clear-history'' [''-t'', h_id p]"

definition Pane_Resize :: "call_env \<Rightarrow> handle \<Rightarrow> csize \<Rightarrow> goerr option" where
  "Pane_Resize env p sz = act_checked env p ''Pane.Resize'' ''resize-pane'' (resizeArgs (h_id p) sz)"

definition ToggleZoom where "ToggleZoom env p = actWithin env p ''Pane.ToggleZoom'' ''resize-pane'' [''-t'', h_id p, ''-Z'']"

text \<open>The methods of \<open>layout.go\<close> check the handle themselves before \<open>act\<close> does.\<close>

definition checked_act :: "call_env \<Rightarrow> handle \<Rightarrow> bytes \<Rightarrow> bytes \<Rightarrow> goerr + bytes list \<Rightarrow> goerr option" where
  "checked_act env h label name args =
     (case handle_check env h of Some e \<Rightarrow> opError label (Some e) | None \<Rightarrow> act_checked env h label name args)"

definition SwapUp where "SwapUp env p = checked_act env p ''Pane.SwapUp'' ''swap-pane'' (Inr [''-U'', ''-t'', h_id p])"
definition SwapDown where "SwapDown env p = checked_act env p ''Pane.SwapDown'' ''swap-pane'' (Inr [''-D'', ''-t'', h_id p])"
definition Mark where "Mark env p = checked_act env p ''Pane.Mark'' ''select-pane'' (Inr [''-m'', ''-t'', h_id p])"
definition Unmark where "Unmark env p = checked_act env p ''Pane.Unmark'' ''select-pane'' (Inr [''-M'', ''-t'', h_id p])"

text \<open>Directions are the values of an unsigned byte; those above 3 are not defined.\<close>

definition direction_flag :: "nat \<Rightarrow> bytes option" where
  "direction_flag d = (if d < 4 then Some ([''-U'', ''-D'', ''-L'', ''-R''] ! d) else None)"

definition ResizeRelative :: "call_env \<Rightarrow> handle \<Rightarrow> int \<Rightarrow> nat \<Rightarrow> goerr option" where
  "ResizeRelative env p adj dir =
     checked_act env p ''Pane.ResizeRelative'' ''resize-pane''
       (if adj \<le> 0 then Inl (invalid ''adjustment must be positive'')
        else case direction_flag dir of
          None \<Rightarrow> Inl (invalid ''resize direction'')
        | Some flag \<Rightarrow> Inr [''-t'', h_id p, flag, itoa adj])"

definition SelectAdjacent :: "call_env \<Rightarrow> handle \<Rightarrow> nat \<Rightarrow> goerr option" where
  "SelectAdjacent env p direction =
     act_checked env p ''Pane.SelectAdjacent'' ''select-pane''
       (case direction_flag direction of
          None \<Rightarrow> Inl (invalid ''pane direction'')
        | Some flag \<Rightarrow> Inr [''-t'', h_id p, flag])"

record pipe_options =
  pi_OnlyIfNotPiped :: bool
  pi_Input :: bool
  pi_Output :: bool

definition Pipe :: "call_env \<Rightarrow> handle \<Rightarrow> bytes \<Rightarrow> pipe_options \<Rightarrow> goerr option" where
  "Pipe env p script opts =
     act_checked env p ''Pane.Pipe'' ''pipe-pane''
       (if \<not> ValidString script \<or> script = [] then Inl (invalid ''pipe script'')
        else Inr ([''-t'', h_id p] @ flag_if (pi_OnlyIfNotPiped opts) ''-o'' @ flag_if (pi_Input opts) ''-I'' @
          flag_if (pi_Output opts) ''-O'' @ [''--'', script]))"

definition StopPipe where "StopPipe env p = actWithin env p ''Pane.StopPipe'' ''pipe-pane'' [''-t'', h_id p]"

subsection \<open>Respawning\<close>

record respawn_options =
  re_Program :: program
  re_Dir :: bytes
  re_Env :: env
  re_TmuxEnv :: env
  re_KillRunning :: bool
  re_PreserveEnvironment :: bool

definition tmuxEnvFlags :: "env \<Rightarrow> goerr + bytes list" where
  "tmuxEnvFlags env =
     (if env = [] then Inr []
      else if list_all (\<lambda>(k, v). envName k \<and> ValidString v) env
      then Inr (concat (map (\<lambda>k. [''-e'', k @ ''='' @ env_value env k]) (sort (map fst env))))
      else Inl (invalid ''tmux environment''))"

definition respawn_args :: "bytes \<Rightarrow> respawn_options \<Rightarrow> goerr + bytes list" where
  "respawn_args oid opts =
     (if re_PreserveEnvironment opts
      then Inl (unsupported ''preserving the original process environment; use explicit environment overrides'')
      else bind_res (programArgs (re_Dir opts) (re_Env opts) (re_Program opts)) (\<lambda>(extra, argv).
        bind_res (tmuxEnvFlags (re_TmuxEnv opts)) (\<lambda>env.
          Inr ([''-t'', oid] @ flag_if (re_KillRunning opts) ''-k'' @ env @ extra @ operands argv))))"

definition respawn :: "call_env \<Rightarrow> bytes \<Rightarrow> handle \<Rightarrow> bytes \<Rightarrow> respawn_options \<Rightarrow> goerr option" where
  "respawn env label h name opts = act_checked env h label name (respawn_args (h_id h) opts)"

definition Pane_Respawn :: "call_env \<Rightarrow> handle \<Rightarrow> respawn_options \<Rightarrow> goerr option" where
  "Pane_Respawn env p = respawn env ''Pane.Respawn'' p ''respawn-pane''"

definition Window_Respawn :: "call_env \<Rightarrow> handle \<Rightarrow> respawn_options \<Rightarrow> goerr option" where
  "Window_Respawn env w = respawn env ''Window.Respawn'' w ''respawn-window''"

subsection \<open>Slots of a session\<close>

record link_options =
  lo_Index :: "int option"
  lo_Select :: bool
  lo_Replace :: bool

definition linkTarget :: "call_env \<Rightarrow> handle \<Rightarrow> int option \<Rightarrow> goerr + bytes" where
  "linkTarget env s index =
     (case handle_check env s of
        Some e \<Rightarrow> Inl e
      | None \<Rightarrow>
          (case index of
             None \<Rightarrow> Inr (h_id s @ '':'')
           | Some i \<Rightarrow> if i < 0 \<or> 2 ^ 30 < i then Inl (invalid ''index'') else Inr (h_id s @ '':'' @ itoa i)))"

text \<open>The loop that looks for the first index that is not used. The indexes of tmux are C integers, so that
  the sum does not wrap.\<close>

function free_from :: "int list \<Rightarrow> int \<Rightarrow> int" where
  "free_from used index = (if index \<in> set used then free_from used (index + 1) else index)"
  by pat_completeness auto
termination free_from
proof (relation "measure (\<lambda>(used, index). card (set used \<inter> {index..}))", simp_all)
  fix used :: "int list" and index
  assume "index \<in> set used"
  then have "index \<in> set used \<inter> {index..}" "index \<notin> set used \<inter> {index + 1..}" by simp_all
  moreover have "set used \<inter> {index + 1..} \<subseteq> set used \<inter> {index..}" by auto
  ultimately have "set used \<inter> {index + 1..} \<subset> set used \<inter> {index..}" by blast
  then show "card (set used \<inter> {index + 1..}) < card (set used \<inter> {index..})" by (simp add: psubset_card_mono)
qed

declare free_from.simps [simp del]

definition freeWindowIndex ::
  "(nat \<Rightarrow> call_env) \<Rightarrow> bytes \<Rightarrow> operation \<Rightarrow> server \<Rightarrow> server_identity \<Rightarrow> bytes \<Rightarrow> int step_result" where
  "freeWindowIndex envs label op s i target =
     (case execute (envs 1) s op (recordsPlan \<lparr>cmd_name = ''display-message'',
          cmd_args = [''-p'', ''-t'', target, RecordFormat [''base-index'']]\<rparr>) (Some (newGuard i)) None of
        ((r, Some e), op1) \<Rightarrow> (Inl e, op1)
      | ((r, None), op1) \<Rightarrow>
          (case ParseRecords (res_stdout r) 1 of
             Inr [[text]] \<Rightarrow>
               (case atoi text of
                  None \<Rightarrow> (Inl (Sentinel ErrProtocol), op1)
                | Some base \<Rightarrow>
                    if base < 0 then (Inl (Sentinel ErrProtocol), op1)
                    else (case windowsWith (envs 2) (envs 3) s label op1 i no_options target of
                        (Inl e, op2) \<Rightarrow> (Inl e, op2)
                      | (Inr (ws, links), op2) \<Rightarrow>
                          (let index = free_from (map li_Index links) base in
                           (if 2 ^ 30 < index then Inl (invalid ''index'') else Inr index, op2))))
           | _ \<Rightarrow> (Inl (Sentinel ErrProtocol), op1)))"

definition parseLinkedWindow :: "bytes \<Rightarrow> handle \<Rightarrow> bytes \<Rightarrow> bytes \<Rightarrow> goerr + window_link" where
  "parseLinkedWindow label h target data =
     (case parseRaw data (fieldsFor ObjectKindWindow) ''link'' of
        Inl e \<Rightarrow> Inl (after_error label e)
      | Inr [m] \<Rightarrow>
          (case decodeWindow (the (h_server h)) m (Some (h_origin h)) of
             Inl e \<Rightarrow> Inl (after_error label e)
           | Inr (w, l) \<Rightarrow>
               if li_WindowID l \<noteq> h_id h \<or> li_SessionID l @ '':'' @ itoa (li_Index l) \<noteq> target
               then Inl (after_error label (Sentinel ErrLinkChanged))
               else Inr (li_link l))
      | Inr _ \<Rightarrow> Inl (after_error label (Sentinel ErrProtocol)))"

text \<open>A target without an index gets a free one; the argument after the first \<open>-t\<close> is replaced.\<close>

definition complete_target ::
  "(nat \<Rightarrow> call_env) \<Rightarrow> bytes \<Rightarrow> operation \<Rightarrow> handle \<Rightarrow> bytes list \<Rightarrow> bytes \<Rightarrow> (bytes list \<times> bytes) step_result" where
  "complete_target envs label op h args target =
     (if has_suffix target '':'' then
        (case freeWindowIndex envs label op (the (h_server h)) (h_origin h) target of
           (Inl e, op1) \<Rightarrow> (Inl e, op1)
         | (Inr i, op1) \<Rightarrow>
             (let target' = target @ itoa i in
              (Inr (case first_index ''-t'' args of None \<Rightarrow> args | Some k \<Rightarrow> args[k + 1 := target'], target'), op1)))
      else (Inr (args, target), op))"

definition mutateLink ::
  "(nat \<Rightarrow> call_env) \<Rightarrow> bytes \<Rightarrow> operation \<Rightarrow> handle \<Rightarrow> guard option \<Rightarrow> bytes \<Rightarrow> bytes list \<Rightarrow> bytes \<Rightarrow> goerr + window_link" where
  "mutateLink envs label op h g name args target =
     (case complete_target envs label op h args target of
        (Inl e, op1) \<Rightarrow> Inl (op_error label e)
      | (Inr (args', target'), op1) \<Rightarrow>
          (case execute (envs 4) (the (h_server h)) op1
              \<lparr>pl_nodes = [leaf \<lparr>cmd_name = name, cmd_args = args'\<rparr>,
                 leaf \<lparr>cmd_name = ''display-message'',
                   cmd_args = [''-p'', ''-t'', target', RecordFormat (fieldsFor ObjectKindWindow)]\<rparr>],
               pl_mode = replyRecords, pl_allowStart = False\<rparr> g None of
             ((r, Some e), op2) \<Rightarrow> Inl (op_error label e)
           | ((r, None), op2) \<Rightarrow> parseLinkedWindow label h target' (res_stdout r)))"

definition link_flags :: "link_options \<Rightarrow> bytes list" where
  "link_flags opts = flag_if (\<not> lo_Select opts) ''-d'' @ flag_if (lo_Replace opts) ''-k''"

definition Window_Link ::
  "(nat \<Rightarrow> call_env) \<Rightarrow> (server \<Rightarrow> server_info) \<Rightarrow> handle \<Rightarrow> handle \<Rightarrow> link_options \<Rightarrow> goerr + window_link" where
  "Window_Link envs verified w s opts =
     labelled ''Window.Link'' (
       bind_res (linkTarget (envs 0) s (lo_Index opts)) (\<lambda>target.
       if lo_Index opts = None \<and> lo_Replace opts then Inl (invalid ''Replace requires an explicit index'')
       else bind_res (beginHandles (envs 0) (verifiedIdentity (envs 0) verified) w s) (\<lambda>((srv, op), w', s').
         mutateLink envs ''Window.Link'' op w' (handle_guard w') ''link-window''
           ([''-s'', h_id w, ''-t'', target] @ link_flags opts) target)))"

definition WindowLink_Move ::
  "(nat \<Rightarrow> call_env) \<Rightarrow> (server \<Rightarrow> server_info) \<Rightarrow> window_link \<Rightarrow> handle \<Rightarrow> link_options \<Rightarrow> goerr + window_link" where
  "WindowLink_Move envs verified l s opts =
     labelled ''WindowLink.Move'' (
       case link_check (envs 0) l of Some e \<Rightarrow> Inl e | None \<Rightarrow>
       bind_res (linkTarget (envs 0) s (lo_Index opts)) (\<lambda>target.
       if lo_Index opts = None \<and> lo_Replace opts then Inl (invalid ''Replace requires an explicit index'')
       else bind_res (beginHandles (envs 0) (verifiedIdentity (envs 0) verified) (wl_h l) s) (\<lambda>((srv, op), h', s').
         mutateLink envs ''WindowLink.Move'' op h' (Some (link_guard (l\<lparr>wl_h := h'\<rparr>))) ''move-window''
           ([''-s'', link_target l, ''-t'', target] @ link_flags opts) target)))"

definition WindowLink_Swap ::
  "(nat \<Rightarrow> call_env) \<Rightarrow> (server \<Rightarrow> server_info) \<Rightarrow> window_link \<Rightarrow> window_link \<Rightarrow> bool \<Rightarrow> goerr option" where
  "WindowLink_Swap envs verified l other select =
     (case (case link_check (envs 0) l of Some e \<Rightarrow> Inl e | None \<Rightarrow>
            case link_check (envs 0) other of Some e \<Rightarrow> Inl e | None \<Rightarrow>
            beginHandles (envs 0) (verifiedIdentity (envs 0) verified) (wl_h l) (wl_h other)) of
        Inl e \<Rightarrow> opError ''WindowLink.Swap'' (Some e)
      | Inr ((s, op), h, h') \<Rightarrow>
          (let g = link_guard (l\<lparr>wl_h := h\<rparr>); g' = link_guard (other\<lparr>wl_h := h'\<rparr>) in
           opError ''WindowLink.Swap'' (snd (fst (execute (envs 1) s op
             (emptyPlan \<lparr>cmd_name = ''swap-window'',
                cmd_args = [''-s'', link_target l, ''-t'', link_target other] @ flag_if (\<not> select) ''-d''\<rparr>)
             (Some (g\<lparr>g_links := g_links g @ g_links g'\<rparr>)) None)))))"

subsection \<open>Moving panes\<close>

record join_options =
  jo_Direction :: nat
  jo_Size :: split_size
  jo_Before :: bool
  jo_FullSize :: bool
  jo_Select :: bool

text \<open>One command on a pane whose target is another handle of the same daemon.\<close>

definition act_on_both ::
  "(nat \<Rightarrow> call_env) \<Rightarrow> (server \<Rightarrow> server_info) \<Rightarrow> handle \<Rightarrow> handle \<Rightarrow> bytes \<Rightarrow> bytes \<Rightarrow> bytes list \<Rightarrow> goerr option" where
  "act_on_both envs verified p other label name args =
     (case beginHandles (envs 0) (verifiedIdentity (envs 0) verified) p other of
        Inl e \<Rightarrow> opError label (Some e)
      | Inr ((s, op), p', other') \<Rightarrow>
          opError label (snd (fst (execute (envs 1) s op (emptyPlan \<lparr>cmd_name = name, cmd_args = args\<rparr>)
            (handle_guard p') None))))"

definition Pane_Join ::
  "(nat \<Rightarrow> call_env) \<Rightarrow> (server \<Rightarrow> server_info) \<Rightarrow> handle \<Rightarrow> handle \<Rightarrow> join_options \<Rightarrow> goerr option" where
  "Pane_Join envs verified p target opts =
     (if Horizontal < jo_Direction opts then opError ''Pane.Join'' (Some (invalid ''direction''))
      else (case split_size_args (jo_Size opts) of
          Inl e \<Rightarrow> opError ''Pane.Join'' (Some e)
        | Inr sz \<Rightarrow> act_on_both envs verified p target ''Pane.Join'' ''join-pane''
            ([''-s'', h_id p, ''-t'', h_id target] @ flag_if (\<not> jo_Select opts) ''-d'' @ flag_if (jo_Before opts) ''-b'' @
              flag_if (jo_FullSize opts) ''-f'' @ [if jo_Direction opts = Horizontal then ''-h'' else ''-v''] @ sz)))"

definition Pane_Swap ::
  "(nat \<Rightarrow> call_env) \<Rightarrow> (server \<Rightarrow> server_info) \<Rightarrow> handle \<Rightarrow> handle \<Rightarrow> bool \<Rightarrow> goerr option" where
  "Pane_Swap envs verified p other select =
     act_on_both envs verified p other ''Pane.Swap'' ''swap-pane''
       ([''-s'', h_id p, ''-t'', h_id other] @ flag_if (\<not> select) ''-d'')"

record break_options =
  br_Index :: "int option"
  br_Name :: bytes
  br_Select :: bool

definition breakArgs :: "bytes \<Rightarrow> bytes \<Rightarrow> break_options \<Rightarrow> bytes list" where
  "breakArgs paneID target opts =
     [''-s'', paneID, ''-t'', target, ''-P'', ''-F'', RecordFormat (fieldsFor ObjectKindWindow)] @
     flag_if (\<not> br_Select opts) ''-d'' @ (if br_Name opts \<noteq> [] then [''-n'', br_Name opts] else [])"

definition Pane_Break ::
  "(nat \<Rightarrow> call_env) \<Rightarrow> goerr option \<Rightarrow> (server \<Rightarrow> server_info) \<Rightarrow> handle \<Rightarrow> handle \<Rightarrow> break_options \<Rightarrow> window_link made" where
  "Pane_Break envs ctx_end verified p s opts =
     (case bind_res (linkTarget (envs 0) s (br_Index opts)) (\<lambda>target.
           if \<not> ValidString (br_Name opts) then Inl (invalid ''NUL literal'')
           else bind_res (checked_name (windowName (br_Name opts)) target) (\<lambda>target.
             bind_res (beginHandles (envs 0) (verifiedIdentity (envs 0) verified) p s) (\<lambda>(so, p', s'). Inr (so, p', target)))) of
        Inl e \<Rightarrow> not_made (op_error ''Pane.Break'' e)
      | Inr ((srv, op), p', target) \<Rightarrow>
          (case execute (envs 1) srv op (recordsPlan \<lparr>cmd_name = ''break-pane'', cmd_args = breakArgs (h_id p) target opts\<rparr>)
              (handle_guard p') None of
             ((r, Some e), op') \<Rightarrow> not_made (op_error ''Pane.Break'' e)
           | ((r, None), op') \<Rightarrow>
               (case parseRaw (res_stdout r) (fieldsFor ObjectKindWindow) ''window'' of
                  Inr [m] \<Rightarrow> created_result ''Pane.Break'' ObjectKindWindow
                    (\<lambda>m. bind_res (decodeWindow srv m (Some (h_origin p'))) (\<lambda>(w, l). Inr (li_link l, wl_h (li_link l))))
                    ctx_end (res_stdout r)
                | Inl e \<Rightarrow> not_made (after_created ''Pane.Break'' e (recoverCreated (res_stdout r) ObjectKindWindow))
                | Inr _ \<Rightarrow> not_made (after_created ''Pane.Break'' (Sentinel ErrProtocol)
                    (recoverCreated (res_stdout r) ObjectKindWindow)))))"

subsection \<open>A window is where it was put\<close>

lemma free_from_least:
  "free_from used index \<notin> set used \<and> index \<le> free_from used index \<and>
   (\<forall>i. index \<le> i \<longrightarrow> i < free_from used index \<longrightarrow> i \<in> set used)"
proof (induction used index rule: free_from.induct)
  case (1 used index)
  show ?case
  proof (cases "index \<in> set used")
    case True
    have "i = index \<or> index + 1 \<le> i" if "index \<le> i" for i using that by linarith
    with 1 [OF True] True show ?thesis by (subst (1 2 3) free_from.simps) force
  qed (subst (1 2 3) free_from.simps, simp)
qed

text \<open>The slot that \<open>mutateLink\<close> chooses when no index is asked for: the least one from the base index on that
  no slot of the session has.\<close>

lemma freeWindowIndex_free:
  assumes "freeWindowIndex envs label op s i target = (Inr index, op')"
  shows "\<exists>base (links :: window_link_info list). 0 \<le> base \<and> base \<le> index \<and> index \<le> 2 ^ 30 \<and> index \<notin> li_Index ` set links \<and>
    (\<forall>k. base \<le> k \<longrightarrow> k < index \<longrightarrow> k \<in> li_Index ` set links)"
proof -
  obtain base op1 ws links where "windowsWith (envs 2) (envs 3) s label op1 i no_options target = (Inr (ws, links), op')"
      "0 \<le> base" "index = free_from (map li_Index links) base" "index \<le> 2 ^ 30"
    using assms that
    by (simp add: freeWindowIndex_def Let_def split: prod.split_asm option.split_asm sum.split_asm list.split_asm if_split_asm)
      (metis not_le)
  with free_from_least [of "map li_Index links" base] show ?thesis
    by (intro exI [where x = base] exI [where x = links]) simp
qed

lemma parseLinkedWindow_ok:
  assumes "parseLinkedWindow label h target data = Inr l"
  shows "link_Valid l \<and> h_id (wl_h l) = h_id h \<and> link_target l = target \<and> same_as (Some (h_origin h)) (h_origin (wl_h l))"
proof -
  obtain m w i where d: "decodeWindow (the (h_server h)) m (Some (h_origin h)) = Inr (w, i)" "l = li_link i"
      "li_WindowID i = h_id h" "li_SessionID i @ '':'' @ itoa (li_Index i) = target"
    using assms by (auto simp: parseLinkedWindow_def split: sum.split_asm list.split_asm prod.split_asm if_split_asm)
  note ok = decodeWindow_ok [OF d(1)]
  have "handle_valid (wi_h w)" "h_id (wi_h w) = wi_ID w" "h_kind (wi_h w) = ObjectKindWindow"
    using new_handle_valid(2) [OF ok(4), of ObjectKindWindow "wi_ID w"] ok(2,3)
    by (simp_all add: id_Valid_def) (metis newHandle_def handle.select_convs(3,4))+
  then show ?thesis
    using d(2-4) ok(5,10-13) by (simp add: link_Valid_def link_target_def)
qed

text \<open>C27: Linking or moving a window returns a slot only when tmux has confirmed it: the window in the slot is
  the window that was moved, on the daemon of its handle, and the slot is the one that was asked for, or a
  slot of the session that was asked for when no index was given.\<close>

theorem moved_window_is_confirmed:
  assumes "mutateLink envs label op h g name args target = Inr l"
  shows "link_Valid l \<and> h_id (wl_h l) = h_id h \<and> same_as (Some (h_origin h)) (h_origin (wl_h l)) \<and>
    (link_target l = target \<or> has_suffix target '':'' \<and> (\<exists>i. 0 \<le> i \<and> i \<le> 2 ^ 30 \<and> link_target l = target @ itoa i))"
proof -
  obtain args' target' op1 data where c: "complete_target envs label op h args target = (Inr (args', target'), op1)"
      "parseLinkedWindow label h target' data = Inr l"
    using assms by (auto simp: mutateLink_def split: prod.split_asm sum.split_asm option.split_asm)
  have "target' = target \<or> has_suffix target '':'' \<and> (\<exists>i. 0 \<le> i \<and> i \<le> 2 ^ 30 \<and> target' = target @ itoa i)"
  proof (cases "has_suffix target '':''")
    case True
    then obtain i where "freeWindowIndex envs label op (the (h_server h)) (h_origin h) target = (Inr i, op1)" "target' = target @ itoa i"
      using c(1) by (auto simp: complete_target_def Let_def split: prod.split_asm sum.split_asm)
    with True freeWindowIndex_free [OF this(1)] show ?thesis by fastforce
  qed (use c(1) in \<open>simp add: complete_target_def\<close>)
  with parseLinkedWindow_ok [OF c(2)] show ?thesis by auto
qed

definition tiny_window_row :: "bytes list" where
  "tiny_window_row = tiny_rows @ [''@7'', ''w'', ''80'', ''24'', ''1'', ''l'', ''0'', ''$1'', ''3'', ''1'', ''*'']"

definition tiny_moved :: handle where
  "tiny_moved = unprobedHandle (Some plain_server) ''@7'' ObjectKindWindow"

lemma tiny_decodeWindow:
  "\<exists>w l. decodeWindow plain_server (recordMap (fieldsFor ObjectKindWindow) tiny_window_row) (Some zero_identity) = Inr (w, l) \<and>
     li_WindowID l = ''@7'' \<and> li_SessionID l = ''$1'' \<and> li_Index l = 3"
proof -
  let ?m = "recordMap (fieldsFor ObjectKindWindow) tiny_window_row"
  have m: "?m ''pid'' = Some ''7''" "?m ''start_time'' = Some ''5''" "?m ''socket_path'' = Some ''/s''" "?m ''version'' = Some ''3.6''"
    "?m ''window_id'' = Some ''@7''" "?m ''window_name'' = Some ''w''" "?m ''window_width'' = Some ''80''"
    "?m ''window_height'' = Some ''24''" "?m ''window_panes'' = Some ''1''" "?m ''window_layout'' = Some ''l''"
    "?m ''window_zoomed_flag'' = Some ''0''" "?m ''session_id'' = Some ''$1''" "?m ''window_index'' = Some ''3''"
    "?m ''window_active'' = Some ''1''" "?m ''window_flags'' = Some ''*''"
    by (simp_all add: recordMap_def fieldsFor_def WithIdentity_def schema_Identity_def schema_Window_def tiny_rows_def
        tiny_window_row_def)
  let ?d = "\<lparr>rd_kind = ''window'', rd_raw = ?m\<rparr>"
  have "''$1'' = CHR ''$'' # itoa_nat 1" "''@7'' = CHR ''@'' # itoa_nat 7" by code_simp+
  then have v: "SessionID_Valid ''$1''" "WindowID_Valid ''@7''"
    by (auto simp: SessionID_Valid_def WindowID_Valid_def validID_iff intro: exI [where x = 1] exI [where x = 7])
  have a: "atoi ''80'' = Some 80" "atoi ''24'' = Some 24" "atoi ''3'' = Some 3"
    by (simp_all add: parse_int_def parse_uint_def is_digit_def digits_val_def digit_val_def Let_def)
  have "supported_row ?d"
    using tiny_version m(4) by (simp add: supported_row_def supportedVersion_AtLeast)
  then have "run_state (decoder plain_server ?d (Some zero_identity)) None = (tiny_daemon, None)"
    using m by (simp add: decoder_ok tiny_identity_row same_as_def zero_identity_def identity_valid_def)
  then show ?thesis
    using m v by (simp add: decodeWindow_def decoded_def str_def nonnegative_def integer_def boolean_def check_field_def
        State_Monad.run_state_bind tiny_atoi a Let_def)
qed

text \<open>A window that is moved to an index.\<close>

lemma moved_window_is_confirmed_witness:
  "\<exists>l. mutateLink (\<lambda>i. quiet_env (quiet_run\<lparr>pr_stdout := [EncodeRecord tiny_window_row]\<rparr>)) ''Window.Link''
       \<lparr>op_output = 4194304, op_stderr = 4194304, op_input = 1048576\<rparr> tiny_moved None ''link-window''
       [''-s'', ''@7'', ''-t'', ''$1:3''] ''$1:3'' = Inr l \<and> link_Valid l \<and> h_id (wl_h l) = ''@7''"
  (is "\<exists>l. mutateLink ?envs ?label ?op _ _ _ ?args ?target = Inr l \<and> _")
proof -
  let ?p = "\<lparr>pl_nodes = [leaf \<lparr>cmd_name = ''link-window'', cmd_args = ?args\<rparr>,
                 leaf \<lparr>cmd_name = ''display-message'',
                   cmd_args = [''-p'', ''-t'', ?target, RecordFormat (fieldsFor ObjectKindWindow)]\<rparr>],
               pl_mode = replyRecords, pl_allowStart = False\<rparr>"
  let ?run = "execute (?envs 4) plain_server ?op ?p None None"
  have "res_stdout (fst (fst ?run)) = EncodeRecord tiny_window_row \<and> snd (fst ?run) = None"
    by code_simp
  then obtain r op' where r: "?run = ((r, None), op')" "res_stdout r = EncodeRecord tiny_window_row"
    by (metis prod.collapse)
  have s: "h_server tiny_moved = Some plain_server" "h_origin tiny_moved = zero_identity" "h_id tiny_moved = ''@7''"
    by (simp_all add: tiny_moved_def unprobedHandle_def)
  have "length (EncodeRecord tiny_window_row) \<le> 999" "length tiny_window_row = length (fieldsFor ObjectKindWindow)"
    by code_simp+
  then have rows: "parseRaw (EncodeRecord tiny_window_row) (fieldsFor ObjectKindWindow) ''link'' =
      Inr [recordMap (fieldsFor ObjectKindWindow) tiny_window_row]"
    using one_row [of tiny_window_row ObjectKindWindow] by (simp add: parseRaw_def)
  have i: "''$1:3'' = ''$1'' @ '':'' @ itoa 3" by code_simp
  obtain l where "parseLinkedWindow ?label tiny_moved ?target (EncodeRecord tiny_window_row) = Inr l"
    using tiny_decodeWindow s i by (auto simp: parseLinkedWindow_def rows)
  moreover have "complete_target ?envs ?label ?op tiny_moved ?args ?target = (Inr (?args, ?target), ?op)"
    by (simp add: complete_target_def has_suffix_iff)
  ultimately have "mutateLink ?envs ?label ?op tiny_moved None ''link-window'' ?args ?target = Inr l"
    using r s by (simp add: mutateLink_def)
  from moved_window_is_confirmed [OF this] this s show ?thesis by auto
qed

end
