(* ===== verification/Tmux_Snapshot.thy ===== *)
theory Tmux_Snapshot
  imports Read_Objects
begin

text \<open>
  \<open>tmux/snapshot.go\<close> and the lookups of \<open>tmux/current.go\<close>: an observation of every list of a server in one
  read, the check of its cross references, and the context of a process inside tmux that is found in it.
  The clock is a parameter. The accessors copy their lists, which values do by themselves.
\<close>

subsection \<open>Snapshots\<close>

datatype consistency = ConsistencyComplete | ConsistencyIncomplete

record missing_reference =
  mr_Kind :: object_kind
  mr_ID :: bytes
  mr_ReferencedKind :: object_kind
  mr_ReferencedID :: bytes
  mr_Reason :: bytes

record snapshot =
  sn_Started :: time
  sn_Finished :: time
  sn_Identity :: server_identity
  sn_Consistency :: consistency
  sn_MissingCount :: int
  sn_sessions :: "session_info list"
  sn_windows :: "window_info list"
  sn_links :: "window_link_info list"
  sn_panes :: "pane_info list"
  sn_clients :: "client_info list"
  sn_missing :: "missing_reference list"

definition maxMissingReferences :: nat where
  "maxMissingReferences = 128"

definition Snapshot_Pane :: "snapshot \<Rightarrow> bytes \<Rightarrow> pane_info option" where
  "Snapshot_Pane v oid = find (\<lambda>p. h_id (pn_h p) = oid) (sn_panes v)"

definition Snapshot_Window :: "snapshot \<Rightarrow> bytes \<Rightarrow> window_info option" where
  "Snapshot_Window v oid = find (\<lambda>w. h_id (wi_h w) = oid) (sn_windows v)"

definition Snapshot_Session :: "snapshot \<Rightarrow> bytes \<Rightarrow> session_info option" where
  "Snapshot_Session v oid = find (\<lambda>s. h_id (ss_h s) = oid) (sn_sessions v)"

definition Snapshot_Client :: "snapshot \<Rightarrow> bytes \<Rightarrow> client_info option" where
  "Snapshot_Client v name = find (\<lambda>c. h_id (cl_h c) = name) (sn_clients v)"

text \<open>What is not found has the zero handle.\<close>

definition resolved :: "('a \<Rightarrow> handle) \<Rightarrow> 'a option \<Rightarrow> handle \<times> bool" where
  "resolved h r = (case r of Some x \<Rightarrow> (h x, True) | None \<Rightarrow> (zeroHandle, False))"

definition ResolvePane :: "snapshot \<Rightarrow> bytes \<Rightarrow> handle \<times> bool" where
  "ResolvePane v oid = resolved pn_h (Snapshot_Pane v oid)"

definition ResolveWindow :: "snapshot \<Rightarrow> bytes \<Rightarrow> handle \<times> bool" where
  "ResolveWindow v oid = resolved wi_h (Snapshot_Window v oid)"

definition ResolveSession :: "snapshot \<Rightarrow> bytes \<Rightarrow> handle \<times> bool" where
  "ResolveSession v oid = resolved ss_h (Snapshot_Session v oid)"

definition ResolveClient :: "snapshot \<Rightarrow> bytes \<Rightarrow> handle \<times> bool" where
  "ResolveClient v name = resolved cl_h (Snapshot_Client v name)"

subsection \<open>Cross references\<close>

text \<open>The closure \<open>add\<close>: at most 128 references are kept, all are counted.\<close>

definition add_missing :: "missing_reference \<Rightarrow> snapshot \<Rightarrow> snapshot" where
  "add_missing m v = v\<lparr>sn_Consistency := ConsistencyIncomplete, sn_MissingCount := sn_MissingCount v + 1,
     sn_missing := (if length (sn_missing v) < maxMissingReferences then sn_missing v @ [m] else sn_missing v)\<rparr>"

definition add_unless :: "bool \<Rightarrow> missing_reference \<Rightarrow> snapshot \<Rightarrow> snapshot" where
  "add_unless ok m v = (if ok then v else add_missing m v)"

type_synonym counts = "bytes \<Rightarrow> int"

definition count_up :: "bytes \<Rightarrow> counts \<Rightarrow> counts" where
  "count_up k c = c(k := c k + 1)"

definition link_session_missing :: "window_link_info \<Rightarrow> missing_reference" where
  "link_session_missing l =
     \<lparr>mr_Kind = ObjectKindWindowLink, mr_ID = link_target (li_link l), mr_ReferencedKind = ObjectKindSession,
      mr_ReferencedID = li_SessionID l, mr_Reason = ''missing session''\<rparr>"

definition link_window_missing :: "window_link_info \<Rightarrow> missing_reference" where
  "link_window_missing l =
     \<lparr>mr_Kind = ObjectKindWindowLink, mr_ID = link_target (li_link l), mr_ReferencedKind = ObjectKindWindow,
      mr_ReferencedID = li_WindowID l, mr_Reason = ''missing window''\<rparr>"

definition pane_window_missing :: "pane_info \<Rightarrow> missing_reference" where
  "pane_window_missing p =
     \<lparr>mr_Kind = ObjectKindPane, mr_ID = pn_ID p, mr_ReferencedKind = ObjectKindWindow,
      mr_ReferencedID = pn_WindowID p, mr_Reason = ''missing window''\<rparr>"

definition session_count_wrong :: "session_info \<Rightarrow> missing_reference" where
  "session_count_wrong s =
     \<lparr>mr_Kind = ObjectKindSession, mr_ID = ss_ID s, mr_ReferencedKind = KindOther [], mr_ReferencedID = [],
      mr_Reason = ''observed window count differs from membership count''\<rparr>"

definition window_count_wrong :: "window_info \<Rightarrow> missing_reference" where
  "window_count_wrong w =
     \<lparr>mr_Kind = ObjectKindWindow, mr_ID = wi_ID w, mr_ReferencedKind = KindOther [], mr_ReferencedID = [],
      mr_Reason = ''observed pane count differs from collected ps''\<rparr>"

definition client_session_missing :: "client_info \<Rightarrow> bytes \<Rightarrow> missing_reference" where
  "client_session_missing c sid =
     \<lparr>mr_Kind = ObjectKindClient, mr_ID = cl_Name c, mr_ReferencedKind = ObjectKindSession,
      mr_ReferencedID = sid, mr_Reason = ''missing client session''\<rparr>"

fun checkLinkReferences ::
  "bytes set \<Rightarrow> bytes set \<Rightarrow> window_link_info list \<Rightarrow> counts \<Rightarrow> snapshot \<Rightarrow> counts \<times> snapshot" where
  "checkLinkReferences sids wids [] c v = (c, v)"
| "checkLinkReferences sids wids (l # ls) c v =
     checkLinkReferences sids wids ls (count_up (li_SessionID l) c)
       (add_unless (li_WindowID l \<in> wids) (link_window_missing l)
         (add_unless (li_SessionID l \<in> sids) (link_session_missing l) v))"

fun checkPaneReferences :: "bytes set \<Rightarrow> pane_info list \<Rightarrow> counts \<Rightarrow> snapshot \<Rightarrow> counts \<times> snapshot" where
  "checkPaneReferences wids [] c v = (c, v)"
| "checkPaneReferences wids (p # ps) c v =
     checkPaneReferences wids ps (count_up (pn_WindowID p) c)
       (add_unless (pn_WindowID p \<in> wids) (pane_window_missing p) v)"

definition check_client :: "bytes set \<Rightarrow> client_info \<Rightarrow> snapshot \<Rightarrow> snapshot" where
  "check_client sids c v =
     (case value_get (cl_SessionID c) of
        Some sid \<Rightarrow> add_unless (sid \<in> sids) (client_session_missing c sid) v
      | None \<Rightarrow> v)"

definition assess :: "snapshot \<Rightarrow> snapshot" where
  "assess v =
     (let sids = set (map ss_ID (sn_sessions v));
          wids = set (map wi_ID (sn_windows v));
          (c, v1) = checkLinkReferences sids wids (sn_links v) (\<lambda>k. 0) v;
          (pc, v2) = checkPaneReferences wids (sn_panes v) (\<lambda>k. 0) v1;
          v3 = fold (\<lambda>s. add_unless (c (ss_ID s) = ss_WindowCount s) (session_count_wrong s)) (sn_sessions v) v2;
          v4 = fold (\<lambda>w. add_unless (pc (wi_ID w) = wi_PaneCount w) (window_count_wrong w)) (sn_windows v) v3
      in fold (check_client sids) (sn_clients v) v4)"

text \<open>\<open>finish_err\<close> is the error of the context after the read.\<close>

definition observed :: "time \<Rightarrow> time \<Rightarrow> read_result \<Rightarrow> snapshot" where
  "observed started finished rr =
     \<lparr>sn_Started = started, sn_Finished = finished, sn_Identity = sv_Identity (out_Server rr),
      sn_Consistency = ConsistencyComplete, sn_MissingCount = 0, sn_sessions = out_Sessions rr,
      sn_windows = out_Windows rr, sn_links = out_Links rr, sn_panes = out_Panes rr,
      sn_clients = out_Clients rr, sn_missing = []\<rparr>"

definition all_lists :: readRequests where
  "all_lists = \<lparr>rq_Sessions = Present no_options, rq_Windows = Present no_options, rq_Panes = Present no_options,
     rq_Clients = Present no_options\<rparr>"

definition Server_Snapshot ::
  "call_env \<Rightarrow> call_env \<Rightarrow> (server \<Rightarrow> server_info) \<Rightarrow> time \<Rightarrow> time \<Rightarrow> goerr option \<Rightarrow> server option \<Rightarrow> goerr + snapshot" where
  "Server_Snapshot env env' verified started finished finish_err so =
     (case bind_res (begin_op env so) (\<lambda>(s, op).
             readLists env env' verified s ''Server.Snapshot'' op all_lists) of
        Inl e \<Rightarrow> Inl (op_error ''Server.Snapshot'' e)
      | Inr rr \<Rightarrow>
          (case finish_err of
             Some e \<Rightarrow> Inl (after_error ''Server.Snapshot'' e)
           | None \<Rightarrow> Inr (assess (observed started finished rr))))"

subsection \<open>What a snapshot reports\<close>

text \<open>The references of a snapshot that do not resolve, without the accumulators of the code.\<close>

definition session_count :: "snapshot \<Rightarrow> bytes \<Rightarrow> int" where
  "session_count v sid = int (length (filter (\<lambda>l. li_SessionID l = sid) (sn_links v)))"

definition window_count :: "snapshot \<Rightarrow> bytes \<Rightarrow> int" where
  "window_count v wid = int (length (filter (\<lambda>p. pn_WindowID p = wid) (sn_panes v)))"

definition only_if :: "bool \<Rightarrow> 'a \<Rightarrow> 'a list" where
  "only_if b x = (if b then [x] else [])"

definition client_refs :: "bytes set \<Rightarrow> client_info \<Rightarrow> missing_reference list" where
  "client_refs sids c =
     (case value_get (cl_SessionID c) of
        Some sid \<Rightarrow> only_if (sid \<notin> sids) (client_session_missing c sid)
      | None \<Rightarrow> [])"

definition dangling :: "snapshot \<Rightarrow> missing_reference list" where
  "dangling v =
     (let sids = set (map ss_ID (sn_sessions v)); wids = set (map wi_ID (sn_windows v)) in
      concat (map (\<lambda>l. only_if (li_SessionID l \<notin> sids) (link_session_missing l) @
                       only_if (li_WindowID l \<notin> wids) (link_window_missing l)) (sn_links v)) @
      concat (map (\<lambda>p. only_if (pn_WindowID p \<notin> wids) (pane_window_missing p)) (sn_panes v)) @
      concat (map (\<lambda>s. only_if (session_count v (ss_ID s) \<noteq> ss_WindowCount s) (session_count_wrong s)) (sn_sessions v)) @
      concat (map (\<lambda>w. only_if (window_count v (wi_ID w) \<noteq> wi_PaneCount w) (window_count_wrong w)) (sn_windows v)) @
      concat (map (client_refs sids) (sn_clients v)))"

definition coherent :: "snapshot \<Rightarrow> bool" where
  "coherent v \<longleftrightarrow>
     (\<forall>l \<in> set (sn_links v). li_SessionID l \<in> ss_ID ` set (sn_sessions v) \<and> li_WindowID l \<in> wi_ID ` set (sn_windows v)) \<and>
     (\<forall>p \<in> set (sn_panes v). pn_WindowID p \<in> wi_ID ` set (sn_windows v)) \<and>
     (\<forall>s \<in> set (sn_sessions v). session_count v (ss_ID s) = ss_WindowCount s) \<and>
     (\<forall>w \<in> set (sn_windows v). window_count v (wi_ID w) = wi_PaneCount w) \<and>
     (\<forall>c \<in> set (sn_clients v). \<forall>sid. value_get (cl_SessionID c) = Some sid \<longrightarrow> sid \<in> ss_ID ` set (sn_sessions v))"

lemma only_if_Nil [simp]: "only_if b x = [] \<longleftrightarrow> \<not> b"
  by (simp add: only_if_def)

lemma dangling_Nil: "dangling v = [] \<longleftrightarrow> coherent v"
  by (auto simp: dangling_def coherent_def Let_def client_refs_def split: option.splits)

lemma add_unless_fold: "add_unless ok m = fold add_missing (only_if (\<not> ok) m)"
  by (simp add: add_unless_def only_if_def fun_eq_iff)

lemma fold_concat_map: "fold (\<lambda>x. fold f (g x)) xs v = fold f (concat (map g xs)) v"
  by (induction xs arbitrary: v) simp_all

lemma checkLinkReferences_fold:
  "checkLinkReferences sids wids ls c v =
     ((\<lambda>k. c k + int (length (filter (\<lambda>l. li_SessionID l = k) ls))),
      fold add_missing (concat (map (\<lambda>l. only_if (li_SessionID l \<notin> sids) (link_session_missing l) @
                       only_if (li_WindowID l \<notin> wids) (link_window_missing l)) ls)) v)"
proof (induction sids wids ls c v rule: checkLinkReferences.induct)
  case 2
  show ?case
    unfolding checkLinkReferences.simps(2) "2.IH" by (auto simp: add_unless_fold count_up_def intro!: ext)
qed simp

lemma checkPaneReferences_fold:
  "checkPaneReferences wids ps c v =
     ((\<lambda>k. c k + int (length (filter (\<lambda>p. pn_WindowID p = k) ps))),
      fold add_missing (concat (map (\<lambda>p. only_if (pn_WindowID p \<notin> wids) (pane_window_missing p)) ps)) v)"
proof (induction wids ps c v rule: checkPaneReferences.induct)
  case 2
  show ?case
    unfolding checkPaneReferences.simps(2) "2.IH" by (auto simp: add_unless_fold count_up_def intro!: ext)
qed simp

lemma check_client_fold: "check_client sids = (\<lambda>c. fold add_missing (client_refs sids c))"
  by (simp add: check_client_def client_refs_def add_unless_fold fun_eq_iff split: option.split)

lemma assess_fold: "assess v = fold add_missing (dangling v) v"
  by (simp add: assess_def dangling_def Let_def checkLinkReferences_fold checkPaneReferences_fold add_unless_fold
      check_client_fold fold_concat_map session_count_def window_count_def)

lemma fold_add_missing:
  "fold add_missing refs v =
     v\<lparr>sn_Consistency := (if refs = [] then sn_Consistency v else ConsistencyIncomplete),
       sn_MissingCount := sn_MissingCount v + int (length refs),
       sn_missing := sn_missing v @ take (maxMissingReferences - length (sn_missing v)) refs\<rparr>"
proof (induction refs arbitrary: v)
  case (Cons m refs)
  show ?case
    unfolding fold.simps comp_apply Cons.IH by (simp add: add_missing_def take_Cons')
qed simp


subsection \<open>The context of a process inside tmux\<close>

record current_info =
  cu_Identity :: server_identity
  cu_Pane :: pane_info
  cu_Window :: window_info
  cu_Session :: "session_info gvalue"
  cu_Link :: "window_link_info gvalue"
  cu_Client :: "client_info gvalue"

definition resolvePaneContext :: "snapshot \<Rightarrow> bytes \<Rightarrow> goerr + current_info" where
  "resolvePaneContext snap paneID =
     (case Snapshot_Pane snap paneID of
        None \<Rightarrow> Inl (Sentinel ErrNotFound)
      | Some p \<Rightarrow>
          (case Snapshot_Window snap (pn_WindowID p) of
             None \<Rightarrow> Inl (Sentinel ErrInconsistent)
           | Some w \<Rightarrow>
               let out = \<lparr>cu_Identity = sn_Identity snap, cu_Pane = p, cu_Window = w, cu_Session = Unavailable,
                     cu_Link = Unavailable, cu_Client = Unavailable\<rparr> in
               (case filter (\<lambda>l. li_WindowID l = wi_ID w) (sn_links snap) of
                  [l] \<Rightarrow>
                    (case Snapshot_Session snap (li_SessionID l) of
                       None \<Rightarrow> Inl (Sentinel ErrInconsistent)
                     | Some s \<Rightarrow> Inr (out\<lparr>cu_Link := Present l, cu_Session := Present s\<rparr>))
                | _ \<Rightarrow> Inr out)))"

definition lookupActiveLink :: "window_link_info list \<Rightarrow> bytes \<Rightarrow> window_link_info option" where
  "lookupActiveLink links sid = find (\<lambda>l. li_SessionID l = sid \<and> li_Active l) links"

definition lookupActivePane :: "pane_info list \<Rightarrow> bytes \<Rightarrow> pane_info option" where
  "lookupActivePane ps wid = find (\<lambda>p. pn_WindowID p = wid \<and> pn_Active p) ps"

definition resolveActiveContext :: "snapshot \<Rightarrow> tmux_vars_info \<Rightarrow> goerr + current_info" where
  "resolveActiveContext snap hints =
     (let required = Inl (invalid ''TMUX_PANE required for verified pane context'');
          session = (if SessionID_Valid (ti_SessionID hints) then Snapshot_Session snap (ti_SessionID hints)
                     else case sn_sessions snap of [s] \<Rightarrow> Some s | _ \<Rightarrow> None) in
      case session of None \<Rightarrow> required | Some s \<Rightarrow>
      (case lookupActiveLink (sn_links snap) (ss_ID s) of None \<Rightarrow> required | Some l \<Rightarrow>
      (case Snapshot_Window snap (li_WindowID l) of None \<Rightarrow> required | Some w \<Rightarrow>
      (case lookupActivePane (sn_panes snap) (wi_ID w) of None \<Rightarrow> required | Some p \<Rightarrow>
         Inr \<lparr>cu_Identity = sn_Identity snap, cu_Pane = p, cu_Window = w, cu_Session = Present s,
              cu_Link = Present l, cu_Client = Unavailable\<rparr>))))"

text \<open>\<open>Server.CurrentFrom\<close> after the snapshot.\<close>

definition current_in :: "tmux_vars_info \<Rightarrow> snapshot \<Rightarrow> goerr + current_info" where
  "current_in hints snap =
     (if ti_PID hints \<noteq> id_pid (sn_Identity snap) then Inl (Sentinel ErrServerChanged)
      else case value_get (ti_PaneID hints) of
          None \<Rightarrow> resolveActiveContext snap hints
        | Some paneID \<Rightarrow> resolvePaneContext snap paneID)"

text \<open>\<open>snap\<close> is the answer of \<open>Server.Snapshot\<close> for the server.\<close>

definition Server_CurrentFrom ::
  "(server option \<Rightarrow> goerr + snapshot) \<Rightarrow> server option \<Rightarrow> tmux_vars \<Rightarrow> goerr + current_info" where
  "Server_CurrentFrom snap so vars =
     labelled ''Server.CurrentFrom'' (bind_res (ParseTmuxVars vars) (\<lambda>hints.
       if (case so of None \<Rightarrow> True | Some s \<Rightarrow> endpoint_String (srv_endpoint s) \<noteq> ti_SocketPath hints)
       then Inl (Sentinel ErrInvalidHandle)
       else bind_res (snap so) (current_in hints)))"

definition CurrentFrom ::
  "host \<Rightarrow> (server option \<Rightarrow> goerr + snapshot) \<Rightarrow> tmux_vars \<Rightarrow> goerr + current_info" where
  "CurrentFrom h snap vars =
     bind_res (labelled ''CurrentFrom'' (bind_res (ParseTmuxVars vars) (\<lambda>hints.
       New h (zero_config\<lparr>cfg_SocketPath := ti_SocketPath hints\<rparr>))))
       (\<lambda>s. Server_CurrentFrom snap (Some s) vars)"

text \<open>The handle of every record has the id of the record, as \<open>Server.Snapshot\<close> returns them.\<close>

definition own_handles :: "snapshot \<Rightarrow> bool" where
  "own_handles v \<longleftrightarrow>
     list_all (\<lambda>s. h_id (ss_h s) = ss_ID s) (sn_sessions v) \<and> list_all (\<lambda>w. h_id (wi_h w) = wi_ID w) (sn_windows v) \<and>
     list_all (\<lambda>p. h_id (pn_h p) = pn_ID p) (sn_panes v) \<and> list_all (\<lambda>c. h_id (cl_h c) = cl_Name c) (sn_clients v)"

lemma Server_Snapshot_own_handles:
  assumes "Server_Snapshot env env' verified started finished finish_err (Some s) = Inr v"
    and "srv_conn s = None \<or> identity_valid (sv_Identity (verified s))"
  shows "own_handles v \<and> (sn_Consistency v = ConsistencyComplete \<longleftrightarrow> coherent v)"
proof -
  obtain op rr where r: "readLists env env' verified s ''Server.Snapshot'' op all_lists = Inr rr"
      and v: "v = assess (observed started finished rr)"
    using assms(1)
    by (auto simp: Server_Snapshot_def bind_res_def begin_op_def Let_def
        split: sum.split_asm prod.split_asm if_split_asm option.split_asm)
  from readLists_one_daemon [OF r assms(2)] have ok: "read_result_ok s (sv_Identity (out_Server rr)) rr"
    by simp
  then have "own_handles (observed started finished rr)"
    by (auto simp: own_handles_def observed_def read_result_ok_def id_list_def bound_to_def list_all_iff)
  moreover have "coherent (assess v0) = coherent v0" for v0
    by (simp add: coherent_def session_count_def window_count_def assess_fold fold_add_missing)
  moreover have "own_handles (assess v0) = own_handles v0" for v0
    by (simp add: own_handles_def assess_fold fold_add_missing)
  moreover have "sn_Consistency v = ConsistencyComplete \<longleftrightarrow> coherent (observed started finished rr)"
    by (simp add: v assess_fold fold_add_missing dangling_Nil) (simp add: observed_def)
  ultimately show ?thesis by (simp add: v)
qed

definition same_place :: "snapshot \<Rightarrow> current_info \<Rightarrow> bool" where
  "same_place snap info \<longleftrightarrow>
     cu_Pane info \<in> set (sn_panes snap) \<and> cu_Window info \<in> set (sn_windows snap) \<and>
     pn_WindowID (cu_Pane info) = wi_ID (cu_Window info) \<and>
     (case cu_Link info of
        Present l \<Rightarrow> l \<in> set (sn_links snap) \<and> li_WindowID l = wi_ID (cu_Window info) \<and>
          (\<exists>s \<in> set (sn_sessions snap). cu_Session info = Present s \<and> ss_ID s = li_SessionID l)
      | _ \<Rightarrow> cu_Session info = Unavailable)"

lemma find_handle: "find (\<lambda>x. h_id (h x) = i) xs = Some x \<Longrightarrow> list_all (\<lambda>x. h_id (h x) = oid x) xs \<Longrightarrow> x \<in> set xs \<and> oid x = i"
  by (induction xs) (auto split: if_splits)

lemma Snapshot_Pane_own: "Snapshot_Pane v i = Some p \<Longrightarrow> own_handles v \<Longrightarrow> p \<in> set (sn_panes v) \<and> pn_ID p = i"
  and Snapshot_Window_own: "Snapshot_Window v i = Some w \<Longrightarrow> own_handles v \<Longrightarrow> w \<in> set (sn_windows v) \<and> wi_ID w = i"
  and Snapshot_Session_own: "Snapshot_Session v i = Some s \<Longrightarrow> own_handles v \<Longrightarrow> s \<in> set (sn_sessions v) \<and> ss_ID s = i"
  by (auto simp: Snapshot_Pane_def Snapshot_Window_def Snapshot_Session_def own_handles_def dest: find_handle)

lemmas own_lookups = Snapshot_Pane_own Snapshot_Window_own Snapshot_Session_own

lemma find_in: "find P xs = Some x \<Longrightarrow> x \<in> set xs \<and> P x"
  by (induction xs) (auto split: if_splits)

lemma filter_single: "filter P xs = [x] \<Longrightarrow> x \<in> set xs \<and> P x"
  by (simp add: filter_eq_Cons_iff) auto

lemma resolvePaneContext_place:
  assumes "resolvePaneContext snap paneID = Inr info" and "own_handles snap"
  shows "same_place snap info \<and> pn_ID (cu_Pane info) = paneID \<and> cu_Identity info = sn_Identity snap"
  using assms
  by (auto simp: resolvePaneContext_def same_place_def Let_def dest!: own_lookups filter_single
      split: option.split_asm list.split_asm)

lemma resolveActiveContext_place:
  assumes "resolveActiveContext snap hints = Inr info" and "own_handles snap"
  shows "same_place snap info \<and> pn_Active (cu_Pane info) \<and> cu_Identity info = sn_Identity snap \<and>
    (SessionID_Valid (ti_SessionID hints) \<longrightarrow> (\<exists>s. cu_Session info = Present s \<and> ss_ID s = ti_SessionID hints)) \<and>
    (\<exists>l. cu_Link info = Present l \<and> li_Active l)"
  using assms
  by (auto simp: resolveActiveContext_def lookupActiveLink_def lookupActivePane_def same_place_def Let_def
      dest!: own_lookups find_in split: option.split_asm list.split_asm if_split_asm)

text \<open>C29: The context of a process inside tmux is one place: its pane is in its window, its slot shows that window,
  and its session is the one of the slot. It was observed on the daemon that $TMUX names, and it is the pane of
  $TMUX_PANE, or, without one, the active pane of the active slot of the session that $TMUX names.\<close>

theorem current_in_one_place:
  assumes "current_in hints snap = Inr info" and "own_handles snap"
  shows "same_place snap info \<and> cu_Identity info = sn_Identity snap \<and> id_pid (cu_Identity info) = ti_PID hints \<and>
    (case value_get (ti_PaneID hints) of
       Some paneID \<Rightarrow> pn_ID (cu_Pane info) = paneID
     | None \<Rightarrow> pn_Active (cu_Pane info) \<and> (\<exists>l. cu_Link info = Present l \<and> li_Active l) \<and>
         (SessionID_Valid (ti_SessionID hints) \<longrightarrow> (\<exists>s. cu_Session info = Present s \<and> ss_ID s = ti_SessionID hints)))"
  using assms resolvePaneContext_place [of snap _ info] resolveActiveContext_place [of snap hints info]
  by (auto simp: current_in_def split: if_split_asm option.split_asm)

definition place_handle :: "object_kind \<Rightarrow> bytes \<Rightarrow> handle" where
  "place_handle kind oid = newHandle plain_server oid kind tiny_daemon"

definition place_session :: session_info where
  "place_session = \<lparr>ss_raw = Map.empty, ss_ID = ''$1'', ss_Name = ''main'', ss_Path = ''/'', ss_Created = 5,
     ss_Activity = 6, ss_Attached = 0, ss_WindowCount = 1, ss_Group = Unavailable,
     ss_h = place_handle ObjectKindSession ''$1''\<rparr>"

definition place_window :: window_info where
  "place_window = \<lparr>wi_raw = Map.empty, wi_ID = ''@2'', wi_Name = ''w'', wi_Width = 80, wi_Height = 24,
     wi_PaneCount = 1, wi_Layout = [], wi_Zoomed = False, wi_h = place_handle ObjectKindWindow ''@2''\<rparr>"

definition place_link :: window_link_info where
  "place_link = \<lparr>li_raw = Map.empty, li_SessionID = ''$1'', li_WindowID = ''@2'', li_WindowName = ''w'', li_Index = 0,
     li_Active = True, li_Flags = ''*'',
     li_link = \<lparr>wl_h = place_handle ObjectKindWindow ''@2'', wl_session = ''$1'', wl_index = 0\<rparr>\<rparr>"

definition place_pane :: pane_info where
  "place_pane = \<lparr>pn_raw = Map.empty, pn_ID = ''%3'', pn_WindowID = ''@2'', pn_SessionID = Unavailable,
     pn_SessionName = Unavailable, pn_WindowName = Unavailable, pn_WindowIndex = Unavailable, pn_Index = 0,
     pn_Title = [], pn_CurrentPath = ''/'', pn_CurrentCommand = ''sh'', pn_PID = 9, pn_TTY = ''/dev/pts/1'',
     pn_Width = 80, pn_Height = 24, pn_Left = 0, pn_Top = 0, pn_Active = True, pn_HistorySize = 0,
     pn_Alternate = False, pn_Dead = False, pn_DeadStatus = Unavailable, pn_CursorX = 0, pn_CursorY = 0,
     pn_Mode = Unavailable, pn_Selection = Unavailable, pn_h = place_handle ObjectKindPane ''%3''\<rparr>"

definition place_snapshot :: snapshot where
  "place_snapshot = assess (observed 0 1 \<lparr>out_Server = tiny_info, out_Sessions = [place_session],
     out_Windows = [place_window], out_Links = [place_link], out_Panes = [place_pane], out_Clients = []\<rparr>)"

definition place_hints :: tmux_vars_info where
  "place_hints = \<lparr>ti_SocketPath = ''/s'', ti_PID = id_pid tiny_daemon, ti_SessionID = ''$1'', ti_PaneID = Unavailable\<rparr>"

lemmas place_defs = place_handle_def place_session_def place_window_def place_link_def place_pane_def newHandle_def

lemma current_in_one_place_witness:
  "\<exists>info. current_in place_hints place_snapshot = Inr info \<and> sn_Consistency place_snapshot = ConsistencyComplete \<and>
     same_place place_snapshot info \<and> cu_Pane info = place_pane"
proof -
  have snap: "place_snapshot = observed 0 1 \<lparr>out_Server = tiny_info, out_Sessions = [place_session],
     out_Windows = [place_window], out_Links = [place_link], out_Panes = [place_pane], out_Clients = []\<rparr>"
    by (simp add: place_snapshot_def assess_fold fold_add_missing observed_def dangling_def session_count_def window_count_def
        only_if_def place_defs)
  have own: "own_handles place_snapshot"
    by (simp add: own_handles_def snap observed_def place_defs)
  have "SessionID_Valid ''$1''" by (simp add: SessionID_Valid_def validID_def parse_uint_def digits_val_def digit_val_def is_digit_def)
  then have c: "current_in place_hints place_snapshot = Inr \<lparr>cu_Identity = tiny_daemon, cu_Pane = place_pane, cu_Window = place_window,
      cu_Session = Present place_session, cu_Link = Present place_link, cu_Client = Unavailable\<rparr>"
    by (simp add: current_in_def snap observed_def place_hints_def tiny_info_def resolveActiveContext_def
        Snapshot_Session_def Snapshot_Window_def lookupActiveLink_def lookupActivePane_def place_defs)
  with current_in_one_place [OF c own] show ?thesis by (simp add: snap) (simp add: observed_def)
qed

end
