(* ===== verification/Tmux_Options.thy ===== *)
theory Tmux_Options
  imports Read_Objects
begin

text \<open>
  \<open>tmux/options.go\<close>: options of a server, a session, a window or a pane, and \<open>nativeOptionScope\<close> of
  \<open>tmux/options_generated.go\<close>. A method that runs tmux more than once has the environment of its \<open>i\<close>-th run as
  \<open>envs i\<close>.
\<close>

subsection \<open>Scopes\<close>

datatype scope =
    ScopeServer | ScopeGlobalSession | ScopeSession | ScopeGlobalWindow | ScopeWindow | ScopePane

record option_target =
  ot_server :: "server option"
  ot_h :: handle
  ot_scope :: scope

record 'a option_value =
  ov_Local :: "'a gvalue"
  ov_Effective :: "'a gvalue"
  ov_Origin :: "scope gvalue"

record array_entry =
  ae_Index :: int
  ae_Value :: bytes

record array_update =
  au_Index :: int
  au_Value :: bytes
  au_Unset :: bool

record set_option_options =
  so_Value :: "bytes gvalue"
  so_Append :: bool
  so_ExpandFormat :: bool
  so_OnlyIfUnset :: bool

record option_entry =
  oe_Name :: bytes
  oe_Value :: "bytes gvalue"
  oe_Inherited :: bool

definition Server_Options :: "server option \<Rightarrow> option_target" where
  "Server_Options s = \<lparr>ot_server = s, ot_h = zeroHandle, ot_scope = ScopeServer\<rparr>"

definition GlobalSessionOptions :: "server option \<Rightarrow> option_target" where
  "GlobalSessionOptions s = \<lparr>ot_server = s, ot_h = zeroHandle, ot_scope = ScopeGlobalSession\<rparr>"

definition GlobalWindowOptions :: "server option \<Rightarrow> option_target" where
  "GlobalWindowOptions s = \<lparr>ot_server = s, ot_h = zeroHandle, ot_scope = ScopeGlobalWindow\<rparr>"

definition Session_Options :: "handle \<Rightarrow> option_target" where
  "Session_Options h = \<lparr>ot_server = h_server h, ot_h = h, ot_scope = ScopeSession\<rparr>"

definition Window_Options :: "handle \<Rightarrow> option_target" where
  "Window_Options h = \<lparr>ot_server = h_server h, ot_h = h, ot_scope = ScopeWindow\<rparr>"

definition Pane_Options :: "handle \<Rightarrow> option_target" where
  "Pane_Options h = \<lparr>ot_server = h_server h, ot_h = h, ot_scope = ScopePane\<rparr>"

definition prepare ::
  "call_env \<Rightarrow> (server \<Rightarrow> server_info) \<Rightarrow> option_target \<Rightarrow> goerr + server \<times> operation \<times> guard option" where
  "prepare env verified t =
     (case (if h_server (ot_h t) \<noteq> None then handle_check env (ot_h t)
            else if ot_scope t \<in> {ScopeSession, ScopeWindow, ScopePane} then Some (Sentinel ErrInvalidHandle)
            else None) of
        Some e \<Rightarrow> Inl e
      | None \<Rightarrow>
          bind_res (begin_op env (ot_server t)) (\<lambda>(s, op).
            if h_server (ot_h t) \<noteq> None then Inr (s, op, handle_guard (ot_h t))
            else (case verifiedInfo env verified s op of
                (Inl e, op') \<Rightarrow> Inl e
              | (Inr info, op') \<Rightarrow> Inr (s, op', Some (newGuard (sv_Identity info))))))"

definition target_args :: "option_target \<Rightarrow> bytes list" where
  "target_args t =
     (case ot_scope t of
        ScopeServer \<Rightarrow> [''-s'']
      | ScopeGlobalSession \<Rightarrow> [''-g'']
      | ScopeSession \<Rightarrow> [''-t'', h_id (ot_h t)]
      | ScopeGlobalWindow \<Rightarrow> [''-g'', ''-w'']
      | ScopeWindow \<Rightarrow> [''-w'', ''-t'', h_id (ot_h t)]
      | ScopePane \<Rightarrow> [''-p'', ''-t'', h_id (ot_h t)])"

subsection \<open>Names\<close>

text \<open>The base name, the index and whether there is one.\<close>

definition parseOptionName :: "bytes \<Rightarrow> goerr + bytes \<times> int \<times> bool" where
  "parseOptionName name =
     (if \<not> has_suffix name '']'' then
        if \<not> validFormatName name \<or> name = ''@'' then Inl (invalid ''option name'') else Inr (name, 0, False)
      else
        (let base = takeWhile (\<lambda>c. c \<noteq> CHR ''['') name in
         if base = [] \<or> base = name then Inl (invalid ''option name'')
         else if \<not> validFormatName base \<or> base = ''@'' then Inl (invalid ''option name'')
         else (case atoi (slice (length base + 1) (length name - 1) name) of
             Some idx \<Rightarrow> if idx < 0 \<or> 2 ^ 30 < idx then Inl (invalid ''option index'') else Inr (base, idx, True)
           | None \<Rightarrow> Inl (invalid ''option index''))))"

definition validOptionName :: "bytes \<Rightarrow> bool" where
  "validOptionName name = (case parseOptionName name of Inr (base, _) \<Rightarrow> base \<noteq> [] | Inl _ \<Rightarrow> False)"

definition userOptionName :: "bytes \<Rightarrow> bool" where
  "userOptionName name = (case parseOptionName name of Inr (base, _) \<Rightarrow> has_prefix base ''@'' \<and> 1 < length base | Inl _ \<Rightarrow> False)"

definition pane_options :: "bytes list" where
  "pane_options = [
    ''allow-passthrough'', ''allow-rename'', ''allow-set-title'', ''alternate-screen'', ''copy-mode-position-format'',
    ''cursor-colour'', ''cursor-style'', ''pane-activity'', ''pane-bell'', ''pane-border-format'', ''pane-colours'',
    ''pane-command-finished'', ''pane-command-started'', ''pane-created'', ''pane-died'', ''pane-exited'',
    ''pane-focus-in'', ''pane-focus-out'', ''pane-mode-changed'', ''pane-mode-entered'', ''pane-mode-exited'',
    ''pane-moved'', ''pane-prompt-closed'', ''pane-prompt-opened'', ''pane-resized'', ''pane-scrollbars-style'',
    ''pane-set-clipboard'', ''pane-shell-prompt'', ''pane-title-changed'', ''remain-on-exit'',
    ''remain-on-exit-format'', ''scroll-on-clear'', ''switch-mode-match-style'', ''synchronize-panes'',
    ''tree-mode-preview-format'', ''window-active-style'', ''window-style'']"

definition server_options :: "bytes list" where
  "server_options = [
    ''backspace'', ''buffer-limit'', ''clear-on-attach'', ''codepoint-widths'', ''command-alias'', ''copy-command'',
    ''dark-theme-black'', ''dark-theme-blue'', ''dark-theme-cyan'', ''dark-theme-dark-grey'', ''dark-theme-green'',
    ''dark-theme-light-grey'', ''dark-theme-magenta'', ''dark-theme-red'', ''dark-theme-white'',
    ''dark-theme-yellow'', ''default-client-command'', ''default-terminal'', ''editor'', ''escape-time'',
    ''exit-empty'', ''exit-unattached'', ''extended-keys'', ''extended-keys-format'', ''focus-events'',
    ''get-clipboard'', ''history-file'', ''input-buffer-size'', ''light-theme-black'', ''light-theme-blue'',
    ''light-theme-cyan'', ''light-theme-dark-grey'', ''light-theme-green'', ''light-theme-light-grey'',
    ''light-theme-magenta'', ''light-theme-red'', ''light-theme-white'', ''light-theme-yellow'', ''message-limit'',
    ''prefix-timeout'', ''prompt-history-limit'', ''set-clipboard'', ''terminal-features'', ''terminal-overrides'',
    ''theme'', ''user-keys'', ''variation-selector-always-wide'']"

definition session_options :: "bytes list" where
  "session_options = [
    ''activity-action'', ''after-bind-key'', ''after-capture-pane'', ''after-copy-mode'', ''after-display-message'',
    ''after-display-panes'', ''after-kill-pane'', ''after-list-buffers'', ''after-list-clients'', ''after-list-keys'',
    ''after-list-panes'', ''after-list-sessions'', ''after-list-windows'', ''after-load-buffer'',
    ''after-lock-server'', ''after-new-session'', ''after-new-window'', ''after-paste-buffer'', ''after-pipe-pane'',
    ''after-queue'', ''after-refresh-client'', ''after-rename-session'', ''after-rename-window'',
    ''after-resize-pane'', ''after-resize-window'', ''after-save-buffer'', ''after-select-layout'',
    ''after-select-pane'', ''after-select-window'', ''after-send-keys'', ''after-set-buffer'',
    ''after-set-environment'', ''after-set-hook'', ''after-set-option'', ''after-show-environment'',
    ''after-show-messages'', ''after-show-options'', ''after-split-window'', ''after-unbind-key'', ''alert-activity'',
    ''alert-bell'', ''alert-silence'', ''assume-paste-time'', ''base-index'', ''bell-action'', ''client-active'',
    ''client-attached'', ''client-closed'', ''client-created'', ''client-dark-theme'', ''client-detached'',
    ''client-focus-in'', ''client-focus-out'', ''client-light-theme'', ''client-resized'', ''client-session-changed'',
    ''command-error'', ''default-command'', ''default-shell'', ''default-size'', ''destroy-unattached'',
    ''detach-on-destroy'', ''display-time'', ''focus-follows-mouse'', ''history-limit'', ''initial-repeat-time'',
    ''key-table'', ''lock-after-time'', ''lock-command'', ''marked-pane-changed'', ''message-command-style'',
    ''message-format'', ''message-line'', ''message-style'', ''mouse'', ''prefix'', ''prefix2'',
    ''prompt-command-cursor-colour'', ''prompt-command-cursor-style'', ''prompt-cursor-colour'',
    ''prompt-cursor-style'', ''renumber-windows'', ''repeat-time'', ''session-added-to-group'', ''session-closed'',
    ''session-created'', ''session-removed-from-group'', ''session-renamed'', ''session-window-changed'',
    ''set-titles'', ''set-titles-string'', ''silence-action'', ''status'', ''status-bg'', ''status-fg'',
    ''status-format'', ''status-interval'', ''status-justify'', ''status-keys'', ''status-left'',
    ''status-left-length'', ''status-left-style'', ''status-position'', ''status-right'', ''status-right-length'',
    ''status-right-style'', ''status-style'', ''update-environment'', ''visual-activity'', ''visual-bell'',
    ''visual-silence'', ''window-linked'', ''window-unlinked'', ''word-separators'']"

definition window_options :: "bytes list" where
  "window_options = [
    ''aggressive-resize'', ''automatic-rename'', ''automatic-rename-format'', ''clock-mode-colour'',
    ''clock-mode-style'', ''copy-mode-current-line-number-style'', ''copy-mode-current-line-style'',
    ''copy-mode-current-match-style'', ''copy-mode-line-number-style'', ''copy-mode-line-numbers'',
    ''copy-mode-mark-style'', ''copy-mode-match-style'', ''copy-mode-position-style'', ''copy-mode-selection-style'',
    ''display-panes-border-style'', ''display-panes-format'', ''fill-character'', ''main-pane-height'',
    ''main-pane-width'', ''menu-border-lines'', ''menu-border-style'', ''menu-selected-style'', ''menu-style'',
    ''mode-keys'', ''mode-style'', ''monitor-activity'', ''monitor-bell'', ''monitor-silence'', ''other-pane-height'',
    ''other-pane-width'', ''pane-base-index'', ''pane-border-indicators'', ''pane-scrollbars'',
    ''pane-scrollbars-position'', ''pane-scrollbars-timeout'', ''pane-status-current-style'', ''pane-status-style'',
    ''popup-border-lines'', ''popup-border-style'', ''popup-style'', ''session-status-current-style'',
    ''session-status-style'', ''tiled-layout-max-columns'', ''tree-mode-border-style'', ''tree-mode-preview-style'',
    ''tree-mode-selection-style'', ''window-closed'', ''window-created'', ''window-layout-changed'',
    ''window-pane-changed'', ''window-pane-current-status-format'', ''window-pane-status-format'', ''window-renamed'',
    ''window-resized'', ''window-size'', ''window-status-activity-style'', ''window-status-bell-style'',
    ''window-status-current-format'', ''window-status-current-style'', ''window-status-format'',
    ''window-status-last-style'', ''window-status-separator'', ''window-status-style'', ''window-unzoomed'',
    ''window-zoomed'', ''wrap-search'', ''xterm-keys'']"

definition nativeOptionScope :: "bytes \<Rightarrow> scope option" where
  "nativeOptionScope name =
     (if name \<in> set pane_options then Some ScopePane
      else if name \<in> set server_options then Some ScopeServer
      else if name \<in> set session_options then Some ScopeSession
      else if name \<in> set window_options then Some ScopeWindow
      else None)"

definition localOrigin :: "option_target \<Rightarrow> bytes \<Rightarrow> scope gvalue" where
  "localOrigin t name =
     (if userOptionName name then Present (ot_scope t)
      else (case nativeOptionScope (fst (cut name ''['')) of
          None \<Rightarrow> Unavailable
        | Some native \<Rightarrow>
            let sc = (if native = ScopePane \<and> ot_scope t \<noteq> ScopePane then ScopeWindow else native) in
            Present (if ot_scope t \<in> {ScopeGlobalSession, ScopeGlobalWindow} then
                (if sc = ScopeSession then ScopeGlobalSession
                 else if sc = ScopeWindow then ScopeGlobalWindow else sc)
              else sc)))"

subsection \<open>Scalars\<close>

text \<open>What \<open>execute\<close> answers, as a result.\<close>

definition answered :: "(result \<times> goerr option) \<times> operation \<Rightarrow> goerr + result" where
  "answered x = (case snd (fst x) of Some e \<Rightarrow> Inl e | None \<Rightarrow> Inr (fst (fst x)))"

text \<open>The value in what \<open>show-options\<close> printed for one name.\<close>

definition scalar_of :: "bytes \<Rightarrow> bytes \<Rightarrow> bytes \<Rightarrow> goerr + bytes gvalue" where
  "scalar_of label name out =
     (if out = [] then Inr Unavailable
      else if last out \<noteq> LF then Inl (after_error label (decodeError ''option'' name (Sentinel ErrProtocol)))
      else if \<not> has_suffix name '']'' \<and> has_prefix out (name @ ''['') then Inl (invalid ''array option; use Array'')
      else (case ParseWords (butlast out) of
          Inl e \<Rightarrow> Inl (after_error label (decodeError ''option'' name e))
        | Inr ws \<Rightarrow>
            if length ws = 2 \<and> trim_suffix (ws ! 0) ''*'' = name then Inr (Present (ws ! 1))
            else Inl (invalid ''expected exact scalar option name'')))"

definition readScalar ::
  "call_env \<Rightarrow> server \<Rightarrow> option_target \<Rightarrow> bytes \<Rightarrow> operation \<Rightarrow> guard option \<Rightarrow> bytes \<Rightarrow> bool \<Rightarrow> bytes gvalue step_result" where
  "readScalar env s t label op g name inherited =
     (let x = execute env s op (plainPlan \<lparr>cmd_name = ''show-options'',
            cmd_args = target_args t @ [''-q''] @ (if inherited then [''-A''] else []) @ [''--'', name]\<rparr>) g None
      in (bind_res (answered x) (\<lambda>r. scalar_of label name (res_stdout r)), snd x))"

text \<open>A value that is set locally must be the effective one.\<close>

definition option_read :: "option_target \<Rightarrow> bytes \<Rightarrow> bytes \<Rightarrow> bytes gvalue \<Rightarrow> bytes gvalue \<Rightarrow> goerr + bytes option_value" where
  "option_read t label name loc eff =
     (case value_get loc of
        None \<Rightarrow> Inr \<lparr>ov_Local = loc, ov_Effective = eff, ov_Origin = Unavailable\<rparr>
      | Some a \<Rightarrow>
          if value_get eff \<noteq> Some a then Inl (after_error label (Sentinel ErrInconsistent))
          else Inr \<lparr>ov_Local = loc, ov_Effective = eff, ov_Origin = localOrigin t name\<rparr>)"

definition read_option ::
  "(nat \<Rightarrow> call_env) \<Rightarrow> (server \<Rightarrow> server_info) \<Rightarrow> option_target \<Rightarrow> bytes \<Rightarrow> bytes \<Rightarrow> goerr + bytes option_value" where
  "read_option envs verified t label name =
     (if \<not> validOptionName name then Inl (op_error label (invalid ''option name''))
      else (case prepare (envs 0) verified t of
          Inl e \<Rightarrow> Inl (op_error label e)
        | Inr (s, op, g) \<Rightarrow>
            (case readScalar (envs 1) s t label op g name False of
               (Inl e, op1) \<Rightarrow> Inl (op_error label e)
             | (Inr loc, op1) \<Rightarrow>
                 (case readScalar (envs 2) s t label op1 g name True of
                    (Inl e, op2) \<Rightarrow> Inl (op_error label e)
                  | (Inr eff, op2) \<Rightarrow> option_read t label name loc eff))))"

text \<open>A mutation: one \<open>set-option\<close> on the prepared target.\<close>

definition option_command ::
  "(nat \<Rightarrow> call_env) \<Rightarrow> (server \<Rightarrow> server_info) \<Rightarrow> option_target \<Rightarrow> bytes \<Rightarrow> bytes list \<Rightarrow> goerr option" where
  "option_command envs verified t label args =
     (case prepare (envs 0) verified t of
        Inl e \<Rightarrow> opError label (Some e)
      | Inr (s, op, g) \<Rightarrow>
          opError label (snd (fst (execute (envs 1) s op
            (emptyPlan \<lparr>cmd_name = ''set-option'', cmd_args = target_args t @ args\<rparr>) g None))))"

definition setWith ::
  "(nat \<Rightarrow> call_env) \<Rightarrow> (server \<Rightarrow> server_info) \<Rightarrow> option_target \<Rightarrow> bytes \<Rightarrow> bytes \<Rightarrow> set_option_options \<Rightarrow> goerr option" where
  "setWith envs verified t label name opts =
     (if \<not> validOptionName name then opError label (Some (invalid ''option name''))
      else (case value_get (so_Value opts) of
          Some val \<Rightarrow>
            if \<not> ValidString val then opError label (Some (invalid ''option value''))
            else option_command envs verified t label
              ((if so_Append opts then [''-a''] else []) @ (if so_ExpandFormat opts then [''-F''] else []) @
               (if so_OnlyIfUnset opts then [''-o''] else []) @ [''--'', name] @ [val])
        | None \<Rightarrow> option_command envs verified t label
              ((if so_Append opts then [''-a''] else []) @ (if so_ExpandFormat opts then [''-F''] else []) @
               (if so_OnlyIfUnset opts then [''-o''] else []) @ [''--'', name])))"

definition unsetWith ::
  "(nat \<Rightarrow> call_env) \<Rightarrow> (server \<Rightarrow> server_info) \<Rightarrow> option_target \<Rightarrow> bytes \<Rightarrow> bytes \<Rightarrow> bool \<Rightarrow> goerr option" where
  "unsetWith envs verified t label name cascade =
     (if \<not> validOptionName name then opError label (Some (invalid ''option name''))
      else option_command envs verified t label [if cascade then ''-U'' else ''-u'', ''--'', name])"

definition set_option ::
  "(nat \<Rightarrow> call_env) \<Rightarrow> (server \<Rightarrow> server_info) \<Rightarrow> option_target \<Rightarrow> bytes \<Rightarrow> bytes \<Rightarrow> bytes \<Rightarrow> bool \<Rightarrow> goerr option" where
  "set_option envs verified t label name v unset =
     (if unset then unsetWith envs verified t label name False
      else setWith envs verified t label name
        \<lparr>so_Value = Present v, so_Append = False, so_ExpandFormat = False, so_OnlyIfUnset = False\<rparr>)"

text \<open>The methods for user options check the name first.\<close>

definition user_checked :: "bytes \<Rightarrow> bytes \<Rightarrow> goerr option \<Rightarrow> goerr option" where
  "user_checked label name r =
     (if \<not> userOptionName name then opError label (Some (invalid ''user option name'')) else r)"

definition userSetWith where
  "userSetWith envs verified label t name opts = user_checked label name (setWith envs verified t label name opts)"

definition userUnsetWith where
  "userUnsetWith envs verified label t name cascade = user_checked label name (unsetWith envs verified t label name cascade)"

definition userSet where
  "userSet envs verified label t name v unset = user_checked label name (set_option envs verified t label name v unset)"

definition userGet ::
  "(nat \<Rightarrow> call_env) \<Rightarrow> (server \<Rightarrow> server_info) \<Rightarrow> bytes \<Rightarrow> option_target \<Rightarrow> bytes \<Rightarrow> goerr + bytes option_value" where
  "userGet envs verified label t name =
     (if \<not> userOptionName name then Inl (op_error label (invalid ''user option name''))
      else read_option envs verified t label name)"

subsection \<open>Lists of options\<close>

definition option_line :: "bytes \<Rightarrow> option_entry" where
  "option_line line =
     (case cut line '' '' of (key, valueStr, hasVal) \<Rightarrow>
       \<lparr>oe_Name = trim_suffix key ''*'',
        oe_Value = (if hasVal then
            (case ParseWords valueStr of Inr [w] \<Rightarrow> Present w | _ \<Rightarrow> Present valueStr)
          else Unavailable),
        oe_Inherited = has_suffix key ''*''\<rparr>)"

definition output_lines :: "bytes \<Rightarrow> bytes list" where
  "output_lines out = filter (\<lambda>l. l \<noteq> []) (split_byte LF (trim_suffix out [LF]))"

definition list_options ::
  "(nat \<Rightarrow> call_env) \<Rightarrow> (server \<Rightarrow> server_info) \<Rightarrow> option_target \<Rightarrow> bytes \<Rightarrow> bool \<Rightarrow> bool \<Rightarrow> goerr + option_entry list" where
  "list_options envs verified t label inherited hooks =
     labelled label (bind_res (prepare (envs 0) verified t) (\<lambda>(s, op, g).
       bind_res (answered (execute (envs 1) s op (plainPlan \<lparr>cmd_name = ''show-options'',
         cmd_args = target_args t @ (if inherited then [''-A''] else []) @ (if hooks then [''-H''] else [])\<rparr>) g None)) (\<lambda>r.
       Inr (map option_line (output_lines (res_stdout r))))))"

subsection \<open>Conversions\<close>

definition convert_value :: "(bytes \<Rightarrow> goerr + 'a) \<Rightarrow> bytes gvalue \<Rightarrow> goerr + 'a gvalue" where
  "convert_value parse v =
     (case v of Present s \<Rightarrow> bind_res (parse s) (\<lambda>x. Inr (Present x))
      | Unsupported \<Rightarrow> Inr Unsupported | Unavailable \<Rightarrow> Inr Unavailable)"

definition convertOption :: "bytes option_value \<Rightarrow> (bytes \<Rightarrow> goerr + 'a) \<Rightarrow> goerr + 'a option_value" where
  "convertOption v parse =
     bind_res (convert_value parse (ov_Local v)) (\<lambda>loc.
     bind_res (convert_value parse (ov_Effective v)) (\<lambda>eff.
       Inr \<lparr>ov_Local = loc, ov_Effective = eff, ov_Origin = ov_Origin v\<rparr>))"

definition parseOptionInt :: "bytes \<Rightarrow> goerr + int" where
  "parseOptionInt s =
     (case atoi s of Some n \<Rightarrow> Inr n | None \<Rightarrow> Inl (decodeError ''option'' ''integer'' (Opaque ''strconv.Atoi'')))"

definition parseOptionBool :: "bytes \<Rightarrow> goerr + bool" where
  "parseOptionBool s =
     (if s \<in> {''on'', ''1''} then Inr True
      else if s \<in> {''off'', ''0''} then Inr False
      else Inl (decodeError ''option'' ''boolean'' (Sentinel ErrProtocol)))"

definition boolOption :: "bool \<Rightarrow> bytes" where
  "boolOption v = (if v then ''on'' else ''off'')"

subsection \<open>Arrays\<close>

definition arrayIndex :: "bytes \<Rightarrow> bytes \<Rightarrow> goerr + int" where
  "arrayIndex key name =
     (if \<not> has_prefix key (name @ ''['') \<or> \<not> has_suffix key '']'' then Inl (Sentinel ErrProtocol)
      else (case atoi (slice (length name + 1) (length key - 1) key) of
          Some n \<Rightarrow> if n < 0 then Inl (Sentinel ErrProtocol) else Inr n
        | None \<Rightarrow> Inl (Sentinel ErrProtocol)))"

definition parseArrayLine :: "bytes \<Rightarrow> bytes \<Rightarrow> bytes \<Rightarrow> goerr + array_entry" where
  "parseArrayLine label line base =
     (case cut line '' '' of (key0, v, ok) \<Rightarrow>
       if \<not> ok then Inl (after_error label (Sentinel ErrProtocol))
       else (let key = trim_suffix key0 ''*'' in
         if key = base \<or> \<not> has_prefix key (base @ ''['') then Inl (op_error label (invalid ''not an array option''))
         else (case arrayIndex key base of
             Inl e \<Rightarrow> Inl (after_error label e)
           | Inr index \<Rightarrow>
               (case ParseWords v of
                  Inr [w] \<Rightarrow> Inr \<lparr>ae_Index = index, ae_Value = w\<rparr>
                | _ \<Rightarrow> Inl (after_error label (Sentinel ErrProtocol))))))"

definition array_name :: "bytes \<Rightarrow> goerr + bytes" where
  "array_name name =
     (case parseOptionName name of
        Inr (base, _, indexed) \<Rightarrow> if indexed then Inl (invalid ''option name'') else Inr base
      | Inl _ \<Rightarrow> Inl (invalid ''option name''))"

definition array_option ::
  "(nat \<Rightarrow> call_env) \<Rightarrow> (server \<Rightarrow> server_info) \<Rightarrow> option_target \<Rightarrow> bytes \<Rightarrow> bytes \<Rightarrow> goerr + array_entry list" where
  "array_option envs verified t label name =
     (case labelled label (bind_res (array_name name) (\<lambda>base.
        bind_res (prepare (envs 0) verified t) (\<lambda>(s, op, g).
        bind_res (answered (execute (envs 1) s op (plainPlan \<lparr>cmd_name = ''show-options'',
          cmd_args = target_args t @ [''-A'', ''--'', base]\<rparr>) g None)) (\<lambda>r. Inr (base, r))))) of
        Inl e \<Rightarrow> Inl e
      | Inr (base, r) \<Rightarrow> map_res (\<lambda>line. parseArrayLine label line base) (output_lines (res_stdout r)))"

definition validateArrayUpdates :: "array_update list \<Rightarrow> goerr option" where
  "validateArrayUpdates updates =
     (if list_all (\<lambda>u. 0 \<le> au_Index u \<and> au_Index u \<le> 2 ^ 30 \<and> ValidString (au_Value u)) updates then None
      else Some (invalid ''array entry''))"

definition updateArrayStepArgs :: "option_target \<Rightarrow> bytes \<Rightarrow> array_update \<Rightarrow> bytes list" where
  "updateArrayStepArgs t name u =
     target_args t @ (if au_Unset u then [''-u''] else []) @
     [''--'', name @ ''['' @ itoa (au_Index u) @ '']''] @ (if au_Unset u then [] else [au_Value u])"

definition arrayUpdateError :: "goerr \<Rightarrow> nat \<Rightarrow> step_outcome list \<Rightarrow> goerr" where
  "arrayUpdateError e i steps =
     (let eff = oc_effect (outcomeOf e) in
      OperationError ''UpdateArray''
        \<lparr>oc_effect = (if 0 < i \<and> eff = EffectNotSent then EffectUnknown else eff),
         oc_steps = steps[i := (steps ! i)\<lparr>step_effect := eff\<rparr>], oc_created = []\<rparr> e)"

definition update_plan :: "option_target \<Rightarrow> bytes \<Rightarrow> array_update \<Rightarrow> plan" where
  "update_plan t base u = emptyPlan \<lparr>cmd_name = ''set-option'', cmd_args = updateArrayStepArgs t base u\<rparr>"

text \<open>The loop of \<open>updateArray\<close>: \<open>i\<close> is the index of the next update.\<close>

fun update_loop ::
  "(nat \<Rightarrow> call_env) \<Rightarrow> server \<Rightarrow> option_target \<Rightarrow> bytes \<Rightarrow> guard option \<Rightarrow> nat \<Rightarrow> operation \<Rightarrow> step_outcome list \<Rightarrow> nat list \<Rightarrow>
   array_update list \<Rightarrow> nat list \<times> goerr option" where
  "update_loop envs s t base g i op steps applied [] = (applied, None)"
| "update_loop envs s t base g i op steps applied (u # us) =
     (case execute (envs i) s op (update_plan t base u) g None of
        ((r, Some e), op') \<Rightarrow> (applied, Some (arrayUpdateError e i steps))
      | ((r, None), op') \<Rightarrow>
          update_loop envs s t base g (i + 1) op' (steps[i := (steps ! i)\<lparr>step_effect := EffectConfirmed\<rparr>]) (applied @ [i]) us)"

definition not_sent_steps :: "nat \<Rightarrow> step_outcome list" where
  "not_sent_steps n = map (\<lambda>i. \<lparr>step_index = i, step_effect = EffectNotSent\<rparr>) [0..<n]"

definition updateArray ::
  "(nat \<Rightarrow> call_env) \<Rightarrow> call_env \<Rightarrow> (server \<Rightarrow> server_info) \<Rightarrow> option_target \<Rightarrow> bytes \<Rightarrow> bytes \<Rightarrow> array_update list \<Rightarrow>
   nat list \<times> goerr option" where
  "updateArray envs env verified t label name updates =
     (case array_name name of
        Inl e \<Rightarrow> ([], opError label (Some e))
      | Inr base \<Rightarrow>
          (case validateArrayUpdates updates of
             Some e \<Rightarrow> ([], opError label (Some e))
           | None \<Rightarrow>
               (case prepare env verified t of
                  Inl e \<Rightarrow> ([], opError label (Some e))
                | Inr (s, op, g) \<Rightarrow>
                    update_loop envs s t base g 0 op (not_sent_steps (length updates)) [] updates)))"

subsection \<open>What is known after an update of an array\<close>

text \<open>The operation before the \<open>i\<close>-th update, when the updates before it were run.\<close>

fun op_before ::
  "(nat \<Rightarrow> call_env) \<Rightarrow> server \<Rightarrow> option_target \<Rightarrow> bytes \<Rightarrow> guard option \<Rightarrow> operation \<Rightarrow> array_update list \<Rightarrow> nat \<Rightarrow> operation" where
  "op_before envs s t base g op us 0 = op"
| "op_before envs s t base g op us (Suc i) =
     snd (execute (envs i) s (op_before envs s t base g op us i) (update_plan t base (us ! i)) g None)"

definition step_answer ::
  "(nat \<Rightarrow> call_env) \<Rightarrow> server \<Rightarrow> option_target \<Rightarrow> bytes \<Rightarrow> guard option \<Rightarrow> operation \<Rightarrow> array_update list \<Rightarrow> nat \<Rightarrow> goerr option" where
  "step_answer envs s t base g op us i =
     snd (fst (execute (envs i) s (op_before envs s t base g op us i) (update_plan t base (us ! i)) g None))"

definition steps_at :: "nat \<Rightarrow> nat \<Rightarrow> effect \<Rightarrow> step_outcome list" where
  "steps_at n i eff = map (\<lambda>j. \<lparr>step_index = j,
     step_effect = (if j < i then EffectConfirmed else if j = i then eff else EffectNotSent)\<rparr>) [0..<n]"

lemma not_sent_steps_at: "not_sent_steps n = steps_at n 0 EffectNotSent"
  by (simp add: not_sent_steps_def steps_at_def)

lemma steps_at_confirm:
  "i < n \<Longrightarrow> (steps_at n i EffectNotSent)[i := (steps_at n i EffectNotSent ! i)\<lparr>step_effect := eff\<rparr>] = steps_at n i eff"
  by (rule nth_equalityI) (auto simp: steps_at_def nth_list_update)

lemma steps_at_Suc: "steps_at n i EffectConfirmed = steps_at n (Suc i) EffectNotSent"
  by (auto simp: steps_at_def)

definition ended_at ::
  "(nat \<Rightarrow> call_env) \<Rightarrow> server \<Rightarrow> option_target \<Rightarrow> bytes \<Rightarrow> guard option \<Rightarrow> operation \<Rightarrow> array_update list \<Rightarrow> nat \<Rightarrow>
   goerr option \<Rightarrow> bool" where
  "ended_at envs s t base g op us k err \<longleftrightarrow>
     (if k = length us then err = None
      else \<exists>e eff. step_answer envs s t base g op us k = Some e \<and>
        err = Some (OperationError ''UpdateArray''
          \<lparr>oc_effect = eff, oc_steps = steps_at (length us) k (oc_effect (outcomeOf e)), oc_created = []\<rparr> e) \<and>
        (eff = oc_effect (outcomeOf e) \<or> eff = EffectUnknown) \<and> (0 < k \<longrightarrow> eff \<noteq> EffectNotSent))"

lemma update_loop_steps:
  assumes "update_loop envs s t base g i (op_before envs s t base g op us i) (steps_at (length us) i EffectNotSent) [0..<i]
      (drop i us) = (applied, err)" and "i \<le> length us"
  shows "\<exists>k. i \<le> k \<and> k \<le> length us \<and> applied = [0..<k] \<and>
    (\<forall>j. i \<le> j \<longrightarrow> j < k \<longrightarrow> step_answer envs s t base g op us j = None) \<and>
    ended_at envs s t base g op us k err"
  using assms
proof (induction "length us - i" arbitrary: i)
  case 0
  then show ?case by (intro exI [where x = i]) (auto simp: ended_at_def)
next
  case (Suc m)
  then have lt: "i < length us" by simp
  then have d: "drop i us = us ! i # drop (Suc i) us" by (simp add: Cons_nth_drop_Suc)
  let ?x = "execute (envs i) s (op_before envs s t base g op us i) (update_plan t base (us ! i)) g None"
  obtain r e op' where x: "?x = ((r, e), op')" by (metis prod.collapse)
  show ?case
  proof (cases e)
    case None
    then have "update_loop envs s t base g (Suc i) (op_before envs s t base g op us (Suc i))
        (steps_at (length us) (Suc i) EffectNotSent) [0..<Suc i] (drop (Suc i) us) = (applied, err)"
      using Suc.prems(1) x lt by (simp add: d steps_at_confirm steps_at_Suc)
    from Suc.hyps(1) [OF _ this] Suc.hyps(2) lt obtain k where k: "Suc i \<le> k" "k \<le> length us" "applied = [0..<k]"
        "\<forall>j. Suc i \<le> j \<longrightarrow> j < k \<longrightarrow> step_answer envs s t base g op us j = None"
        "ended_at envs s t base g op us k err"
      by (metis Suc_leI add_diff_cancel_left' diff_Suc_1 diff_Suc_eq_diff_pred minus_nat.diff_Suc nat.sel(2))
    have "step_answer envs s t base g op us i = None"
      using x None by (simp add: step_answer_def)
    then have "\<forall>j. i \<le> j \<longrightarrow> j < k \<longrightarrow> step_answer envs s t base g op us j = None"
      using k(4) by (metis Suc_leI le_neq_implies_less)
    with k show ?thesis by (intro exI [where x = k] conjI) simp_all
  next
    case (Some e')
    with Suc.prems(1) x lt have "applied = [0..<i]" "step_answer envs s t base g op us i = Some e'"
        "err = Some (arrayUpdateError e' i (steps_at (length us) i EffectNotSent))"
      by (simp_all add: d step_answer_def)
    moreover from this lt have "ended_at envs s t base g op us i err"
      by (simp add: ended_at_def arrayUpdateError_def Let_def steps_at_confirm)
    ultimately show ?thesis using lt by (intro exI [where x = i]) simp
  qed
qed

text \<open>C30: An update of an array is honest about each of its steps. The updates that are reported as applied are the
  first ones, in order, and each of them was confirmed; the method returns no error exactly when all were. Otherwise
  the error names the first update that failed, with the effect of that failure; the ones before it are confirmed,
  the ones after it were not sent, and the effect of the whole is never "not sent" once a step was applied.\<close>

theorem updateArray_is_honest:
  assumes "update_loop envs s t base g 0 op (not_sent_steps (length us)) [] us = (applied, err)"
  shows "\<exists>k \<le> length us. applied = [0..<k] \<and> (\<forall>j < k. step_answer envs s t base g op us j = None) \<and>
    ended_at envs s t base g op us k err"
  using update_loop_steps [of envs s t base g 0 op us applied err] assms
  by (simp add: not_sent_steps_at)

definition tiny_target :: option_target where
  "tiny_target = Server_Options (Some plain_server)"

definition tiny_updates :: "array_update list" where
  "tiny_updates = [\<lparr>au_Index = 0, au_Value = ''a'', au_Unset = False\<rparr>, \<lparr>au_Index = 1, au_Value = ''b'', au_Unset = True\<rparr>,
     \<lparr>au_Index = 2, au_Value = ''c'', au_Unset = False\<rparr>]"

text \<open>The second run does not start.\<close>

definition tiny_envs :: "nat \<Rightarrow> call_env" where
  "tiny_envs i = quiet_env (if i = 1 then quiet_run\<lparr>pr_start := Some (Opaque ''no such file'')\<rparr> else quiet_run)"

lemma updateArray_is_honest_witness:
  "\<exists>err. update_loop tiny_envs plain_server tiny_target ''user-keys'' None 0 \<lparr>op_output = 99, op_stderr = 99, op_input = 9999\<rparr>
     (not_sent_steps (length tiny_updates)) [] tiny_updates = ([0], Some err)"
proof -
  let ?x = "update_loop tiny_envs plain_server tiny_target ''user-keys'' None 0 \<lparr>op_output = 99, op_stderr = 99, op_input = 9999\<rparr>
     (not_sent_steps (length tiny_updates)) [] tiny_updates"
  have a: "fst ?x = [0]" by code_simp
  obtain applied err where x: "?x = (applied, err)" by (metis prod.collapse)
  from updateArray_is_honest [OF x] obtain k where k: "applied = [0..<k]"
      "ended_at tiny_envs plain_server tiny_target ''user-keys'' None \<lparr>op_output = 99, op_stderr = 99, op_input = 9999\<rparr>
         tiny_updates k err"
    by blast
  have "applied = [0]" using a x by simp
  with k(1) have "k = 1" by (cases k) auto
  with k(2) have "err \<noteq> None" by (auto simp: ended_at_def tiny_updates_def)
  with x \<open>applied = [0]\<close> show ?thesis by auto
qed

lemma parse_boolOption [simp]: "parseOptionBool (boolOption v) = Inr v"
  by (simp add: parseOptionBool_def boolOption_def)

lemma parse_itoa_option [simp]: "- (2 ^ 63) \<le> n \<Longrightarrow> n < 2 ^ 63 \<Longrightarrow> parseOptionInt (itoa n) = Inr n"
  by (simp add: parseOptionInt_def atoi_itoa)

text \<open>A scalar is only read from a line that names the option exactly, or with the mark of an inherited value.\<close>

lemma scalar_of_exact:
  assumes "scalar_of label name out = Inr (Present v)"
  shows "\<exists>key. ParseWords (butlast out) = Inr [key, v] \<and> (key = name \<or> key = name @ ''*'' ) \<and> last out = LF"
proof -
  from assms obtain ws where ws: "ParseWords (butlast out) = Inr ws" "length ws = 2" "trim_suffix (ws ! 0) ''*'' = name"
      "v = ws ! 1" "last out = LF"
    by (auto simp: scalar_of_def split: if_split_asm sum.split_asm)
  then obtain key where k: "ws = [key, v]"
    by (metis (no_types, lifting) One_nat_def Suc_length_conv length_0_conv nth_Cons_0 nth_Cons_Suc numeral_2_eq_2)
  have "key = name \<or> key = name @ ''*''"
  proof (cases "has_suffix key ''*''")
    case True
    then obtain p where "key = p @ ''*''" by (auto simp: has_suffix_iff)
    with ws(3) k show ?thesis by simp
  next
    case False
    with ws(3) k show ?thesis by (simp add: trim_suffix_none)
  qed
  with ws(1,5) k show ?thesis by blast
qed

end
