(* ===== verification/Tmux_Environment.thy ===== *)
theory Tmux_Environment
  imports Tmux_Options
begin

text \<open>
  \<open>tmux/environment.go\<close>: the environment of a server or a session. The list is read in the form that a shell can
  run, because only that form tells a newline in a value from the end of an entry.
\<close>

subsection \<open>Entries\<close>

record environment_value =
  ev_Value :: "bytes gvalue"
  ev_Unset :: bool
  ev_Hidden :: bool

record environment_entry =
  en_Name :: bytes
  en_Value :: environment_value

definition Server_Environment :: "server option \<Rightarrow> option_target" where
  "Server_Environment s = \<lparr>ot_server = s, ot_h = zeroHandle, ot_scope = ScopeGlobalSession\<rparr>"

definition Session_Environment :: "handle \<Rightarrow> option_target" where
  "Session_Environment h = \<lparr>ot_server = h_server h, ot_h = h, ot_scope = ScopeSession\<rparr>"

definition environment_base :: "option_target \<Rightarrow> bytes list" where
  "environment_base t = (if ot_scope t = ScopeGlobalSession then [''-g''] else [''-t'', h_id (ot_h t)])"

definition storedEnvName :: "bytes \<Rightarrow> bool" where
  "storedEnvName name \<longleftrightarrow> name \<noteq> [] \<and> list_all (\<lambda>c. \<not> (code c \<le> 32 \<or> c = CHR ''='' \<or> code c = 127)) name"

subsection \<open>One variable\<close>

definition absent_value :: "bool \<Rightarrow> bool \<Rightarrow> environment_value" where
  "absent_value unset hidden = \<lparr>ev_Value = Unavailable, ev_Unset = unset, ev_Hidden = hidden\<rparr>"

definition present_value :: "bytes \<Rightarrow> bool \<Rightarrow> environment_value" where
  "present_value v hidden = \<lparr>ev_Value = Present v, ev_Unset = False, ev_Hidden = hidden\<rparr>"

text \<open>What \<open>show-environment\<close> printed for one name.\<close>

definition variable_of :: "bytes \<Rightarrow> bool \<Rightarrow> bytes \<Rightarrow> goerr + environment_value" where
  "variable_of name hidden out =
     (let data = trim_suffix out [LF] in
      if out = [] then Inr (absent_value False hidden)
      else if data = ''-'' @ name then Inr (absent_value True hidden)
      else if \<not> has_prefix data (name @ ''='') then Inl (after_error ''EnvironmentScope.Get'' (Sentinel ErrProtocol))
      else Inr (present_value (drop (length name + 1) data) hidden))"

definition GetWith ::
  "(nat \<Rightarrow> call_env) \<Rightarrow> (server \<Rightarrow> server_info) \<Rightarrow> option_target \<Rightarrow> bytes \<Rightarrow> bool \<Rightarrow> goerr + environment_value" where
  "GetWith envs verified t name hidden =
     (if \<not> storedEnvName name then Inl (op_error ''EnvironmentScope.Get'' (invalid ''environment name''))
      else (case prepare (envs 0) verified t of
          Inl e \<Rightarrow> Inl (op_error ''EnvironmentScope.Get'' e)
        | Inr (s, op, g) \<Rightarrow>
            (case execute (envs 1) s op (plainPlan \<lparr>cmd_name = ''show-environment'',
                cmd_args = environment_base t @ (if hidden then [''-h''] else []) @ [''--'', name]\<rparr>) g None of
               ((r, Some e), op') \<Rightarrow>
                 if res_stderr r = ''unknown variable: '' @ name @ [LF] then Inr (absent_value False hidden)
                 else Inl (op_error ''EnvironmentScope.Get'' e)
             | ((r, None), op') \<Rightarrow> variable_of name hidden (res_stdout r))))"

subsection \<open>All variables\<close>

text \<open>The value up to its closing quote, and the text after that; \<open>b\<close> is the value so far.\<close>

fun unescapeShellValue :: "bytes \<Rightarrow> bytes \<Rightarrow> goerr + bytes \<times> bytes" where
  "unescapeShellValue b [] = Inl (Sentinel ErrProtocol)"
| "unescapeShellValue b (c # s) =
     (if c = dquote then Inr (b, s)
      else if c = backslash then
        (case s of [] \<Rightarrow> Inl (Sentinel ErrProtocol) | x # s' \<Rightarrow> unescapeShellValue (b @ [x]) s')
      else unescapeShellValue (b @ [c]) s)"

text \<open>The first record of the output and what is left after it.\<close>

definition shell_record :: "bool \<Rightarrow> bytes \<Rightarrow> goerr + environment_entry \<times> bytes" where
  "shell_record hidden s =
     (case cut_prefix s ''unset '' of
        Some aft \<Rightarrow>
          (case cut aft ('';'' @ [LF]) of (name, tail, found) \<Rightarrow>
            if \<not> found \<or> \<not> storedEnvName name then Inl (Sentinel ErrProtocol)
            else Inr (\<lparr>en_Name = name, en_Value = absent_value True hidden\<rparr>, tail))
      | None \<Rightarrow>
          (case cut s [CHR ''='', dquote] of (name, aft, found) \<Rightarrow>
            if \<not> found \<or> \<not> storedEnvName name then Inl (Sentinel ErrProtocol)
            else bind_res (unescapeShellValue [] aft) (\<lambda>(v, tail).
              case cut_prefix tail (''; export '' @ name @ '';'' @ [LF]) of
                None \<Rightarrow> Inl (Sentinel ErrProtocol)
              | Some rest \<Rightarrow> Inr (\<lparr>en_Name = name, en_Value = present_value v hidden\<rparr>, rest))))"

lemma unescape_shorter: "unescapeShellValue b s = Inr (v, tail) \<Longrightarrow> length tail < length s"
  by (induction b s rule: unescapeShellValue.induct) (auto split: if_splits list.splits)

lemma cut_shorter: "cut s sep = (a, b, True) \<Longrightarrow> length s = length a + length sep + length b"
  using cut_found [of s sep a b] by simp

lemma shell_record_shorter: "shell_record hidden s = Inr (entry, rest) \<Longrightarrow> length rest < length s"
proof (cases "cut_prefix s ''unset ''")
  case (Some aft)
  assume "shell_record hidden s = Inr (entry, rest)"
  with Some obtain name where "cut aft ('';'' @ [LF]) = (name, rest, True)"
    by (auto simp: shell_record_def split: prod.split_asm if_split_asm)
  with Some cut_shorter [OF this] show ?thesis by (auto simp: cut_prefix_Some_iff)
next
  case None
  assume "shell_record hidden s = Inr (entry, rest)"
  with None obtain name aft v tail where "cut s [CHR ''='', dquote] = (name, aft, True)"
      "unescapeShellValue [] aft = Inr (v, tail)" "tail = (''; export '' @ name @ '';'' @ [LF]) @ rest"
    by (auto simp: shell_record_def bind_res_Inr_iff cut_prefix_Some_iff split: prod.split_asm if_split_asm option.split_asm)
  with cut_shorter [OF this(1)] unescape_shorter [OF this(2)] show ?thesis by simp
qed

function parseShellEnvironment :: "bool \<Rightarrow> environment_entry list \<Rightarrow> bytes \<Rightarrow> goerr + environment_entry list" where
  "parseShellEnvironment hidden out s =
     (if s = [] then Inr out
      else (case shell_record hidden s of
          Inl e \<Rightarrow> Inl e
        | Inr (entry, rest) \<Rightarrow> parseShellEnvironment hidden (out @ [entry]) rest))"
  by pat_completeness auto
termination
  by (relation "measure (\<lambda>(hidden, out, s). length s)") (auto dest: shell_record_shorter)

declare parseShellEnvironment.simps [simp del]

definition ListWith ::
  "(nat \<Rightarrow> call_env) \<Rightarrow> (server \<Rightarrow> server_info) \<Rightarrow> option_target \<Rightarrow> bool \<Rightarrow> goerr + environment_entry list" where
  "ListWith envs verified t hidden =
     (case labelled ''EnvironmentScope.List'' (bind_res (prepare (envs 0) verified t) (\<lambda>(s, op, g).
         answered (execute (envs 1) s op (plainPlan \<lparr>cmd_name = ''show-environment'',
           cmd_args = environment_base t @ (if hidden then [''-h''] else []) @ [''-s'']\<rparr>) g None))) of
        Inl e \<Rightarrow> Inl e
      | Inr r \<Rightarrow> after ''EnvironmentScope.List'' (parseShellEnvironment hidden [] (res_stdout r)))"

subsection \<open>Changes\<close>

definition change ::
  "(nat \<Rightarrow> call_env) \<Rightarrow> (server \<Rightarrow> server_info) \<Rightarrow> option_target \<Rightarrow> bytes \<Rightarrow> bytes \<Rightarrow> bytes \<Rightarrow> bytes \<Rightarrow> goerr option" where
  "change envs verified t name v flag opName =
     (if \<not> storedEnvName name \<or> \<not> ValidString v then opError opName (Some (invalid ''environment entry''))
      else (case prepare (envs 0) verified t of
          Inl e \<Rightarrow> opError opName (Some e)
        | Inr (s, op, g) \<Rightarrow>
            opError opName (snd (fst (execute (envs 1) s op (emptyPlan \<lparr>cmd_name = ''set-environment'',
              cmd_args = environment_base t @ (if flag \<noteq> [] then [flag] else []) @ [''--'', name] @
                (if flag \<noteq> ''-u'' \<and> flag \<noteq> ''-r'' then [v] else [])\<rparr>) g None)))))"

definition Environment_Set where
  "Environment_Set envs verified t name v = change envs verified t name v [] ''EnvironmentScope.Set''"

definition Environment_SetHidden where
  "Environment_SetHidden envs verified t name v = change envs verified t name v ''-h'' ''EnvironmentScope.SetHidden''"

definition Environment_Unset where
  "Environment_Unset envs verified t name = change envs verified t name [] ''-u'' ''EnvironmentScope.Unset''"

definition Environment_Remove where
  "Environment_Remove envs verified t name = change envs verified t name [] ''-r'' ''EnvironmentScope.Remove''"

subsection \<open>Reading what tmux prints\<close>

text \<open>The form tmux prints: a backslash before the four characters that a shell interprets between double quotes.\<close>

definition shell_special :: "byte \<Rightarrow> bool" where
  "shell_special c \<longleftrightarrow> c = dquote \<or> c = backslash \<or> c = CHR ''$'' \<or> c = CHR ''`''"

definition shell_escape :: "bytes \<Rightarrow> bytes" where
  "shell_escape v = concat (map (\<lambda>c. if shell_special c then [backslash, c] else [c]) v)"

definition print_entry :: "environment_entry \<Rightarrow> bytes" where
  "print_entry entry =
     (case ev_Value (en_Value entry) of
        Present v \<Rightarrow> en_Name entry @ [CHR ''='', dquote] @ shell_escape v @ [dquote] @ ''; export '' @ en_Name entry @ '';'' @ [LF]
      | _ \<Rightarrow> ''unset '' @ en_Name entry @ '';'' @ [LF])"

definition entry_ok :: "bool \<Rightarrow> environment_entry \<Rightarrow> bool" where
  "entry_ok hidden entry \<longleftrightarrow> storedEnvName (en_Name entry) \<and>
     (en_Value entry = absent_value True hidden \<and> CHR '';'' \<notin> set (en_Name entry) \<or>
      (\<exists>v. en_Value entry = present_value v hidden))"

lemma unescape_escape: "unescapeShellValue b (shell_escape v @ dquote # rest) = Inr (b @ v, rest)"
proof (induction v arbitrary: b)
  case (Cons c v)
  then show ?case by (auto simp: shell_escape_def shell_special_def dquote_def backslash_def)
qed (simp add: shell_escape_def)

lemma stored_no_equals: "storedEnvName name \<Longrightarrow> CHR ''='' \<notin> set name"
  by (auto simp: storedEnvName_def list_all_iff)

lemma stored_no_blank:
  assumes "storedEnvName name"
  shows "CHR '' '' \<notin> set name"
proof
  assume "CHR '' '' \<in> set name"
  with assms have "\<not> code (CHR '' '') \<le> 32" unfolding storedEnvName_def list_all_iff by blast
  then show False by simp
qed

lemma different_stops:
  "x \<notin> set a \<Longrightarrow> y \<notin> set a \<Longrightarrow> x \<notin> set b \<Longrightarrow> y \<notin> set b \<Longrightarrow> x \<noteq> y \<Longrightarrow> a @ x # r \<noteq> b @ y # t"
proof (induction a arbitrary: b)
  case Nil
  then show ?case by (cases b) auto
next
  case (Cons c a)
  then show ?case by (cases b) auto
qed

lemma not_unset_prefix:
  assumes "storedEnvName name"
  shows "cut_prefix (name @ CHR ''='' # rest) ''unset '' = None"
proof (rule ccontr)
  assume "cut_prefix (name @ CHR ''='' # rest) ''unset '' \<noteq> None"
  then obtain t where t: "name @ CHR ''='' # rest = ''unset'' @ CHR '' '' # t"
    by (auto simp: cut_prefix_Some_iff)
  moreover have "name @ CHR ''='' # rest \<noteq> ''unset'' @ CHR '' '' # t"
    by (rule different_stops) (use stored_no_blank [OF assms] stored_no_equals [OF assms] in simp_all)
  ultimately show False by blast
qed

lemma shell_record_print:
  assumes "entry_ok hidden entry"
  shows "shell_record hidden (print_entry entry @ rest) = Inr (entry, rest)"
proof (cases "ev_Value (en_Value entry)")
  case (Present v)
  with assms have e: "en_Value entry = present_value v hidden" "storedEnvName (en_Name entry)"
    by (auto simp: entry_ok_def absent_value_def present_value_def)
  have p: "print_entry entry @ rest = en_Name entry @ [CHR ''='', dquote] @
      (shell_escape v @ dquote # ((''; export '' @ en_Name entry @ '';'' @ [LF]) @ rest))"
    by (simp add: print_entry_def Present)
  have "cut_prefix (print_entry entry @ rest) ''unset '' = None"
    unfolding p using not_unset_prefix [OF e(2)] by simp
  moreover have "cut (print_entry entry @ rest) [CHR ''='', dquote] =
      (en_Name entry, shell_escape v @ dquote # ((''; export '' @ en_Name entry @ '';'' @ [LF]) @ rest), True)"
    unfolding p using cut_fresh_head [OF stored_no_equals [OF e(2)], of "[dquote]"] by simp
  ultimately show ?thesis
    using e cut_prefix_append [of "''; export '' @ en_Name entry @ '';'' @ [LF]" rest]
    by (simp add: shell_record_def unescape_escape e(1) [symmetric])
next
  case Unavailable
  with assms have e: "en_Value entry = absent_value True hidden" "storedEnvName (en_Name entry)" "CHR '';'' \<notin> set (en_Name entry)"
    by (auto simp: entry_ok_def present_value_def)
  have "cut (en_Name entry @ ('';'' @ [LF]) @ rest) ('';'' @ [LF]) = (en_Name entry, rest, True)"
    using cut_fresh_head [OF e(3), of "[LF]" rest] by simp
  moreover have "print_entry entry @ rest = ''unset '' @ (en_Name entry @ ('';'' @ [LF]) @ rest)"
    by (simp add: print_entry_def Unavailable)
  ultimately show ?thesis
    using e(2) cut_prefix_append [of "''unset ''"] by (simp add: shell_record_def e(1) [symmetric])
next
  case Unsupported
  with assms show ?thesis by (auto simp: entry_ok_def present_value_def absent_value_def)
qed

lemma print_entry_nonempty: "print_entry entry \<noteq> []"
  by (simp add: print_entry_def split: gvalue.split)

lemma parse_print_entries:
  "list_all (entry_ok hidden) es \<Longrightarrow>
   parseShellEnvironment hidden out (concat (map print_entry es)) = Inr (out @ es)"
proof (induction es arbitrary: out)
  case (Cons entry es)
  then show ?case
    using print_entry_nonempty [of entry] shell_record_print [of hidden entry "concat (map print_entry es)"]
    by (subst parseShellEnvironment.simps) simp
qed (simp add: parseShellEnvironment.simps)

text \<open>C31: What tmux prints for a list of environment entries is read back as that list. Values may hold any byte, quotes,
  backslashes and newlines included, and even the text of another entry; names may be any that tmux stores.\<close>

theorem parseShellEnvironment_roundtrip:
  assumes "list_all (entry_ok hidden) es"
  shows "parseShellEnvironment hidden [] (concat (map print_entry es)) = Inr es"
  using parse_print_entries [OF assms, of "[]"] by simp

lemma parseShellEnvironment_roundtrip_witness:
  "let es = [\<lparr>en_Name = ''A'', en_Value = present_value (dquote # ''; export A;'' @ [LF] @ ''B='' @ [dquote, backslash]) False\<rparr>,
             \<lparr>en_Name = ''BASH_FUNC_f%%'', en_Value = absent_value True False\<rparr>] in
   parseShellEnvironment False [] (concat (map print_entry es)) = Inr es"
proof -
  have "list_all (entry_ok False) [\<lparr>en_Name = ''A'', en_Value = present_value (dquote # ''; export A;'' @ [LF] @ ''B='' @ [dquote, backslash]) False\<rparr>,
             \<lparr>en_Name = ''BASH_FUNC_f%%'', en_Value = absent_value True False\<rparr>]"
    by (auto simp: entry_ok_def storedEnvName_def)
  from parseShellEnvironment_roundtrip [OF this] show ?thesis by (simp add: Let_def)
qed

end
