(* ===== verification/Tmux_Input.thy ===== *)
theory Tmux_Input
  imports Read_Objects Tmux_Program
begin

text \<open>
  \<open>tmux/input.go\<close>: key names, what is sent to a pane, copy mode, and the capture of its screen. \<open>ctx\<close> is what the
  context of a call answers that has nothing to send: \<open>None\<close> for a nil context, otherwise its error, if any.
\<close>

subsection \<open>Key names\<close>

text \<open>\<open>strings.ToLower\<close>, as far as the result can be ASCII: besides the capital letters, U+212A becomes \<open>k\<close> and U+0130
  becomes \<open>i\<close>; no other rune has an ASCII lower case, and the rest is left as it is.\<close>

fun to_lower :: "bytes \<Rightarrow> bytes" where
  "to_lower [] = []"
| "to_lower (c # s) =
     (if has_prefix (c # s) [CHR 0xE2, CHR 0x84, CHR 0xAA] then CHR ''k'' # to_lower (drop 2 s)
      else if has_prefix (c # s) [CHR 0xC4, CHR 0xB0] then CHR ''i'' # to_lower (drop 1 s)
      else lower c # to_lower s)"

text \<open>\<open>strings.EqualFold\<close> of two texts of which the second is ASCII and has as many bytes as the first; the first
  then has the same number of runes only if it is ASCII too.\<close>

definition equal_fold_ascii :: "bytes \<Rightarrow> bytes \<Rightarrow> bool" where
  "equal_fold_ascii s t = (map lower s = map lower t)"

function trimModifiers :: "bytes \<Rightarrow> bytes" where
  "trimModifiers s =
     (if 2 \<le> length s \<and> s ! 1 = CHR ''-'' \<and> s ! 0 \<in> set ''CcMmSs'' then trimModifiers (drop 2 s)
      else if 2 \<le> length s \<and> s ! 0 = CHR ''^'' then trimModifiers (drop 1 s)
      else s)"
  by pat_completeness auto
termination
  by (relation "measure length") auto

declare trimModifiers.simps [simp del]

definition named_keys :: "bytes list" where
  "named_keys = [''enter'', ''escape'', ''tab'', ''btab'', ''bspace'', ''space'', ''up'', ''down'', ''left'', ''right'',
     ''home'', ''end'', ''pageup'', ''pagedown'', ''ppage'', ''npage'', ''pgup'', ''pgdn'',
     ''insert'', ''ic'', ''delete'', ''dc'',
     ''kpenter'', ''kp*'', ''kp+'', ''kp-'', ''kp/'', ''kp.'',
     ''kp0'', ''kp1'', ''kp2'', ''kp3'', ''kp4'', ''kp5'', ''kp6'', ''kp7'', ''kp8'', ''kp9'']"

definition isNamedKey :: "bytes \<Rightarrow> bool" where
  "isNamedKey s \<longleftrightarrow> to_lower s \<in> set named_keys"

definition isUserKey :: "bytes \<Rightarrow> bool" where
  "isUserKey s \<longleftrightarrow> \<not> (length s < 5 \<or> \<not> has_prefix s ''User'') \<and>
     (case atoi (drop 4 s) of Some n \<Rightarrow> 0 \<le> n \<and> n \<le> 1000 | None \<Rightarrow> False)"

definition mouse_buttons :: "bytes list" where
  "mouse_buttons = [''1'', ''2'', ''3'', ''6'', ''7'', ''8'', ''9'', ''10'', ''11'']"

definition mouse_events :: "bytes list" where
  "mouse_events = [''MouseMove'', ''WheelDown'', ''WheelUp''] @
     concat (map (\<lambda>event. map (\<lambda>button. event @ button) mouse_buttons)
       [''MouseDragEnd'', ''MouseDrag'', ''MouseDown'', ''MouseUp'', ''SecondClick'', ''DoubleClick'', ''TripleClick''])"

definition mouse_places :: "bytes list" where
  "mouse_places = [''pane'', ''border'', ''status'', ''statusleft'', ''statusright'', ''statusdefault'',
     ''scrollbarslider'', ''scrollbarup'', ''scrollbardown'', ''empty'']"

text \<open>The rest after the first event that fits: an event before a further digit is another button.\<close>

fun mouse_rest :: "bytes \<Rightarrow> bytes list \<Rightarrow> bytes option" where
  "mouse_rest s [] = None"
| "mouse_rest s (event # events) =
     (if length event < length s \<and> equal_fold_ascii (take (length event) s) event \<and> \<not> is_digit (s ! length event)
      then Some (drop (length event) s) else mouse_rest s events)"

definition isMouseKey :: "bytes \<Rightarrow> bool" where
  "isMouseKey s =
     (case mouse_rest s mouse_events of
        None \<Rightarrow> False
      | Some rest \<Rightarrow>
          to_lower rest \<in> set mouse_places \<or>
          (length rest = 8 \<and> equal_fold_ascii (take 7 rest) ''Control'' \<and> is_digit (rest ! 7)))"

definition isFunctionKey :: "bytes \<Rightarrow> bool" where
  "isFunctionKey s \<longleftrightarrow> \<not> (length s < 2 \<or> (s ! 0 \<noteq> CHR ''F'' \<and> s ! 0 \<noteq> CHR ''f'')) \<and>
     (case atoi (drop 1 s) of Some n \<Rightarrow> 1 \<le> n \<and> n \<le> 12 \<and> drop 1 s = itoa n | None \<Rightarrow> False)"

definition Key_Valid :: "bytes \<Rightarrow> bool" where
  "Key_Valid k =
     (if k = [] \<or> \<not> utf8_valid k \<or> NUL \<in> set k then False
      else if equal_fold k ''any'' \<or> equal_fold k ''none'' then True
      else (let s = trimModifiers k in
        if s = [] then False
        else if rune_len s = length s then (\<forall>c \<in> set s. 32 \<le> code c \<and> code c \<noteq> 127)
        else isNamedKey s \<or> isFunctionKey s \<or> isUserKey s \<or> isMouseKey s))"

lemma Key_Valid_text: "Key_Valid k \<Longrightarrow> k \<noteq> [] \<and> ValidString k"
  by (auto simp: Key_Valid_def ValidString_iff split: if_split_asm)

subsection \<open>What is sent to a pane\<close>

definition KeyEnter :: bytes where "KeyEnter = ''Enter''"

record send_keys_options =
  sk_ExpandFormat :: bool
  sk_Hex :: bool
  sk_KeyName :: bool
  sk_Reset :: bool
  sk_RepeatCount :: int
  sk_MouseForward :: bool
  sk_Client :: bytes

text \<open>The answer of a call without anything to send.\<close>

definition idle :: "bytes \<Rightarrow> goerr option option \<Rightarrow> goerr option" where
  "idle label ctx = opError label (case ctx of None \<Rightarrow> Some (invalid ''nil context'') | Some e \<Rightarrow> e)"

definition SendText :: "call_env \<Rightarrow> goerr option option \<Rightarrow> handle \<Rightarrow> bytes \<Rightarrow> goerr option" where
  "SendText env ctx p s =
     (case handle_check env p of
        Some e \<Rightarrow> opError ''Pane.SendText'' (Some e)
      | None \<Rightarrow>
          if \<not> ValidString s then opError ''Pane.SendText'' (Some (invalid ''text contains NUL; use a binary buffer''))
          else if s = [] then idle ''Pane.SendText'' ctx
          else actWithin env p ''Pane.SendText'' ''send-keys'' [''-t'', h_id p, ''-l'', ''--'', s])"

definition SendKeys :: "call_env \<Rightarrow> goerr option option \<Rightarrow> handle \<Rightarrow> bytes list \<Rightarrow> goerr option" where
  "SendKeys env ctx p keys =
     (case handle_check env p of
        Some e \<Rightarrow> opError ''Pane.SendKeys'' (Some e)
      | None \<Rightarrow>
          if \<not> list_all Key_Valid keys then opError ''Pane.SendKeys'' (Some (invalid ''key name''))
          else if keys = [] then idle ''Pane.SendKeys'' ctx
          else actWithin env p ''Pane.SendKeys'' ''send-keys'' ([''-t'', h_id p, ''--''] @ keys))"

definition submit_nodes :: "bytes \<Rightarrow> bytes \<Rightarrow> wireNode list" where
  "submit_nodes oid s =
     (if s \<noteq> [] then [leaf \<lparr>cmd_name = ''send-keys'', cmd_args = [''-t'', oid, ''-l'', ''--'', s]\<rparr>] else []) @
     [leaf \<lparr>cmd_name = ''send-keys'', cmd_args = [''-t'', oid, ''--'', KeyEnter]\<rparr>]"

definition Submit :: "call_env \<Rightarrow> handle \<Rightarrow> bytes \<Rightarrow> goerr option" where
  "Submit env p s =
     (case handle_check env p of
        Some e \<Rightarrow> opError ''Pane.Submit'' (Some e)
      | None \<Rightarrow>
          if \<not> ValidString s then opError ''Pane.Submit'' (Some (invalid ''text contains NUL''))
          else (case begin_op env (h_server p) of
              Inl e \<Rightarrow> opError ''Pane.Submit'' (Some e)
            | Inr (s', op) \<Rightarrow>
                opError ''Pane.Submit'' (snd (fst (execute env s' op
                  \<lparr>pl_nodes = submit_nodes (h_id p) s, pl_mode = replyEmpty, pl_allowStart = False\<rparr> (handle_guard p) None)))))"

definition sendKeysFlagArgs :: "send_keys_options \<Rightarrow> goerr + bytes list" where
  "sendKeysFlagArgs opts =
     (if sk_RepeatCount opts < 0 then Inl (invalid ''repeat count'')
      else if sk_Client opts \<noteq> [] \<and> \<not> ValidString (sk_Client opts) then Inl (invalid ''client'')
      else Inr ((if sk_ExpandFormat opts then [''-F''] else []) @ (if sk_Hex opts then [''-H''] else []) @
        (if sk_KeyName opts then [''-K''] else []) @ (if sk_Reset opts then [''-R''] else []) @
        (if sk_MouseForward opts then [''-M''] else []) @
        (if 0 < sk_RepeatCount opts then [''-N'', itoa (sk_RepeatCount opts)] else []) @
        (if sk_Client opts \<noteq> [] then [''-c'', sk_Client opts] else [])))"

text \<open>The loop ends at the first key that is refused.\<close>

definition validateKeyList :: "bytes list \<Rightarrow> bool \<Rightarrow> goerr option" where
  "validateKeyList keys hex =
     (if hex then (if list_all (\<lambda>k. ValidString k \<and> k \<noteq> []) keys then None else Some (invalid ''hex key''))
      else if list_all Key_Valid keys then None else Some (invalid ''key name''))"

definition sendTextArgs :: "bytes \<Rightarrow> bool \<Rightarrow> goerr + bytes list" where
  "sendTextArgs s hex =
     (if s = [] then Inr []
      else if hex then (case Fields s of [] \<Rightarrow> Inl (invalid ''hex text'') | parts \<Rightarrow> Inr (''--'' # parts))
      else Inr [''--'', s])"

definition SendKeysWith ::
  "call_env \<Rightarrow> goerr option option \<Rightarrow> handle \<Rightarrow> send_keys_options \<Rightarrow> bytes list \<Rightarrow> goerr option" where
  "SendKeysWith env ctx p opts keys =
     (case handle_check env p of
        Some e \<Rightarrow> opError ''Pane.SendKeys'' (Some e)
      | None \<Rightarrow>
          (case sendKeysFlagArgs opts of
             Inl e \<Rightarrow> opError ''Pane.SendKeys'' (Some e)
           | Inr flags \<Rightarrow>
               if keys = [] \<and> \<not> sk_Reset opts \<and> \<not> sk_MouseForward opts then idle ''Pane.SendKeys'' ctx
               else if keys = [] then actWithin env p ''Pane.SendKeys'' ''send-keys'' ([''-t'', h_id p] @ flags)
               else (case validateKeyList keys (sk_Hex opts) of
                   Some e \<Rightarrow> opError ''Pane.SendKeys'' (Some e)
                 | None \<Rightarrow> actWithin env p ''Pane.SendKeys'' ''send-keys'' ([''-t'', h_id p] @ flags @ [''--''] @ keys))))"

definition SendTextWith ::
  "call_env \<Rightarrow> goerr option option \<Rightarrow> handle \<Rightarrow> send_keys_options \<Rightarrow> bytes \<Rightarrow> goerr option" where
  "SendTextWith env ctx p opts s =
     (case handle_check env p of
        Some e \<Rightarrow> opError ''Pane.SendText'' (Some e)
      | None \<Rightarrow>
          if \<not> ValidString s then opError ''Pane.SendText'' (Some (invalid ''text contains NUL; use a binary buffer''))
          else (case sendKeysFlagArgs opts of
             Inl e \<Rightarrow> opError ''Pane.SendText'' (Some e)
           | Inr flags \<Rightarrow>
               if s = [] \<and> \<not> sk_Reset opts \<and> \<not> sk_MouseForward opts then idle ''Pane.SendText'' ctx
               else (case sendTextArgs s (sk_Hex opts) of
                   Inl e \<Rightarrow> opError ''Pane.SendText'' (Some e)
                 | Inr args \<Rightarrow> actWithin env p ''Pane.SendText'' ''send-keys''
                     ([''-t'', h_id p] @ flags @ (if \<not> sk_Hex opts \<and> \<not> sk_ExpandFormat opts then [''-l''] else []) @ args))))"

text \<open>The check of the handle is made again by \<open>act\<close>.\<close>

definition pane_act :: "call_env \<Rightarrow> handle \<Rightarrow> bytes \<Rightarrow> bytes \<Rightarrow> bytes list \<Rightarrow> goerr option" where
  "pane_act env p label name args =
     (case handle_check env p of Some e \<Rightarrow> opError label (Some e) | None \<Rightarrow> actWithin env p label name args)"

definition SendPrefix where
  "SendPrefix env p = pane_act env p ''Pane.SendPrefix'' ''send-prefix'' [''-t'', h_id p]"

definition SendSecondaryPrefix where
  "SendSecondaryPrefix env p = pane_act env p ''Pane.SendSecondaryPrefix'' ''send-prefix'' [''-2'', ''-t'', h_id p]"

definition ClockMode where
  "ClockMode env p = pane_act env p ''Pane.ClockMode'' ''clock-mode'' [''-t'', h_id p]"

subsection \<open>Copy mode\<close>

record copy_mode_options =
  cm_PageUp :: bool
  cm_Mouse :: bool
  cm_Exit :: bool

definition CopyMode :: "call_env \<Rightarrow> handle \<Rightarrow> copy_mode_options \<Rightarrow> goerr option" where
  "CopyMode env p opts = actWithin env p ''Pane.CopyMode'' ''copy-mode''
     ([''-t'', h_id p] @ (if cm_Exit opts then [''-q''] else []) @ (if cm_PageUp opts then [''-u''] else []) @
      (if cm_Mouse opts then [''-M''] else []))"

definition CopyAction :: "call_env \<Rightarrow> handle \<Rightarrow> bytes \<Rightarrow> bytes list \<Rightarrow> goerr option" where
  "CopyAction env p action args =
     (if \<not> ValidCommand action then opError ''Pane.CopyAction'' (Some (invalid ''copy-mode action''))
      else if \<not> list_all ValidString args then opError ''Pane.CopyAction'' (Some (invalid ''copy-mode argument''))
      else actWithin env p ''Pane.CopyAction'' ''send-keys'' ([''-X'', ''-t'', h_id p, ''--'', action] @ args))"

subsection \<open>Capture\<close>

datatype capture_screen =
  CaptureScreenCurrent | CaptureScreenAlternate | CaptureScreenCopyMode | CaptureScreenOther

record capture_options =
  co_Start :: "int option"
  co_End :: "int option"
  co_EntireHistory :: bool
  co_ScrollbackEnd :: bool
  co_JoinWrapped :: bool
  co_IncludeEscapes :: bool
  co_PreserveSpaces :: bool
  co_PaneState :: bool
  co_Quiet :: bool
  co_TrimEmptyCells :: bool
  co_Screen :: capture_screen
  co_Buffer :: bytes
  co_MaxBytes :: int
  co_EscapeNonPrintable :: bool
  co_AlternateScreenOnly :: bool

definition int32_range :: "int \<Rightarrow> bool" where
  "int32_range n \<longleftrightarrow> - (2 ^ 31) \<le> n \<and> n \<le> 2 ^ 31 - 1"

definition captureRangeArgs :: "capture_options \<Rightarrow> goerr + bytes list" where
  "captureRangeArgs opts =
     bind_res (if co_EntireHistory opts then Inr [''-S'', ''-'']
               else case co_Start opts of
                   None \<Rightarrow> Inr []
                 | Some n \<Rightarrow> if int32_range n then Inr [''-S'', itoa n] else Inl (invalid ''capture start'')) (\<lambda>from.
     if co_ScrollbackEnd opts \<and> co_End opts \<noteq> None then Inl (invalid ''capture options'')
     else if co_ScrollbackEnd opts then Inr (from @ [''-E'', ''-''])
     else (case co_End opts of
         None \<Rightarrow> Inr from
       | Some n \<Rightarrow> if int32_range n then Inr (from @ [''-E'', itoa n]) else Inl (invalid ''capture end'')))"

definition captureFlagArgs :: "capture_options \<Rightarrow> bytes list" where
  "captureFlagArgs opts =
     (if co_JoinWrapped opts then [''-J''] else []) @ (if co_IncludeEscapes opts then [''-e''] else []) @
     (if co_PreserveSpaces opts then [''-N''] else []) @ (if co_PaneState opts then [''-P''] else []) @
     (if co_Quiet opts then [''-q''] else []) @ (if co_TrimEmptyCells opts then [''-T''] else []) @
     (if co_Screen opts = CaptureScreenAlternate then [''-a''] else []) @
     (if co_Screen opts = CaptureScreenCopyMode then [''-M''] else []) @
     (if co_Buffer opts \<noteq> [] then [''-b'', co_Buffer opts] else []) @
     (if co_EscapeNonPrintable opts then [''-C''] else []) @ (if co_AlternateScreenOnly opts then [''-F''] else [])"

definition captureArgs :: "bytes \<Rightarrow> capture_options \<Rightarrow> goerr + bytes list" where
  "captureArgs oid opts =
     (if co_Screen opts = CaptureScreenOther \<or> co_MaxBytes opts < 0 \<or> (co_EntireHistory opts \<and> co_Start opts \<noteq> None) \<or>
         (co_ScrollbackEnd opts \<and> co_End opts \<noteq> None)
      then Inl (invalid ''capture options'')
      else if co_Buffer opts \<noteq> [] \<and> \<not> ValidString (co_Buffer opts) then Inl (invalid ''buffer name'')
      else bind_res (captureRangeArgs opts) (\<lambda>range.
        Inr ((if co_Buffer opts = [] then [''-p''] else []) @ [''-t'', oid] @ range @ captureFlagArgs opts)))"

text \<open>What the two captures check before they begin.\<close>

definition capture_checked :: "call_env \<Rightarrow> handle \<Rightarrow> capture_options \<Rightarrow> goerr + (server \<times> operation) \<times> bytes list" where
  "capture_checked env p opts =
     (case handle_check env p of
        Some e \<Rightarrow> Inl e
      | None \<Rightarrow>
          bind_res (captureArgs (h_id p) opts) (\<lambda>args.
          case h_server p of
            None \<Rightarrow> Inl (Sentinel ErrInvalidHandle)
          | Some s \<Rightarrow>
              if lim_OutputBytes (cfg_Limits (srv_config s)) < co_MaxBytes opts
              then Inl (invalid ''MaxBytes may only tighten the configured limit'')
              else bind_res (begin_op env (h_server p)) (\<lambda>so. Inr (so, args))))"

text \<open>At most \<open>MaxBytes\<close> of an output, and the error when it was longer.\<close>

definition bounded_output :: "bytes \<Rightarrow> int \<Rightarrow> bytes \<Rightarrow> goerr option \<Rightarrow> bytes \<times> goerr option" where
  "bounded_output label maxBytes out err =
     (if 0 < maxBytes \<and> maxBytes < int (length out)
      then (take (nat maxBytes) out, if err = None then Some (after_error label (Sentinel ErrOutputLimit)) else err)
      else (out, err))"

definition Capture :: "call_env \<Rightarrow> handle \<Rightarrow> capture_options \<Rightarrow> bytes \<times> goerr option" where
  "Capture env p opts =
     (case capture_checked env p opts of
        Inl e \<Rightarrow> ([], opError ''Pane.Capture'' (Some e))
      | Inr ((s, op), args) \<Rightarrow>
          let op1 = (if 0 < co_MaxBytes opts
                then op\<lparr>op_output := min (op_output op) (co_MaxBytes opts + int (length guardOK))\<rparr> else op);
              ((r, err), op2) = execute env s op1 (plainPlan \<lparr>cmd_name = ''capture-pane'', cmd_args = args\<rparr>) (handle_guard p) None;
              (out, err') = bounded_output ''Pane.Capture'' (co_MaxBytes opts) (res_stdout r) err
          in (out, opError ''Pane.Capture'' err'))"

text \<open>The title is the only field of the record before the screen.\<close>

definition title_and_screen :: "bytes \<Rightarrow> goerr + bytes \<times> bytes" where
  "title_and_screen out =
     (case ReadRecordFields (int (length out)) (bytes_reader out) of
        (Inr [title], r) \<Rightarrow> Inr (title, src_rest r)
      | _ \<Rightarrow> Inl (after_error ''Pane.CaptureWithTitle'' (Sentinel ErrProtocol)))"

definition title_nodes :: "bytes \<Rightarrow> bytes list \<Rightarrow> wireNode list" where
  "title_nodes oid args =
     [leaf \<lparr>cmd_name = ''display-message'', cmd_args = [''-p'', ''-t'', oid, RecordFormat [''pane_title'']]\<rparr>,
      leaf \<lparr>cmd_name = ''capture-pane'', cmd_args = args\<rparr>]"

definition CaptureWithTitle :: "call_env \<Rightarrow> handle \<Rightarrow> capture_options \<Rightarrow> (bytes \<times> bytes) \<times> goerr option" where
  "CaptureWithTitle env p opts =
     (case capture_checked env p opts of
        Inl e \<Rightarrow> (([], []), opError ''Pane.CaptureWithTitle'' (Some e))
      | Inr ((s, op), args) \<Rightarrow>
          (case execute env s op \<lparr>pl_nodes = title_nodes (h_id p) args, pl_mode = replyRaw, pl_allowStart = False\<rparr>
              (handle_guard p) None of
             ((r, Some e), op') \<Rightarrow> (([], []), opError ''Pane.CaptureWithTitle'' (Some e))
           | ((r, None), op') \<Rightarrow>
               (case title_and_screen (res_stdout r) of
                  Inl e \<Rightarrow> (([], []), Some e)
                | Inr (title, screen) \<Rightarrow>
                    let (out, err) = bounded_output ''Pane.CaptureWithTitle'' (co_MaxBytes opts) screen None
                    in ((out, title), opError ''Pane.CaptureWithTitle'' err))))"

definition CaptureToBuffer :: "call_env \<Rightarrow> handle \<Rightarrow> capture_options \<Rightarrow> goerr option" where
  "CaptureToBuffer env p opts =
     (case handle_check env p of
        Some e \<Rightarrow> opError ''Pane.CaptureToBuffer'' (Some e)
      | None \<Rightarrow>
          if co_Buffer opts = [] then opError ''Pane.CaptureToBuffer'' (Some (invalid ''buffer name''))
          else (case captureArgs (h_id p) opts of
              Inl e \<Rightarrow> opError ''Pane.CaptureToBuffer'' (Some e)
            | Inr args \<Rightarrow> actWithin env p ''Pane.CaptureToBuffer'' ''capture-pane'' args))"

subsection \<open>A capture keeps to its bound\<close>

text \<open>C33: A capture with a bound returns at most that many bytes, and if it returns no error it returns everything that
  tmux printed, unchanged: an output is never cut off silently.\<close>

theorem Capture_is_bounded:
  assumes "Capture env p opts = (out, err)" and "0 < co_MaxBytes opts"
  shows "int (length out) \<le> co_MaxBytes opts \<and>
    (err = None \<longrightarrow> (\<exists>s op args r op'. begin_op env (h_server p) = Inr (s, op) \<and> captureArgs (h_id p) opts = Inr args \<and>
       execute env s (op\<lparr>op_output := min (op_output op) (co_MaxBytes opts + int (length guardOK))\<rparr>)
         (plainPlan \<lparr>cmd_name = ''capture-pane'', cmd_args = args\<rparr>) (handle_guard p) None = ((r, None), op') \<and>
       out = res_stdout r))"
  using assms
  by (auto simp: Capture_def capture_checked_def bind_res_Inr_iff bounded_output_def Let_def opError_None_iff simp del: not_None_eq
      split: sum.split_asm prod.split_asm option.split_asm if_split_asm)

definition tiny_pane :: handle where
  "tiny_pane = newHandle plain_server ''%1'' ObjectKindPane zero_identity"

definition tiny_capture :: capture_options where
  "tiny_capture = \<lparr>co_Start = None, co_End = Some 5, co_EntireHistory = True, co_ScrollbackEnd = False, co_JoinWrapped = False,
     co_IncludeEscapes = True, co_PreserveSpaces = False, co_PaneState = False, co_Quiet = False, co_TrimEmptyCells = False,
     co_Screen = CaptureScreenCurrent, co_Buffer = [], co_MaxBytes = 4, co_EscapeNonPrintable = False,
     co_AlternateScreenOnly = False\<rparr>"

abbreviation tiny_capture_env :: call_env where
  "tiny_capture_env \<equiv> quiet_env (quiet_run\<lparr>pr_stdout := [''screen'']\<rparr>)"

lemma tiny_capture_begins:
  "capture_checked tiny_capture_env tiny_pane tiny_capture =
     Inr ((plain_server, \<lparr>op_output = 4194304, op_stderr = 4194304, op_input = 1048576\<rparr>),
          [''-p'', ''-t'', ''%1'', ''-S'', ''-'', ''-E'', ''5'', ''-e''])"
proof -
  have "PaneID_Valid ''%1''"
    by (simp add: PaneID_Valid_def validID_def parse_uint_def digits_val_def digit_val_def is_digit_def)
  then have "handle_check tiny_capture_env tiny_pane = None"
    by (simp add: handle_check_def handle_valid_def tiny_pane_def newHandle_def id_Valid_def zero_identity_def
        identity_isZero_def identity_valid_def endpoint_isZero_def zero_endpoint_def plain_server_def)
  moreover have "captureArgs (h_id tiny_pane) tiny_capture = Inr [''-p'', ''-t'', ''%1'', ''-S'', ''-'', ''-E'', ''5'', ''-e'']"
    by code_simp
  moreover have "begin_op tiny_capture_env (Some plain_server) =
      Inr (plain_server, \<lparr>op_output = 4194304, op_stderr = 4194304, op_input = 1048576\<rparr>)"
    by code_simp
  moreover have "lim_OutputBytes (cfg_Limits (srv_config plain_server)) = 4194304" by code_simp
  ultimately show ?thesis
    by (simp add: capture_checked_def tiny_pane_def newHandle_def tiny_capture_def)
qed

lemma opError_Some: "\<exists>y. opError label (Some e) = Some y"
  by (cases "opError label (Some e)") auto

lemma Capture_is_bounded_witness:
  "\<exists>err. Capture tiny_capture_env tiny_pane tiny_capture = (''scre'', Some err)"
proof -
  let ?x = "execute tiny_capture_env plain_server \<lparr>op_output = min 4194304 (4 + int (length guardOK)), op_stderr = 4194304, op_input = 1048576\<rparr>
     (plainPlan \<lparr>cmd_name = ''capture-pane'', cmd_args = [''-p'', ''-t'', ''%1'', ''-S'', ''-'', ''-E'', ''5'', ''-e'']\<rparr>)
     (handle_guard tiny_pane) None"
  have out: "take 4 (res_stdout (fst (fst ?x))) = ''scre''" "4 < int (length (res_stdout (fst (fst ?x))))"
    by code_simp+
  obtain r e op' where x: "?x = ((r, e), op')" by (metis prod.collapse)
  obtain out err where c: "Capture tiny_capture_env tiny_pane tiny_capture = (out, err)" by (metis prod.collapse)
  have "co_MaxBytes tiny_capture = 4" by (simp add: tiny_capture_def)
  then have o: "out = ''scre'' \<and> (\<exists>y. err = Some y)"
    using c x out by (auto simp: Capture_def tiny_capture_begins bounded_output_def Let_def opError_Some)
  moreover from Capture_is_bounded [OF c] have "int (length out) \<le> 4" by (simp add: tiny_capture_def)
  ultimately show ?thesis using c by auto
qed

end
