(* ===== verification/Tmux_Typed_Options.thy ===== *)
theory Tmux_Typed_Options
  imports Tmux_Options Tmux_Input
begin

text \<open>
  The accessors of \<open>tmux/options_generated.go\<close>: for each option of a scope a method that reads it, one that sets it and one
  that unsets it, all of one form. An accessor is the names it uses and how its values are written and read; the four
  structs of the source are the first name.
\<close>

subsection \<open>The form of an accessor\<close>

record 'a accessor =
  ac_struct :: bytes
  ac_method :: bytes
  ac_name :: bytes
  ac_parse :: "bytes \<Rightarrow> goerr + 'a"
  ac_format :: "'a \<Rightarrow> goerr + bytes"

definition accessor_of :: "bytes \<Rightarrow> bytes \<Rightarrow> bytes \<Rightarrow> (bytes \<Rightarrow> goerr + 'a) \<Rightarrow> ('a \<Rightarrow> goerr + bytes) \<Rightarrow> 'a accessor" where
  "accessor_of st meth name p f = \<lparr>ac_struct = st, ac_method = meth, ac_name = name, ac_parse = p, ac_format = f\<rparr>"

definition text_accessor :: "bytes \<Rightarrow> bytes \<Rightarrow> bytes \<Rightarrow> bytes accessor" where
  "text_accessor st meth name = accessor_of st meth name Inr Inr"

definition bool_accessor :: "bytes \<Rightarrow> bytes \<Rightarrow> bytes \<Rightarrow> bool accessor" where
  "bool_accessor st meth name = accessor_of st meth name parseOptionBool (\<lambda>v. Inr (boolOption v))"

definition int_accessor :: "bytes \<Rightarrow> bytes \<Rightarrow> bytes \<Rightarrow> int \<Rightarrow> int accessor" where
  "int_accessor st meth name lowest = accessor_of st meth name parseOptionInt
     (\<lambda>v. if v < lowest \<or> v > 2147483647 then Inl (invalid ''range'') else Inr (itoa v))"

definition enum_accessor :: "bytes \<Rightarrow> bytes \<Rightarrow> bytes \<Rightarrow> bytes list \<Rightarrow> bytes accessor" where
  "enum_accessor st meth name values' = accessor_of st meth name Inr
     (\<lambda>v. if v \<notin> set values' then Inl (invalid ''enum value'') else Inr v)"

definition key_accessor :: "bytes \<Rightarrow> bytes \<Rightarrow> bytes \<Rightarrow> bytes accessor" where
  "key_accessor st meth name = accessor_of st meth name Inr (\<lambda>v. if \<not> Key_Valid v then Inl (invalid ''key value'') else Inr v)"

text \<open>The three methods. A text is not converted, which is the same as the conversion that changes nothing.\<close>

definition ac_label :: "'a accessor \<Rightarrow> bytes \<Rightarrow> bytes" where
  "ac_label a verb = ac_struct a @ ''.'' @ verb @ ac_method a"

definition typed_get ::
  "(nat \<Rightarrow> call_env) \<Rightarrow> (server \<Rightarrow> server_info) \<Rightarrow> option_target \<Rightarrow> 'a accessor \<Rightarrow> goerr + 'a option_value" where
  "typed_get envs verified t a =
     bind_res (read_option envs verified t (ac_label a []) (ac_name a)) (\<lambda>v.
       case convertOption v (ac_parse a) of
         Inl e \<Rightarrow> Inl (the (afterError (ac_label a []) (Some e) []))
       | Inr r \<Rightarrow> Inr r)"

definition typed_set ::
  "(nat \<Rightarrow> call_env) \<Rightarrow> (server \<Rightarrow> server_info) \<Rightarrow> option_target \<Rightarrow> 'a accessor \<Rightarrow> 'a \<Rightarrow> goerr option" where
  "typed_set envs verified t a v =
     (case ac_format a v of
        Inl e \<Rightarrow> opError (ac_label a ''Set'') (Some e)
      | Inr s \<Rightarrow> set_option envs verified t (ac_label a ''Set'') (ac_name a) s False)"

definition typed_unset ::
  "(nat \<Rightarrow> call_env) \<Rightarrow> (server \<Rightarrow> server_info) \<Rightarrow> option_target \<Rightarrow> 'a accessor \<Rightarrow> goerr option" where
  "typed_unset envs verified t a = set_option envs verified t (ac_label a ''Unset'') (ac_name a) [] True"

text \<open>The untyped methods of a scope only add its name.\<close>

definition Options_Get where "Options_Get st envs verified t name = read_option envs verified t (st @ ''.Get'') name"
definition Options_Set where "Options_Set st envs verified t name v = set_option envs verified t (st @ ''.Set'') name v False"
definition Options_SetWith where "Options_SetWith st envs verified t name opts = setWith envs verified t (st @ ''.Set'') name opts"
definition Options_Unset where "Options_Unset st envs verified t name = set_option envs verified t (st @ ''.Unset'') name [] True"
definition Options_UnsetWith where "Options_UnsetWith st envs verified t name cascade = unsetWith envs verified t (st @ ''.Unset'') name cascade"
definition Options_List where "Options_List st envs verified t = list_options envs verified t (st @ ''.List'') False False"
definition Options_ListWith where
  "Options_ListWith st envs verified t inherited hooks = list_options envs verified t (st @ ''.List'') inherited hooks"
definition Options_User where "Options_User st envs verified t name = userGet envs verified (st @ ''.User'') t name"
definition Options_SetUser where "Options_SetUser st envs verified t name v = userSet envs verified (st @ ''.SetUser'') t name v False"
definition Options_SetUserWith where "Options_SetUserWith st envs verified t name opts = userSetWith envs verified (st @ ''.SetUser'') t name opts"
definition Options_UnsetUser where "Options_UnsetUser st envs verified t name = userSet envs verified (st @ ''.UnsetUser'') t name [] True"
definition Options_UnsetUserWith where
  "Options_UnsetUserWith st envs verified t name cascade = userUnsetWith envs verified (st @ ''.UnsetUser'') t name cascade"

definition Options_Array where "Options_Array st envs verified t name = array_option envs verified t (st @ ''.Array'') name"
definition Options_UpdateArray where
  "Options_UpdateArray st envs env verified t name updates = updateArray envs env verified t (st @ ''.UpdateArray'') name updates"

subsection \<open>The accessors\<close>

definition ClipboardMode_values :: "bytes list" where
  "ClipboardMode_values = [''external'', ''off'', ''on'']"

definition DetachPolicy_values :: "bytes list" where
  "DetachPolicy_values = [''next'', ''no-detached'', ''off'', ''on'', ''previous'']"

definition ModeKeys_values :: "bytes list" where
  "ModeKeys_values = [''emacs'', ''vi'']"

definition PaneBorderStatus_values :: "bytes list" where
  "PaneBorderStatus_values = [''bottom'', ''off'', ''top'']"

definition PassthroughPolicy_values :: "bytes list" where
  "PassthroughPolicy_values = [''all'', ''off'', ''on'']"

definition RemainOnExitPolicy_values :: "bytes list" where
  "RemainOnExitPolicy_values = [''failed'', ''off'', ''on'']"

definition StatusMode_values :: "bytes list" where
  "StatusMode_values = [''5'', ''4'', ''off'', ''on'', ''3'', ''2'']"

definition StatusPosition_values :: "bytes list" where
  "StatusPosition_values = [''bottom'', ''top'']"

definition WindowSizePolicy_values :: "bytes list" where
  "WindowSizePolicy_values = [''largest'', ''latest'', ''manual'', ''smallest'']"

definition PaneOptions_RemainOnExit :: "bytes accessor" where
  "PaneOptions_RemainOnExit = enum_accessor ''PaneOptions'' ''RemainOnExit'' ''remain-on-exit'' RemainOnExitPolicy_values"

definition PaneOptions_SynchronizePanes :: "bool accessor" where
  "PaneOptions_SynchronizePanes = bool_accessor ''PaneOptions'' ''SynchronizePanes'' ''synchronize-panes''"

definition PaneOptions_AllowPassthrough :: "bytes accessor" where
  "PaneOptions_AllowPassthrough = enum_accessor ''PaneOptions'' ''AllowPassthrough'' ''allow-passthrough'' PassthroughPolicy_values"

definition PaneOptions_AllowRename :: "bool accessor" where
  "PaneOptions_AllowRename = bool_accessor ''PaneOptions'' ''AllowRename'' ''allow-rename''"

definition PaneOptions_ScrollOnClear :: "bool accessor" where
  "PaneOptions_ScrollOnClear = bool_accessor ''PaneOptions'' ''ScrollOnClear'' ''scroll-on-clear''"

definition PaneOptions_WindowStyle :: "bytes accessor" where
  "PaneOptions_WindowStyle = text_accessor ''PaneOptions'' ''WindowStyle'' ''window-style''"

definition PaneOptions_WindowActiveStyle :: "bytes accessor" where
  "PaneOptions_WindowActiveStyle = text_accessor ''PaneOptions'' ''WindowActiveStyle'' ''window-active-style''"

definition ServerOptions_EscapeTime :: "int accessor" where
  "ServerOptions_EscapeTime = int_accessor ''ServerOptions'' ''EscapeTime'' ''escape-time'' 0"

definition ServerOptions_BufferLimit :: "int accessor" where
  "ServerOptions_BufferLimit = int_accessor ''ServerOptions'' ''BufferLimit'' ''buffer-limit'' 1"

definition ServerOptions_ExitEmpty :: "bool accessor" where
  "ServerOptions_ExitEmpty = bool_accessor ''ServerOptions'' ''ExitEmpty'' ''exit-empty''"

definition ServerOptions_ExitUnattached :: "bool accessor" where
  "ServerOptions_ExitUnattached = bool_accessor ''ServerOptions'' ''ExitUnattached'' ''exit-unattached''"

definition ServerOptions_DefaultTerminal :: "bytes accessor" where
  "ServerOptions_DefaultTerminal = text_accessor ''ServerOptions'' ''DefaultTerminal'' ''default-terminal''"

definition ServerOptions_Clipboard :: "bytes accessor" where
  "ServerOptions_Clipboard = enum_accessor ''ServerOptions'' ''Clipboard'' ''set-clipboard'' ClipboardMode_values"

definition ServerOptions_HistoryFile :: "bytes accessor" where
  "ServerOptions_HistoryFile = text_accessor ''ServerOptions'' ''HistoryFile'' ''history-file''"

definition SessionOptions_HistoryLimit :: "int accessor" where
  "SessionOptions_HistoryLimit = int_accessor ''SessionOptions'' ''HistoryLimit'' ''history-limit'' 0"

definition SessionOptions_BaseIndex :: "int accessor" where
  "SessionOptions_BaseIndex = int_accessor ''SessionOptions'' ''BaseIndex'' ''base-index'' 0"

definition SessionOptions_DisplayTime :: "int accessor" where
  "SessionOptions_DisplayTime = int_accessor ''SessionOptions'' ''DisplayTime'' ''display-time'' 0"

definition SessionOptions_RepeatTime :: "int accessor" where
  "SessionOptions_RepeatTime = int_accessor ''SessionOptions'' ''RepeatTime'' ''repeat-time'' 0"

definition SessionOptions_Mouse :: "bool accessor" where
  "SessionOptions_Mouse = bool_accessor ''SessionOptions'' ''Mouse'' ''mouse''"

definition SessionOptions_Titles :: "bool accessor" where
  "SessionOptions_Titles = bool_accessor ''SessionOptions'' ''Titles'' ''set-titles''"

definition SessionOptions_DefaultShell :: "bytes accessor" where
  "SessionOptions_DefaultShell = text_accessor ''SessionOptions'' ''DefaultShell'' ''default-shell''"

definition SessionOptions_DefaultCommand :: "bytes accessor" where
  "SessionOptions_DefaultCommand = text_accessor ''SessionOptions'' ''DefaultCommand'' ''default-command''"

definition SessionOptions_DefaultSize :: "bytes accessor" where
  "SessionOptions_DefaultSize = text_accessor ''SessionOptions'' ''DefaultSize'' ''default-size''"

definition SessionOptions_StatusLeft :: "bytes accessor" where
  "SessionOptions_StatusLeft = text_accessor ''SessionOptions'' ''StatusLeft'' ''status-left''"

definition SessionOptions_StatusRight :: "bytes accessor" where
  "SessionOptions_StatusRight = text_accessor ''SessionOptions'' ''StatusRight'' ''status-right''"

definition SessionOptions_StatusStyle :: "bytes accessor" where
  "SessionOptions_StatusStyle = text_accessor ''SessionOptions'' ''StatusStyle'' ''status-style''"

definition SessionOptions_StatusPosition :: "bytes accessor" where
  "SessionOptions_StatusPosition = enum_accessor ''SessionOptions'' ''StatusPosition'' ''status-position'' StatusPosition_values"

definition SessionOptions_Status :: "bytes accessor" where
  "SessionOptions_Status = enum_accessor ''SessionOptions'' ''Status'' ''status'' StatusMode_values"

definition SessionOptions_Prefix :: "bytes accessor" where
  "SessionOptions_Prefix = key_accessor ''SessionOptions'' ''Prefix'' ''prefix''"

definition SessionOptions_DetachOnDestroy :: "bytes accessor" where
  "SessionOptions_DetachOnDestroy = enum_accessor ''SessionOptions'' ''DetachOnDestroy'' ''detach-on-destroy'' DetachPolicy_values"

definition WindowOptions_AutomaticRename :: "bool accessor" where
  "WindowOptions_AutomaticRename = bool_accessor ''WindowOptions'' ''AutomaticRename'' ''automatic-rename''"

definition WindowOptions_AllowRename :: "bool accessor" where
  "WindowOptions_AllowRename = bool_accessor ''WindowOptions'' ''AllowRename'' ''allow-rename''"

definition WindowOptions_AggressiveResize :: "bool accessor" where
  "WindowOptions_AggressiveResize = bool_accessor ''WindowOptions'' ''AggressiveResize'' ''aggressive-resize''"

definition WindowOptions_PaneBaseIndex :: "int accessor" where
  "WindowOptions_PaneBaseIndex = int_accessor ''WindowOptions'' ''PaneBaseIndex'' ''pane-base-index'' 0"

definition WindowOptions_ModeKeys :: "bytes accessor" where
  "WindowOptions_ModeKeys = enum_accessor ''WindowOptions'' ''ModeKeys'' ''mode-keys'' ModeKeys_values"

definition WindowOptions_WindowSize :: "bytes accessor" where
  "WindowOptions_WindowSize = enum_accessor ''WindowOptions'' ''WindowSize'' ''window-size'' WindowSizePolicy_values"

definition WindowOptions_RemainOnExit :: "bytes accessor" where
  "WindowOptions_RemainOnExit = enum_accessor ''WindowOptions'' ''RemainOnExit'' ''remain-on-exit'' RemainOnExitPolicy_values"

definition WindowOptions_SynchronizePanes :: "bool accessor" where
  "WindowOptions_SynchronizePanes = bool_accessor ''WindowOptions'' ''SynchronizePanes'' ''synchronize-panes''"

definition WindowOptions_PaneBorderStatus :: "bytes accessor" where
  "WindowOptions_PaneBorderStatus = enum_accessor ''WindowOptions'' ''PaneBorderStatus'' ''pane-border-status'' PaneBorderStatus_values"

definition WindowOptions_PaneBorderFormat :: "bytes accessor" where
  "WindowOptions_PaneBorderFormat = text_accessor ''WindowOptions'' ''PaneBorderFormat'' ''pane-border-format''"

definition WindowOptions_ModeStyle :: "bytes accessor" where
  "WindowOptions_ModeStyle = text_accessor ''WindowOptions'' ''ModeStyle'' ''mode-style''"

definition WindowOptions_WindowStatusFormat :: "bytes accessor" where
  "WindowOptions_WindowStatusFormat = text_accessor ''WindowOptions'' ''WindowStatusFormat'' ''window-status-format''"

definition WindowOptions_WindowStatusCurrentFormat :: "bytes accessor" where
  "WindowOptions_WindowStatusCurrentFormat = text_accessor ''WindowOptions'' ''WindowStatusCurrentFormat'' ''window-status-current-format''"

definition WindowOptions_AllowPassthrough :: "bytes accessor" where
  "WindowOptions_AllowPassthrough = enum_accessor ''WindowOptions'' ''AllowPassthrough'' ''allow-passthrough'' PassthroughPolicy_values"

definition text_accessors :: "bytes accessor list" where
  "text_accessors = [
    PaneOptions_RemainOnExit, PaneOptions_AllowPassthrough, PaneOptions_WindowStyle,
    PaneOptions_WindowActiveStyle, ServerOptions_DefaultTerminal, ServerOptions_Clipboard,
    ServerOptions_HistoryFile, SessionOptions_DefaultShell, SessionOptions_DefaultCommand,
    SessionOptions_DefaultSize, SessionOptions_StatusLeft, SessionOptions_StatusRight,
    SessionOptions_StatusStyle, SessionOptions_StatusPosition, SessionOptions_Status, SessionOptions_Prefix,
    SessionOptions_DetachOnDestroy, WindowOptions_ModeKeys, WindowOptions_WindowSize,
    WindowOptions_RemainOnExit, WindowOptions_PaneBorderStatus, WindowOptions_PaneBorderFormat,
    WindowOptions_ModeStyle, WindowOptions_WindowStatusFormat, WindowOptions_WindowStatusCurrentFormat,
    WindowOptions_AllowPassthrough]"

definition bool_accessors :: "bool accessor list" where
  "bool_accessors = [
    PaneOptions_SynchronizePanes, PaneOptions_AllowRename, PaneOptions_ScrollOnClear,
    ServerOptions_ExitEmpty, ServerOptions_ExitUnattached, SessionOptions_Mouse, SessionOptions_Titles,
    WindowOptions_AutomaticRename, WindowOptions_AllowRename, WindowOptions_AggressiveResize,
    WindowOptions_SynchronizePanes]"

definition int_accessors :: "int accessor list" where
  "int_accessors = [
    ServerOptions_EscapeTime, ServerOptions_BufferLimit, SessionOptions_HistoryLimit,
    SessionOptions_BaseIndex, SessionOptions_DisplayTime, SessionOptions_RepeatTime,
    WindowOptions_PaneBaseIndex]"

subsection \<open>What is set is read back\<close>

text \<open>The text of every value a setter accepts is converted to that value again.\<close>

definition reads_back :: "'a accessor \<Rightarrow> bool" where
  "reads_back a \<longleftrightarrow> (\<forall>v s. ac_format a v = Inr s \<longrightarrow> ac_parse a s = Inr v)"

definition scope_options :: "bytes \<Rightarrow> bytes list" where
  "scope_options st =
     (if st = ''PaneOptions'' then pane_options else if st = ''ServerOptions'' then server_options
      else if st = ''SessionOptions'' then session_options else window_options @ pane_options)"

definition native :: "'a accessor \<Rightarrow> bool" where
  "native a \<longleftrightarrow> ac_name a \<in> set (scope_options (ac_struct a))"

lemmas accessor_shapes = text_accessor_def bool_accessor_def int_accessor_def enum_accessor_def key_accessor_def accessor_of_def

lemma reads_back_shapes [simp]:
  "reads_back (text_accessor st m n)" "reads_back (bool_accessor st m n)" "0 \<le> lo \<Longrightarrow> reads_back (int_accessor st m n lo)"
  "reads_back (enum_accessor st m n vs)" "reads_back (key_accessor st m n)"
  by (auto simp: reads_back_def accessor_shapes split: if_split_asm)

text \<open>The line in which an option is printed, with its value as one word.\<close>

definition option_printed :: "bytes \<Rightarrow> bytes \<Rightarrow> bytes" where
  "option_printed name s = name @ render_args [s] @ [LF]"

definition typed_option_ok :: "'a accessor \<Rightarrow> bool" where
  "typed_option_ok a \<longleftrightarrow>
     (\<forall>v s label. ac_format a v = Inr s \<and> ValidString s \<longrightarrow>
        scalar_of label (ac_name a) (option_printed (ac_name a) s) = Inr (Present s) \<and>
        convert_value (ac_parse a) (Present s) = Inr (Present v))"

lemma scalar_of_printed:
  assumes "ValidCommand name" and "ValidString s" and "\<not> has_suffix name '']''" and "\<not> has_suffix name ''*''"
  shows "scalar_of label name (option_printed name s) = Inr (Present s)"
proof -
  have w: "ParseWords (name @ render_args [s]) = Inr [name, s]"
    using ParseWords_render [OF assms(1), of "[s]"] assms(2) by simp
  have "\<not> has_prefix (option_printed name s) (name @ ''['')"
    by (simp add: option_printed_def has_prefix_iff)
  moreover have "butlast (option_printed name s) = name @ render_args [s]" "last (option_printed name s) = LF" "option_printed name s \<noteq> []"
    by (simp_all add: option_printed_def butlast_append)
  ultimately show ?thesis using w assms(4) by (simp add: scalar_of_def trim_suffix_none del: render_args_simps)
qed

lemma typed_option_okI:
  assumes "ValidCommand (ac_name a)" and "\<not> has_suffix (ac_name a) '']''" and "\<not> has_suffix (ac_name a) ''*''"
    and "reads_back a"
  shows "typed_option_ok a"
  using assms by (auto simp: typed_option_ok_def scalar_of_printed reads_back_def convert_value_def)

definition names_ok :: "'a accessor \<Rightarrow> bool" where
  "names_ok a \<longleftrightarrow> ValidCommand (ac_name a) \<and> \<not> has_suffix (ac_name a) '']'' \<and> \<not> has_suffix (ac_name a) ''*''"

lemma all_names_ok:
  "list_all names_ok text_accessors" "list_all names_ok bool_accessors" "list_all names_ok int_accessors"
  by code_simp+

lemma all_read_back:
  "list_all reads_back text_accessors" "list_all reads_back bool_accessors" "list_all reads_back int_accessors"
  by (simp_all add: text_accessors_def bool_accessors_def int_accessors_def PaneOptions_RemainOnExit_def PaneOptions_SynchronizePanes_def PaneOptions_AllowPassthrough_def
    PaneOptions_AllowRename_def PaneOptions_ScrollOnClear_def PaneOptions_WindowStyle_def
    PaneOptions_WindowActiveStyle_def ServerOptions_EscapeTime_def ServerOptions_BufferLimit_def
    ServerOptions_ExitEmpty_def ServerOptions_ExitUnattached_def ServerOptions_DefaultTerminal_def
    ServerOptions_Clipboard_def ServerOptions_HistoryFile_def SessionOptions_HistoryLimit_def
    SessionOptions_BaseIndex_def SessionOptions_DisplayTime_def SessionOptions_RepeatTime_def
    SessionOptions_Mouse_def SessionOptions_Titles_def SessionOptions_DefaultShell_def
    SessionOptions_DefaultCommand_def SessionOptions_DefaultSize_def SessionOptions_StatusLeft_def
    SessionOptions_StatusRight_def SessionOptions_StatusStyle_def SessionOptions_StatusPosition_def
    SessionOptions_Status_def SessionOptions_Prefix_def SessionOptions_DetachOnDestroy_def
    WindowOptions_AutomaticRename_def WindowOptions_AllowRename_def WindowOptions_AggressiveResize_def
    WindowOptions_PaneBaseIndex_def WindowOptions_ModeKeys_def WindowOptions_WindowSize_def
    WindowOptions_RemainOnExit_def WindowOptions_SynchronizePanes_def WindowOptions_PaneBorderStatus_def
    WindowOptions_PaneBorderFormat_def WindowOptions_ModeStyle_def WindowOptions_WindowStatusFormat_def
    WindowOptions_WindowStatusCurrentFormat_def WindowOptions_AllowPassthrough_def)

lemma list_all_typed_ok: "list_all names_ok as \<Longrightarrow> list_all reads_back as \<Longrightarrow> list_all typed_option_ok as"
  by (auto simp: list_all_iff names_ok_def intro: typed_option_okI)

text \<open>The accessors are of options of their scope, except one: \<open>pane-border-status\<close> is missing in \<open>nativeOptionScope\<close>, so the
  origin of its value is not known even where it is set.\<close>

lemma native_accessors:
  "map ac_name (filter (\<lambda>a. \<not> native a) text_accessors) = [''pane-border-status'']"
  "list_all native bool_accessors" "list_all native int_accessors"
  by code_simp+

lemma pane_border_status_has_no_origin:
  "localOrigin (Window_Options h) (ac_name WindowOptions_PaneBorderStatus) = Unavailable"
proof -
  have "\<not> userOptionName ''pane-border-status''" "nativeOptionScope (fst (cut ''pane-border-status'' ''['')) = None"
    by code_simp+
  then show ?thesis by (simp add: localOrigin_def WindowOptions_PaneBorderStatus_def accessor_shapes)
qed


end
