(* ===== verification/Tmux_Coordination.thy ===== *)
theory Tmux_Coordination
  imports Tmux_Operations
begin

text \<open>
  \<open>tmux/coordination.go\<close>: channels and locks, shell and format conditions, configuration text, and the end of a known
  daemon. \<open>deadline\<close> says whether the context of the caller has a deadline; it is \<open>None\<close> for a nil context. How a
  delay is written in seconds is a parameter, \<open>strconv.FormatFloat\<close>.
\<close>

subsection \<open>Commands on the daemon that answered\<close>

text \<open>The shared beginning: the operation, and the identity of the daemon that answers.\<close>

definition identified ::
  "(nat \<Rightarrow> call_env) \<Rightarrow> (server \<Rightarrow> server_info) \<Rightarrow> server option \<Rightarrow> goerr + server \<times> operation \<times> server_identity" where
  "identified envs verified so =
     bind_res (begin_op (envs 0) so) (\<lambda>(s, op).
       case verifiedIdentity (envs 0) verified s op of
         (Inl e, op') \<Rightarrow> Inl e
       | (Inr i, op') \<Rightarrow> Inr (s, op', i))"

definition guarded_run ::
  "(nat \<Rightarrow> call_env) \<Rightarrow> (server \<Rightarrow> server_info) \<Rightarrow> server option \<Rightarrow> bytes \<Rightarrow> plan \<Rightarrow> bytes option \<Rightarrow> result \<times> goerr option" where
  "guarded_run envs verified so label p input =
     (case identified envs verified so of
        Inl e \<Rightarrow> (failedResult, opError label (Some e))
      | Inr (s, op, i) \<Rightarrow>
          (case execute (envs 1) s op p (Some (newGuard i)) input of ((r, err), op') \<Rightarrow> (r, opError label err)))"

definition refused :: "bytes \<Rightarrow> goerr \<Rightarrow> result \<times> goerr option" where
  "refused label e = (failedResult, opError label (Some e))"

subsection \<open>Channels and locks\<close>

definition requireDeadline :: "bool option \<Rightarrow> goerr option" where
  "requireDeadline deadline =
     (case deadline of
        None \<Rightarrow> Some (invalid ''nil context'')
      | Some d \<Rightarrow> if d then None else Some (invalid ''an explicit caller deadline is required''))"

text \<open>The two methods that block. The context they run in has no deadline of the library.\<close>

definition blocking_wait ::
  "(nat \<Rightarrow> call_env) \<Rightarrow> (server \<Rightarrow> server_info) \<Rightarrow> server option \<Rightarrow> bool option \<Rightarrow> bytes \<Rightarrow> bytes list \<Rightarrow> bytes \<Rightarrow> goerr option" where
  "blocking_wait envs verified so deadline label flags channel =
     (case requireDeadline deadline of
        Some e \<Rightarrow> opError label (Some e)
      | None \<Rightarrow>
          if (case so of Some s \<Rightarrow> srv_conn s \<noteq> None | None \<Rightarrow> False) then opError label (Some (Sentinel ErrTransportUnsupported))
          else if \<not> validFormatName channel then opError label (Some (invalid ''channel''))
          else endpointAction envs verified so label ''wait-for'' (flags @ [''--'', channel]))"

definition WaitFor where
  "WaitFor envs verified so deadline channel = blocking_wait envs verified so deadline ''Server.WaitFor'' [] channel"

definition Lock where
  "Lock envs verified so deadline channel = blocking_wait envs verified so deadline ''Server.Lock'' [''-L''] channel"

definition Notify where
  "Notify envs verified so channel =
     (if \<not> validFormatName channel then opError ''Server.Notify'' (Some (invalid ''channel''))
      else endpointAction envs verified so ''Server.Notify'' ''wait-for'' [''-S'', ''--'', channel])"

definition Unlock where
  "Unlock envs verified so channel =
     (if \<not> validFormatName channel then opError ''Server.Unlock'' (Some (invalid ''channel''))
      else endpointAction envs verified so ''Server.Unlock'' ''wait-for'' [''-U'', ''--'', channel])"

definition LockScreen where
  "LockScreen envs verified so = endpointAction envs verified so ''Server.LockScreen'' ''lock-server'' []"

subsection \<open>Shell commands and conditions\<close>

record run_shell_options =
  rs_Background :: bool
  rs_Delay :: int
  rs_Cancel :: bool
  rs_ClearEnvironment :: bool
  rs_TmuxCommands :: bool
  rs_IncludeStderr :: bool
  rs_Dir :: bytes
  rs_Target :: bytes

definition validateRunShell :: "bytes \<Rightarrow> run_shell_options \<Rightarrow> goerr option" where
  "validateRunShell script opts =
     (if rs_Cancel opts then
        Some (unsupported ''RunShellOptions.Cancel is unsupported; cancellation requires explicit job tracking'')
      else if rs_ClearEnvironment opts then
        Some (unsupported (''RunShellOptions.ClearEnvironment is unsupported; native -E enables stderr output, '' @
          ''not environment clearing''))
      else if \<not> ValidString script \<or> rs_Delay opts < 0 \<or> \<not> ValidString (rs_Dir opts) \<or> \<not> ValidString (rs_Target opts)
      then Some (invalid ''run-shell options'')
      else None)"

definition runShellArgs :: "(int \<Rightarrow> bytes) \<Rightarrow> bytes \<Rightarrow> run_shell_options \<Rightarrow> goerr + bytes list" where
  "runShellArgs seconds script opts =
     (case validateRunShell script opts of
        Some e \<Rightarrow> Inl e
      | None \<Rightarrow> Inr ((if rs_Background opts then [''-b''] else []) @ (if rs_TmuxCommands opts then [''-C''] else []) @
          (if rs_IncludeStderr opts then [''-E''] else []) @
          (if 0 < rs_Delay opts then [''-d'', seconds (rs_Delay opts)] else []) @
          (if rs_Dir opts \<noteq> [] then [''-c'', rs_Dir opts] else []) @
          (if rs_Target opts \<noteq> [] then [''-t'', rs_Target opts] else []) @ [''--'', script]))"

definition RunShell ::
  "(int \<Rightarrow> bytes) \<Rightarrow> (nat \<Rightarrow> call_env) \<Rightarrow> (server \<Rightarrow> server_info) \<Rightarrow> server option \<Rightarrow> bytes \<Rightarrow> run_shell_options \<Rightarrow>
   result \<times> goerr option" where
  "RunShell seconds envs verified so script opts =
     (case runShellArgs seconds script opts of
        Inl e \<Rightarrow> refused ''Server.RunShell'' e
      | Inr args \<Rightarrow>
          let p = plainPlan \<lparr>cmd_name = ''run-shell'', cmd_args = args\<rparr> in
          guarded_run envs verified so ''Server.RunShell''
            (if rs_Background opts then p\<lparr>pl_mode := replyEmpty\<rparr> else p) None)"

definition IfShell ::
  "(nat \<Rightarrow> call_env) \<Rightarrow> (server \<Rightarrow> server_info) \<Rightarrow> server option \<Rightarrow> bytes \<Rightarrow> command list \<Rightarrow> command list \<Rightarrow> goerr option" where
  "IfShell envs verified so shellCommand ifTrue ifFalse =
     (if \<not> ValidString shellCommand \<or> shellCommand = [] \<or> ifTrue = []
      then opError ''Server.IfShell'' (Some (invalid ''shell command/commands''))
      else snd (guarded_run envs verified so ''Server.IfShell''
        \<lparr>pl_nodes = [WireNode ''if-shell''
            ([WireArg shellCommand None, WireArg [] (Some (sequence_nodes ifTrue))] @
             (if ifFalse \<noteq> [] then [WireArg [] (Some (sequence_nodes ifFalse))] else []))],
         pl_mode = replyRaw, pl_allowStart = False\<rparr> None))"

text \<open>Without commands for the other case the last argument is dropped.\<close>

definition without_last :: "wireNode \<Rightarrow> wireNode" where
  "without_last n = (case n of WireNode name args \<Rightarrow> WireNode name (butlast args))"

definition IfFormat ::
  "(nat \<Rightarrow> call_env) \<Rightarrow> (server \<Rightarrow> server_info) \<Rightarrow> server option \<Rightarrow> bytes \<Rightarrow> command list \<Rightarrow> command list \<Rightarrow>
   result \<times> goerr option" where
  "IfFormat envs verified so cond yes no =
     (if \<not> ValidString cond \<or> cond = [] \<or> yes = [] then refused ''Server.IfFormat'' (invalid ''condition/commands'')
      else let node = conditionNode cond (sequence_nodes yes) (sequence_nodes no) [] in
        guarded_run envs verified so ''Server.IfFormat''
          \<lparr>pl_nodes = [if no = [] then without_last node else node], pl_mode = replyRaw, pl_allowStart = False\<rparr> None)"

subsection \<open>Configuration\<close>

record source_options =
  sr_QuietMissing :: bool
  sr_ParseOnly :: bool
  sr_Verbose :: bool

definition source_flags :: "source_options \<Rightarrow> bytes list" where
  "source_flags o' = (if sr_QuietMissing o' then [''-q''] else []) @ (if sr_ParseOnly o' then [''-n''] else []) @
     (if sr_Verbose o' then [''-v''] else [])"

definition source_commands ::
  "(nat \<Rightarrow> call_env) \<Rightarrow> (server \<Rightarrow> server_info) \<Rightarrow> server option \<Rightarrow> bytes \<Rightarrow> bytes \<Rightarrow> bytes option \<Rightarrow> source_options \<Rightarrow>
   result \<times> goerr option" where
  "source_commands envs verified so opName target input opts =
     (case begin_op (envs 0) so of
        Inl e \<Rightarrow> refused opName e
      | Inr (s, op) \<Rightarrow>
          if (case input of Some d \<Rightarrow> op_input op < int (length d) | None \<Rightarrow> False)
          then refused opName (Sentinel ErrInputLimit)
          else (case verifiedIdentity (envs 0) verified s op of
              (Inl e, op') \<Rightarrow> refused opName e
            | (Inr i, op') \<Rightarrow>
                (case execute (envs 1) s op' (plainPlan \<lparr>cmd_name = ''source-file'', cmd_args = source_flags opts @ [''--'', target]\<rparr>)
                    (Some (newGuard i)) input of
                   ((r, err), op'') \<Rightarrow> (r, opError opName err))))"

definition SourceFile ::
  "(nat \<Rightarrow> call_env) \<Rightarrow> (server \<Rightarrow> server_info) \<Rightarrow> server option \<Rightarrow> bytes \<Rightarrow> source_options \<Rightarrow> result \<times> goerr option" where
  "SourceFile envs verified so path opts =
     (if \<not> ValidString path \<or> path = [] \<or> path = ''-'' then refused ''Server.SourceFile'' (invalid ''config path'')
      else source_commands envs verified so ''Server.SourceFile'' path None opts)"

definition SourceText ::
  "(nat \<Rightarrow> call_env) \<Rightarrow> (server \<Rightarrow> server_info) \<Rightarrow> server option \<Rightarrow> bytes \<Rightarrow> source_options \<Rightarrow> result \<times> goerr option" where
  "SourceText envs verified so txt opts =
     (case so of
        None \<Rightarrow> refused ''Server.SourceText'' (Sentinel ErrInvalidHandle)
      | Some s \<Rightarrow>
          if \<not> srv_runner s then refused ''Server.SourceText'' (Sentinel ErrInvalidHandle)
          else if srv_conn s \<noteq> None then refused ''Server.SourceText''
            (unsupportedControl ''streaming configuration text over control transport'' (Sentinel ErrTransportUnsupported))
          else if \<not> ValidString txt then refused ''Server.SourceText'' (invalid ''config text'')
          else source_commands envs verified so ''Server.SourceText'' ''-'' (Some txt) opts)"

subsection \<open>The end of a known daemon\<close>

definition KillMatching :: "call_env \<Rightarrow> server option \<Rightarrow> server_identity \<Rightarrow> goerr option" where
  "KillMatching env so i =
     (if (case so of None \<Rightarrow> True | Some s \<Rightarrow> \<not> identity_valid i \<or> id_endpoint i \<noteq> srv_endpoint s)
      then opError ''Server.KillMatching'' (Some (Sentinel ErrInvalidHandle))
      else (case begin_op env so of
          Inl e \<Rightarrow> opError ''Server.KillMatching'' (Some e)
        | Inr (s, op) \<Rightarrow>
            opError ''Server.KillMatching'' (snd (fst (execute env s op (emptyPlan \<lparr>cmd_name = ''kill-server'', cmd_args = []\<rparr>)
              (Some (newGuard i)) None)))))"

text \<open>A daemon is only killed if it is the one that was observed. When the method reports success, tmux was asked to kill
  under the guard of that identity, at the endpoint of the identity, and the guard answered that it held.\<close>

theorem KillMatching_kills_only_that_daemon:
  assumes "KillMatching env (Some s) i = None"
  shows "identity_valid i \<and> id_endpoint i = srv_endpoint s \<and>
    (\<exists>n op1 op2 r0. dispatchPlan env s op1 (guard_wrap (newGuard i) (emptyPlan \<lparr>cmd_name = ''kill-server'', cmd_args = []\<rparr>)) n None =
       ((r0, None), op2) \<and> has_prefix (res_stdout r0) guardOK)"
proof -
  have i: "identity_valid i" "id_endpoint i = srv_endpoint s"
    using assms by (auto simp: KillMatching_def split: if_split_asm)
  with assms obtain op where "snd (fst (execute env s op (emptyPlan \<lparr>cmd_name = ''kill-server'', cmd_args = []\<rparr>) (Some (newGuard i)) None)) = None"
    by (auto simp: KillMatching_def begin_op_def Let_def split: sum.split_asm if_split_asm option.split_asm prod.split_asm)
  then obtain r op' where "execute env s op (emptyPlan \<lparr>cmd_name = ''kill-server'', cmd_args = []\<rparr>) (Some (newGuard i)) None = ((r, None), op')"
    by (metis prod.collapse)
  from execute_guarded [OF this] i show ?thesis by blast
qed

definition tiny_kill_env :: call_env where
  "tiny_kill_env = quiet_env (quiet_run\<lparr>pr_stdout := [guardOK]\<rparr>)"

lemma KillMatching_kills_only_that_daemon_witness:
  "KillMatching tiny_kill_env (Some plain_server) tiny_daemon = None \<and> identity_valid tiny_daemon \<and>
   id_endpoint tiny_daemon = srv_endpoint plain_server"
proof -
  have "Option.is_none (KillMatching tiny_kill_env (Some plain_server) tiny_daemon)" by code_simp
  then have k: "KillMatching tiny_kill_env (Some plain_server) tiny_daemon = None"
    by (simp add: Option.is_none_def)
  from KillMatching_kills_only_that_daemon [OF k] k show ?thesis by blast
qed

end
