(* ===== verification/Tmux_Buffers.thy ===== *)
theory Tmux_Buffers
  imports Tmux_Coordination
begin

text \<open>
  \<open>tmux/buffers.go\<close>: paste buffers. Their data passes through the standard input and output of tmux and may hold any
  byte.
\<close>

subsection \<open>References\<close>

text \<open>\<open>validNotificationName\<close> of \<open>tmux/control.go\<close>.\<close>

definition validNotificationName :: "bytes \<Rightarrow> bool" where
  "validNotificationName name \<longleftrightarrow> name \<noteq> [] \<and> ValidString name \<and> \<not> contains_any name [CR, LF]"

record buffer_ref =
  br_name :: bytes
  br_automatic :: bool
  br_valid :: bool

definition no_buffer :: buffer_ref where
  "no_buffer = \<lparr>br_name = [], br_automatic = False, br_valid = False\<rparr>"

definition NamedBuffer :: "bytes \<Rightarrow> goerr + buffer_ref" where
  "NamedBuffer name =
     (if \<not> validNotificationName name then Inl (invalid ''buffer name'')
      else Inr \<lparr>br_name = name, br_automatic = False, br_valid = True\<rparr>)"

definition AutomaticBuffer :: buffer_ref where
  "AutomaticBuffer = \<lparr>br_name = [], br_automatic = True, br_valid = True\<rparr>"

definition BufferRef_Name :: "buffer_ref \<Rightarrow> bytes \<times> bool" where
  "BufferRef_Name b = (br_name b, br_valid b \<and> \<not> br_automatic b)"

definition buffer_args :: "buffer_ref \<Rightarrow> goerr + bytes list" where
  "buffer_args b =
     (if \<not> br_valid b then Inl (Sentinel ErrInvalidArgument)
      else if br_automatic b then Inr []
      else Inr [''-b'', br_name b])"

record buffer_info =
  bi_raw :: row
  bi_Name :: bytes
  bi_Size :: int
  bi_Created :: "time gvalue"
  bi_server :: "server option"
  bi_origin :: server_identity
  bi_originalName :: bytes

definition BufferInfo_Ref :: "buffer_info \<Rightarrow> buffer_ref" where
  "BufferInfo_Ref b =
     (if bi_server b = None \<or> \<not> identity_valid (bi_origin b) then no_buffer
      else (case NamedBuffer (bi_originalName b) of Inr v \<Rightarrow> v | Inl _ \<Rightarrow> no_buffer))"

subsection \<open>The list of buffers\<close>

definition buffer_fields :: "bytes list" where
  "buffer_fields = WithIdentity [''buffer_name'', ''buffer_size'', ''buffer_created'']"

definition decode_buffer :: "server \<Rightarrow> server_identity \<Rightarrow> row \<Rightarrow> goerr + buffer_info" where
  "decode_buffer s i m =
     (let d = \<lparr>rd_kind = ''buffer'', rd_raw = m\<rparr>;
          (v, err) = run_state (do {
            origin \<leftarrow> decoder s d (Some i);
            name \<leftarrow> str d ''buffer_name'';
            size' \<leftarrow> nonnegative d ''buffer_size'';
            created \<leftarrow> (if m ''buffer_created'' \<notin> {None, Some []}
              then do { t \<leftarrow> timestamp d ''buffer_created''; ret (Present t) } else ret Unsupported);
            ret \<lparr>bi_raw = m, bi_Name = name, bi_Size = size', bi_Created = created, bi_server = Some s,
              bi_origin = origin, bi_originalName = name\<rparr>
          }) None;
          err' = (if bi_Name v = [] then Some (Sentinel ErrProtocol) else err)
      in case err' of Some e \<Rightarrow> Inl (after_error ''Server.Buffers'' e) | None \<Rightarrow> Inr v)"

definition Buffers ::
  "(nat \<Rightarrow> call_env) \<Rightarrow> (server \<Rightarrow> server_info) \<Rightarrow> server option \<Rightarrow> goerr + buffer_info list" where
  "Buffers envs verified so =
     (case identified envs verified so of
        Inl e \<Rightarrow> Inl (op_error ''Server.Buffers'' e)
      | Inr (s, op, i) \<Rightarrow>
          (case execute (envs 1) s op (recordsPlan \<lparr>cmd_name = ''list-buffers'', cmd_args = [''-F'', RecordFormat buffer_fields]\<rparr>)
              (Some (newGuard i)) None of
             ((r, Some e), op') \<Rightarrow> Inl (op_error ''Server.Buffers'' e)
           | ((r, None), op') \<Rightarrow>
               (case parseRaw (res_stdout r) buffer_fields ''buffer'' of
                  Inl e \<Rightarrow> Inl (after_error ''Server.Buffers'' e)
                | Inr rows \<Rightarrow> map_res (decode_buffer s i) rows)))"

subsection \<open>Operations on one buffer\<close>

text \<open>A method that reads the data asks for the raw output, without a guard of its own.\<close>

definition bufferOperation ::
  "(nat \<Rightarrow> call_env) \<Rightarrow> (server \<Rightarrow> server_info) \<Rightarrow> server option \<Rightarrow> bytes \<Rightarrow> bytes \<Rightarrow> buffer_ref \<Rightarrow> bytes list \<Rightarrow> bytes option \<Rightarrow>
   bool \<Rightarrow> result \<times> goerr option" where
  "bufferOperation envs verified so label name b extra input output' =
     (case buffer_args b of
        Inl e \<Rightarrow> refused label e
      | Inr args \<Rightarrow>
          (case begin_op (envs 0) so of
             Inl e \<Rightarrow> refused label e
           | Inr (s, op) \<Rightarrow>
               if op_input op < int (length (case input of Some d \<Rightarrow> d | None \<Rightarrow> []))
               then refused label (Sentinel ErrInputLimit)
               else (case verifiedIdentity (envs 0) verified s op of
                   (Inl e, op') \<Rightarrow> refused label e
                 | (Inr i, op') \<Rightarrow>
                     let p = emptyPlan \<lparr>cmd_name = name, cmd_args = args @ extra\<rparr> in
                     (case (if output' then execute (envs 1) s op' (p\<lparr>pl_mode := replyRaw\<rparr>) None input
                            else execute (envs 1) s op' p (Some (newGuard i)) input) of
                        ((r, err), op'') \<Rightarrow> (r, opError label err)))))"

definition zero_length :: goerr where
  "zero_length = unsupported ''zero-length buffer replacement is not representable in stock tmux''"

definition WriteBuffer where
  "WriteBuffer envs verified so b data =
     (if data = [] then opError ''Server.WriteBuffer'' (Some zero_length)
      else snd (bufferOperation envs verified so ''Server.WriteBuffer'' ''load-buffer'' b [''--'', ''-''] (Some data) False))"

definition ReadBuffer :: "(nat \<Rightarrow> call_env) \<Rightarrow> (server \<Rightarrow> server_info) \<Rightarrow> server option \<Rightarrow> buffer_ref \<Rightarrow> bytes \<times> goerr option" where
  "ReadBuffer envs verified so b =
     (case bufferOperation envs verified so ''Server.ReadBuffer'' ''show-buffer'' b [] None True of
        (r, err) \<Rightarrow> (res_stdout r, err))"

definition DeleteBuffer where
  "DeleteBuffer envs verified so b =
     snd (bufferOperation envs verified so ''Server.DeleteBuffer'' ''delete-buffer'' b [] None False)"

definition RenameBuffer where
  "RenameBuffer envs verified so oldName newName =
     (if \<not> validNotificationName oldName then opError ''Server.RenameBuffer'' (Some (invalid ''old buffer name''))
      else if \<not> validNotificationName newName then opError ''Server.RenameBuffer'' (Some (invalid ''new buffer name''))
      else endpointAction envs verified so ''Server.RenameBuffer'' ''set-buffer'' [''-b'', oldName, ''-n'', newName])"

definition SetBufferWith where
  "SetBufferWith envs verified so name data app =
     (if \<not> validNotificationName name then opError ''Server.SetBuffer'' (Some (invalid ''buffer name''))
      else if \<not> ValidString data then opError ''Server.SetBuffer'' (Some (invalid ''buffer data''))
      else if \<not> app \<and> data = [] then opError ''Server.SetBuffer'' (Some zero_length)
      else if app \<and> data = [] then None
      else endpointAction envs verified so ''Server.SetBuffer'' ''set-buffer''
        ((if app then [''-a''] else []) @ [''-b'', name, ''--'', data]))"

definition path_ok :: "bytes \<Rightarrow> bool" where
  "path_ok path \<longleftrightarrow> \<not> (path = [] \<or> path = ''-'' \<or> \<not> ValidString path)"

definition LoadBufferFile where
  "LoadBufferFile envs verified so b path =
     (if \<not> path_ok path then opError ''Server.LoadBufferFile'' (Some (invalid ''path''))
      else snd (bufferOperation envs verified so ''Server.LoadBufferFile'' ''load-buffer'' b [''--'', LiteralFormat path] None False))"

definition SaveBufferFile where
  "SaveBufferFile envs verified so b path appendFile =
     (if \<not> path_ok path then opError ''Server.SaveBufferFile'' (Some (invalid ''path''))
      else snd (bufferOperation envs verified so ''Server.SaveBufferFile'' ''save-buffer'' b
        ((if appendFile then [''-a''] else []) @ [''--'', LiteralFormat path]) None False))"

subsection \<open>Pasting\<close>

record paste_options =
  po_Buffer :: bytes
  po_Delete :: bool
  po_BracketedPaste :: bool
  po_ReplaceEscapes :: bool
  po_StripNewlines :: bool
  po_Separator :: bytes

text \<open>The separator, if one is given to tmux.\<close>

definition pasteSeparator :: "paste_options \<Rightarrow> goerr + bytes option" where
  "pasteSeparator opts =
     (if po_ReplaceEscapes opts \<and> (po_StripNewlines opts \<or> po_Separator opts \<noteq> [])
      then Inl (invalid ''separator and raw newlines conflict'')
      else if po_StripNewlines opts \<and> po_Separator opts \<noteq> [] then Inl (invalid ''separator and strip newlines conflict'')
      else if po_StripNewlines opts then Inr (Some [])
      else if po_Separator opts \<noteq> [] then
        (if \<not> ValidString (po_Separator opts) then Inl (invalid ''separator'') else Inr (Some (po_Separator opts)))
      else Inr None)"

definition pasteFlags :: "paste_options \<Rightarrow> goerr + bytes list" where
  "pasteFlags opts =
     bind_res (pasteSeparator opts) (\<lambda>sep.
       Inr ((if po_ReplaceEscapes opts then [''-r''] else []) @ (if po_BracketedPaste opts then [''-p''] else []) @
         (if po_Delete opts then [''-d''] else []) @ (case sep of Some x \<Rightarrow> [''-s'', x] | None \<Rightarrow> [])))"

definition PasteBuffer :: "call_env \<Rightarrow> handle \<Rightarrow> buffer_ref \<Rightarrow> paste_options \<Rightarrow> goerr option" where
  "PasteBuffer env p b opts =
     (case bind_res (buffer_args b) (\<lambda>args. bind_res (pasteFlags opts) (\<lambda>flags. Inr (args @ [''-t'', h_id p] @ flags))) of
        Inl e \<Rightarrow> opError ''Pane.PasteBuffer'' (Some e)
      | Inr args \<Rightarrow> actWithin env p ''Pane.PasteBuffer'' ''paste-buffer'' args)"

definition PasteWith :: "call_env \<Rightarrow> handle \<Rightarrow> paste_options \<Rightarrow> goerr option" where
  "PasteWith env p opts =
     (if po_Buffer opts \<noteq> [] \<and> \<not> validNotificationName (po_Buffer opts) then opError ''Pane.Paste'' (Some (invalid ''buffer name''))
      else (case pasteFlags opts of
          Inl e \<Rightarrow> opError ''Pane.Paste'' (Some e)
        | Inr flags \<Rightarrow> actWithin env p ''Pane.Paste'' ''paste-buffer''
            ([''-t'', h_id p] @ flags @ (if po_Buffer opts \<noteq> [] then [''-b'', po_Buffer opts] else []))))"

text \<open>At most one way to end lines is asked for.\<close>

lemma pasteFlags_one_ending:
  "pasteFlags opts = Inr flags \<Longrightarrow> po_ReplaceEscapes opts \<Longrightarrow> ''-s'' \<notin> set flags"
  by (auto simp: pasteFlags_def pasteSeparator_def bind_res_Inr_iff split: if_split_asm)

text \<open>A reference that was made from a listed buffer names that buffer.\<close>

lemma decode_buffer_Ref:
  assumes "decode_buffer s i m = Inr v" and "validNotificationName (bi_Name v)" and "identity_valid (bi_origin v)"
  shows "BufferRef_Name (BufferInfo_Ref v) = (bi_Name v, True)"
proof -
  have "bi_originalName v = bi_Name v" "bi_server v = Some s"
    using assms(1)
    by (auto simp: decode_buffer_def Let_def State_Monad.bind_def State_Monad.return_def
        split: prod.split_asm option.split_asm if_split_asm)
  with assms(2,3) show ?thesis by (simp add: BufferInfo_Ref_def NamedBuffer_def BufferRef_Name_def)
qed

end
