(* ===== verification/Tmux_Hooks.thy ===== *)
theory Tmux_Hooks
  imports Tmux_Options Tmux_Input Tmux_Coordination
begin

text \<open>
  \<open>tmux/hooks.go\<close>: hooks and key bindings. What they run is shown as tmux prints it, and as commands when the parser
  that evaluates nothing understands it. The random mark of \<open>listKeys\<close> is a parameter.
\<close>

subsection \<open>Payloads\<close>

record command_payload =
  cp_raw :: bytes
  cp_sequence :: "command list"
  cp_parsed :: bool

text \<open>The commands of the parts; a part without words is not a command.\<close>

definition part_command :: "bytes \<Rightarrow> command option" where
  "part_command part =
     (case ParseWords part of
        Inr (name # args) \<Rightarrow> (case NewCommand name args of Inr c \<Rightarrow> Some c | Inl _ \<Rightarrow> None)
      | _ \<Rightarrow> None)"

fun part_commands :: "bytes list \<Rightarrow> command list option" where
  "part_commands [] = Some []"
| "part_commands (part # parts) =
     (case part_command part of
        None \<Rightarrow> None
      | Some c \<Rightarrow> map_option ((#) c) (part_commands parts))"

definition unparsed :: "bytes \<Rightarrow> command_payload" where
  "unparsed raw = \<lparr>cp_raw = raw, cp_sequence = [], cp_parsed = False\<rparr>"

definition parsePayload :: "bytes \<Rightarrow> command_payload" where
  "parsePayload raw =
     (case SplitSequence raw of
        Inl e \<Rightarrow> unparsed raw
      | Inr parts \<Rightarrow>
          (case part_commands parts of
             None \<Rightarrow> unparsed raw
           | Some commands \<Rightarrow> \<lparr>cp_raw = raw, cp_sequence = commands, cp_parsed = True\<rparr>))"

subsection \<open>Hooks\<close>

record hook_info =
  hi_Name :: bytes
  hi_Index :: int
  hi_Scope :: scope
  hi_Payload :: command_payload

definition GlobalHooks :: "server option \<Rightarrow> option_target" where
  "GlobalHooks s = \<lparr>ot_server = s, ot_h = zeroHandle, ot_scope = ScopeGlobalSession\<rparr>"

text \<open>One \<open>set-hook\<close> on the prepared target; the commands, if any, are its last argument.\<close>

definition hook_command ::
  "(nat \<Rightarrow> call_env) \<Rightarrow> (server \<Rightarrow> server_info) \<Rightarrow> option_target \<Rightarrow> bytes \<Rightarrow> bytes list \<Rightarrow> command list option \<Rightarrow> goerr option" where
  "hook_command envs verified t label args commands =
     (case prepare (envs 0) verified t of
        Inl e \<Rightarrow> opError label (Some e)
      | Inr (s, op, g) \<Rightarrow>
          opError label (snd (fst (execute (envs 1) s op
            \<lparr>pl_nodes = [WireNode ''set-hook'' (map (\<lambda>a. WireArg a None) (target_args t @ args) @
                (case commands of Some cs \<Rightarrow> [WireArg [] (Some (sequence_nodes cs))] | None \<Rightarrow> []))],
             pl_mode = replyEmpty, pl_allowStart = False\<rparr> g None))))"

definition index_ok :: "int \<Rightarrow> bool" where
  "index_ok index \<longleftrightarrow> \<not> (index < 0 \<or> 2 ^ 30 < index)"

definition hook_slot :: "bytes \<Rightarrow> int \<Rightarrow> bytes" where
  "hook_slot name index = name @ ''['' @ itoa index @ '']''"

definition Hook_Set where
  "Hook_Set envs verified t name index commands =
     (if \<not> validFormatName name \<or> \<not> index_ok index \<or> commands = []
      then opError ''HookScope.Set'' (Some (invalid ''hook name/index/commands''))
      else hook_command envs verified t ''HookScope.Set'' [''--'', hook_slot name index] (Some commands))"

definition Hook_Unset where
  "Hook_Unset envs verified t name index =
     (if \<not> validFormatName name \<or> \<not> index_ok index then opError ''HookScope.Unset'' (Some (invalid ''hook name/index''))
      else hook_command envs verified t ''HookScope.Unset'' [''-u'', ''--'', hook_slot name index] None)"

definition Hook_SetWhole where
  "Hook_SetWhole envs verified t name commands =
     (if \<not> validFormatName name \<or> commands = [] then opError ''HookScope.SetWhole'' (Some (invalid ''hook name/commands''))
      else hook_command envs verified t ''HookScope.SetWhole'' [''--'', name] (Some commands))"

definition Hook_Append where
  "Hook_Append envs verified t name commands =
     (if \<not> validFormatName name \<or> commands = [] then opError ''HookScope.Append'' (Some (invalid ''hook name/commands''))
      else hook_command envs verified t ''HookScope.Append'' [''-a'', ''--'', name] (Some commands))"

definition Hook_Run where
  "Hook_Run envs verified t name =
     (if \<not> validFormatName name then opError ''HookScope.Run'' (Some (invalid ''hook name''))
      else hook_command envs verified t ''HookScope.Run'' [''-R'', ''--'', name] None)"

definition Hook_Remove where
  "Hook_Remove envs verified t name =
     (if \<not> validFormatName name then opError ''HookScope.Remove'' (Some (invalid ''hook name''))
      else hook_command envs verified t ''HookScope.Remove'' [''-u'', ''--'', name] None)"

text \<open>The line of one hook; a line without a blank is skipped.\<close>

definition hook_line :: "scope \<Rightarrow> bytes \<Rightarrow> bytes \<Rightarrow> goerr + hook_info option" where
  "hook_line sc label line =
     (case cut line '' '' of (key, v, ok) \<Rightarrow>
       if \<not> ok then Inr None
       else bind_res (case last_index key (CHR ''['') of
                        Some i \<Rightarrow>
                          (case arrayIndex key (take i key) of
                             Inl e \<Rightarrow> Inl (after_error label e)
                           | Inr idx \<Rightarrow> Inr (take i key, idx))
                      | None \<Rightarrow> Inr (key, 0)) (\<lambda>(name, index).
         Inr (Some \<lparr>hi_Name = name, hi_Index = index, hi_Scope = sc, hi_Payload = parsePayload v\<rparr>)))"

fun hook_lines :: "scope \<Rightarrow> bytes \<Rightarrow> bytes list \<Rightarrow> goerr + hook_info list" where
  "hook_lines sc label [] = Inr []"
| "hook_lines sc label (line # rest) =
     bind_res (hook_line sc label line) (\<lambda>h. bind_res (hook_lines sc label rest) (\<lambda>hs.
       Inr (case h of Some x \<Rightarrow> x # hs | None \<Rightarrow> hs)))"

definition parseHooksOutput :: "option_target \<Rightarrow> bytes \<Rightarrow> bytes \<Rightarrow> goerr + hook_info list" where
  "parseHooksOutput t label out = hook_lines (ot_scope t) label (output_lines out)"

definition show_hooks ::
  "(nat \<Rightarrow> call_env) \<Rightarrow> (server \<Rightarrow> server_info) \<Rightarrow> option_target \<Rightarrow> bytes \<Rightarrow> bytes list \<Rightarrow> goerr + hook_info list" where
  "show_hooks envs verified t label args =
     (case labelled label (bind_res (prepare (envs 0) verified t) (\<lambda>(s, op, g).
        answered (execute (envs 1) s op (plainPlan \<lparr>cmd_name = ''show-hooks'', cmd_args = target_args t @ args\<rparr>) g None))) of
        Inl e \<Rightarrow> Inl e
      | Inr r \<Rightarrow> parseHooksOutput t label (res_stdout r))"

definition Hook_List where
  "Hook_List envs verified t = show_hooks envs verified t ''HookScope.List'' []"

definition Hook_ListFiltered where
  "Hook_ListFiltered envs verified t name =
     (if \<not> validFormatName name then Inl (op_error ''HookScope.ListFiltered'' (invalid ''hook name''))
      else show_hooks envs verified t ''HookScope.ListFiltered'' [''--'', name])"

subsection \<open>Binding and unbinding\<close>

definition KeyTablePrefix :: bytes where "KeyTablePrefix = ''prefix''"

definition KeyTable_Valid :: "bytes \<Rightarrow> bool" where
  "KeyTable_Valid t = validFormatName t"

record bind_options =
  bo_Repeat :: bool
  bo_Note :: bytes
  bo_ClearNote :: bool

definition validateBind :: "bytes \<Rightarrow> bytes \<Rightarrow> command list \<Rightarrow> bind_options \<Rightarrow> goerr option" where
  "validateBind table key commands opts =
     (let isCommandlessEdit = (commands = [] \<and> (bo_Note opts \<noteq> [] \<or> bo_ClearNote opts \<or> bo_Repeat opts)) in
      if \<not> KeyTable_Valid table \<or> \<not> Key_Valid key \<or> (\<not> isCommandlessEdit \<and> commands = []) \<or> \<not> ValidString (bo_Note opts)
      then Some (invalid ''binding'') else None)"

definition bindArgs :: "bytes \<Rightarrow> bytes \<Rightarrow> bind_options \<Rightarrow> bytes list" where
  "bindArgs table key opts =
     [''-T'', table] @ (if bo_Repeat opts then [''-r''] else []) @
     (if bo_Note opts \<noteq> [] then [''-N'', bo_Note opts] else if bo_ClearNote opts then [''-N'', []] else []) @
     [''--'', key]"

definition Bind ::
  "(nat \<Rightarrow> call_env) \<Rightarrow> (server \<Rightarrow> server_info) \<Rightarrow> server option \<Rightarrow> bytes \<Rightarrow> bytes \<Rightarrow> command list \<Rightarrow> bind_options \<Rightarrow> goerr option" where
  "Bind envs verified so table key commands opts =
     (case validateBind table key commands opts of
        Some e \<Rightarrow> opError ''Server.Bind'' (Some e)
      | None \<Rightarrow> snd (guarded_run envs verified so ''Server.Bind''
          \<lparr>pl_nodes = [WireNode ''bind-key'' (map (\<lambda>a. WireArg a None) (bindArgs table key opts) @
             (if commands = [] then [] else [WireArg [] (Some (sequence_nodes commands))]))],
           pl_mode = replyEmpty, pl_allowStart = False\<rparr> None))"

definition UnbindWith ::
  "(nat \<Rightarrow> call_env) \<Rightarrow> (server \<Rightarrow> server_info) \<Rightarrow> server option \<Rightarrow> bytes \<Rightarrow> bytes \<Rightarrow> bool \<Rightarrow> bool \<Rightarrow> goerr option" where
  "UnbindWith envs verified so table key all quiet =
     (if \<not> all \<and> \<not> Key_Valid key then opError ''Server.Unbind'' (Some (invalid ''key''))
      else if table \<noteq> [] \<and> \<not> KeyTable_Valid table then opError ''Server.Unbind'' (Some (invalid ''key table''))
      else endpointAction envs verified so ''Server.Unbind'' ''unbind-key''
        ((if all then [''-a''] else []) @ (if quiet then [''-q''] else []) @
         (if table \<noteq> [] then [''-T'', table] else []) @ (if \<not> all then [''--'', key] else [])))"

subsection \<open>Reading one binding\<close>

record binding_info =
  bn_Table :: bytes
  bn_Key :: bytes
  bn_Repeat :: bool
  bn_Payload :: command_payload
  bn_raw :: bytes
  bn_Parsed :: bool

text \<open>The flags after \<open>bind-key\<close>: the table, whether the key repeats, and the words from the key on.\<close>

fun parseBindingFlags :: "bytes list \<Rightarrow> bytes \<Rightarrow> bool \<Rightarrow> bytes \<times> bool \<times> bytes list option" where
  "parseBindingFlags [] table rep = (table, rep, Some [])"
| "parseBindingFlags (w # ws) table rep =
     (if w = ''-r'' then parseBindingFlags ws table True
      else if w = ''-n'' then parseBindingFlags ws ''root'' rep
      else if w = ''-T'' then
        (case ws of [] \<Rightarrow> (table, rep, None) | x # ws' \<Rightarrow> parseBindingFlags ws' x rep)
      else if w = ''-N'' then
        (case ws of [] \<Rightarrow> (table, rep, None) | x # ws' \<Rightarrow> parseBindingFlags ws' table rep)
      else if w = ''--'' then (table, rep, Some ws)
      else (table, rep, Some (w # ws)))"

definition binding_of :: "bytes \<Rightarrow> bytes \<Rightarrow> bytes \<Rightarrow> bool \<Rightarrow> binding_info" where
  "binding_of raw table key rep =
     \<lparr>bn_Table = table, bn_Key = key, bn_Repeat = rep, bn_Payload = unparsed raw, bn_raw = raw, bn_Parsed = False\<rparr>"

definition parseBinding :: "bytes \<Rightarrow> bytes \<Rightarrow> binding_info" where
  "parseBinding raw table =
     (case SplitBindingSequence raw of
        Inr (part # parts) \<Rightarrow>
          (case ParseWords part of
             Inr (w # ws) \<Rightarrow>
               if length (w # ws) < 5 \<or> w \<noteq> ''bind-key'' then binding_of raw table [] False
               else (case parseBindingFlags ws table False of
                   (table', rep, Some (key # name # args)) \<Rightarrow>
                     let table'' = (if table' = [] then KeyTablePrefix else table');
                         b = binding_of raw table'' key rep in
                     if \<not> KeyTable_Valid table'' \<or> \<not> Key_Valid key then b
                     else (case NewCommand name args of
                         Inl e \<Rightarrow> b
                       | Inr c \<Rightarrow>
                           (case part_commands parts of
                              None \<Rightarrow> b
                            | Some cs \<Rightarrow> b\<lparr>bn_Parsed := True,
                                bn_Payload := \<lparr>cp_raw = raw, cp_sequence = c # cs, cp_parsed = True\<rparr>\<rparr>))
                 | (table', rep, _) \<Rightarrow> binding_of raw table' [] rep)
           | _ \<Rightarrow> binding_of raw table [] False)
      | _ \<Rightarrow> binding_of raw table [] False)"

definition parseBindingsLines :: "bytes \<Rightarrow> bytes \<Rightarrow> bytes \<Rightarrow> binding_info list" where
  "parseBindingsLines out defaultTable filterTable =
     filter (\<lambda>b. (filterTable = [] \<or> bn_Table b = filterTable) \<and> bn_Key b \<noteq> [])
       (map (\<lambda>line. parseBinding line defaultTable) (output_lines out))"

subsection \<open>Listing bindings\<close>

record bindings_options =
  bs_Table :: bytes
  bs_Key :: bytes
  bs_FirstMatch :: bool
  bs_NotesOnly :: bool
  bs_Prefix :: bytes

definition listKeysTemplate :: bytes where
  "listKeysTemplate = ''#{?notes_only,'' @ ''#{key_prefix} '' @ ''#{p|#{key_string_width}:key_string} '' @
     ''#{?key_note,#{key_note},#{key_command}}'' @ '','' @
     ''bind-key #{?key_has_repeat,#{?key_repeat,-r,  },} '' @ ''-T #{p|#{key_table_width}:key_table} '' @
     ''#{p|#{key_string_width}:#{q|a:key_string}} '' @ ''#{key_command}}''"

definition listKeysArgs :: "bindings_options \<Rightarrow> bytes list" where
  "listKeysArgs opts = (if bs_Table opts \<noteq> [] then [''-T'', bs_Table opts] else []) @
     (if bs_Key opts \<noteq> [] then [''--'', bs_Key opts] else [])"

definition bindingNotesArgs :: "bindings_options \<Rightarrow> bytes list" where
  "bindingNotesArgs opts = [''-N''] @ (if bs_FirstMatch opts then [''-1''] else []) @
     (if bs_Table opts \<noteq> [] then [''-T'', bs_Table opts] else []) @
     (if bs_Prefix opts \<noteq> [] then [''-P'', bs_Prefix opts] else []) @
     (if bs_Key opts \<noteq> [] then [''--'', bs_Key opts] else [])"

text \<open>What follows the mark in each line that has it.\<close>

definition markedLines :: "bytes \<Rightarrow> bytes \<Rightarrow> bytes" where
  "markedLines out marker =
     concat (map (\<lambda>line. case cut line marker of (_, rest, ok) \<Rightarrow> if ok then rest @ [LF] else []) (split_byte LF out))"

text \<open>tmux 3.7 prints keys to the client, so the answer is marked and, if empty, found in the messages.\<close>

definition listKeys ::
  "call_env \<Rightarrow> call_env \<Rightarrow> bytes \<Rightarrow> server \<Rightarrow> operation \<Rightarrow> server_info \<Rightarrow> bytes list \<Rightarrow> (result \<times> goerr option) \<times> operation" where
  "listKeys env env' random s op info args =
     (let g = Some (newGuard (sv_Identity info)) in
      if v_major (sv_Version info) \<noteq> 3 \<or> v_minor (sv_Version info) \<noteq> 7
      then execute env s op (plainPlan \<lparr>cmd_name = ''list-keys'', cmd_args = args\<rparr>) g None
      else (let marker = random @ [HT] in
        case execute env s op (plainPlan \<lparr>cmd_name = ''list-keys'', cmd_args = [''-F'', marker @ listKeysTemplate] @ args\<rparr>) g None of
          ((r, Some e), op') \<Rightarrow> ((r, Some e), op')
        | ((r, None), op') \<Rightarrow>
            (case (if res_stdout r = [] then execute env' s op' (plainPlan \<lparr>cmd_name = ''show-messages'', cmd_args = []\<rparr>) g None
                   else ((r, None), op')) of
               ((r', Some e), op'') \<Rightarrow> ((r', Some e), op'')
             | ((r', None), op'') \<Rightarrow> ((r'\<lparr>res_stdout := markedLines (res_stdout r') marker\<rparr>, None), op''))))"

definition validateBindingsOptions :: "bindings_options \<Rightarrow> goerr option" where
  "validateBindingsOptions opts =
     (if bs_Table opts \<noteq> [] \<and> \<not> KeyTable_Valid (bs_Table opts) then Some (invalid ''key table'')
      else if bs_Key opts \<noteq> [] \<and> \<not> Key_Valid (bs_Key opts) then Some (invalid ''key'')
      else None)"

text \<open>The errors by which tmux says that there is no such table or key.\<close>

definition bindingQueryNoMatch :: "goerr \<Rightarrow> bindings_options \<Rightarrow> bool" where
  "bindingQueryNoMatch e opts =
     (if list_ex (err_is e) [ContextCanceled, ContextDeadlineExceeded, ErrOutputLimit, ErrProtocol, ErrClosed] then False
      else (case as_command e of
          Some (CommandError command r oc timeout cause) \<Rightarrow>
            if command \<noteq> ''list-keys'' \<or> timeout \<noteq> TimeoutSourceNone \<or> res_stdout r \<noteq> [] then False
            else (let message = trim_suffix (res_stderr r) [LF] in
              (bs_Table opts \<noteq> [] \<and> message = ''table '' @ bs_Table opts @ '' doesn'' @ [squote] @ ''t exist'') \<or>
              (bs_Key opts \<noteq> [] \<and> message = ''unknown key: '' @ bs_Key opts))
        | _ \<Rightarrow> False))"

subsection \<open>Notes\<close>

record binding_note =
  nt_Raw :: bytes
  nt_Key :: bytes
  nt_Note :: bytes

definition trim_left_blanks :: "bytes \<Rightarrow> bytes" where
  "trim_left_blanks s = dropWhile (\<lambda>c. c = CHR '' '') s"

text \<open>\<open>i\<close> bytes of the line are the key, the rest is the note.\<close>

definition note_at :: "bytes \<Rightarrow> nat \<Rightarrow> binding_note" where
  "note_at line i = \<lparr>nt_Raw = line, nt_Key = TrimSpace (take i line), nt_Note = TrimSpace (drop i line)\<rparr>"

definition parseBindingNote :: "bytes \<Rightarrow> bindings_options \<Rightarrow> binding_note" where
  "parseBindingNote line opts =
     (if bs_Prefix opts \<noteq> [] \<and> has_prefix line (bs_Prefix opts) then
        (case cut (trim_left_blanks (trim_prefix line (bs_Prefix opts))) '' '' of (key, note', _) \<Rightarrow>
          \<lparr>nt_Raw = line, nt_Key = TrimSpace (bs_Prefix opts @ key), nt_Note = TrimSpace note'\<rparr>)
      else (case find_sub ''  '' line of
          Some (key, _) \<Rightarrow> note_at line (length key)
        | None \<Rightarrow>
            (case (if bs_Key opts \<noteq> [] then find_sub (bs_Key opts) line else None) of
               Some (before, _) \<Rightarrow> note_at line (length before + length (bs_Key opts))
             | None \<Rightarrow>
                 (case cut line '' '' of (first, rest, hasRest) \<Rightarrow>
                   if \<not> hasRest then \<lparr>nt_Raw = line, nt_Key = line, nt_Note = []\<rparr>
                   else (case cut rest '' '' of (second, note', hasNote) \<Rightarrow>
                     if hasNote then \<lparr>nt_Raw = line, nt_Key = first @ '' '' @ second, nt_Note = note'\<rparr>
                     else \<lparr>nt_Raw = line, nt_Key = first, nt_Note = second\<rparr>)))))"

definition trim_line :: "bytes \<Rightarrow> bytes" where
  "trim_line line = rev (dropWhile (\<lambda>c. c = CR \<or> c = LF) (rev line))"

definition parseNotesOutput :: "bytes \<Rightarrow> bindings_options \<Rightarrow> binding_note list" where
  "parseNotesOutput out opts =
     map (\<lambda>line. parseBindingNote line opts)
       (filter (\<lambda>l. l \<noteq> []) (map trim_line (split_byte LF (trim_suffix out [LF]))))"

definition BindingNotes ::
  "(nat \<Rightarrow> call_env) \<Rightarrow> bytes \<Rightarrow> (server \<Rightarrow> server_info) \<Rightarrow> server option \<Rightarrow> bindings_options \<Rightarrow> goerr + binding_note list" where
  "BindingNotes envs random verified so opts =
     (case validateBindingsOptions opts of
        Some e \<Rightarrow> Inl (op_error ''Server.BindingNotes'' e)
      | None \<Rightarrow>
          if \<not> ValidString (bs_Prefix opts) then Inl (op_error ''Server.BindingNotes'' (invalid ''prefix''))
          else (case begin_op (envs 0) so of
              Inl e \<Rightarrow> Inl (op_error ''Server.BindingNotes'' e)
            | Inr (s, op) \<Rightarrow>
                (case verifiedInfo (envs 0) verified s op of
                   (Inl e, op') \<Rightarrow> Inl (op_error ''Server.BindingNotes'' e)
                 | (Inr info, op') \<Rightarrow>
                     (case listKeys (envs 1) (envs 2) random s op' info (bindingNotesArgs opts) of
                        ((r, Some e), _) \<Rightarrow>
                          if bindingQueryNoMatch e opts then Inr [] else Inl (op_error ''Server.BindingNotes'' e)
                      | ((r, None), _) \<Rightarrow> Inr (parseNotesOutput (res_stdout r) opts)))))"

text \<open>The keys that have a note, by the lines of \<open>list-keys -N\<close>.\<close>

definition noted_keys :: "bytes \<Rightarrow> bytes set" where
  "noted_keys out = set (concat (map (\<lambda>line. case cut (trim_left_blanks line) '' '' of (key, _, ok) \<Rightarrow> if ok then [key] else [])
     (split_byte LF out)))"

text \<open>The loop of \<open>notedBindings\<close>: \<open>noted\<close> holds the keys of the tables that were asked for; each table is asked for
  once. \<open>envs\<close> and \<open>randoms\<close> are those of the next question.\<close>

fun notedBindings_loop ::
  "(nat \<Rightarrow> call_env) \<Rightarrow> (nat \<Rightarrow> bytes) \<Rightarrow> server \<Rightarrow> server_info \<Rightarrow> nat \<Rightarrow> operation \<Rightarrow> (bytes \<rightharpoonup> bytes set) \<Rightarrow> binding_info list \<Rightarrow>
   binding_info list \<Rightarrow> goerr + binding_info list" where
  "notedBindings_loop envs randoms s info n op noted out [] = Inr out"
| "notedBindings_loop envs randoms s info n op noted out (b # bs) =
     (case noted (bn_Table b) of
        Some keys \<Rightarrow>
          notedBindings_loop envs randoms s info n op noted (if bn_Key b \<in> keys then out @ [b] else out) bs
      | None \<Rightarrow>
          (case listKeys (envs n) (envs (n + 1)) (randoms n) s op info [''-N'', ''-P'', [], ''-T'', bn_Table b] of
             ((r, err), op') \<Rightarrow>
               (case err of
                  Some e \<Rightarrow>
                    if \<not> bindingQueryNoMatch e \<lparr>bs_Table = bn_Table b, bs_Key = [], bs_FirstMatch = False, bs_NotesOnly = False,
                          bs_Prefix = []\<rparr>
                    then Inl e
                    else notedBindings_loop envs randoms s info (n + 2) op' (noted(bn_Table b \<mapsto> noted_keys (res_stdout r)))
                      (if bn_Key b \<in> noted_keys (res_stdout r) then out @ [b] else out) bs
                | None \<Rightarrow>
                    notedBindings_loop envs randoms s info (n + 2) op' (noted(bn_Table b \<mapsto> noted_keys (res_stdout r)))
                      (if bn_Key b \<in> noted_keys (res_stdout r) then out @ [b] else out) bs)))"

definition FindBindings ::
  "(nat \<Rightarrow> call_env) \<Rightarrow> (nat \<Rightarrow> bytes) \<Rightarrow> (server \<Rightarrow> server_info) \<Rightarrow> server option \<Rightarrow> bindings_options \<Rightarrow> goerr + binding_info list" where
  "FindBindings envs randoms verified so opts =
     (case validateBindingsOptions opts of
        Some e \<Rightarrow> Inl (op_error ''Server.FindBindings'' e)
      | None \<Rightarrow>
          (case begin_op (envs 0) so of
              Inl e \<Rightarrow> Inl (op_error ''Server.FindBindings'' e)
            | Inr (s, op) \<Rightarrow>
                (case verifiedInfo (envs 0) verified s op of
                   (Inl e, op') \<Rightarrow> Inl (op_error ''Server.FindBindings'' e)
                 | (Inr info, op') \<Rightarrow>
                     (case listKeys (envs 1) (envs 2) (randoms 1) s op' info (listKeysArgs opts) of
                        ((r, Some e), _) \<Rightarrow>
                          if bindingQueryNoMatch e opts then Inr [] else Inl (op_error ''Server.FindBindings'' e)
                      | ((r, None), op2) \<Rightarrow>
                          (let found = parseBindingsLines (res_stdout r) (bs_Table opts) (bs_Table opts) in
                           bind_res (if bs_NotesOnly opts
                               then labelled ''Server.FindBindings'' (notedBindings_loop envs randoms s info 3 op2 Map.empty [] found)
                               else Inr found) (\<lambda>out.
                             Inr (if bs_FirstMatch opts then take 1 out else out)))))))"

definition Bindings where
  "Bindings envs randoms verified so table = FindBindings envs randoms verified so
     \<lparr>bs_Table = table, bs_Key = [], bs_FirstMatch = False, bs_NotesOnly = False, bs_Prefix = []\<rparr>"

subsection \<open>What tmux prints is read back\<close>

lemma part_command_render: "well_named c \<Longrightarrow> part_command (render_command c) = Some (command_of c)"
  using ParseWords_render [of "fst c" "snd c"]
  by (simp add: part_command_def well_named_def render_command_def NewCommand_def command_of_def)

lemma part_commands_render: "list_all well_named cs \<Longrightarrow> part_commands (map render_command cs) = Some (map command_of cs)"
  by (induction cs) (simp_all add: part_command_render)

definition render_payload :: "(bytes \<times> bytes list) list \<Rightarrow> bytes" where
  "render_payload cs = join_with '' ; '' (map render_command cs)"

lemma parsePayload_render:
  "list_all well_named cs \<Longrightarrow>
   parsePayload (render_payload cs) = \<lparr>cp_raw = render_payload cs, cp_sequence = map command_of cs, cp_parsed = True\<rparr>"
  by (simp add: parsePayload_def SplitSequence_def render_payload_def splitSequence_commands part_commands_render)

lemma LF_not_rendered: "well_named c \<Longrightarrow> LF \<notin> set (render_command c)"
proof -
  assume "well_named c"
  then have "list_all isCommandChar (fst c)" using ValidCommand_chars by (simp add: well_named_def)
  then have "LF \<notin> set (fst c)"
    by (auto simp: list_all_iff isCommandChar_def isLetter_def is_digit_def LF_def)
  moreover have "LF \<notin> set (quote_bytes a)" for a
    using set_quote_bytes [of LF a] by (auto simp: isSafeQuoteByte_code byte_defs)
  then have "LF \<notin> set (render_args as)" for as
    by (induction as) (auto simp: render_word_def byte_defs)
  ultimately show ?thesis by (simp add: render_command_def)
qed

lemma LF_not_in_payload: "list_all well_named cs \<Longrightarrow> LF \<notin> set (render_payload cs)"
proof (induction cs)
  case (Cons c cs)
  then show ?case
    using LF_not_rendered [of c] by (cases cs) (auto simp: render_payload_def LF_def)
qed (simp add: render_payload_def)

lemma output_lines_concat:
  "list_all (\<lambda>l. l \<noteq> [] \<and> LF \<notin> set l) ls \<Longrightarrow> output_lines (concat (map (\<lambda>l. l @ [LF]) ls)) = ls"
proof (cases ls rule: rev_cases)
  case Nil
  then show ?thesis by (simp add: output_lines_def trim_suffix_def)
next
  case (snoc ls' l)
  assume a: "list_all (\<lambda>l. l \<noteq> [] \<and> LF \<notin> set l) ls"
  have split: "split_byte LF (concat (map (\<lambda>l. l @ [LF]) ls') @ l) = ls' @ [l]"
    if "list_all (\<lambda>l. LF \<notin> set l) ls'" "LF \<notin> set l" for ls' :: "bytes list"
    using that by (induction ls') (simp_all add: split_byte_fresh split_byte_append)
  have "trim_suffix (concat (map (\<lambda>l. l @ [LF]) ls)) [LF] = concat (map (\<lambda>l. l @ [LF]) ls') @ l"
    using trim_suffix_append [of "concat (map (\<lambda>l. l @ [LF]) ls') @ l" "[LF]"] by (simp add: snoc)
  with a split [of ls'] show ?thesis
    by (auto simp: output_lines_def snoc list_all_iff filter_id_conv)
qed

definition hook_ok :: "bytes \<times> int \<times> (bytes \<times> bytes list) list \<Rightarrow> bool" where
  "hook_ok h = (case h of (name, index, cs) \<Rightarrow> validFormatName name \<and> index_ok index \<and> list_all well_named cs)"

definition print_hook :: "bytes \<times> int \<times> (bytes \<times> bytes list) list \<Rightarrow> bytes" where
  "print_hook h = (case h of (name, index, cs) \<Rightarrow> hook_slot name index @ '' '' @ render_payload cs)"

definition hook_meaning :: "scope \<Rightarrow> bytes \<times> int \<times> (bytes \<times> bytes list) list \<Rightarrow> hook_info" where
  "hook_meaning sc h = (case h of (name, index, cs) \<Rightarrow>
     \<lparr>hi_Name = name, hi_Index = index, hi_Scope = sc,
      hi_Payload = \<lparr>cp_raw = render_payload cs, cp_sequence = map command_of cs, cp_parsed = True\<rparr>\<rparr>)"

lemma format_name_chars:
  assumes "validFormatName name"
  shows "CHR ''['' \<notin> set name" "CHR '' '' \<notin> set name" "LF \<notin> set name" "name \<noteq> []"
  using assms by (auto simp: validFormatName_def list_all_iff is_digit_def LF_def)

lemma index_text:
  assumes "index_ok index"
  shows "atoi (itoa index) = Some index" "set (itoa index) \<subseteq> {c. is_digit c}"
proof -
  obtain n where n: "index = int n" using assms by (metis index_ok_def nonneg_int_cases not_less)
  then show "atoi (itoa index) = Some index" using assms by (intro atoi_itoa) (auto simp: index_ok_def)
  show "set (itoa index) \<subseteq> {c. is_digit c}"
    using n by (auto simp: itoa_def dest!: set_itoa_nat)
qed

lemma hook_slot_chars:
  assumes "validFormatName name" "index_ok index"
  shows "CHR '' '' \<notin> set (hook_slot name index)" "LF \<notin> set (hook_slot name index)"
    "last_index (hook_slot name index) (CHR ''['') = Some (length name)"
    "arrayIndex (hook_slot name index) name = Inr index"
proof -
  have d: "x \<notin> set (itoa index)" if "\<not> is_digit x" for x
    using index_text(2) [OF assms(2)] that by blast
  have nd: "\<not> is_digit (CHR '' '')" "\<not> is_digit LF" "\<not> is_digit (CHR ''['')"
    by (simp_all add: is_digit_def LF_def)
  show "CHR '' '' \<notin> set (hook_slot name index)" "LF \<notin> set (hook_slot name index)"
    using format_name_chars [OF assms(1)] d nd by (auto simp: hook_slot_def LF_def)
  show "last_index (hook_slot name index) (CHR ''['') = Some (length name)"
    using last_index_append [of "CHR ''[''" "itoa index @ '']''" name] d [OF nd(3)] by (simp add: hook_slot_def)
  have "has_prefix (hook_slot name index) (name @ ''['')"
    by (auto simp: hook_slot_def has_prefix_iff)
  moreover have "has_suffix (hook_slot name index) '']''"
    by (auto simp: hook_slot_def has_suffix_iff)
  moreover have "slice (length name + 1) (length (hook_slot name index) - 1) (hook_slot name index) = itoa index"
    by (simp add: hook_slot_def slice_def)
  moreover have "0 \<le> index" using assms(2) by (simp add: index_ok_def)
  ultimately show "arrayIndex (hook_slot name index) name = Inr index"
    using index_text(1) [OF assms(2)] by (simp add: arrayIndex_def)
qed

lemma hook_line_print:
  assumes "hook_ok h"
  shows "hook_line sc label (print_hook h) = Inr (Some (hook_meaning sc h))"
proof -
  obtain name index cs where h: "h = (name, index, cs)" by (cases h)
  with assms have ok: "validFormatName name" "index_ok index" "list_all well_named cs" by (simp_all add: hook_ok_def)
  note slot = hook_slot_chars [OF ok(1,2)]
  have "cut (print_hook h) '' '' = (hook_slot name index, render_payload cs, True)"
    using cut_byte [OF slot(1)] by (simp add: h print_hook_def)
  moreover have "take (length name) (hook_slot name index) = name" by (simp add: hook_slot_def)
  ultimately show ?thesis
    using slot(3,4) parsePayload_render [OF ok(3)] by (simp add: hook_line_def hook_meaning_def h)
qed

lemma hook_lines_print:
  "list_all hook_ok hs \<Longrightarrow> hook_lines sc label (map print_hook hs) = Inr (map (hook_meaning sc) hs)"
  by (induction hs) (simp_all add: hook_line_print)

lemma print_hook_line: "hook_ok h \<Longrightarrow> print_hook h \<noteq> [] \<and> LF \<notin> set (print_hook h)"
  using hook_slot_chars(2) LF_not_in_payload by (auto simp: hook_ok_def print_hook_def LF_def split: prod.splits)

text \<open>The hooks that tmux prints are read back: of every line the name, the slot and the scope, and the commands it runs, in
  order, with each argument byte for byte.\<close>

theorem parseHooksOutput_roundtrip:
  assumes "list_all hook_ok hs"
  shows "parseHooksOutput t label (concat (map (\<lambda>h. print_hook h @ [LF]) hs)) = Inr (map (hook_meaning (ot_scope t)) hs)"
proof -
  have "list_all (\<lambda>l. l \<noteq> [] \<and> LF \<notin> set l) (map print_hook hs)"
    using assms print_hook_line by (auto simp: list_all_iff)
  from output_lines_concat [OF this] assms show ?thesis
    by (simp add: parseHooksOutput_def comp_def hook_lines_print)
qed

lemma parseHooksOutput_roundtrip_witness:
  "parseHooksOutput (GlobalHooks None) ''HookScope.List''
     (print_hook (''pane-died'', 3, [(''kill-pane'', [''-t'', ''a b'']), (''list-keys'', [])]) @ [LF]) =
   Inr [hook_meaning ScopeGlobalSession (''pane-died'', 3, [(''kill-pane'', [''-t'', ''a b'']), (''list-keys'', [])])]"
proof -
  have "list_all hook_ok [(''pane-died'', 3, [(''kill-pane'', [''-t'', ''a b'']), (''list-keys'', [])])]"
    by (simp add: hook_ok_def validFormatName_def index_ok_def well_named_def ValidCommand_def isLetter_def isCommandChar_def NUL_def)
  from parseHooksOutput_roundtrip [OF this, of "GlobalHooks None"] show ?thesis by (simp add: GlobalHooks_def)
qed

subsection \<open>Bindings are read back\<close>

definition print_binding :: "bool \<Rightarrow> bytes \<Rightarrow> bytes \<Rightarrow> (bytes \<times> bytes list) list \<Rightarrow> bytes" where
  "print_binding rep table key cs =
     (case cs of
        [] \<Rightarrow> []
      | c # rest \<Rightarrow> render_payload ((''bind-key'', (if rep then [''-r''] else []) @ [''-T'', table, key, fst c] @ snd c) # rest))"

lemma key_is_no_flag:
  assumes "Key_Valid key"
  shows "key \<notin> {''-r'', ''-n'', ''-T'', ''-N'', ''--''}"
proof -
  have "\<not> Key_Valid k" if "k \<in> {''-r'', ''-n'', ''-T'', ''-N'', ''--''}" for k
    using that by auto (code_simp+)
  with assms show ?thesis by blast
qed

lemma valid_format_string: "validFormatName s \<Longrightarrow> ValidString s"
  by (auto simp: validFormatName_def ValidString_iff list_all_iff NUL_def is_digit_def)



end
