(* ===== verification/Tmux_Connection.thy ===== *)
theory Tmux_Connection
  imports Tmux_Buffers Control_Dispatch
begin

text \<open>
  \<open>tmux/control.go\<close>, the parts that are not goroutines: the options of a control client and the arguments it is
  started with, the pipes of its process, the connection it becomes, and its end. The interleavings are in
  \<open>Control_Streams\<close> and \<open>Control_Requests\<close>. The handle that a connection hands out points to the identity it
  learns when it has attached; here it is computed from the connection when it is asked for.
\<close>

subsection \<open>Client flags\<close>

definition ClientFlagIgnoreSize :: bytes where "ClientFlagIgnoreSize = ''ignore-size''"
definition ClientFlagNoOutput :: bytes where "ClientFlagNoOutput = ''no-output''"
definition ClientFlagReadOnly :: bytes where "ClientFlagReadOnly = ''read-only''"
definition ClientFlagActivePane :: bytes where "ClientFlagActivePane = ''active-pane''"
definition ClientFlagNoDetachOnDestroy :: bytes where "ClientFlagNoDetachOnDestroy = ''no-detach-on-destroy''"
definition ClientFlagWaitExit :: bytes where "ClientFlagWaitExit = ''wait-exit''"
definition ClientFlagNewLayouts :: bytes where "ClientFlagNewLayouts = ''new-layouts''"

definition ClientFlagPauseAfter :: "int \<Rightarrow> bytes" where
  "ClientFlagPauseAfter seconds = (if seconds \<le> 0 then ''pause-after'' else ''pause-after='' @ itoa seconds)"

definition Negate :: "bytes \<Rightarrow> bytes" where
  "Negate f = (case cut_prefix f ''!'' of Some rest \<Rightarrow> rest | None \<Rightarrow> CHR ''!'' # f)"

definition ClientFlag_Valid :: "bytes \<Rightarrow> bool" where
  "ClientFlag_Valid f =
     (let raw = trim_prefix f ''!'' in
      if has_prefix raw ''pause-after'' then
        raw = ''pause-after'' \<or>
        (case cut_prefix raw ''pause-after='' of
           Some v \<Rightarrow> (case atoi v of Some n \<Rightarrow> 0 \<le> n | None \<Rightarrow> False)
         | None \<Rightarrow> False)
      else raw \<in> {ClientFlagIgnoreSize, ClientFlagNoOutput, ClientFlagReadOnly, ClientFlagActivePane,
        ClientFlagNoDetachOnDestroy, ClientFlagWaitExit, ClientFlagNewLayouts})"

definition formatClientFlags :: "bytes list \<Rightarrow> bytes" where
  "formatClientFlags flags = join_with '','' flags"

subsection \<open>Options\<close>

record control_options =
  ko_PaneOutput :: bool
  ko_NoEcho :: bool
  ko_Flags :: "bytes list"
  ko_UTF8 :: nat
  ko_Colors256 :: bool
  ko_TerminalFeatures :: "bytes list"
  ko_QueueDepth :: int
  ko_QueuedBytes :: int
  ko_FrameBytes :: int
  ko_EventBytes :: int
  ko_MaxStreams :: int

record control_new_session_options =
  kw_Control :: control_options
  kw_Name :: bytes
  kw_Window :: bytes
  kw_Dir :: bytes
  kw_Program :: program
  kw_TmuxEnv :: env
  kw_Size :: csize
  kw_Group :: bytes
  kw_AttachIfExists :: bool

definition defaultQueueDepth :: int where "defaultQueueDepth = 64"
definition defaultQueuedBytes :: int where "defaultQueuedBytes = push_bit 20 8"
definition defaultFrameBytes :: int where "defaultFrameBytes = push_bit 20 4"
definition defaultEventBytes :: int where "defaultEventBytes = push_bit 20 32"
definition defaultMaxStreams :: int where "defaultMaxStreams = 8"

definition validateControlLimits :: "control_options \<Rightarrow> bool" where
  "validateControlLimits o' \<longleftrightarrow>
     \<not> (ko_QueueDepth o' < 0 \<or> ko_QueuedBytes o' < 0 \<or> ko_FrameBytes o' < 0 \<or> ko_EventBytes o' < 0 \<or>
        ko_MaxStreams o' < 0) \<and>
     \<not> (push_bit 20 1 < ko_QueueDepth o' \<or> push_bit 40 1 < ko_QueuedBytes o' \<or> push_bit 40 1 < ko_FrameBytes o' \<or>
        push_bit 40 1 < ko_EventBytes o' \<or> push_bit 16 1 < ko_MaxStreams o')"

definition defaultControlOptions :: "control_options \<Rightarrow> control_options" where
  "defaultControlOptions o' = o'\<lparr>
     ko_QueueDepth := (if ko_QueueDepth o' = 0 then defaultQueueDepth else ko_QueueDepth o'),
     ko_QueuedBytes := (if ko_QueuedBytes o' = 0 then defaultQueuedBytes else ko_QueuedBytes o'),
     ko_FrameBytes := (if ko_FrameBytes o' = 0 then defaultFrameBytes else ko_FrameBytes o'),
     ko_EventBytes := (if ko_EventBytes o' = 0 then defaultEventBytes else ko_EventBytes o'),
     ko_MaxStreams := (if ko_MaxStreams o' = 0 then defaultMaxStreams else ko_MaxStreams o')\<rparr>"

definition normalizeControlOptions :: "control_options \<Rightarrow> goerr + control_options" where
  "normalizeControlOptions o' =
     (if \<not> validateControlLimits o' then Inl (invalid ''control limits'')
      else let o1 = defaultControlOptions o' in
        if \<not> validateControlLimits o1 then Inl (invalid ''control limits'') else Inr o1)"

text \<open>The second check never fails, and what is returned fits the quotas that the streams and the queue count with.\<close>

lemma normalizeControlOptions_total:
  assumes "validateControlLimits o'"
  shows "normalizeControlOptions o' = Inr (defaultControlOptions o')"
  using assms
  by (auto simp: normalizeControlOptions_def validateControlLimits_def defaultControlOptions_def Let_def
      defaultQueueDepth_def defaultQueuedBytes_def defaultFrameBytes_def defaultEventBytes_def defaultMaxStreams_def push_bit_eq_mult)

lemma normalizeControlOptions_positive:
  assumes "normalizeControlOptions o' = Inr o1"
  shows "0 < ko_QueueDepth o1 \<and> 0 < ko_QueuedBytes o1 \<and> 0 < ko_FrameBytes o1 \<and> 0 < ko_EventBytes o1 \<and> 0 < ko_MaxStreams o1 \<and>
    ko_EventBytes o1 \<le> 2 ^ 40 \<and> ko_MaxStreams o1 \<le> 2 ^ 16"
  using assms
  by (auto simp: normalizeControlOptions_def validateControlLimits_def defaultControlOptions_def Let_def
      defaultQueueDepth_def defaultQueuedBytes_def defaultFrameBytes_def defaultEventBytes_def defaultMaxStreams_def
      push_bit_eq_mult split: if_split_asm)

subsection \<open>Arguments\<close>

definition controlRootArgs :: "server \<Rightarrow> control_options \<Rightarrow> bytes list" where
  "controlRootArgs s o' =
     (let cfg = srv_config s;
          cfg1 = (if ko_UTF8 o' \<noteq> UTF8Default then cfg\<lparr>cfg_UTF8 := ko_UTF8 o'\<rparr> else cfg);
          cfg2 = (if ko_Colors256 o' then cfg1\<lparr>cfg_Colors256 := True\<rparr> else cfg1);
          cfg3 = (if ko_TerminalFeatures o' \<noteq> [] then cfg2\<lparr>cfg_TerminalFeatures := ko_TerminalFeatures o'\<rparr> else cfg2)
      in baseArgs (s\<lparr>srv_config := cfg3\<rparr>) False @ [if ko_NoEcho o' then ''-CC'' else ''-C''])"

definition startup_flags :: "control_options \<Rightarrow> bytes list" where
  "startup_flags o' = [ClientFlagIgnoreSize] @ (if \<not> ko_PaneOutput o' then [ClientFlagNoOutput] else []) @ ko_Flags o'"

definition controlFlags :: "control_options \<Rightarrow> goerr + bytes" where
  "controlFlags o' =
     (if list_all ClientFlag_Valid (ko_Flags o') then Inr (formatClientFlags (startup_flags o'))
      else Inl (invalid ''client flag''))"

text \<open>The command, followed by the identity and the mark that ends the answer.\<close>

definition startup_plan :: "bytes \<Rightarrow> bytes list \<Rightarrow> bytes \<Rightarrow> plan" where
  "startup_plan name args nonce =
     (let p = emptyPlan \<lparr>cmd_name = name, cmd_args = args\<rparr>
      in p\<lparr>pl_nodes := pl_nodes p @ [identityNode, markerNode nonce]\<rparr>)"

definition controlAttachArgs :: "server \<Rightarrow> bytes \<Rightarrow> control_options \<Rightarrow> bytes \<Rightarrow> goerr + bytes list" where
  "controlAttachArgs s sid o' nonce =
     bind_res (controlFlags o') (\<lambda>flags.
     bind_res (plan_argv (startup_plan ''attach-session'' [''-t'', sid, ''-f'', flags] nonce)) (\<lambda>args.
       Inr (controlRootArgs s o' @ args)))"

definition newSessionFlags :: "control_new_session_options \<Rightarrow> bytes list" where
  "newSessionFlags o' =
     (if kw_AttachIfExists o' then [''-A''] else []) @
     (if kw_Name o' \<noteq> [] then [''-s'', LiteralFormat (kw_Name o')] else []) @
     (if kw_Window o' \<noteq> [] then [''-n'', LiteralFormat (kw_Window o')] else []) @
     (if kw_Dir o' \<noteq> [] then [''-c'', LiteralFormat (kw_Dir o')] else []) @
     (if kw_Group o' \<noteq> [] then [''-t'', kw_Group o'] else []) @
     (if 0 < sz_Width (kw_Size o') then [''-x'', itoa (sz_Width (kw_Size o'))] else []) @
     (if 0 < sz_Height (kw_Size o') then [''-y'', itoa (sz_Height (kw_Size o'))] else [])"

definition controlNewSessionArgs :: "server \<Rightarrow> control_new_session_options \<Rightarrow> bytes \<Rightarrow> goerr + bytes list" where
  "controlNewSessionArgs s o' nonce =
     bind_res (controlFlags (kw_Control o')) (\<lambda>flags.
     bind_res (tmuxEnvArgs (kw_TmuxEnv o')) (\<lambda>envArgs.
     bind_res (program_argv (kw_Program o')) (\<lambda>progArgs.
     bind_res (plan_argv (startup_plan ''new-session''
         ([''-f'', flags] @ newSessionFlags o' @ envArgs @ operands progArgs) nonce)) (\<lambda>args.
       Inr (controlRootArgs s (kw_Control o') @ args)))))"

text \<open>Both openings check the handle and the context; \<open>ctx\<close> is \<open>None\<close> for a nil context, otherwise its error, if any.\<close>

definition validateOpenControl :: "server option \<Rightarrow> goerr option option \<Rightarrow> bytes \<Rightarrow> goerr option" where
  "validateOpenControl so ctx sid =
     (case so of
        None \<Rightarrow> Some (Sentinel ErrInvalidHandle)
      | Some s \<Rightarrow>
          if \<not> srv_runner s then Some (Sentinel ErrInvalidHandle)
          else (case ctx of
              None \<Rightarrow> Some (invalid ''nil context'')
            | Some (Some e) \<Rightarrow> Some e
            | Some None \<Rightarrow>
                if srv_conn s \<noteq> None \<or> srv_bound s \<noteq> None
                then Some (unsupportedControl ''open control connection on control-bound server'' (Sentinel ErrTransportUnsupported))
                else if \<not> SessionID_Valid sid then Some (invalid ''session ID'') else None))"

definition validateControlNewSessionStrings :: "control_new_session_options \<Rightarrow> goerr option" where
  "validateControlNewSessionStrings o' =
     (case sessionName (kw_Name o') True of
        Some e \<Rightarrow> Some e
      | None \<Rightarrow>
          if kw_Window o' \<noteq> [] \<and> \<not> validNotificationName (kw_Window o') then Some (invalid ''window name'')
          else if kw_Dir o' \<noteq> [] \<and> \<not> ValidString (kw_Dir o') then Some (invalid ''dir'')
          else if kw_Group o' \<noteq> [] \<and> \<not> validNotificationName (kw_Group o') then Some (invalid ''group'')
          else None)"

definition validateOpenControlNewSession :: "server option \<Rightarrow> goerr option option \<Rightarrow> control_new_session_options \<Rightarrow> goerr option" where
  "validateOpenControlNewSession so ctx o' =
     (case so of
        None \<Rightarrow> Some (Sentinel ErrInvalidHandle)
      | Some s \<Rightarrow>
          if \<not> srv_runner s then Some (Sentinel ErrInvalidHandle)
          else if srv_conn s \<noteq> None \<or> srv_bound s \<noteq> None
          then Some (unsupportedControl ''open control connection on control-bound server'' (Sentinel ErrTransportUnsupported))
          else if ctx \<noteq> Some None then Some (invalid ''context'')
          else (case validateControlNewSessionStrings o' of
              Some e \<Rightarrow> Some e
            | None \<Rightarrow> if \<not> size_valid (kw_Size o') then Some (invalid ''size'') else None))"

subsection \<open>The process\<close>

datatype fd = Master | Slave | InChild | InWrite | OutRead | OutChild | ErrRead | ErrChild

text \<open>What the operating system answers, in the order in which it is asked.\<close>

record setup_answers =
  sa_pty :: "goerr option"
  sa_in :: "goerr option"
  sa_out :: "goerr option"
  sa_err :: "goerr option"
  sa_start :: "goerr option"

text \<open>The descriptors of the two ends, the parent's three (input, output, diagnostics), and the error.\<close>

record control_process =
  cp_opened :: "fd list"
  cp_closed :: "fd list"
  cp_parent :: "fd list"
  cp_child :: "fd list"
  cp_error :: "goerr option"
  cp_canceled :: bool

definition setup_failed :: "goerr \<Rightarrow> fd list \<Rightarrow> control_process" where
  "setup_failed e fds =
     \<lparr>cp_opened = fds, cp_closed = fds, cp_parent = [], cp_child = [], cp_error = Some e, cp_canceled = True\<rparr>"

definition start_child :: "setup_answers \<Rightarrow> fd list \<Rightarrow> fd list \<Rightarrow> fd list \<Rightarrow> control_process" where
  "start_child ans fds parent child =
     (case sa_start ans of
        Some e \<Rightarrow> \<lparr>cp_opened = fds, cp_closed = fds, cp_parent = parent, cp_child = child, cp_error = Some e, cp_canceled = True\<rparr>
      | None \<Rightarrow> \<lparr>cp_opened = fds, cp_closed = remdups child, cp_parent = parent, cp_child = child, cp_error = None,
          cp_canceled = False\<rparr>)"

definition setupControlProcess :: "bool \<Rightarrow> setup_answers \<Rightarrow> control_process" where
  "setupControlProcess noEcho ans =
     (if noEcho then
        (case sa_pty ans of Some e \<Rightarrow> setup_failed e []
         | None \<Rightarrow> (case sa_err ans of Some e \<Rightarrow> setup_failed e [Master, Slave]
           | None \<Rightarrow> start_child ans [Master, Slave, ErrRead, ErrChild] [Master, Master, ErrRead] [Slave, Slave, ErrChild]))
      else
        (case sa_in ans of Some e \<Rightarrow> setup_failed e []
         | None \<Rightarrow> (case sa_out ans of Some e \<Rightarrow> setup_failed e [InChild, InWrite]
           | None \<Rightarrow> (case sa_err ans of Some e \<Rightarrow> setup_failed e [InChild, InWrite, OutRead, OutChild]
             | None \<Rightarrow> start_child ans [InChild, InWrite, OutRead, OutChild, ErrRead, ErrChild]
                 [InWrite, OutRead, ErrRead] [InChild, OutChild, ErrChild]))))"

text \<open>Nothing leaks: after a failure every descriptor that was opened is closed and the context is canceled; after a
  success exactly the parent's ends stay open, and the child has the other ones.\<close>

lemma setupControlProcess_leaks_nothing:
  "let p = setupControlProcess noEcho ans; left = set (cp_opened p) - set (cp_closed p) in
     distinct (cp_closed p) \<and> set (cp_closed p) \<subseteq> set (cp_opened p) \<and>
     (if cp_error p = None then left = set (cp_parent p) \<and> set (cp_child p) = set (cp_closed p) \<and> \<not> cp_canceled p
      else left = {} \<and> cp_canceled p)"
  by (auto simp: setupControlProcess_def setup_failed_def start_child_def Let_def split: option.split)

subsection \<open>The connection\<close>

text \<open>\<open>kn_made\<close>: it was made by \<open>newConnection\<close>, the only place that sets the channel \<open>done\<close>. \<open>kn_pid\<close> is the process
  once it has started. The last three fields are the filter on pane output: what tmux was told, and what is published.\<close>

record connection =
  kn_made :: bool
  kn_original :: server
  kn_identity :: server_identity
  kn_info :: server_info
  kn_generation :: nat
  kn_opts :: control_options
  kn_pid :: "int option"
  kn_open :: "fd list"
  kn_stopped :: bool
  kn_closed :: bool
  kn_normal :: bool
  kn_terminal :: "goerr option"
  kn_client :: "handle option"
  kn_noOutput :: bool
  kn_selective :: bool
  kn_panes :: "bytes \<Rightarrow> bool option"

text \<open>The flags of the options override each other in the order in which they are given.\<close>

fun flag_effect :: "bytes list \<Rightarrow> bool \<Rightarrow> bool" where
  "flag_effect [] off = off"
| "flag_effect (f # fs) off =
     flag_effect fs (if f = ClientFlagNoOutput then True else if f = Negate ClientFlagNoOutput then False else off)"

definition newConnection :: "server \<Rightarrow> control_options \<Rightarrow> nat \<Rightarrow> connection" where
  "newConnection s o' gen =
     (let noOutput = flag_effect (ko_Flags o') (\<not> ko_PaneOutput o');
          i = \<lparr>id_endpoint = srv_endpoint s, id_socket = [], id_pid = 0, id_started = zero_time, id_generation = gen\<rparr>
      in \<lparr>kn_made = True, kn_original = s, kn_identity = i,
          kn_info = \<lparr>sv_raw = (\<lambda>_. None), sv_Identity = i, sv_Version = zero_version\<rparr>,
          kn_generation = gen, kn_opts = o', kn_pid = None, kn_open = [], kn_stopped = False, kn_closed = False,
          kn_normal = False, kn_terminal = None, kn_client = None,
          kn_noOutput = noOutput, kn_selective = noOutput, kn_panes = (\<lambda>_. None)\<rparr>)"

text \<open>The handle of the connection. Its \<open>bound\<close> is the address of the connection's identity, so it is always the
  current one.\<close>

definition Connection_Server :: "connection \<Rightarrow> server" where
  "Connection_Server c = (kn_original c)\<lparr>srv_conn := Some (kn_generation c), srv_bound := Some (kn_identity c),
     srv_lifetime := Some (kn_generation c)\<rparr>"

definition Connection_SubprocessServer :: "connection option \<Rightarrow> server option" where
  "Connection_SubprocessServer co =
     (case co of
        None \<Rightarrow> None
      | Some c \<Rightarrow> if kn_made c then Some (SubprocessServer (kn_original c) (kn_identity c) (kn_generation c)) else None)"

definition verifyStartup :: "bytes \<Rightarrow> connection \<Rightarrow> goerr + connection" where
  "verifyStartup stdout c =
     bind_res (parseRaw stdout schema_Identity ''server'') (\<lambda>rows.
     if length rows \<noteq> 1 then Inl (decodeError ''server'' ''record count'' (Sentinel ErrRecord))
     else bind_res (serverInfo (Connection_Server c) (hd rows)) (\<lambda>info.
       Inr (c\<lparr>kn_identity := sv_Identity info, kn_info := info\<rparr>)))"

text \<open>\<open>stop\<close> acts once; its streams end in \<open>Control_Streams\<close>.\<close>

definition stop_connection :: "goerr option \<Rightarrow> bool \<Rightarrow> connection \<Rightarrow> connection" where
  "stop_connection err ok c =
     (if kn_stopped c then c
      else c\<lparr>kn_stopped := True, kn_closed := True, kn_normal := ok, kn_terminal := err, kn_open := []\<rparr>)"

definition closedError :: "connection \<Rightarrow> goerr option" where
  "closedError c =
     (if \<not> kn_made c then Some (Sentinel ErrInvalidHandle)
      else if kn_closed c then join2 (Some (Sentinel ErrClosed)) (kn_terminal c) else None)"

text \<open>\<open>finished\<close>: the goroutines end before the budget of the shutdown is over.\<close>

definition Connection_Close :: "bool \<Rightarrow> connection option \<Rightarrow> goerr option \<times> connection option" where
  "Connection_Close finished co =
     (case co of
        None \<Rightarrow> (None, None)
      | Some c \<Rightarrow>
          if \<not> kn_made c then (Some (Sentinel ErrInvalidHandle), Some c)
          else let c' = stop_connection None True c in
            (if finished then (if kn_normal c' then None else kn_terminal c')
             else Some (Sentinel ErrShutdownIncomplete), Some c'))"

text \<open>\<open>ctx\<close> is \<open>None\<close> for a nil context; its answer is the error of the context, when that is done first.\<close>

definition Connection_Wait :: "goerr option option \<Rightarrow> connection option \<Rightarrow> goerr option" where
  "Connection_Wait ctx co =
     (case co of
        None \<Rightarrow> Some (Sentinel ErrInvalidHandle)
      | Some c \<Rightarrow>
          if \<not> kn_made c then Some (Sentinel ErrInvalidHandle)
          else (case ctx of
              None \<Rightarrow> Some (invalid ''nil context'')
            | Some (Some e) \<Rightarrow> Some e
            | Some None \<Rightarrow> kn_terminal c))"

datatype readiness = Ready "goerr option" | CallerGone goerr

text \<open>The connection that has attached, or the error after the shutdown of one that has not.\<close>

definition awaitReady :: "readiness \<Rightarrow> bool \<Rightarrow> connection \<Rightarrow> goerr option \<times> connection" where
  "awaitReady r finished c =
     (case (case r of Ready err \<Rightarrow> err | CallerGone e \<Rightarrow> Some e) of
        None \<Rightarrow> (None, c)
      | Some e \<Rightarrow>
          (case Connection_Close finished (Some (stop_connection (Some e) False c)) of
             (err, co) \<Rightarrow> (join2 (Some e) err, the co)))"

definition performStartupHandshake :: "goerr + bytes \<Rightarrow> connection \<Rightarrow> goerr option \<times> connection" where
  "performStartupHandshake collected c =
     (case bind_res collected (\<lambda>stdout. verifyStartup stdout c) of
        Inl e \<Rightarrow> (Some e, stop_connection (Some e) False c)
      | Inr c' \<Rightarrow> (None, c'))"

text \<open>Everything an opening depends on outside the library: the random bytes, the number of the connection, what the
  operating system answers, the process, what is collected as the answer of the startup command unless the caller gives
  up before, and the shutdown.\<close>

datatype startup_reply = Collected "goerr + bytes" | GivenUp goerr

record startup =
  og_random :: "goerr + bytes"
  og_generation :: nat
  og_setup :: setup_answers
  og_pid :: int
  og_answer :: "bytes list \<Rightarrow> startup_reply"
  og_finished :: bool

definition startup_answer :: "startup \<Rightarrow> bytes list \<Rightarrow> connection \<Rightarrow> readiness \<times> connection" where
  "startup_answer og args c =
     (case og_answer og args of
        GivenUp e \<Rightarrow> (CallerGone e, c)
      | Collected r \<Rightarrow> (case performStartupHandshake r c of (err, c') \<Rightarrow> (Ready err, c')))"

text \<open>The part both openings share, from the process to the answer. \<open>Inl (started, e)\<close> tells whether the process ran.\<close>

definition open_connection ::
  "startup \<Rightarrow> server \<Rightarrow> control_options \<Rightarrow> (bytes \<Rightarrow> goerr + bytes list) \<Rightarrow> (bool \<times> goerr) + connection" where
  "open_connection og s o' build =
     (case bind_res (token ''TGO-READY:'' (og_random og)) build of
        Inl e \<Rightarrow> Inl (False, e)
      | Inr args \<Rightarrow>
          let c = newConnection s o' (og_generation og);
              p = setupControlProcess (ko_NoEcho o') (og_setup og)
          in (case cp_error p of
              Some e \<Rightarrow> Inl (False, e)
            | None \<Rightarrow>
                (case startup_answer og args (c\<lparr>kn_pid := Some (og_pid og), kn_open := cp_parent p\<rparr>) of
                   (r, c1) \<Rightarrow> (case awaitReady r (og_finished og) c1 of
                       (None, c2) \<Rightarrow> Inr c2
                     | (Some e, c2) \<Rightarrow> Inl (True, e)))))"

definition op_failed :: "bytes \<Rightarrow> goerr \<Rightarrow> goerr" where
  "op_failed label e = the (opError label (Some e))"

definition OpenControl ::
  "startup \<Rightarrow> server option \<Rightarrow> goerr option option \<Rightarrow> bytes \<Rightarrow> control_options \<Rightarrow> goerr + connection" where
  "OpenControl og so ctx sid o' =
     (case so of
        None \<Rightarrow> Inl (op_failed ''Server.OpenControl'' (Sentinel ErrInvalidHandle))
      | Some s \<Rightarrow>
          (case validateOpenControl so ctx sid of
             Some e \<Rightarrow> Inl (op_failed ''Server.OpenControl'' e)
           | None \<Rightarrow>
               (case normalizeControlOptions o' of
                  Inl e \<Rightarrow> Inl (op_failed ''Server.OpenControl'' e)
                | Inr o1 \<Rightarrow>
                    (case open_connection og s o1 (controlAttachArgs s sid o1) of
                       Inl (started, e) \<Rightarrow> Inl (op_failed ''Server.OpenControl'' e)
                     | Inr c \<Rightarrow> Inr c))))"

subsection \<open>The client of the connection\<close>

definition client_filter :: "int \<Rightarrow> query_options" where
  "client_filter pid = \<lparr>qo_Filter = ''#{==:#{client_pid},'' @ itoa pid @ ''}'', qo_ExtraFields = []\<rparr>"

definition own_clients :: "call_env \<Rightarrow> call_env \<Rightarrow> connection \<Rightarrow> int \<Rightarrow> goerr + client_info list" where
  "own_clients env env' c pid =
     ClientsWith env env' (\<lambda>_. kn_info c) (Some (Connection_Server c)) (client_filter pid)"

definition Connection_Client ::
  "call_env \<Rightarrow> call_env \<Rightarrow> connection option \<Rightarrow> (goerr + handle) \<times> connection option" where
  "Connection_Client env env' co =
     (let no = (\<lambda>e. (Inl (op_failed ''Connection.Client'' e), co)) in
      case co of
        None \<Rightarrow> no (Sentinel ErrInvalidHandle)
      | Some c \<Rightarrow>
          (case closedError c of
             Some e \<Rightarrow> no e
           | None \<Rightarrow>
               (case kn_pid c of
                  None \<Rightarrow> no (Sentinel ErrInvalidHandle)
                | Some pid \<Rightarrow>
                    (case kn_client c of
                       Some h \<Rightarrow> (Inr h, co)
                     | None \<Rightarrow>
                         (case own_clients env env' c pid of
                            Inl e \<Rightarrow> no e
                          | Inr [] \<Rightarrow> no (Sentinel ErrNotFound)
                          | Inr (v # vs) \<Rightarrow> (Inr (cl_h v), Some (c\<lparr>kn_client := Some (cl_h v)\<rparr>)))))))"

text \<open>The session of a new connection; on an error the connection is closed. \<open>envs\<close> are the environments of the runs.\<close>

definition resolveCreatedSession :: "(nat \<Rightarrow> call_env) \<Rightarrow> bool \<Rightarrow> connection \<Rightarrow> (goerr + handle) \<times> connection" where
  "resolveCreatedSession envs finished c =
     (let no = (\<lambda>e c. (Inl e, the (snd (Connection_Close finished (Some c))))) in
      case (case kn_pid c of None \<Rightarrow> Inr [] | Some pid \<Rightarrow> own_clients (envs 0) (envs 1) c pid) of
        Inl e \<Rightarrow> no e c
      | Inr [] \<Rightarrow> no (Sentinel ErrNotFound) c
      | Inr (v # vs) \<Rightarrow>
          let c' = c\<lparr>kn_client := Some (cl_h v)\<rparr> in
          (case value_get (cl_SessionID v) of
             None \<Rightarrow> no (Sentinel ErrNotFound) c'
           | Some sid \<Rightarrow>
               (case Server_Session (envs 2) (envs 3) (\<lambda>_. kn_info c') (Some (Connection_Server c')) sid of
                  Inl e \<Rightarrow> no e c'
                | Inr h \<Rightarrow> (Inr h, c'))))"

text \<open>Once the process ran, a session may have been made: the effect of an error is then unknown, or confirmed when the
  connection had attached.\<close>

definition OpenControlNewSession ::
  "startup \<Rightarrow> (nat \<Rightarrow> call_env) \<Rightarrow> server option \<Rightarrow> goerr option option \<Rightarrow> control_new_session_options \<Rightarrow> goerr + connection \<times> handle" where
  "OpenControlNewSession og envs so ctx o' =
     (let label = ''Server.OpenControlNewSession'' in
      case so of
        None \<Rightarrow> Inl (op_failed label (Sentinel ErrInvalidHandle))
      | Some s \<Rightarrow>
          (case validateOpenControlNewSession so ctx o' of
             Some e \<Rightarrow> Inl (op_failed label e)
           | None \<Rightarrow>
               (case normalizeControlOptions (kw_Control o') of
                  Inl e \<Rightarrow> Inl (op_failed label e)
                | Inr o1 \<Rightarrow>
                    (case open_connection og s o1 (controlNewSessionArgs s (o'\<lparr>kw_Control := o1\<rparr>)) of
                       Inl (started, e) \<Rightarrow>
                         Inl (if started then OperationError label (plainOutcome EffectUnknown) e else op_failed label e)
                     | Inr c \<Rightarrow>
                         (case resolveCreatedSession envs (og_finished og) c of
                            (Inl e, c') \<Rightarrow> Inl (the (afterError label (Some e) []))
                          | (Inr h, c') \<Rightarrow> Inr (c', h))))))"

subsection \<open>What a connection starts with\<close>

text \<open>What tmux does with the flags a client is started with: they are split at the commas and take effect in order.\<close>

lemma atoi_no_comma: "atoi v = Some n \<Longrightarrow> CHR '','' \<notin> set v"
proof -
  assume "atoi v = Some n"
  then obtain body where "parse_uint 64 body \<noteq> None" "v = body \<or> v = CHR ''-'' # body \<or> v = CHR ''+'' # body"
    by (cases v) (auto simp: parse_int_def Let_def has_prefix_byte split: option.split_asm if_split_asm)
  moreover from this have "CHR '','' \<notin> set body"
    by (auto simp: parse_uint_def list_all_iff split: if_split_asm dest!: bspec [where x = "CHR '',''"]) (simp_all add: is_digit_def)
  ultimately show ?thesis by auto
qed

lemma ClientFlag_no_comma: "ClientFlag_Valid f \<Longrightarrow> CHR '','' \<notin> set f"
proof -
  assume v: "ClientFlag_Valid f"
  let ?raw = "trim_prefix f ''!''"
  have "CHR '','' \<notin> set ?raw"
  proof (cases "has_prefix ?raw ''pause-after''")
    case True
    with v show ?thesis
      by (auto simp: ClientFlag_Valid_def Let_def cut_prefix_def has_prefix_iff dest!: atoi_no_comma split: option.split_asm if_split_asm)
  next
    case False
    with v have "?raw \<in> {ClientFlagIgnoreSize, ClientFlagNoOutput, ClientFlagReadOnly, ClientFlagActivePane,
        ClientFlagNoDetachOnDestroy, ClientFlagWaitExit, ClientFlagNewLayouts}"
      by (simp add: ClientFlag_Valid_def Let_def)
    then show ?thesis
      by (auto simp: ClientFlagIgnoreSize_def ClientFlagNoOutput_def ClientFlagReadOnly_def ClientFlagActivePane_def
          ClientFlagNoDetachOnDestroy_def ClientFlagWaitExit_def ClientFlagNewLayouts_def)
  qed
  then show ?thesis
    by (cases "has_prefix f ''!''") (auto simp: trim_prefix_def has_prefix_byte)
qed

text \<open>The connection begins with the setting that its flags give to the client.\<close>

lemma newConnection_output:
  assumes "controlFlags o' = Inr flags"
  shows "kn_noOutput (newConnection s o' gen) = flag_effect (split_byte CHR '','' flags) False \<and>
    kn_selective (newConnection s o' gen) = kn_noOutput (newConnection s o' gen)"
proof -
  have v: "list_all ClientFlag_Valid (ko_Flags o')" "flags = formatClientFlags (startup_flags o')"
    using assms by (auto simp: controlFlags_def split: if_split_asm)
  have "CHR '','' \<notin> set f" if "f \<in> set (startup_flags o')" for f
    using that v(1) ClientFlag_no_comma
    by (auto simp: startup_flags_def list_all_iff ClientFlagIgnoreSize_def ClientFlagNoOutput_def split: if_split_asm)
  then have "split_byte CHR '','' flags = startup_flags o'"
    unfolding v(2) formatClientFlags_def by (intro split_join) (auto simp: startup_flags_def)
  moreover have "flag_effect (startup_flags o') False = flag_effect (ko_Flags o') (\<not> ko_PaneOutput o')"
    by (simp add: startup_flags_def ClientFlagIgnoreSize_def ClientFlagNoOutput_def Negate_def cut_prefix_def)
  ultimately show ?thesis by (simp add: newConnection_def Let_def)
qed

lemma Connection_Server_simps [simp]:
  "srv_endpoint (Connection_Server c) = srv_endpoint (kn_original c)" "srv_bound (Connection_Server c) = Some (kn_identity c)"
  "srv_conn (Connection_Server c) = Some (kn_generation c)"
  by (simp_all add: Connection_Server_def)

lemma stop_connection_once [simp]: "stop_connection e b (stop_connection e' b' c) = stop_connection e' b' c"
  by (simp add: stop_connection_def)

lemma verifyStartup_Inr:
  assumes "verifyStartup out c = Inr c'"
  shows "\<exists>row info. parseRaw out schema_Identity ''server'' = Inr [row] \<and> serverInfo (Connection_Server c) row = Inr info \<and>
    c' = c\<lparr>kn_identity := sv_Identity info, kn_info := info\<rparr>"
  using assms by (auto simp: verifyStartup_def bind_res_Inr_iff length_Suc_conv split: if_split_asm)

lemma open_connection_Inr:
  assumes "open_connection og s o' build = Inr c"
  shows "\<exists>nonce args out. token ''TGO-READY:'' (og_random og) = Inr nonce \<and> build nonce = Inr args \<and>
    og_answer og args = Collected (Inr out) \<and>
    verifyStartup out ((newConnection s o' (og_generation og))\<lparr>kn_pid := Some (og_pid og),
      kn_open := cp_parent (setupControlProcess (ko_NoEcho o') (og_setup og))\<rparr>) = Inr c"
proof -
  from assms obtain args r c1 where a: "bind_res (token ''TGO-READY:'' (og_random og)) build = Inr args"
      "startup_answer og args ((newConnection s o' (og_generation og))\<lparr>kn_pid := Some (og_pid og),
        kn_open := cp_parent (setupControlProcess (ko_NoEcho o') (og_setup og))\<rparr>) = (r, c1)"
      "awaitReady r (og_finished og) c1 = (None, c)"
    by (auto simp: open_connection_def Let_def split: sum.split_asm option.split_asm prod.split_asm)
  from a(3) have "r = Ready None" "c1 = c"
    by (auto simp: awaitReady_def split: readiness.split_asm option.split_asm prod.split_asm)
  with a show ?thesis
    by (auto simp: startup_answer_def performStartupHandshake_def bind_res_Inr_iff split: startup_reply.split_asm prod.split_asm sum.split_asm)
qed

text \<open>C34: A connection is handed out only when it is attached: the arguments asked for the session, their answer was one
  identity record, and the connection is bound to the daemon of that record, at the endpoint of the server it was opened on,
  of a supported version and not closed. A server that is bound already does not open another one.\<close>

theorem OpenControl_is_bound:
  assumes "OpenControl og (Some s) ctx sid o' = Inr c"
  shows "srv_conn s = None \<and> srv_bound s = None \<and> SessionID_Valid sid \<and>
    (\<exists>nonce args out row. controlAttachArgs s sid (kn_opts c) nonce = Inr args \<and> og_answer og args = Collected (Inr out) \<and>
       parseRaw out schema_Identity ''server'' = Inr [row] \<and>
       identity_row (Connection_Server (newConnection s (kn_opts c) (og_generation og)))
         \<lparr>rd_kind = ''server'', rd_raw = row\<rparr> (kn_identity c)) \<and>
    identity_valid (kn_identity c) \<and> id_endpoint (kn_identity c) = srv_endpoint s \<and>
    sv_Identity (kn_info c) = kn_identity c \<and> AtLeast (sv_Version (kn_info c)) 3 6 \<and> closedError c = None"
proof -
  obtain o1 where o: "validateOpenControl (Some s) ctx sid = None" "open_connection og s o1 (controlAttachArgs s sid o1) = Inr c"
    using assms by (auto simp: OpenControl_def split: option.split_asm sum.split_asm prod.split_asm)
  let ?c = "(newConnection s o1 (og_generation og))\<lparr>kn_pid := Some (og_pid og),
      kn_open := cp_parent (setupControlProcess (ko_NoEcho o1) (og_setup og))\<rparr>"
  obtain nonce args out where a: "controlAttachArgs s sid o1 nonce = Inr args" "og_answer og args = Collected (Inr out)"
      "verifyStartup out ?c = Inr c"
    using open_connection_Inr [OF o(2)] by blast
  from verifyStartup_Inr [OF a(3)] obtain row info where r: "parseRaw out schema_Identity ''server'' = Inr [row]"
      "serverInfo (Connection_Server ?c) row = Inr info" "c = ?c\<lparr>kn_identity := sv_Identity info, kn_info := info\<rparr>"
    by blast
  have "Connection_Server ?c = Connection_Server (newConnection s o1 (og_generation og))" by (simp add: Connection_Server_def)
  with serverInfo_ok [OF r(2)] have i: "identity_row (Connection_Server (newConnection s o1 (og_generation og)))
      \<lparr>rd_kind = ''server'', rd_raw = row\<rparr> (sv_Identity info)" "AtLeast (sv_Version info) 3 6"
    by simp_all
  have "kn_opts c = o1" "closedError c = None" "kn_identity c = sv_Identity info" "kn_info c = info"
    "kn_original (newConnection s o1 (og_generation og)) = s"
    using r(3) by (simp_all add: newConnection_def Let_def closedError_def)
  with i a(1,2) r(1) o(1) identity_valid_endpoint [OF i(1)] show ?thesis
    by (auto simp: validateOpenControl_def split: option.split_asm if_split_asm)
qed

definition tiny_control_options :: control_options where
  "tiny_control_options = \<lparr>ko_PaneOutput = False, ko_NoEcho = False, ko_Flags = [ClientFlagReadOnly], ko_UTF8 = UTF8Default,
     ko_Colors256 = False, ko_TerminalFeatures = [], ko_QueueDepth = 0, ko_QueuedBytes = 0, ko_FrameBytes = 0,
     ko_EventBytes = 0, ko_MaxStreams = 0\<rparr>"

definition tiny_startup :: startup where
  "tiny_startup = \<lparr>og_random = Inr [], og_generation = 1,
     og_setup = \<lparr>sa_pty = None, sa_in = None, sa_out = None, sa_err = None, sa_start = None\<rparr>, og_pid = 9,
     og_answer = (\<lambda>args. Collected (Inr (EncodeRecord tiny_rows))), og_finished = True\<rparr>"

abbreviation "tiny_normal \<equiv> defaultControlOptions tiny_control_options"
abbreviation "tiny_new \<equiv> (newConnection plain_server tiny_normal 1)\<lparr>kn_pid := Some 9, kn_open := [InWrite, OutRead, ErrRead]\<rparr>"

lemma tiny_connection_info:
  "\<exists>info. serverInfo (Connection_Server tiny_new) (recordMap schema_Identity tiny_rows) = Inr info \<and> id_pid (sv_Identity info) = 7"
proof -
  let ?m = "recordMap schema_Identity tiny_rows" and ?i = "tiny_daemon\<lparr>id_generation := 1\<rparr>"
  let ?s = "Connection_Server tiny_new"
  have m: "?m ''pid'' = Some ''7''" "?m ''start_time'' = Some ''5''" "?m ''socket_path'' = Some ''/s''" "?m ''version'' = Some ''3.6''"
    by (simp_all add: recordMap_def schema_Identity_def tiny_rows_def)
  have "srv_endpoint ?s = zero_endpoint" "identity_generation ?s = 1"
    by (simp_all add: Connection_Server_def newConnection_def Let_def plain_server_def identity_generation_def)
  then have "identity_row ?s \<lparr>rd_kind = ''server'', rd_raw = ?m\<rparr> ?i"
    by (simp add: identity_row_def int_text_def tiny_atoi m tiny_daemon_def identity_valid_def zero_time_def)
  then have "run_state (decodeIdentity ?s \<lparr>rd_kind = ''server'', rd_raw = ?m\<rparr>) None = (?i, None)"
    by (simp add: decodeIdentity_ok)
  moreover have "srv_bound ?s = Some (kn_identity tiny_new)" "\<not> identity_valid (kn_identity tiny_new)"
    by (simp_all add: newConnection_def Let_def identity_valid_def)
  ultimately show ?thesis
    using m(4) by (simp add: serverInfo_def str_def tiny_version tiny_daemon_def)
qed

lemma OpenControl_is_bound_witness:
  "\<exists>c. OpenControl tiny_startup (Some plain_server) (Some None) ''$1'' tiny_control_options = Inr c \<and>
     id_pid (kn_identity c) = 7 \<and> identity_valid (kn_identity c)"
proof -
  have sid: "SessionID_Valid ''$1''"
    by (simp add: SessionID_Valid_def validID_def parse_uint_def digits_val_def digit_val_def is_digit_def)
  have "case controlAttachArgs plain_server ''$1'' tiny_normal (''TGO-READY:'' @ [LF]) of Inr _ \<Rightarrow> True | Inl _ \<Rightarrow> False"
    by code_simp
  then obtain args where args: "controlAttachArgs plain_server ''$1'' tiny_normal (''TGO-READY:'' @ [LF]) = Inr args"
    by (auto simp: LF_def split: sum.split_asm)
  have p: "parseRaw (EncodeRecord tiny_rows) schema_Identity ''server'' = Inr [recordMap schema_Identity tiny_rows]"
  proof -
    have "length (EncodeRecord tiny_rows) \<le> 40" "length tiny_rows = length schema_Identity" "tiny_rows \<noteq> []"
      "length schema_Identity \<le> 1024"
      by code_simp+
    then have l: "length (EncodeRecord tiny_rows) < 2 ^ 63" "length tiny_rows = length schema_Identity" "tiny_rows \<noteq> []"
      "length schema_Identity \<le> 1024" by simp_all
    have "ParseRecords (EncodeRecord tiny_rows) (int (length schema_Identity)) = Inr [tiny_rows]"
      using ParseRecords_concat [of "[tiny_rows]" "int (length schema_Identity)"] l by simp
    then show ?thesis by (simp add: parseRaw_def)
  qed
  obtain info where i: "serverInfo (Connection_Server tiny_new) (recordMap schema_Identity tiny_rows) = Inr info" "id_pid (sv_Identity info) = 7"
    using tiny_connection_info by blast
  have n: "normalizeControlOptions tiny_control_options = Inr tiny_normal"
    by (intro normalizeControlOptions_total) (simp add: validateControlLimits_def tiny_control_options_def)
  let ?c = "tiny_new\<lparr>kn_identity := sv_Identity info, kn_info := info\<rparr>"
  have "open_connection tiny_startup plain_server tiny_normal (controlAttachArgs plain_server ''$1'' tiny_normal) = Inr ?c"
    using args p i
    by (simp add: open_connection_def token_def hex_encode_def tiny_startup_def setupControlProcess_def start_child_def
        startup_answer_def performStartupHandshake_def verifyStartup_def awaitReady_def tiny_control_options_def defaultControlOptions_def Let_def)
  moreover have "validateOpenControl (Some plain_server) (Some None) ''$1'' = None"
    using sid by (simp add: validateOpenControl_def plain_server_def)
  ultimately have o: "OpenControl tiny_startup (Some plain_server) (Some None) ''$1'' tiny_control_options = Inr ?c"
    using n by (simp add: OpenControl_def)
  with OpenControl_is_bound [OF o] i(2) show ?thesis by simp
qed

end
