(* ===== verification/Tmux_Refresh.thy ===== *)
theory Tmux_Refresh
  imports Tmux_Connection Tmux_Operations Control_Streams
begin

text \<open>
  \<open>tmux/clients.go\<close>, first part: switching and refreshing clients, the filter on pane output that a control connection
  keeps beside the one of tmux, and subscriptions to formats. \<open>envs i\<close> is the environment of the \<open>i\<close>-th run of tmux in
  a method. A connection is passed along; \<open>None\<close> is a nil one.
\<close>

subsection \<open>Values\<close>

definition PaneOutputOn :: bytes where "PaneOutputOn = ''on''"
definition PaneOutputOff :: bytes where "PaneOutputOff = ''off''"
definition PaneOutputPause :: bytes where "PaneOutputPause = ''pause''"
definition PaneOutputContinue :: bytes where "PaneOutputContinue = ''continue''"

definition PaneOutputAction_Valid :: "bytes \<Rightarrow> bool" where
  "PaneOutputAction_Valid a \<longleftrightarrow> a \<in> {PaneOutputOn, PaneOutputOff, PaneOutputPause, PaneOutputContinue}"

definition ScrollDirectionNone :: int where "ScrollDirectionNone = 0"
definition ScrollDirectionUp :: int where "ScrollDirectionUp = 1"
definition ScrollDirectionDown :: int where "ScrollDirectionDown = 2"
definition ScrollDirectionLeft :: int where "ScrollDirectionLeft = 3"
definition ScrollDirectionRight :: int where "ScrollDirectionRight = 4"

record scroll_adjustment =
  sa_Direction :: int
  sa_Amount :: int

record window_size_override =
  wo_Window :: bytes
  wo_Size :: csize

record pane_report =
  pt_PaneID :: bytes
  pt_Report :: bytes

record pane_output_setting =
  po_Pane :: handle
  po_Action :: bytes

record refresh_options =
  rf_StatusOnly :: bool
  rf_Size :: csize
  rf_WindowSizes :: "window_size_override list"
  rf_Flags :: "bytes list"
  rf_Clipboard :: bool
  rf_ClipboardPane :: bytes
  rf_ResetCursorTracking :: bool
  rf_Scroll :: scroll_adjustment
  rf_PaneActions :: "pane_output_setting list"
  rf_PaneReports :: "pane_report list"

definition zero_size :: csize where "zero_size = \<lparr>sz_Width = 0, sz_Height = 0\<rparr>"

definition no_refresh :: refresh_options where
  "no_refresh = \<lparr>rf_StatusOnly = False, rf_Size = zero_size, rf_WindowSizes = [], rf_Flags = [], rf_Clipboard = False,
     rf_ClipboardPane = [], rf_ResetCursorTracking = False,
     rf_Scroll = \<lparr>sa_Direction = ScrollDirectionNone, sa_Amount = 0\<rparr>, rf_PaneActions = [], rf_PaneReports = []\<rparr>"

subsection \<open>Commands on one client\<close>

record switch_options =
  sw_ToggleReadOnly :: bool
  sw_PreserveEnvironment :: bool

definition Client_Switch ::
  "(nat \<Rightarrow> call_env) \<Rightarrow> (server \<Rightarrow> server_info) \<Rightarrow> handle \<Rightarrow> handle \<Rightarrow> switch_options \<Rightarrow> goerr option" where
  "Client_Switch envs verified c s opts =
     act_on_both envs verified c s ''Client.Switch'' ''switch-client''
       ([''-c'', h_id c, ''-t'', h_id s] @ flag_if (sw_ToggleReadOnly opts) ''-r'' @ flag_if (sw_PreserveEnvironment opts) ''-E'')"

definition Client_Detach where "Client_Detach env c = actWithin env c ''Client.Detach'' ''detach-client'' [''-t'', h_id c]"
definition Client_LockScreen where "Client_LockScreen env c = actWithin env c ''Client.LockScreen'' ''lock-client'' [''-t'', h_id c]"
definition Client_Suspend where "Client_Suspend env c = actWithin env c ''Client.Suspend'' ''suspend-client'' [''-t'', h_id c]"

subsection \<open>Arguments of a refresh\<close>

definition refreshScrollArgs :: "scroll_adjustment \<Rightarrow> goerr + bytes list" where
  "refreshScrollArgs scroll =
     (let d = sa_Direction scroll;
          more = (if 1 < sa_Amount scroll then [itoa (sa_Amount scroll)] else [])
      in if d = ScrollDirectionNone then Inr []
         else if d = ScrollDirectionUp then Inr (''-U'' # more)
         else if d = ScrollDirectionDown then Inr (''-D'' # more)
         else if d = ScrollDirectionLeft then Inr (''-L'' # more)
         else if d = ScrollDirectionRight then Inr (''-R'' # more)
         else Inl (invalid ''scroll direction''))"

definition window_size_arg :: "window_size_override \<Rightarrow> goerr + bytes list" where
  "window_size_arg ws =
     (let w = sz_Width (wo_Size ws); h = sz_Height (wo_Size ws) in
      if \<not> WindowID_Valid (wo_Window ws) then Inl (invalid ''window id'')
      else if \<not> size_valid (wo_Size ws) then Inl (invalid ''window size'')
      else if w = 0 \<and> h = 0 then Inr [''-C'', wo_Window ws @ '':'']
      else if w = 0 \<or> h = 0 then Inl (invalid ''complete window size required'')
      else Inr [''-C'', wo_Window ws @ '':'' @ itoa w @ '','' @ itoa h])"

definition refreshWindowSizeArgs :: "window_size_override list \<Rightarrow> goerr + bytes list" where
  "refreshWindowSizeArgs sizes = bind_res (map_res window_size_arg sizes) (\<lambda>as. Inr (concat as))"

definition checkRefreshHandle :: "call_env \<Rightarrow> handle \<Rightarrow> handle \<Rightarrow> goerr option" where
  "checkRefreshHandle env c target =
     (case handle_check env c of Some e \<Rightarrow> Some e | None \<Rightarrow>
      (case handle_check env target of Some e \<Rightarrow> Some e | None \<Rightarrow>
       (case (h_server c, h_server target) of
          (Some s, Some t) \<Rightarrow>
            if srv_endpoint s \<noteq> srv_endpoint t then Some (Sentinel ErrInvalidHandle)
            else if srv_lifetime s \<noteq> None \<and> srv_lifetime t \<noteq> None \<and> srv_lifetime s \<noteq> srv_lifetime t
            then Some (Sentinel ErrInvalidHandle)
            else (case (expectedOrigin c, expectedOrigin target) of
                (Some i, Some j) \<Rightarrow> if sameDaemon i j then None else Some (Sentinel ErrInvalidHandle)
              | _ \<Rightarrow> None)
        | _ \<Rightarrow> Some (Sentinel ErrInvalidHandle))))"

definition pane_action_arg :: "call_env \<Rightarrow> handle \<Rightarrow> pane_output_setting \<Rightarrow> goerr + bytes list" where
  "pane_action_arg env c pa =
     (if \<not> PaneOutputAction_Valid (po_Action pa) then Inl (invalid ''pane action'')
      else (case checkRefreshHandle env c (po_Pane pa) of
          Some e \<Rightarrow> Inl e
        | None \<Rightarrow> Inr [''-A'', h_id (po_Pane pa) @ '':'' @ po_Action pa]))"

definition pane_report_arg :: "pane_report \<Rightarrow> goerr + bytes list" where
  "pane_report_arg pr =
     (if \<not> PaneID_Valid (pt_PaneID pr) then Inl (invalid ''pane id'')
      else if \<not> ValidString (pt_Report pr) then Inl (invalid ''pane report'')
      else Inr [''-r'', pt_PaneID pr @ '':'' @ pt_Report pr])"

definition refreshActionsAndReportsArgs ::
  "call_env \<Rightarrow> handle \<Rightarrow> pane_output_setting list \<Rightarrow> pane_report list \<Rightarrow> goerr + bytes list" where
  "refreshActionsAndReportsArgs env c actions reports =
     bind_res (map_res (pane_action_arg env c) actions) (\<lambda>as.
     bind_res (map_res pane_report_arg reports) (\<lambda>rs. Inr (concat as @ concat rs)))"

definition refreshClipboardArgs :: "bool \<Rightarrow> bytes \<Rightarrow> goerr + bytes list" where
  "refreshClipboardArgs clipboard pane =
     (if \<not> clipboard then Inr []
      else if pane \<noteq> [] then (if \<not> PaneID_Valid pane then Inl (invalid ''clipboard pane'') else Inr [''-l'', pane])
      else Inr [''-l''])"

definition refreshSizeArgs :: "csize \<Rightarrow> goerr + bytes list" where
  "refreshSizeArgs sz =
     (if sz_Width sz \<noteq> 0 \<or> sz_Height sz \<noteq> 0 then
        (if sz_Width sz = 0 \<or> sz_Height sz = 0 then Inl (invalid ''complete size required'')
         else Inr [''-C'', itoa (sz_Width sz) @ '','' @ itoa (sz_Height sz)])
      else Inr [])"

definition refreshArgs :: "call_env \<Rightarrow> handle \<Rightarrow> refresh_options \<Rightarrow> goerr + bytes list" where
  "refreshArgs env c opts =
     (if \<not> size_valid (rf_Size opts) then Inl (invalid ''size'')
      else bind_res (refreshScrollArgs (rf_Scroll opts)) (\<lambda>scroll.
        bind_res (refreshClipboardArgs (rf_Clipboard opts) (rf_ClipboardPane opts)) (\<lambda>clip.
        bind_res (refreshSizeArgs (rf_Size opts)) (\<lambda>sz.
        bind_res (refreshWindowSizeArgs (rf_WindowSizes opts)) (\<lambda>win.
        if \<not> list_all ClientFlag_Valid (rf_Flags opts) then Inl (invalid ''client flag'')
        else bind_res (refreshActionsAndReportsArgs env c (rf_PaneActions opts) (rf_PaneReports opts)) (\<lambda>act.
          Inr ([''-t'', h_id c] @ flag_if (rf_StatusOnly opts) ''-S'' @ flag_if (rf_ResetCursorTracking opts) ''-c'' @
            scroll @ clip @ sz @ win @
            (if rf_Flags opts \<noteq> [] then [''-f'', formatClientFlags (rf_Flags opts)] else []) @ act)))))))"

subsection \<open>The filter on pane output\<close>

definition hasOutputFlag :: "refresh_options \<Rightarrow> bool" where
  "hasOutputFlag opts \<longleftrightarrow> ClientFlagNoOutput \<in> set (rf_Flags opts) \<or> Negate ClientFlagNoOutput \<in> set (rf_Flags opts)"

definition needsOutputInitialization :: "connection \<Rightarrow> refresh_options \<Rightarrow> bool" where
  "needsOutputInitialization c opts \<longleftrightarrow>
     \<not> (\<not> kn_noOutput c \<or> hasOutputFlag opts) \<and> list_ex (\<lambda>a. po_Action a = PaneOutputOn) (rf_PaneActions opts)"

text \<open>The first pane to be enabled lifts the flag of tmux; every pane that exists is switched off before.\<close>

definition refreshOutputPlan ::
  "(nat \<Rightarrow> call_env) \<Rightarrow> server \<Rightarrow> operation \<Rightarrow> server_identity \<Rightarrow> bytes \<Rightarrow> bytes list \<Rightarrow> bool \<Rightarrow> (goerr + plan) \<times> operation" where
  "refreshOutputPlan envs s op i cid args initializeOutput =
     (let request = emptyPlan \<lparr>cmd_name = ''refresh-client'', cmd_args = args\<rparr> in
      if \<not> initializeOutput then (Inr request, op)
      else (case panes (envs 0) (envs 1) s ''Client.Refresh'' op i no_options [] [] of
          (Inl e, op') \<Rightarrow> (Inl e, op')
        | (Inr ps, op') \<Rightarrow>
            (Inr (request\<lparr>pl_nodes :=
               [leaf \<lparr>cmd_name = ''refresh-client'',
                  cmd_args = [''-t'', cid] @ concat (map (\<lambda>p. [''-A'', pn_ID p @ '':'' @ PaneOutputOff]) ps)\<rparr>,
                leaf \<lparr>cmd_name = ''refresh-client'', cmd_args = [''-t'', cid, ''-f'', Negate ClientFlagNoOutput]\<rparr>] @
               pl_nodes request\<rparr>), op')))"

fun stage_flags :: "bytes list \<Rightarrow> bool \<times> (bytes \<Rightarrow> bool option) \<Rightarrow> bool \<times> (bytes \<Rightarrow> bool option)" where
  "stage_flags [] st = st"
| "stage_flags (f # fs) st =
     stage_flags fs (if f = ClientFlagNoOutput then (True, \<lambda>_. None)
       else if f = Negate ClientFlagNoOutput then (False, \<lambda>_. None) else st)"

fun stage_actions :: "pane_output_setting list \<Rightarrow> (bytes \<Rightarrow> bool option) \<Rightarrow> bytes \<Rightarrow> bool option" where
  "stage_actions [] m = m"
| "stage_actions (a # as) m =
     stage_actions as (if po_Action a = PaneOutputOn \<or> po_Action a = PaneOutputOff
       then m(h_id (po_Pane a) \<mapsto> (po_Action a = PaneOutputOn)) else m)"

definition stageOutputPolicy :: "refresh_options \<Rightarrow> connection \<Rightarrow> connection" where
  "stageOutputPolicy opts c =
     (if \<not> hasOutputFlag opts \<and> rf_PaneActions opts = [] then c
      else (case stage_flags (rf_Flags opts) (kn_selective c, kn_panes c) of
          (sel, m) \<Rightarrow> c\<lparr>kn_selective := sel, kn_panes := stage_actions (rf_PaneActions opts) m\<rparr>))"

definition restoreOutputPolicy :: "connection \<Rightarrow> connection \<Rightarrow> connection" where
  "restoreOutputPolicy previous c = c\<lparr>kn_selective := kn_selective previous, kn_panes := kn_panes previous\<rparr>"

definition updateNativeOutputState :: "refresh_options \<Rightarrow> bool \<Rightarrow> connection \<Rightarrow> connection" where
  "updateNativeOutputState opts initializeOutput c =
     c\<lparr>kn_noOutput := flag_effect (rf_Flags opts) (if initializeOutput then False else kn_noOutput c)\<rparr>"

text \<open>A refresh that scrolls, resets the cursor or asks for the clipboard is answered by tmux before it looks at the flags
  and the panes.\<close>

definition outputOptions :: "refresh_options \<Rightarrow> refresh_options" where
  "outputOptions opts =
     (if rf_ResetCursorTracking opts \<or> sa_Direction (rf_Scroll opts) \<noteq> ScrollDirectionNone \<or> rf_Clipboard opts
      then opts\<lparr>rf_Flags := [], rf_PaneActions := []\<rparr> else opts)"

text \<open>\<open>acquired\<close> is the answer of the semaphore that lets one refresh run at a time.\<close>

definition refreshClient ::
  "(nat \<Rightarrow> call_env) \<Rightarrow> goerr option \<Rightarrow> handle \<Rightarrow> refresh_options \<Rightarrow> bytes list \<Rightarrow> connection \<Rightarrow> goerr option \<times> connection" where
  "refreshClient envs acquired h opts args c =
     (case handle_check (envs 0) h of Some e \<Rightarrow> (Some e, c) | None \<Rightarrow>
      (case begin_op (envs 0) (h_server h) of Inl e \<Rightarrow> (Some e, c) | Inr (s, op) \<Rightarrow>
       (case acquired of
          Some e \<Rightarrow> (Some (CommandError ''refresh-client'' failedResult notSentOutcome
                       (contextSource (ce_caller_done (envs 0)) (Some e)) e), c)
        | None \<Rightarrow>
            let oo = outputOptions opts; init = needsOutputInitialization c oo in
            (case refreshOutputPlan envs s op (kn_identity c) (h_id h) args init of
               (Inl e, op1) \<Rightarrow> (Some e, c)
             | (Inr request, op1) \<Rightarrow>
                 let staged = stageOutputPolicy oo c in
                 (case execute (envs 2) s op1 request (handle_guard h) None of
                    ((r, None), op2) \<Rightarrow> (None, updateNativeOutputState oo init staged)
                  | ((r, Some e), op2) \<Rightarrow>
                      if oc_effect (outcomeOf e) = EffectNotSent then (Some e, restoreOutputPolicy c staged)
                      else if oc_effect (outcomeOf e) \<noteq> EffectConfirmed then (Some e, staged)
                      else (Some e, updateNativeOutputState oo init staged))))))"

subsection \<open>Refreshing\<close>

text \<open>\<open>co\<close> is the connection that is the lifetime of the handle's server, if there is one.\<close>

definition Client_Refresh ::
  "(nat \<Rightarrow> call_env) \<Rightarrow> goerr option \<Rightarrow> handle \<Rightarrow> refresh_options \<Rightarrow> connection option \<Rightarrow> goerr option \<times> connection option" where
  "Client_Refresh envs acquired h opts co =
     (let label = ''Client.Refresh'' in
      case refreshArgs (envs 0) h opts of
        Inl e \<Rightarrow> (opError label (Some e), co)
      | Inr args \<Rightarrow>
          if (case h_server h of Some s \<Rightarrow> srv_lifetime s \<noteq> None | None \<Rightarrow> False) then
            (case Connection_Client (envs 0) (envs 1) co of
               (Inl e, co') \<Rightarrow> (opError label (Some e), co')
             | (Inr owned, co') \<Rightarrow>
                 if h_id owned = h_id h then
                   (case co' of
                      None \<Rightarrow> (opError label (Some (Sentinel ErrInvalidHandle)), co')
                    | Some c \<Rightarrow> (case refreshClient (\<lambda>i. envs (i + 2)) acquired h opts args c of
                        (err, c') \<Rightarrow> (opError label err, Some c')))
                 else (actWithin (envs 2) h label ''refresh-client'' args, co'))
          else (actWithin (envs 0) h label ''refresh-client'' args, co))"

definition Client_SetWindowSize ::
  "(nat \<Rightarrow> call_env) \<Rightarrow> goerr option \<Rightarrow> handle \<Rightarrow> handle \<Rightarrow> csize \<Rightarrow> connection option \<Rightarrow> goerr option \<times> connection option" where
  "Client_SetWindowSize envs acquired h w sz co =
     (case checkRefreshHandle (envs 0) h w of
        Some e \<Rightarrow> (opError ''Client.SetWindowSize'' (Some e), co)
      | None \<Rightarrow> Client_Refresh envs acquired h (no_refresh\<lparr>rf_WindowSizes := [\<lparr>wo_Window = h_id w, wo_Size = sz\<rparr>]\<rparr>) co)"

definition Client_ClearWindowSize ::
  "(nat \<Rightarrow> call_env) \<Rightarrow> goerr option \<Rightarrow> handle \<Rightarrow> handle \<Rightarrow> connection option \<Rightarrow> goerr option \<times> connection option" where
  "Client_ClearWindowSize envs acquired h w co =
     (case checkRefreshHandle (envs 0) h w of
        Some e \<Rightarrow> (opError ''Client.ClearWindowSize'' (Some e), co)
      | None \<Rightarrow> Client_Refresh envs acquired h (no_refresh\<lparr>rf_WindowSizes := [\<lparr>wo_Window = h_id w, wo_Size = zero_size\<rparr>]\<rparr>) co)"

definition Client_RequestClipboard where
  "Client_RequestClipboard envs acquired h co = Client_Refresh envs acquired h (no_refresh\<lparr>rf_Clipboard := True\<rparr>) co"

definition Client_ResetCursorTracking where
  "Client_ResetCursorTracking envs acquired h co = Client_Refresh envs acquired h (no_refresh\<lparr>rf_ResetCursorTracking := True\<rparr>) co"

definition Client_Scroll where
  "Client_Scroll envs acquired h dir amount co =
     Client_Refresh envs acquired h (no_refresh\<lparr>rf_Scroll := \<lparr>sa_Direction = dir, sa_Amount = amount\<rparr>\<rparr>) co"

text \<open>The methods of a connection are those of its client.\<close>

definition on_client ::
  "(nat \<Rightarrow> call_env) \<Rightarrow> bytes \<Rightarrow> connection option \<Rightarrow>
   ((nat \<Rightarrow> call_env) \<Rightarrow> handle \<Rightarrow> connection option \<Rightarrow> goerr option \<times> connection option) \<Rightarrow> goerr option \<times> connection option" where
  "on_client envs label co f =
     (if co = None then (opError label (Some (Sentinel ErrInvalidHandle)), co)
      else (case Connection_Client (envs 0) (envs 1) co of
          (Inl e, co') \<Rightarrow> (opError label (Some e), co')
        | (Inr h, co') \<Rightarrow> f (\<lambda>i. envs (i + 2)) h co'))"

definition Connection_Refresh where
  "Connection_Refresh envs acquired opts co =
     on_client envs ''Connection.Refresh'' co (\<lambda>envs h. Client_Refresh envs acquired h opts)"

definition Connection_SetWindowSize where
  "Connection_SetWindowSize envs acquired w sz co =
     on_client envs ''Connection.SetWindowSize'' co (\<lambda>envs h. Client_SetWindowSize envs acquired h w sz)"

definition Connection_ClearWindowSize where
  "Connection_ClearWindowSize envs acquired w co =
     on_client envs ''Connection.ClearWindowSize'' co (\<lambda>envs h. Client_ClearWindowSize envs acquired h w)"

definition Connection_ResetCursorTracking where
  "Connection_ResetCursorTracking envs acquired co =
     on_client envs ''Connection.ResetCursorTracking'' co (\<lambda>envs h. Client_ResetCursorTracking envs acquired h)"

definition Connection_Scroll where
  "Connection_Scroll envs acquired dir amount co =
     on_client envs ''Connection.Scroll'' co (\<lambda>envs h. Client_Scroll envs acquired h dir amount)"

definition Connection_RequestClipboard where
  "Connection_RequestClipboard envs acquired co =
     on_client envs ''Connection.RequestClipboard'' co (\<lambda>envs h. Client_RequestClipboard envs acquired h)"

definition SetPaneOutputActions ::
  "(nat \<Rightarrow> call_env) \<Rightarrow> goerr option \<Rightarrow> pane_output_setting list \<Rightarrow> connection option \<Rightarrow> goerr option \<times> connection option" where
  "SetPaneOutputActions envs acquired targets co =
     (let label = ''Connection.SetPaneOutputActions'' in
      case co of
        None \<Rightarrow> (opError label (Some (Sentinel ErrInvalidHandle)), co)
      | Some c \<Rightarrow>
          if targets = [] then (None, co)
          else (case find (\<lambda>t. \<not> identity_Equal (h_origin (po_Pane t)) (kn_identity c) \<or> \<not> PaneOutputAction_Valid (po_Action t)) targets of
              Some t \<Rightarrow> (opError label (Some (if \<not> identity_Equal (h_origin (po_Pane t)) (kn_identity c)
                  then Sentinel ErrInvalidHandle else invalid ''pane output action'')), co)
            | None \<Rightarrow> (case Connection_Refresh envs acquired (no_refresh\<lparr>rf_PaneActions := targets\<rparr>) co of
                (err, co') \<Rightarrow> (opError label err, co'))))"

definition SetPaneOutputAction ::
  "(nat \<Rightarrow> call_env) \<Rightarrow> goerr option \<Rightarrow> handle \<Rightarrow> bytes \<Rightarrow> connection option \<Rightarrow> goerr option \<times> connection option" where
  "SetPaneOutputAction envs acquired p action co =
     (let label = ''Connection.SetPaneOutputAction'' in
      case co of
        None \<Rightarrow> (opError label (Some (Sentinel ErrInvalidHandle)), co)
      | Some c \<Rightarrow>
          if \<not> identity_Equal (h_origin p) (kn_identity c) then (opError label (Some (Sentinel ErrInvalidHandle)), co)
          else if \<not> PaneOutputAction_Valid action then (opError label (Some (invalid ''pane output action'')), co)
          else (case Connection_Refresh envs acquired (no_refresh\<lparr>rf_PaneActions := [\<lparr>po_Pane = p, po_Action = action\<rparr>]\<rparr>) co of
              (err, co') \<Rightarrow> (opError label err, co')))"

definition SetPaneOutput where
  "SetPaneOutput envs acquired p enabled co =
     SetPaneOutputAction envs acquired p (if enabled then PaneOutputOn else PaneOutputOff) co"

subsection \<open>Subscriptions\<close>

definition subscriptionValuePrefix :: bytes where "subscriptionValuePrefix = ''TGO-SUB-1:''"
definition subscriptionSessionPrefix :: bytes where "subscriptionSessionPrefix = ''TGO-SUB-SESSION-1:''"

datatype subscription_target = HandleTarget handle | wildcardTarget bytes

definition TargetAllPanes :: subscription_target where "TargetAllPanes = wildcardTarget ''%*''"
definition TargetAllWindows :: subscription_target where "TargetAllWindows = wildcardTarget ''@*''"
definition TargetSession :: subscription_target where "TargetSession = wildcardTarget ''''"

definition subscriptionTarget :: "call_env \<Rightarrow> connection \<Rightarrow> subscription_target \<Rightarrow> goerr + bytes \<times> guard option" where
  "subscriptionTarget env c t =
     (case t of
        wildcardTarget w \<Rightarrow> Inr (w, None)
      | HandleTarget h \<Rightarrow>
          (case handle_check env h of
             Some e \<Rightarrow> Inl e
           | None \<Rightarrow> if \<not> identity_Equal (h_origin h) (kn_identity c) then Inl (Sentinel ErrInvalidHandle)
               else Inr (h_id h, handle_guard h)))"

definition evaluated :: "bytes \<Rightarrow> bytes" where
  "evaluated expr = ''#{E:#{l:}'' @ formatBytes expr @ ''}''"

definition session_expression :: "bytes \<Rightarrow> bytes \<Rightarrow> bytes" where
  "session_expression sid expr = ''#{S:#{?'' @ eqFormat ''session_id'' sid @ '','' @ evaluated expr @ '',}}''"

text \<open>The target and the format of a subscription. That of one session loops over the sessions instead of naming it.\<close>

definition subscription_arg :: "bytes \<Rightarrow> bytes \<Rightarrow> bytes \<Rightarrow> bytes" where
  "subscription_arg name spec expr =
     (let sess = SessionID_Valid spec;
          expr' = (if sess then session_expression spec expr else expr);
          prefix = (if sess then subscriptionSessionPrefix @ spec @ '':'' else subscriptionValuePrefix);
          encoded = prefix @ ''#{s/%/%25/;s/'' @ [LF] @ ''/%0A/;s/'' @ [CR] @ ''/%0D/:'' @ evaluated expr' @ ''}''
      in name @ '':'' @ (if sess then [] else spec) @ '':'' @ encoded)"

definition watch_plan :: "bytes \<Rightarrow> bytes \<Rightarrow> bytes \<Rightarrow> plan" where
  "watch_plan name spec expr =
     (let p = emptyPlan \<lparr>cmd_name = ''refresh-client'', cmd_args = [''-B'', subscription_arg name spec expr]\<rparr> in
      if SessionID_Valid spec
      then p\<lparr>pl_nodes := leaf \<lparr>cmd_name = ''has-session'', cmd_args = [''-t'', spec]\<rparr> # pl_nodes p\<rparr> else p)"

definition WatchFormat ::
  "call_env \<Rightarrow> connection option \<Rightarrow> bytes \<Rightarrow> subscription_target option \<Rightarrow> bytes \<Rightarrow> goerr option" where
  "WatchFormat env co name target expr =
     (let label = ''Connection.WatchFormat'' in
      case (co, target) of
        (None, _) \<Rightarrow> opError label (Some (invalid ''subscription''))
      | (Some c, t) \<Rightarrow>
          if \<not> validFormatName name \<or> \<not> ValidString expr then opError label (Some (invalid ''subscription''))
          else (case t of
              None \<Rightarrow> opError label (Some (invalid ''subscription target''))
            | Some t' \<Rightarrow>
                (case bind_res (subscriptionTarget env c t') (\<lambda>(spec, g).
                      bind_res (begin_op env (Some (Connection_Server c))) (\<lambda>(s, op). Inr (spec, g, s, op))) of
                   Inl e \<Rightarrow> opError label (Some e)
                 | Inr (spec, g, s, op) \<Rightarrow>
                     opError label (snd (fst (execute env s op (watch_plan name spec expr) g None))))))"

definition UnwatchFormat :: "(nat \<Rightarrow> call_env) \<Rightarrow> connection option \<Rightarrow> bytes \<Rightarrow> goerr option" where
  "UnwatchFormat envs co name =
     (case co of
        None \<Rightarrow> opError ''Connection.UnwatchFormat'' (Some (invalid ''subscription''))
      | Some c \<Rightarrow>
          if \<not> validFormatName name then opError ''Connection.UnwatchFormat'' (Some (invalid ''subscription''))
          else endpointAction envs (\<lambda>_. kn_info c) (Some (Connection_Server c)) ''Connection.UnwatchFormat''
            ''refresh-client'' [''-B'', name])"

subsection \<open>What is published is what was asked for\<close>

text \<open>The filter as a set of panes, and what a refresh asks for: for each pane the last action that names it, else the last
  flag, else what was published before.\<close>

definition published :: "connection \<Rightarrow> bytes \<Rightarrow> bool" where
  "published c p = (case kn_panes c p of Some on \<Rightarrow> on | None \<Rightarrow> \<not> kn_selective c)"

definition asked_pane :: "pane_output_setting list \<Rightarrow> bytes \<Rightarrow> bool option" where
  "asked_pane as p =
     (let xs = filter (\<lambda>a. h_id (po_Pane a) = p \<and> po_Action a \<in> {PaneOutputOn, PaneOutputOff}) as
      in if xs = [] then None else Some (po_Action (last xs) = PaneOutputOn))"

definition asked_flag :: "bytes list \<Rightarrow> bool option" where
  "asked_flag fs =
     (let xs = filter (\<lambda>f. f \<in> {ClientFlagNoOutput, Negate ClientFlagNoOutput}) fs
      in if xs = [] then None else Some (last xs = ClientFlagNoOutput))"

definition requested :: "refresh_options \<Rightarrow> (bytes \<Rightarrow> bool) \<Rightarrow> bytes \<Rightarrow> bool" where
  "requested opts was p =
     (case asked_pane (rf_PaneActions opts) p of
        Some on \<Rightarrow> on
      | None \<Rightarrow> (case asked_flag (rf_Flags opts) of Some off \<Rightarrow> \<not> off | None \<Rightarrow> was p))"

text \<open>\<open>published\<close> is the test of the publisher.\<close>

lemma publish_published:
  assumes "cn_outputPanes w = kn_panes c" and "cn_selective w = kn_selective c"
  shows "publish_targets (PaneOutputEvent b p a d) w = (if published c p then cn_streams w else [])"
  using assms by (simp add: publish_targets_def published_def split: option.split)

lemma no_output_flags [simp]: "Negate ClientFlagNoOutput \<noteq> ClientFlagNoOutput" "ClientFlagNoOutput \<noteq> Negate ClientFlagNoOutput"
  by (simp_all add: Negate_def ClientFlagNoOutput_def cut_prefix_def)

lemma stage_flags_asked:
  "stage_flags fs st = (case asked_flag fs of Some off \<Rightarrow> (off, \<lambda>_. None) | None \<Rightarrow> st)"
  by (induction fs st rule: stage_flags.induct) (auto simp: asked_flag_def Let_def)

lemma flag_effect_asked: "flag_effect fs b = (case asked_flag fs of Some off \<Rightarrow> off | None \<Rightarrow> b)"
  by (induction fs b rule: flag_effect.induct) (auto simp: asked_flag_def Let_def)

lemma stage_actions_asked:
  "stage_actions as m p = (case asked_pane as p of Some on \<Rightarrow> Some on | None \<Rightarrow> m p)"
  by (induction as m rule: stage_actions.induct) (auto simp: asked_pane_def Let_def)

lemma hasOutputFlag_asked: "hasOutputFlag opts \<longleftrightarrow> asked_flag (rf_Flags opts) \<noteq> None"
  by (auto simp: hasOutputFlag_def asked_flag_def Let_def filter_empty_conv)

lemma published_staged: "published (stageOutputPolicy opts c) = requested opts (published c)"
proof
  fix p
  show "published (stageOutputPolicy opts c) p = requested opts (published c) p"
    by (cases "asked_flag (rf_Flags opts)"; cases "asked_pane (rf_PaneActions opts) p")
       (auto simp: published_def stageOutputPolicy_def requested_def stage_flags_asked stage_actions_asked hasOutputFlag_asked asked_pane_def
         split: option.split)
qed

lemma restore_staged [simp]: "restoreOutputPolicy c (stageOutputPolicy opts c) = c"
  by (simp add: restoreOutputPolicy_def stageOutputPolicy_def split: prod.split)

lemma staged_frame:
  "\<exists>s m. stageOutputPolicy opts c = c\<lparr>kn_selective := s, kn_panes := m\<rparr>"
proof (cases "stage_flags (rf_Flags opts) (kn_selective c, kn_panes c)")
  case (Pair s m)
  then have "stageOutputPolicy opts c =
      (if \<not> hasOutputFlag opts \<and> rf_PaneActions opts = [] then c\<lparr>kn_selective := kn_selective c, kn_panes := kn_panes c\<rparr>
       else c\<lparr>kn_selective := s, kn_panes := stage_actions (rf_PaneActions opts) m\<rparr>)"
    by (simp add: stageOutputPolicy_def)
  then show ?thesis by metis
qed

lemma native_state:
  "kn_noOutput (updateNativeOutputState opts (needsOutputInitialization c opts) (stageOutputPolicy opts c)) =
   (case asked_flag (rf_Flags opts) of
      Some off \<Rightarrow> off
    | None \<Rightarrow> kn_noOutput c \<and> \<not> list_ex (\<lambda>a. po_Action a = PaneOutputOn) (rf_PaneActions opts))"
  using staged_frame [of opts c]
  by (auto simp: updateNativeOutputState_def flag_effect_asked needsOutputInitialization_def hasOutputFlag_asked split: option.split)

lemma published_native [simp]: "published (updateNativeOutputState opts i c) = published c"
  by (auto simp: published_def updateNativeOutputState_def fun_eq_iff split: option.split)

text \<open>C35: After a refresh of its own client a connection publishes the output of exactly the panes that were asked for, and it
  knows whether tmux sends any output at all: the flag is the one that was given, else a pane that is enabled lifts it. A
  refresh that was not sent changes nothing, and one whose effect is unknown leaves what was published or what was asked
  for, never a mixture; no refresh touches anything else of the connection.\<close>

theorem refresh_publishes_what_is_asked:
  assumes "refreshClient envs acquired h opts args c = (err, c')"
  shows "(err = None \<longrightarrow> published c' = requested (outputOptions opts) (published c) \<and>
      kn_noOutput c' = (case asked_flag (rf_Flags (outputOptions opts)) of
         Some off \<Rightarrow> off
       | None \<Rightarrow> kn_noOutput c \<and> \<not> list_ex (\<lambda>a. po_Action a = PaneOutputOn) (rf_PaneActions (outputOptions opts)))) \<and>
    (\<forall>e. err = Some e \<and> oc_effect (outcomeOf e) = EffectNotSent \<longrightarrow> c' = c) \<and>
    (published c' = published c \<or> published c' = requested (outputOptions opts) (published c)) \<and>
    c' = c\<lparr>kn_noOutput := kn_noOutput c', kn_selective := kn_selective c', kn_panes := kn_panes c'\<rparr>"
proof -
  let ?o = "outputOptions opts"
  let ?staged = "stageOutputPolicy ?o c"
  let ?native = "updateNativeOutputState ?o (needsOutputInitialization c ?o) ?staged"
  have cases': "c' = c \<and> err \<noteq> None \<or> c' = ?native \<and> (\<forall>e. err = Some e \<longrightarrow> oc_effect (outcomeOf e) = EffectConfirmed) \<or>
      c' = ?staged \<and> (\<exists>e. err = Some e \<and> oc_effect (outcomeOf e) \<noteq> EffectNotSent)"
    using assms
    by (auto simp: refreshClient_def Let_def split: option.split_asm sum.split_asm prod.split_asm if_split_asm)
  obtain s m where f: "?staged = c\<lparr>kn_selective := s, kn_panes := m\<rparr>" using staged_frame by blast
  then have "?native = c\<lparr>kn_noOutput := kn_noOutput ?native, kn_selective := s, kn_panes := m\<rparr>"
    by (cases c) (simp add: updateNativeOutputState_def)
  then have "\<exists>n. ?native = c\<lparr>kn_noOutput := n, kn_selective := s, kn_panes := m\<rparr>" by blast
  with f have frame: "x = c\<lparr>kn_noOutput := kn_noOutput x, kn_selective := kn_selective x, kn_panes := kn_panes x\<rparr>"
    if "x = c \<or> x = ?native \<or> x = ?staged" for x
    using that by auto
  from cases' show ?thesis
  proof (elim disjE conjE)
    assume "c' = ?native" "\<forall>e. err = Some e \<longrightarrow> oc_effect (outcomeOf e) = EffectConfirmed"
    then show ?thesis using frame [of ?native] published_staged [of ?o c] native_state [of ?o c] by auto
  next
    assume "c' = ?staged" "\<exists>e. err = Some e \<and> oc_effect (outcomeOf e) \<noteq> EffectNotSent"
    then show ?thesis using frame [of ?staged] published_staged [of ?o c] by auto
  qed auto
qed

definition tiny_client :: handle where
  "tiny_client = newHandle plain_server ''tty'' ObjectKindClient zero_identity"

abbreviation "tiny_unmute \<equiv> no_refresh\<lparr>rf_Flags := [Negate ClientFlagNoOutput]\<rparr>"

lemma refresh_publishes_what_is_asked_witness:
  "\<exists>c'. refreshClient (\<lambda>i. quiet_env quiet_run) None tiny_client tiny_unmute [''-t'', ''tty''] tiny_new = (None, c') \<and>
     \<not> published tiny_new ''%1'' \<and> published c' ''%1'' \<and> \<not> kn_noOutput c'"
proof -
  let ?x = "execute (quiet_env quiet_run) plain_server \<lparr>op_output = 4194304, op_stderr = 4194304, op_input = 1048576\<rparr>
     (emptyPlan \<lparr>cmd_name = ''refresh-client'', cmd_args = [''-t'', ''tty'']\<rparr>) (handle_guard tiny_client) None"
  have h: "handle_check (quiet_env quiet_run) tiny_client = None" "h_server tiny_client = Some plain_server"
    by (simp_all add: handle_check_def handle_valid_def tiny_client_def newHandle_def id_Valid_def zero_identity_def
        identity_isZero_def identity_valid_def endpoint_isZero_def zero_endpoint_def plain_server_def ClientName_Valid_def
        NUL_def LF_def CR_def)
  have b: "begin_op (quiet_env quiet_run) (Some plain_server) =
      Inr (plain_server, \<lparr>op_output = 4194304, op_stderr = 4194304, op_input = 1048576\<rparr>)"
    by code_simp
  have "Option.is_none (snd (fst ?x))" by code_simp
  then obtain r op' where x: "?x = ((r, None), op')" by (metis prod.collapse is_none_code(1) option.exhaust Option.is_none_simps(2))
  have o: "outputOptions tiny_unmute = tiny_unmute"
    by (simp add: outputOptions_def no_refresh_def)
  have i: "\<not> needsOutputInitialization tiny_new tiny_unmute"
    by (simp add: needsOutputInitialization_def hasOutputFlag_def)
  obtain c' where c: "refreshClient (\<lambda>i. quiet_env quiet_run) None tiny_client tiny_unmute [''-t'', ''tty''] tiny_new = (None, c')"
    using h b x o i by (simp add: refreshClient_def Let_def refreshOutputPlan_def)
  have "asked_flag [Negate ClientFlagNoOutput] = Some False" by (simp add: asked_flag_def)
  with refresh_publishes_what_is_asked [OF c] o
  have "published c' = requested tiny_unmute (published tiny_new)" "\<not> kn_noOutput c'" by (simp_all add: no_refresh_def)
  moreover have "\<not> published tiny_new ''%1''"
    by (simp add: published_def newConnection_def Let_def tiny_control_options_def defaultControlOptions_def ClientFlagReadOnly_def
        ClientFlagNoOutput_def Negate_def cut_prefix_def)
  ultimately show ?thesis
    using c \<open>asked_flag [Negate ClientFlagNoOutput] = Some False\<close> by (simp add: requested_def asked_pane_def no_refresh_def)
qed

end
