(* ===== verification/Tmux_Clients.thy ===== *)
theory Tmux_Clients
  imports Tmux_Coordination Tmux_Input Tmux_Refresh
begin

text \<open>
  \<open>tmux/clients.go\<close>, second part: messages, popups, menus and prompts on a client or a pane, and the histories of the
  server. \<open>has_ctx\<close> says whether the caller passed a context. A Go map is the list of its entries.
\<close>

subsection \<open>Messages\<close>

text \<open>Go divides towards zero, and the sum is a 64-bit one.\<close>

definition quot64 :: "int \<Rightarrow> int \<Rightarrow> int" where
  "quot64 a b = (if 0 \<le> a then a div b else - ((- a) div b))"

definition whole_millis :: "int \<Rightarrow> int" where
  "whole_millis d = quot64 (i64 (d + 1000000 - 1)) 1000000"

definition over_control :: "server option \<Rightarrow> bool" where
  "over_control so = (case so of Some s \<Rightarrow> srv_conn s \<noteq> None | None \<Rightarrow> False)"

text \<open>Messages cannot be shown over a control connection.\<close>

definition message_checked :: "server option \<Rightarrow> bytes \<Rightarrow> goerr option" where
  "message_checked so text' =
     (if \<not> ValidString text' then Some (invalid ''message'')
      else if over_control so then Some (Sentinel ErrTransportUnsupported) else None)"

definition Client_Message :: "call_env \<Rightarrow> handle \<Rightarrow> bytes \<Rightarrow> goerr option" where
  "Client_Message env c text' =
     (case message_checked (h_server c) text' of
        Some e \<Rightarrow> opError ''Client.Message'' (Some e)
      | None \<Rightarrow> actWithin env c ''Client.Message'' ''display-message'' [''-c'', h_id c, ''--'', LiteralFormat text'])"

definition Client_MessageWith :: "call_env \<Rightarrow> handle \<Rightarrow> bytes \<Rightarrow> int \<Rightarrow> goerr option" where
  "Client_MessageWith env c text' duration =
     (let label = ''Client.Message'' in
      if \<not> ValidString text' then opError label (Some (invalid ''message''))
      else if duration < 0 then opError label (Some (invalid ''duration''))
      else if over_control (h_server c) then opError label (Some (Sentinel ErrTransportUnsupported))
      else actWithin env c label ''display-message''
        ([''-c'', h_id c] @ (if 0 < duration then [''-d'', itoa (whole_millis duration)] else []) @ [''--'', LiteralFormat text']))"

definition Pane_Message :: "call_env \<Rightarrow> handle \<Rightarrow> bytes \<Rightarrow> goerr option" where
  "Pane_Message env p text' =
     (case message_checked (h_server p) text' of
        Some e \<Rightarrow> opError ''Pane.Message'' (Some e)
      | None \<Rightarrow> (case handle_check env p of
          Some e \<Rightarrow> opError ''Pane.Message'' (Some e)
        | None \<Rightarrow> actWithin env p ''Pane.Message'' ''display-message'' [''-t'', h_id p, ''--'', LiteralFormat text']))"

definition Server_Message :: "call_env \<Rightarrow> server option \<Rightarrow> bytes \<Rightarrow> goerr option" where
  "Server_Message env so text' =
     (let label = ''Server.Message'' in
      if so = None then opError label (Some (Sentinel ErrInvalidHandle))
      else (case message_checked so text' of
          Some e \<Rightarrow> opError label (Some e)
        | None \<Rightarrow> (case begin_op env so of
            Inl e \<Rightarrow> opError label (Some e)
          | Inr (s, op) \<Rightarrow>
              opError label (snd (fst (execute env s op
                (emptyPlan \<lparr>cmd_name = ''display-message'', cmd_args = [''--'', LiteralFormat text']\<rparr>) None None))))))"

text \<open>The lines of an answer, the empty ones too.\<close>

definition all_lines :: "bytes \<Rightarrow> bytes list" where
  "all_lines out = split_byte LF (trim_suffix out [LF])"

definition lines_of :: "result \<times> goerr option \<Rightarrow> goerr + bytes list" where
  "lines_of a = (case a of (r, Some e) \<Rightarrow> Inl e | (r, None) \<Rightarrow> Inr (all_lines (res_stdout r)))"

record messages_options =
  ms_Jobs :: bool
  ms_Terminal :: bool

definition messages_flags :: "messages_options \<Rightarrow> bytes list" where
  "messages_flags o' = flag_if (ms_Jobs o') ''-J'' @ flag_if (ms_Terminal o') ''-T''"

definition Server_Messages ::
  "(nat \<Rightarrow> call_env) \<Rightarrow> (server \<Rightarrow> server_info) \<Rightarrow> server option \<Rightarrow> messages_options \<Rightarrow> goerr + bytes list" where
  "Server_Messages envs verified so o' =
     lines_of (guarded_run envs verified so ''Server.Messages''
       (plainPlan \<lparr>cmd_name = ''show-messages'', cmd_args = messages_flags o'\<rparr>) None)"

definition Client_Messages :: "call_env \<Rightarrow> handle \<Rightarrow> messages_options \<Rightarrow> goerr + bytes list" where
  "Client_Messages env c o' =
     (let label = ''Client.Messages'' in
      case handle_check env c of
        Some e \<Rightarrow> lines_of (refused label e)
      | None \<Rightarrow> (case begin_op env (h_server c) of
          Inl e \<Rightarrow> lines_of (refused label e)
        | Inr (s, op) \<Rightarrow>
            (case execute env s op (plainPlan \<lparr>cmd_name = ''show-messages'', cmd_args = [''-t'', h_id c] @ messages_flags o'\<rparr>)
                (handle_guard c) None of
               ((r, err), op') \<Rightarrow> lines_of (r, opError label err))))"

subsection \<open>Popups\<close>

definition PopupBorderSingle :: bytes where "PopupBorderSingle = ''single''"
definition PopupBorderDouble :: bytes where "PopupBorderDouble = ''double''"
definition PopupBorderHeavy :: bytes where "PopupBorderHeavy = ''heavy''"
definition PopupBorderRounded :: bytes where "PopupBorderRounded = ''rounded''"
definition PopupBorderSimple :: bytes where "PopupBorderSimple = ''simple''"
definition PopupBorderPadded :: bytes where "PopupBorderPadded = ''padded''"
definition PopupBorderNone :: bytes where "PopupBorderNone = ''none''"

definition PopupBorder_Valid :: "bytes \<Rightarrow> bool" where
  "PopupBorder_Valid b \<longleftrightarrow> b \<in> {PopupBorderSingle, PopupBorderDouble, PopupBorderHeavy, PopupBorderRounded,
     PopupBorderSimple, PopupBorderPadded, PopupBorderNone}"

record popup_options =
  pu_Program :: program
  pu_Dir :: bytes
  pu_Env :: env
  pu_Size :: csize
  pu_Width :: bytes
  pu_Height :: bytes
  pu_X :: bytes
  pu_Y :: bytes
  pu_Border :: bytes
  pu_Style :: bytes
  pu_BorderStyle :: bytes
  pu_Title :: bytes
  pu_CloseOnExit :: bool
  pu_CloseOnSuccess :: bool
  pu_CloseOnKey :: bool
  pu_DisableDismiss :: bool
  pu_Borderless :: bool
  pu_TmuxEnv :: env

definition popupEnvArgs :: "env \<Rightarrow> goerr + bytes list" where
  "popupEnvArgs env =
     (if env = [] then Inr []
      else if list_all (\<lambda>(k, v). envName k \<and> ValidString v) env
      then Inr (concat (map (\<lambda>k. [''-e'', k @ ''='' @ env_value env k]) (sort (map fst env))))
      else Inl (invalid ''popup options''))"

definition popupFlagArgs :: "popup_options \<Rightarrow> bytes list" where
  "popupFlagArgs o' = flag_if (pu_CloseOnExit o') ''-E'' @ (if pu_CloseOnSuccess o' then [''-E'', ''-E''] else []) @
     flag_if (pu_CloseOnKey o') ''-k'' @ flag_if (pu_DisableDismiss o') ''-N''"

text \<open>A flag with its value, when there is one.\<close>

definition text_flag :: "bytes \<Rightarrow> bytes \<Rightarrow> bytes list" where
  "text_flag flag v = (if v \<noteq> [] then [flag, v] else [])"

definition popupGeometryArgs :: "popup_options \<Rightarrow> bytes list" where
  "popupGeometryArgs o' =
     (if pu_Width o' \<noteq> [] then [''-w'', pu_Width o']
      else if 0 < sz_Width (pu_Size o') then [''-w'', itoa (sz_Width (pu_Size o'))] else []) @
     (if pu_Height o' \<noteq> [] then [''-h'', pu_Height o']
      else if 0 < sz_Height (pu_Size o') then [''-h'', itoa (sz_Height (pu_Size o'))] else []) @
     text_flag ''-x'' (pu_X o') @ text_flag ''-y'' (pu_Y o')"

definition popupStyleArgs :: "popup_options \<Rightarrow> bytes list" where
  "popupStyleArgs o' = flag_if (pu_Borderless o') ''-B'' @ text_flag ''-b'' (pu_Border o') @
     text_flag ''-s'' (pu_Style o') @ text_flag ''-S'' (pu_BorderStyle o')"

text \<open>A popup takes its directory with \<open>-d\<close>; \<open>-c\<close> names the client.\<close>

fun popupExtraArgs :: "bytes list \<Rightarrow> bytes list" where
  "popupExtraArgs (flag # v # rest) = (if flag = ''-c'' then ''-d'' else flag) # v # popupExtraArgs rest"
| "popupExtraArgs rest = rest"

definition title_arg :: "bytes \<Rightarrow> goerr + bytes list" where
  "title_arg title = (if title \<noteq> [] then bind_res (literal title) (\<lambda>v. Inr [''-T'', v]) else Inr [])"

definition popupArgsWithTarget :: "bytes \<Rightarrow> bytes \<Rightarrow> popup_options \<Rightarrow> goerr + bytes list" where
  "popupArgsWithTarget targetFlag targetID o' =
     (if \<not> size_valid (pu_Size o') \<or> (pu_CloseOnExit o' \<and> pu_CloseOnSuccess o') then Inl (invalid ''popup options'')
      else if \<not> list_all ValidString [pu_Width o', pu_Height o', pu_X o', pu_Y o', pu_Border o', pu_Style o', pu_BorderStyle o']
      then Inl (invalid ''popup options'')
      else bind_res (popupEnvArgs (pu_TmuxEnv o')) (\<lambda>envArgs.
        bind_res (programArgs (pu_Dir o') (pu_Env o') (pu_Program o')) (\<lambda>(extra, argv).
        bind_res (title_arg (pu_Title o')) (\<lambda>title.
          Inr ([targetFlag, targetID] @ popupFlagArgs o' @ envArgs @ popupStyleArgs o' @ popupGeometryArgs o' @ title @
            popupExtraArgs extra @ operands argv)))))"

definition popupArgs :: "bytes \<Rightarrow> popup_options \<Rightarrow> goerr + bytes list" where
  "popupArgs clientID o' = popupArgsWithTarget ''-c'' clientID o'"

text \<open>A popup that is closed early is no error.\<close>

definition popupResult :: "goerr option \<Rightarrow> goerr option" where
  "popupResult err =
     (case err of
        None \<Rightarrow> None
      | Some e \<Rightarrow> (case as_command e of
          Some (CommandError n r oc t e') \<Rightarrow>
            if exit_code r = 129 \<and> res_stderr r = [] \<and> t = TimeoutSourceNone then None else Some e
        | _ \<Rightarrow> Some e))"

text \<open>What popups, menus and prompts check first.\<close>

definition overlay_checked :: "call_env \<Rightarrow> bool \<Rightarrow> handle \<Rightarrow> goerr option" where
  "overlay_checked env has_ctx h =
     (if \<not> has_ctx then Some (invalid ''nil context'')
      else (case handle_check env h of
          Some e \<Rightarrow> Some e
        | None \<Rightarrow> if over_control (h_server h) then Some (Sentinel ErrTransportUnsupported) else None))"

definition popup_on :: "call_env \<Rightarrow> bool \<Rightarrow> bytes \<Rightarrow> bytes \<Rightarrow> handle \<Rightarrow> popup_options \<Rightarrow> goerr option" where
  "popup_on env has_ctx label flag h o' =
     (case overlay_checked env has_ctx h of
        Some e \<Rightarrow> opError label (Some e)
      | None \<Rightarrow> (case popupArgsWithTarget flag (h_id h) o' of
          Inl e \<Rightarrow> opError label (Some e)
        | Inr args \<Rightarrow> popupResult (actWithin env h label ''display-popup'' args)))"

definition Client_Popup where "Client_Popup env has_ctx c o' = popup_on env has_ctx ''Client.Popup'' ''-c'' c o'"
definition Pane_Popup where "Pane_Popup env has_ctx p o' = popup_on env has_ctx ''Pane.Popup'' ''-t'' p o'"

definition ClosePopup where
  "ClosePopup env c = actWithin env c ''Client.ClosePopup'' ''display-popup'' [''-C'', ''-c'', h_id c]"

subsection \<open>Menus\<close>

record menu_item =
  mi_Label :: bytes
  mi_Key :: bytes
  mi_Commands :: "command list"
  mi_Command :: bytes
  mi_IsSeparator :: bool
  mi_Disabled :: bool

definition MenuSeparator :: menu_item where
  "MenuSeparator = \<lparr>mi_Label = [], mi_Key = [], mi_Commands = [], mi_Command = [], mi_IsSeparator = True, mi_Disabled = False\<rparr>"

record menu_options =
  mo_Title :: bytes
  mo_Mouse :: bool
  mo_RequireClick :: bool
  mo_X :: bytes
  mo_Y :: bytes
  mo_Style :: bytes
  mo_SelectedStyle :: bytes
  mo_BorderStyle :: bytes

definition menuPositionArgs :: "menu_options \<Rightarrow> bytes list" where
  "menuPositionArgs o' = text_flag ''-x'' (mo_X o') @ text_flag ''-y'' (mo_Y o')"

definition menuStyleArgs :: "menu_options \<Rightarrow> bytes list" where
  "menuStyleArgs o' = text_flag ''-s'' (mo_Style o') @ text_flag ''-H'' (mo_SelectedStyle o') @ text_flag ''-S'' (mo_BorderStyle o')"

definition menuArgsWithTarget :: "bytes \<Rightarrow> bytes \<Rightarrow> menu_options \<Rightarrow> goerr + bytes list" where
  "menuArgsWithTarget targetFlag targetID o' =
     (if \<not> list_all ValidString [mo_X o', mo_Y o', mo_Style o', mo_SelectedStyle o', mo_BorderStyle o']
      then Inl (invalid ''menu options'')
      else bind_res (title_arg (mo_Title o')) (\<lambda>title.
        Inr ([targetFlag, targetID] @ flag_if (mo_Mouse o') ''-M'' @ flag_if (mo_RequireClick o') ''-O'' @
          menuPositionArgs o' @ menuStyleArgs o' @ title)))"

definition validateMenuItem :: "menu_item \<Rightarrow> goerr option" where
  "validateMenuItem item =
     (if mi_Label item = [] \<or> \<not> ValidString (mi_Label item) then Some (invalid ''menu item'')
      else if mi_Key item \<noteq> [] \<and> \<not> Key_Valid (mi_Key item) then Some (invalid ''menu item key'')
      else if \<not> mi_Disabled item \<and> mi_Commands item = [] \<and> \<not> (mi_Command item \<noteq> [] \<and> ValidString (mi_Command item))
      then Some (invalid ''menu item command'')
      else None)"

definition menuItemCommandArg :: "menu_item \<Rightarrow> wireArg" where
  "menuItemCommandArg item =
     (if mi_Commands item \<noteq> [] then WireArg [] (Some (sequence_nodes (mi_Commands item)))
      else if mi_Command item \<noteq> [] \<and> ValidString (mi_Command item) then WireArg (mi_Command item) None
      else WireArg [] None)"

definition formatMenuLabel :: "menu_item \<Rightarrow> goerr + bytes" where
  "formatMenuLabel item =
     (let label = LiteralFormat (mi_Label item) in
      if has_prefix label ''-'' \<and> \<not> mi_Disabled item then Inl (invalid ''menu label would be disabled'')
      else Inr (if mi_Disabled item \<and> \<not> has_prefix label ''-'' then CHR ''-'' # label else label))"

definition menuItemArg :: "menu_item \<Rightarrow> goerr + wireArg list" where
  "menuItemArg item =
     (if mi_IsSeparator item then Inr [WireArg [] None]
      else (case validateMenuItem item of
          Some e \<Rightarrow> Inl e
        | None \<Rightarrow> bind_res (formatMenuLabel item) (\<lambda>label.
            Inr [WireArg label None, WireArg (mi_Key item) None, menuItemCommandArg item])))"

definition menu_node :: "bytes list \<Rightarrow> menu_item list \<Rightarrow> goerr + wireNode" where
  "menu_node args items =
     bind_res (map_res menuItemArg items) (\<lambda>as.
       Inr (WireNode ''display-menu'' (map (\<lambda>s. WireArg s None) args @ concat as)))"

definition menu_on :: "call_env \<Rightarrow> bool \<Rightarrow> bytes \<Rightarrow> bytes \<Rightarrow> handle \<Rightarrow> menu_item list \<Rightarrow> menu_options \<Rightarrow> goerr option" where
  "menu_on env has_ctx label flag h items o' =
     (case overlay_checked env has_ctx h of
        Some e \<Rightarrow> opError label (Some e)
      | None \<Rightarrow>
          (case bind_res (menuArgsWithTarget flag (h_id h) o') (\<lambda>args. bind_res (menu_node args items) (\<lambda>node.
                bind_res (begin_op env (h_server h)) (\<lambda>(s, op). Inr (node, s, op)))) of
             Inl e \<Rightarrow> opError label (Some e)
           | Inr (node, s, op) \<Rightarrow>
               opError label (snd (fst (execute env s op \<lparr>pl_nodes = [node], pl_mode = replyEmpty, pl_allowStart = False\<rparr>
                 (handle_guard h) None)))))"

definition Client_Menu where "Client_Menu env has_ctx c items o' = menu_on env has_ctx ''Client.Menu'' ''-c'' c items o'"
definition Pane_Menu where "Pane_Menu env has_ctx p items o' = menu_on env has_ctx ''Pane.Menu'' ''-t'' p items o'"

subsection \<open>Prompts\<close>

record prompt_options =
  pm_Label :: bytes
  pm_Initial :: bytes
  pm_SingleCharacter :: bool
  pm_Numeric :: bool

definition promptArgs :: "bytes \<Rightarrow> bytes \<Rightarrow> prompt_options \<Rightarrow> goerr + bytes list" where
  "promptArgs clientID template o' =
     (if template = [] \<or> \<not> ValidString template \<or> \<not> ValidString (pm_Label o') \<or> \<not> ValidString (pm_Initial o') \<or>
         (pm_Numeric o' \<and> pm_SingleCharacter o')
      then Inl (invalid ''prompt'')
      else Inr ([''-b'', ''-t'', clientID] @
        (if pm_Label o' \<noteq> [] then [''-p'', LiteralFormat (pm_Label o')] else []) @
        (if pm_Initial o' \<noteq> [] then [''-I'', LiteralFormat (pm_Initial o')] else []) @
        flag_if (pm_SingleCharacter o') ''-1'' @ flag_if (pm_Numeric o') ''-N'' @ [''--'', template]))"

definition Client_Prompt :: "call_env \<Rightarrow> bool \<Rightarrow> handle \<Rightarrow> bytes \<Rightarrow> prompt_options \<Rightarrow> goerr option" where
  "Client_Prompt env has_ctx c template o' =
     (case overlay_checked env has_ctx c of
        Some e \<Rightarrow> opError ''Client.Prompt'' (Some e)
      | None \<Rightarrow> act_checked env c ''Client.Prompt'' ''command-prompt'' (promptArgs (h_id c) template o'))"

definition prompt_type_args :: "bytes \<Rightarrow> bytes list" where
  "prompt_type_args t = (if t \<noteq> [] then [''-T'', t] else [])"

definition PromptHistory ::
  "(nat \<Rightarrow> call_env) \<Rightarrow> (server \<Rightarrow> server_info) \<Rightarrow> server option \<Rightarrow> bytes \<Rightarrow> goerr + bytes list" where
  "PromptHistory envs verified so promptType =
     (let label = ''Server.PromptHistory'' in
      if so = None then lines_of (refused label (Sentinel ErrInvalidHandle))
      else if promptType \<noteq> [] \<and> \<not> ValidString promptType then lines_of (refused label (invalid ''prompt type''))
      else lines_of (guarded_run envs verified so label
        (plainPlan \<lparr>cmd_name = ''show-prompt-history'', cmd_args = prompt_type_args promptType\<rparr>) None))"

definition ClearPromptHistory ::
  "(nat \<Rightarrow> call_env) \<Rightarrow> (server \<Rightarrow> server_info) \<Rightarrow> server option \<Rightarrow> bytes \<Rightarrow> goerr option" where
  "ClearPromptHistory envs verified so promptType =
     (let label = ''Server.ClearPromptHistory'' in
      if so = None then opError label (Some (Sentinel ErrInvalidHandle))
      else if promptType \<noteq> [] \<and> \<not> ValidString promptType then opError label (Some (invalid ''prompt type''))
      else endpointAction envs verified so label ''clear-prompt-history'' (prompt_type_args promptType))"

definition overlay_mode :: "call_env \<Rightarrow> handle \<Rightarrow> bytes \<Rightarrow> bytes \<Rightarrow> goerr option" where
  "overlay_mode env h label name =
     (if over_control (h_server h) then opError label (Some (Sentinel ErrTransportUnsupported))
      else actWithin env h label name [''-t'', h_id h])"

definition ChooseTree where "ChooseTree env p = overlay_mode env p ''Pane.ChooseTree'' ''choose-tree''"
definition ChooseBuffer where "ChooseBuffer env p = overlay_mode env p ''Pane.ChooseBuffer'' ''choose-buffer''"
definition DisplayPanes where "DisplayPanes env c = overlay_mode env c ''Client.DisplayPanes'' ''display-panes''"

subsection \<open>Facts\<close>

text \<open>A duration is rounded up to whole milliseconds, as long as rounding does not pass the last 64-bit number. Past it the
  number tmux is given is negative.\<close>

lemma whole_millis_rounds_up:
  assumes "0 < d" and "d \<le> 2 ^ 63 - 1000000"
  shows "d \<le> whole_millis d * 1000000 \<and> (whole_millis d - 1) * 1000000 < d"
proof -
  have "i64 (d + 1000000 - 1) = d + 999999" using assms by (subst i64_id) auto
  then have "whole_millis d = (d + 999999) div 1000000" using assms by (simp add: whole_millis_def quot64_def)
  moreover have "(d + 999999) div 1000000 * 1000000 + (d + 999999) mod 1000000 = d + 999999" by (rule div_mult_mod_eq)
  moreover have "0 \<le> (d + 999999) mod 1000000" "(d + 999999) mod 1000000 < 1000000" by simp_all
  ultimately show ?thesis unfolding left_diff_distrib by linarith
qed

lemma whole_millis_overflow: "whole_millis (2 ^ 63 - 1) = - 9223372036853"
  by (simp add: whole_millis_def quot64_def i64_def)

text \<open>tmux shows an item as disabled when its label begins with a dash. The dash stands for the field, and the label
  itself is what follows it unless it begins with a dash of its own.\<close>

lemma formatMenuLabel_marks:
  assumes "formatMenuLabel item = Inr label"
  shows "has_prefix label ''-'' \<longleftrightarrow> mi_Disabled item"
    "\<not> has_prefix (LiteralFormat (mi_Label item)) ''-'' \<Longrightarrow> trim_prefix label ''-'' = LiteralFormat (mi_Label item)"
  using assms by (auto simp: formatMenuLabel_def Let_def has_prefix_byte trim_prefix_def split: if_split_asm)

lemma disabled_label_loses_its_dash:
  "formatMenuLabel \<lparr>mi_Label = ''-x'', mi_Key = [], mi_Commands = [], mi_Command = [], mi_IsSeparator = False, mi_Disabled = True\<rparr> =
   formatMenuLabel \<lparr>mi_Label = ''x'', mi_Key = [], mi_Commands = [], mi_Command = [], mi_IsSeparator = False, mi_Disabled = True\<rparr>"
  by (simp add: formatMenuLabel_def LiteralFormat_def)

end
