(* ===== verification/Tmux_Attach.thy ===== *)
theory Tmux_Attach
  imports Tmux_Connection
begin

text \<open>
  \<open>tmux/attach.go\<close>: attaching a terminal to a session, and the commands that are prepared for a caller who runs them. A file
  is the number of its descriptor; what the terminal library answers about it is the record \<open>terminals\<close>. A method that
  dereferences a nil server panics.
\<close>

datatype 'a go_call = Panics | Returns 'a

subsection \<open>Arguments\<close>

definition DetachModeNone :: nat where "DetachModeNone = 0"
definition DetachModeOtherClients :: nat where "DetachModeOtherClients = 1"
definition DetachModeParentSignal :: nat where "DetachModeParentSignal = 2"

record attach_options =
  ao_ReadOnly :: bool
  ao_PreserveEnvironment :: bool
  ao_Detach :: nat
  ao_Dir :: bytes
  ao_Flags :: "bytes list"

definition validateAttachOptions :: "attach_options \<Rightarrow> goerr option" where
  "validateAttachOptions o' =
     (if DetachModeParentSignal < ao_Detach o' then Some (invalid ''detach mode'')
      else if ao_Dir o' \<noteq> [] \<and> \<not> ValidString (ao_Dir o') then Some (invalid ''working directory'')
      else if \<not> list_all ClientFlag_Valid (ao_Flags o') then Some (invalid ''client flag'')
      else None)"

definition attachFlags :: "attach_options \<Rightarrow> bytes list" where
  "attachFlags o' =
     (if ao_Detach o' = DetachModeOtherClients then [''-d'']
      else if ao_Detach o' = DetachModeParentSignal then [''-x''] else []) @
     flag_if (ao_ReadOnly o') ''-r'' @ flag_if (ao_PreserveEnvironment o') ''-E'' @
     (if ao_Dir o' \<noteq> [] then [''-c'', LiteralFormat (ao_Dir o')] else []) @
     (if ao_Flags o' \<noteq> [] then [''-f'', formatClientFlags (ao_Flags o')] else [])"

definition attachArgs :: "bytes \<Rightarrow> attach_options \<Rightarrow> goerr + bytes list" where
  "attachArgs target o' =
     (case validateAttachOptions o' of
        Some e \<Rightarrow> Inl e
      | None \<Rightarrow> Inr ([''attach-session''] @ (if target \<noteq> [] then [''-t'', target] else []) @ attachFlags o'))"

subsection \<open>Terminals\<close>

record streams =
  sf_In :: "nat option"
  sf_Out :: "nat option"
  sf_Err :: "nat option"

record terminals =
  te_isTerminal :: "nat \<Rightarrow> bool"
  te_size :: "nat \<Rightarrow> goerr option"
  te_state :: "nat \<Rightarrow> goerr option"
  te_restore :: "nat \<Rightarrow> goerr option"

definition validateTerminals :: "terminals \<Rightarrow> streams \<Rightarrow> goerr option" where
  "validateTerminals te t =
     (case (sf_In t, sf_Out t, sf_Err t) of
        (Some i, Some out, Some err) \<Rightarrow>
          if \<not> te_isTerminal te i \<or> \<not> te_isTerminal te out then Some (invalid ''stdin/stdout must be terminal files'')
          else map_option (Wrapf ''terminal size'') (te_size te out)
      | _ \<Rightarrow> Some (invalid ''terminal streams''))"

subsection \<open>Prepared commands\<close>

text \<open>The command that is returned: its arguments, and the streams when they are applied.\<close>

record prepared =
  pc_argv :: "bytes list"
  pc_streams :: "streams option"

definition prepareSubprocessCheck :: "server option \<Rightarrow> bool \<Rightarrow> bytes \<Rightarrow> goerr option" where
  "prepareSubprocessCheck so has_ctx label =
     (case so of
        None \<Rightarrow> opError label (Some (Sentinel ErrInvalidHandle))
      | Some s \<Rightarrow>
          if \<not> srv_runner s then opError label (Some (Sentinel ErrInvalidHandle))
          else if \<not> has_ctx then opError label (Some (invalid ''nil context''))
          else if srv_conn s \<noteq> None \<or> srv_bound s \<noteq> None then opError label (Some (Sentinel ErrTransportUnsupported))
          else None)"

definition prepareTerminalArgs ::
  "terminals \<Rightarrow> server option \<Rightarrow> bool \<Rightarrow> bytes \<Rightarrow> bytes list \<Rightarrow> streams \<Rightarrow> goerr + prepared" where
  "prepareTerminalArgs te so has_ctx label argv t =
     (case prepareSubprocessCheck so has_ctx label of
        Some e \<Rightarrow> Inl e
      | None \<Rightarrow> (case validateTerminals te t of
          Some e \<Rightarrow> Inl (op_failed label e)
        | None \<Rightarrow> Inr \<lparr>pc_argv = argv, pc_streams = Some t\<rparr>))"

definition prepareRawArgv :: "server \<Rightarrow> bytes \<Rightarrow> command list \<Rightarrow> nat \<Rightarrow> goerr + bytes list" where
  "prepareRawArgv s label commands start =
     (case bind_res (rawAllowStart s start) (\<lambda>allowStart.
         let p = \<lparr>pl_nodes = map leaf commands, pl_mode = replyRaw, pl_allowStart = allowStart\<rparr> in
         bind_res (plan_size p (lim_InputBytes (cfg_Limits (srv_config s)))) (\<lambda>n.
         bind_res (plan_argv p) (\<lambda>args. Inr (baseArgs s allowStart @ args)))) of
        Inl e \<Rightarrow> Inl (op_failed label e)
      | Inr argv \<Rightarrow> Inr argv)"

definition rootShellArgv :: "server \<Rightarrow> bytes \<Rightarrow> bytes \<Rightarrow> nat \<Rightarrow> goerr + bytes list" where
  "rootShellArgv s label shellCommand start =
     (case rawAllowStart s start of
        Inl e \<Rightarrow> Inl (op_failed label e)
      | Inr allowStart \<Rightarrow> Inr (baseArgs s allowStart @ [''-c'', shellCommand]))"

definition validateSequenceCommands :: "command list \<Rightarrow> goerr option" where
  "validateSequenceCommands commands =
     (if commands = [] then Some (invalid ''empty sequence'')
      else if \<not> list_all command_Valid commands then Some (invalid ''command'')
      else None)"

definition PrepareAttachTarget ::
  "terminals \<Rightarrow> server option \<Rightarrow> bool \<Rightarrow> bytes \<Rightarrow> streams \<Rightarrow> attach_options \<Rightarrow> (goerr + prepared) go_call" where
  "PrepareAttachTarget te so has_ctx target t o' =
     (let label = ''Server.PrepareAttachTarget'' in
      if \<not> ValidString target then Returns (Inl (op_failed label (invalid ''target'')))
      else (case attachArgs target o' of
          Inl e \<Rightarrow> Returns (Inl (op_failed label e))
        | Inr subArgs \<Rightarrow> (case so of
            None \<Rightarrow> Panics
          | Some s \<Rightarrow> Returns (prepareTerminalArgs te so has_ctx label (baseArgs s False @ subArgs) t))))"

definition Server_PrepareAttach ::
  "terminals \<Rightarrow> server option \<Rightarrow> bool \<Rightarrow> bytes \<Rightarrow> streams \<Rightarrow> attach_options \<Rightarrow> (goerr + prepared) go_call" where
  "Server_PrepareAttach te so has_ctx sid t o' =
     (if \<not> SessionID_Valid sid then Returns (Inl (op_failed ''Server.PrepareAttach'' (invalid ''session'')))
      else PrepareAttachTarget te so has_ctx sid t o')"

definition Session_PrepareAttach ::
  "terminals \<Rightarrow> call_env \<Rightarrow> handle \<Rightarrow> bool \<Rightarrow> streams \<Rightarrow> attach_options \<Rightarrow> (goerr + prepared) go_call" where
  "Session_PrepareAttach te env h has_ctx t o' =
     (case handle_check env h of
        Some e \<Rightarrow> Returns (Inl (op_failed ''Session.PrepareAttach'' e))
      | None \<Rightarrow> PrepareAttachTarget te (h_server h) has_ctx (h_id h) t o')"

definition PrepareTerminal ::
  "terminals \<Rightarrow> server option \<Rightarrow> bool \<Rightarrow> command \<Rightarrow> streams \<Rightarrow> nat \<Rightarrow> (goerr + prepared) go_call" where
  "PrepareTerminal te so has_ctx c t start =
     (let label = ''Server.PrepareTerminal'' in
      if \<not> command_Valid c then Returns (Inl (op_failed label (invalid ''command'')))
      else (case so of
          None \<Rightarrow> if 1 < start then Returns (Inl (op_failed label (invalid ''start policy''))) else Panics
        | Some s \<Rightarrow> Returns (bind_res (prepareRawArgv s label [c] start) (\<lambda>argv. prepareTerminalArgs te so has_ctx label argv t))))"

definition PrepareTerminalSequence ::
  "terminals \<Rightarrow> server option \<Rightarrow> bool \<Rightarrow> command list \<Rightarrow> streams \<Rightarrow> nat \<Rightarrow> (goerr + prepared) go_call" where
  "PrepareTerminalSequence te so has_ctx commands t start =
     (let label = ''Server.PrepareTerminalSequence'' in
      case validateSequenceCommands commands of
        Some e \<Rightarrow> Returns (Inl (op_failed label e))
      | None \<Rightarrow> (case so of
          None \<Rightarrow> if 1 < start then Returns (Inl (op_failed label (invalid ''start policy''))) else Panics
        | Some s \<Rightarrow> Returns (bind_res (prepareRawArgv s label commands start) (\<lambda>argv. prepareTerminalArgs te so has_ctx label argv t))))"

definition PrepareDefaultTerminal ::
  "terminals \<Rightarrow> server option \<Rightarrow> bool \<Rightarrow> streams \<Rightarrow> nat \<Rightarrow> (goerr + prepared) go_call" where
  "PrepareDefaultTerminal te so has_ctx t start =
     (let label = ''Server.PrepareDefaultTerminal'' in
      if 1 < start then Returns (Inl (op_failed label (invalid ''start policy'')))
      else (case so of
          None \<Rightarrow> Panics
        | Some s \<Rightarrow> (case rawAllowStart s start of
            Inl e \<Rightarrow> Returns (Inl (op_failed label e))
          | Inr allowStart \<Rightarrow> Returns (prepareTerminalArgs te so has_ctx label (baseArgs s allowStart) t))))"

text \<open>The methods for other files check the handle first; \<open>build\<close> makes the arguments.\<close>

definition prepare_checked ::
  "server option \<Rightarrow> bool \<Rightarrow> bytes \<Rightarrow> (server \<Rightarrow> goerr + bytes list) \<Rightarrow> streams option \<Rightarrow> goerr + prepared" where
  "prepare_checked so has_ctx label build t =
     (case (prepareSubprocessCheck so has_ctx label, so) of
        (None, Some s) \<Rightarrow> bind_res (build s) (\<lambda>argv. Inr \<lparr>pc_argv = argv, pc_streams = t\<rparr>)
      | (err, _) \<Rightarrow> Inl (the err))"

definition PrepareCommand :: "server option \<Rightarrow> bool \<Rightarrow> command \<Rightarrow> streams \<Rightarrow> nat \<Rightarrow> goerr + prepared" where
  "PrepareCommand so has_ctx c t start =
     (let label = ''Server.PrepareCommand'' in
      prepare_checked so has_ctx label (\<lambda>s.
        if \<not> command_Valid c then Inl (op_failed label (invalid ''command'')) else prepareRawArgv s label [c] start) (Some t))"

definition PrepareSequence :: "server option \<Rightarrow> bool \<Rightarrow> command list \<Rightarrow> streams \<Rightarrow> nat \<Rightarrow> goerr + prepared" where
  "PrepareSequence so has_ctx commands t start =
     (let label = ''Server.PrepareSequence'' in
      prepare_checked so has_ctx label (\<lambda>s.
        case validateSequenceCommands commands of
          Some e \<Rightarrow> Inl (op_failed label e)
        | None \<Rightarrow> prepareRawArgv s label commands start) (Some t))"

definition PrepareForegroundServer :: "server option \<Rightarrow> bool \<Rightarrow> goerr + prepared" where
  "PrepareForegroundServer so has_ctx =
     prepare_checked so has_ctx ''Server.PrepareForegroundServer'' (\<lambda>s. Inr (baseArgs s True @ [''-D''])) None"

definition PrepareRootShell :: "server option \<Rightarrow> bool \<Rightarrow> bytes \<Rightarrow> streams \<Rightarrow> nat \<Rightarrow> goerr + prepared" where
  "PrepareRootShell so has_ctx shellCommand t start =
     (let label = ''Server.PrepareRootShell'' in
      prepare_checked so has_ctx label (\<lambda>s.
        if \<not> ValidString shellCommand then Inl (op_failed label (invalid ''shell command''))
        else rootShellArgv s label shellCommand start) (Some t))"

definition RunRootShell :: "call_env \<Rightarrow> server option \<Rightarrow> bool \<Rightarrow> bytes \<Rightarrow> nat \<Rightarrow> result \<times> goerr option" where
  "RunRootShell env so has_ctx shellCommand start =
     (let label = ''Server.RunRootShell'' in
      case prepareSubprocessCheck so has_ctx label of
        Some e \<Rightarrow> (failedResult, Some e)
      | None \<Rightarrow>
          if \<not> ValidString shellCommand then (failedResult, opError label (Some (invalid ''shell command'')))
          else (case begin_op env so of
              Inl e \<Rightarrow> (failedResult, opError label (Some e))
            | Inr (s, op) \<Rightarrow>
                (case rootShellArgv s label shellCommand start of
                   Inl e \<Rightarrow> (failedResult, Some e)
                 | Inr argv \<Rightarrow>
                     (case runner_run (ce_process env argv None) (max (op_output op) 0) (max (op_stderr op) 0) of
                        (r, started, None) \<Rightarrow> (r, None)
                      | (r, started, Some e0) \<Rightarrow>
                          let e = the (join2 (Some e0) (classifyStderr (res_stderr r))) in
                          (r, opError label (Some (CommandError ''root-shell'' r
                             (plainOutcome (if started then EffectUnknown else EffectNotSent))
                             (contextSource (ce_caller_done env) (Some e)) e)))))))"

subsection \<open>Attaching\<close>

text \<open>The attachment itself discards what the queue prints, so only the refusal prints its mark.\<close>

definition attachmentArgs :: "server \<Rightarrow> handle \<Rightarrow> attach_options \<Rightarrow> goerr + bytes list" where
  "attachmentArgs s h o' =
     bind_res (attachArgs (h_id h) o') (\<lambda>subArgs.
       let p = \<lparr>pl_nodes = [conditionNode (condition (h_origin h))
                 [leaf \<lparr>cmd_name = hd subArgs, cmd_args = tl subArgs\<rparr>] [markerNode guardServerChanged] []],
               pl_mode = replyEmpty, pl_allowStart = False\<rparr> in
       bind_res (plan_size p (lim_InputBytes (cfg_Limits (srv_config s)))) (\<lambda>n.
       bind_res (plan_argv p) (\<lambda>argv. Inr (baseArgs s False @ argv))))"

text \<open>\<open>cmd.Run\<close> on the terminal. An output that passes its limit cancels the command; \<open>pr_cause\<close> is any other cause.\<close>

definition runAttachment :: "process_run \<Rightarrow> bool \<Rightarrow> server \<Rightarrow> handle \<Rightarrow> goerr option" where
  "runAttachment pr callerDone s h =
     (let limit = lim_OutputBytes (cfg_Limits (srv_config s));
          started = (pr_start pr = None);
          (out, overs) = buffer_writes (if started then pr_stdout pr else []) (newBuffer limit);
          (err, overs') = buffer_writes (if started then pr_stderr pr else []) (newBuffer limit);
          r = \<lparr>res_stdout = bf_bytes out, res_stderr = bf_bytes err,
               exit_code = (if started then (case pr_exit pr of Some c \<Rightarrow> c | None \<Rightarrow> - 1) else - 1)\<rparr>;
          cause = (case pr_cause pr of Some c \<Rightarrow> Some c
                   | None \<Rightarrow> if 0 < overs + overs' then Some (Sentinel ErrOutputLimit) else None);
          e1 = join_errs [if started then pr_wait pr else pr_start pr, cause, classifyStderr (res_stderr r)];
          e2 = (case e1 of
                  Some e \<Rightarrow> if find_err (\<lambda>x. x = ErrWaitDelay) e \<noteq> None
                    then join2 e1 (Some (Sentinel ErrShutdownIncomplete)) else e1
                | None \<Rightarrow> None)
      in if has_prefix (res_stdout r) guardServerChanged
         then snd (unwrap (newGuard (h_origin h)) r e2)
         else (case e2 of
             None \<Rightarrow> None
           | Some e \<Rightarrow> Some (CommandError ''attach-session'' r (plainOutcome (if started then EffectUnknown else EffectNotSent))
               (contextSource callerDone (Some e)) e)))"

definition Attach ::
  "terminals \<Rightarrow> call_env \<Rightarrow> handle \<Rightarrow> bool \<Rightarrow> streams \<Rightarrow> attach_options \<Rightarrow> goerr option" where
  "Attach te env h has_ctx t o' =
     (let label = ''Session.Attach'' in
      case handle_check env h of
        Some e \<Rightarrow> opError label (Some e)
      | None \<Rightarrow>
          if \<not> has_ctx then opError label (Some (invalid ''nil context''))
          else (case (h_server h, validateTerminals te t, sf_In t) of
              (Some s, verr, input) \<Rightarrow>
                if srv_conn s \<noteq> None then opError label (Some (Sentinel ErrTransportUnsupported))
                else (case (verr, input) of
                    (Some e, _) \<Rightarrow> opError label (Some e)
                  | (None, Some tty) \<Rightarrow>
                      (case attachmentArgs s h o' of
                         Inl e \<Rightarrow> opError label (Some e)
                       | Inr argv \<Rightarrow>
                           (case te_state te tty of
                              Some e \<Rightarrow> opError label (Some e)
                            | None \<Rightarrow> join2 (opError label (runAttachment (ce_process env argv None) (ce_caller_done env) s h))
                                (opError label (te_restore te tty))))
                  | (None, None) \<Rightarrow> opError label (Some (invalid ''terminal streams'')))
            | _ \<Rightarrow> opError label (Some (Sentinel ErrInvalidHandle))))"

subsection \<open>Facts\<close>

text \<open>Nothing is prepared for a server that is bound to a connection, and what is prepared is the server's own command line.\<close>

lemma prepared_for_plain_server:
  assumes "prepare_checked so has_ctx label build t = Inr p"
  shows "\<exists>s. so = Some s \<and> srv_runner s \<and> srv_conn s = None \<and> srv_bound s = None \<and> build s = Inr (pc_argv p) \<and> pc_streams p = t"
  using assms
  by (auto simp: prepare_checked_def prepareSubprocessCheck_def bind_res_Inr_iff split: option.split_asm if_split_asm)

lemma prepared_sequence:
  assumes "PrepareSequence so has_ctx commands t start = Inr p"
  shows "\<exists>s args. so = Some s \<and> commands \<noteq> [] \<and> list_all command_Valid commands \<and> start \<le> 1 \<and>
    plan_argv \<lparr>pl_nodes = map leaf commands, pl_mode = replyRaw, pl_allowStart = (start = 0)\<rparr> = Inr args \<and>
    pc_argv p = baseArgs s (start = 0) @ args"
proof -
  obtain s where s: "so = Some s" "srv_bound s = None" "validateSequenceCommands commands = None"
      "prepareRawArgv s ''Server.PrepareSequence'' commands start = Inr (pc_argv p)"
    using assms unfolding PrepareSequence_def Let_def
    by (auto dest!: prepared_for_plain_server split: option.split_asm)
  then show ?thesis
    by (auto simp: prepareRawArgv_def validateSequenceCommands_def rawAllowStart_def bind_res_Inr_iff Let_def
        split: sum.split_asm if_split_asm)
qed

text \<open>A refused attachment is reported as a change of the daemon, and as not sent.\<close>

lemma refused_attachment:
  assumes "pr_start pr = None" and "0 \<le> lim_OutputBytes (cfg_Limits (srv_config s))"
    and "has_prefix (take (nat (lim_OutputBytes (cfg_Limits (srv_config s)))) (concat (pr_stdout pr))) guardServerChanged"
  shows "\<exists>e. runAttachment pr callerDone s h = Some e \<and> err_is e ErrServerChanged \<and> is_command e \<and>
    oc_effect (error_outcome e) = EffectNotSent"
proof -
  let ?l = "lim_OutputBytes (cfg_Limits (srv_config s))"
  obtain out n where o: "buffer_writes (pr_stdout pr) (newBuffer ?l) = (out, n)" by (metis prod.exhaust)
  obtain err n' where e: "buffer_writes (pr_stderr pr) (newBuffer ?l) = (err, n')" by (metis prod.exhaust)
  have b: "has_prefix (bf_bytes out) guardServerChanged"
    using newBuffer_writes(1) [OF assms(2) o] assms(3) by simp
  obtain r x where r: "runAttachment pr callerDone s h = snd (unwrap (newGuard (h_origin h)) r x)" "res_stdout r = bf_bytes out"
    using assms(1) o e b by (auto simp: runAttachment_def Let_def)
  have "marker_cause (bf_bytes out) = Some (guardServerChanged, ErrServerChanged)"
    using b by (simp add: marker_cause_def)
  with r show ?thesis
    by (auto simp: unwrap_def Let_def guard_error_def join_errs_def)
qed

end
