(* ===== verification/Tmux_Discovery.thy ===== *)
theory Tmux_Discovery
  imports Tmux_Config
begin

text \<open>
  \<open>tmux/discovery.go\<close>: the search for the sockets of running daemons, with the verdicts that are remembered about socket
  files. What the operating system and the daemons answer is the record \<open>world\<close>; the time is that of one search. The socket
  files that are dialled are listed for the statements.
\<close>

subsection \<open>Socket files\<close>

text \<open>\<open>fi_id\<close> is what \<open>os.SameFile\<close> compares, \<open>fi_time\<close> the time of the last change.\<close>

record file_info =
  fi_id :: nat
  fi_time :: int
  fi_socket :: bool

record socketCandidate =
  sc_path :: bytes
  sc_info :: file_info

record socketVerdict =
  vd_file :: file_info
  vd_refused :: bool
  vd_binary :: bytes

datatype dialled = Connected | Refused | Unreachable goerr

record disk =
  dk_uid :: int
  dk_tmp :: bytes
  dk_TMUX_TMPDIR :: bytes
  dk_getwd :: "goerr + bytes"
  dk_dir :: "bytes \<Rightarrow> goerr + (bytes \<times> (goerr + file_info)) list"

definition same_file :: "file_info \<Rightarrow> file_info \<Rightarrow> bool" where
  "same_file f g \<longleftrightarrow> fi_id f = fi_id g \<and> fi_time f = fi_time g"

definition abs_path :: "disk \<Rightarrow> bytes \<Rightarrow> goerr + bytes" where
  "abs_path dk dir =
     (if isAbs dir then Inr (path_Clean dir)
      else (case dk_getwd dk of Inl e \<Rightarrow> Inl (Wrapf ''socket directory'' e) | Inr wd \<Rightarrow> Inr (path_Join [wd, dir])))"

text \<open>The sockets of one directory; what cannot be read is left out.\<close>

definition sockets_in :: "disk \<Rightarrow> bytes \<Rightarrow> socketCandidate list" where
  "sockets_in dk dir =
     (case dk_dir dk dir of
        Inl e \<Rightarrow> []
      | Inr entries \<Rightarrow> concat (map (\<lambda>(name, info).
          case info of
            Inl e \<Rightarrow> []
          | Inr i \<Rightarrow> if fi_socket i then [\<lparr>sc_path = path_Join [dir, name], sc_info = i\<rparr>] else []) entries))"

fun candidates_from :: "disk \<Rightarrow> bytes list \<Rightarrow> bytes list \<Rightarrow> goerr + socketCandidate list" where
  "candidates_from dk seen [] = Inr []"
| "candidates_from dk seen (d # dirs) =
     bind_res (abs_path dk d) (\<lambda>dir.
       if dir \<in> set seen then candidates_from dk seen dirs
       else bind_res (candidates_from dk (dir # seen) dirs) (\<lambda>rest. Inr (sockets_in dk dir @ rest)))"

definition defaultSocketBase :: bytes where "defaultSocketBase = ''/tmp''"

definition socketCandidates :: "disk \<Rightarrow> goerr + socketCandidate list" where
  "socketCandidates dk =
     (let own = ''tmux-'' @ itoa (dk_uid dk);
          dirs = [path_Join [dk_tmp dk, own], path_Join [defaultSocketBase, own]]
      in candidates_from dk []
           (if dk_TMUX_TMPDIR dk \<noteq> [] then path_Join [dk_TMUX_TMPDIR dk, own] # dirs else dirs))"

subsection \<open>The search\<close>

type_synonym verdicts = "bytes \<Rightarrow> socketVerdict option"

definition verdict_lookup :: "verdicts \<Rightarrow> socketCandidate \<Rightarrow> socketVerdict option" where
  "verdict_lookup cache c =
     (case cache (sc_path c) of
        Some v \<Rightarrow> if same_file (vd_file v) (sc_info c) then Some v else None
      | None \<Rightarrow> None)"

record world =
  wd_dial :: "bytes \<Rightarrow> dialled"
  wd_host :: host
  wd_probe :: "server \<Rightarrow> goerr option"

record search =
  sr_servers :: "server list"
  sr_verdicts :: verdicts
  sr_dialled :: "bytes list"

definition socket_config :: "config \<Rightarrow> bytes \<Rightarrow> config" where
  "socket_config cfg path = cfg\<lparr>cfg_SocketPath := path, cfg_SocketName := []\<rparr>"

definition remember :: "bytes \<Rightarrow> socketVerdict \<Rightarrow> search \<Rightarrow> search" where
  "remember path v st = st\<lparr>sr_verdicts := (sr_verdicts st)(path \<mapsto> v)\<rparr>"

definition found :: "server \<Rightarrow> search \<Rightarrow> search" where
  "found s st = st\<lparr>sr_servers := sr_servers st @ [s]\<rparr>"

text \<open>One candidate whose connection is accepted.\<close>

definition accepted :: "world \<Rightarrow> config \<Rightarrow> socketVerdict option \<Rightarrow> socketCandidate \<Rightarrow> search \<Rightarrow> goerr + search" where
  "accepted w cfg cached c st =
     bind_res (New (wd_host w) (socket_config cfg (sc_path c))) (\<lambda>s.
       let binary = cfg_Binary (srv_config s) in
       case cached of
         Some v \<Rightarrow>
           if vd_binary v = binary then Inr (found s (remember (sc_path c) v st))
           else if wd_probe w s = None
           then Inr (found s (remember (sc_path c) \<lparr>vd_file = sc_info c, vd_refused = False, vd_binary = binary\<rparr> st))
           else Inr st
       | None \<Rightarrow>
           if wd_probe w s = None
           then Inr (found s (remember (sc_path c) \<lparr>vd_file = sc_info c, vd_refused = False, vd_binary = binary\<rparr> st))
           else Inr st)"

definition visit :: "world \<Rightarrow> config \<Rightarrow> verdicts \<Rightarrow> socketCandidate \<Rightarrow> search \<Rightarrow> goerr + search" where
  "visit w cfg cache c st =
     (let cached = verdict_lookup cache c in
      case cached of
        Some v \<Rightarrow>
          if vd_refused v then Inr (remember (sc_path c) v st)
          else let st1 = st\<lparr>sr_dialled := sr_dialled st @ [sc_path c]\<rparr> in
            (case wd_dial w (sc_path c) of
               Refused \<Rightarrow> Inr (remember (sc_path c) \<lparr>vd_file = sc_info c, vd_refused = True, vd_binary = []\<rparr> st1)
             | Unreachable e \<Rightarrow> Inr st1
             | Connected \<Rightarrow> accepted w cfg cached c st1)
      | None \<Rightarrow>
          let st1 = st\<lparr>sr_dialled := sr_dialled st @ [sc_path c]\<rparr> in
          (case wd_dial w (sc_path c) of
             Refused \<Rightarrow> Inr (remember (sc_path c) \<lparr>vd_file = sc_info c, vd_refused = True, vd_binary = []\<rparr> st1)
           | Unreachable e \<Rightarrow> Inr st1
           | Connected \<Rightarrow> accepted w cfg cached c st1))"

fun visit_all :: "world \<Rightarrow> config \<Rightarrow> verdicts \<Rightarrow> socketCandidate list \<Rightarrow> search \<Rightarrow> goerr + search" where
  "visit_all w cfg cache [] st = Inr st"
| "visit_all w cfg cache (c # cs) st = bind_res (visit w cfg cache c st) (visit_all w cfg cache cs)"

text \<open>The servers, what was dialled, and the verdicts for the next search; an error leaves the verdicts as they were.\<close>

definition DiscoverServers ::
  "disk \<Rightarrow> world \<Rightarrow> config \<Rightarrow> verdicts \<Rightarrow> (goerr + server list \<times> bytes list) \<times> verdicts" where
  "DiscoverServers dk w cfg cache =
     (case bind_res (socketCandidates dk) (\<lambda>cs.
         visit_all w cfg cache cs \<lparr>sr_servers = [], sr_verdicts = (\<lambda>_. None), sr_dialled = []\<rparr>) of
        Inl e \<Rightarrow> (Inl e, cache)
      | Inr st \<Rightarrow> (Inr (sr_servers st, sr_dialled st), sr_verdicts st))"

definition DiscoverSockets :: "disk \<Rightarrow> world \<Rightarrow> verdicts \<Rightarrow> (goerr + bytes list) \<times> verdicts" where
  "DiscoverSockets dk w cache =
     (case DiscoverServers dk w zero_config cache of
        (Inl e, cache') \<Rightarrow> (Inl e, cache')
      | (Inr (servers, ds), cache') \<Rightarrow> (Inr (map (\<lambda>s. socket_path (srv_endpoint s)) servers), cache'))"

subsection \<open>What is remembered is what was seen\<close>

text \<open>What a search may rely on: a verdict of the cache for the same file, or what it sees itself.\<close>

definition known_refused :: "verdicts \<Rightarrow> socketCandidate \<Rightarrow> bool" where
  "known_refused cache c \<longleftrightarrow> (\<exists>v. verdict_lookup cache c = Some v \<and> vd_refused v)"

definition known_binary :: "verdicts \<Rightarrow> socketCandidate \<Rightarrow> bytes \<Rightarrow> bool" where
  "known_binary cache c b \<longleftrightarrow> (\<exists>v. verdict_lookup cache c = Some v \<and> \<not> vd_refused v \<and> vd_binary v = b)"

definition verified_at :: "world \<Rightarrow> config \<Rightarrow> verdicts \<Rightarrow> socketCandidate \<Rightarrow> server \<Rightarrow> bool" where
  "verified_at w cfg cache c s \<longleftrightarrow>
     \<not> known_refused cache c \<and> wd_dial w (sc_path c) = Connected \<and> New (wd_host w) (socket_config cfg (sc_path c)) = Inr s \<and>
     (wd_probe w s = None \<or> known_binary cache c (cfg_Binary (srv_config s)))"

definition verdict_seen :: "world \<Rightarrow> config \<Rightarrow> verdicts \<Rightarrow> socketCandidate \<Rightarrow> socketVerdict \<Rightarrow> bool" where
  "verdict_seen w cfg cache c v \<longleftrightarrow>
     same_file (vd_file v) (sc_info c) \<and>
     (if vd_refused v then known_refused cache c \<or> wd_dial w (sc_path c) = Refused
      else \<exists>s. verified_at w cfg cache c s \<and> cfg_Binary (srv_config s) = vd_binary v)"

definition search_ok :: "world \<Rightarrow> config \<Rightarrow> verdicts \<Rightarrow> socketCandidate list \<Rightarrow> search \<Rightarrow> bool" where
  "search_ok w cfg cache cs st \<longleftrightarrow>
     (\<forall>s \<in> set (sr_servers st). \<exists>c \<in> set cs. verified_at w cfg cache c s) \<and>
     (\<forall>p v. sr_verdicts st p = Some v \<longrightarrow> (\<exists>c \<in> set cs. sc_path c = p \<and> verdict_seen w cfg cache c v)) \<and>
     (\<forall>p \<in> set (sr_dialled st). \<exists>c \<in> set cs. sc_path c = p \<and> \<not> known_refused cache c)"

lemma same_file_refl [simp]: "same_file f f"
  by (simp add: same_file_def)

lemma verdict_lookup_same: "verdict_lookup cache c = Some v \<Longrightarrow> same_file (vd_file v) (sc_info c)"
  by (auto simp: verdict_lookup_def split: option.split_asm if_split_asm)

lemma search_ok_mono: "search_ok w cfg cache cs st \<Longrightarrow> set cs \<subseteq> set ds \<Longrightarrow> search_ok w cfg cache ds st"
  unfolding search_ok_def by blast

lemma search_ok_remember:
  "search_ok w cfg cache cs st \<Longrightarrow> c \<in> set cs \<Longrightarrow> verdict_seen w cfg cache c v \<Longrightarrow>
   search_ok w cfg cache cs (remember (sc_path c) v st)"
  by (auto simp: search_ok_def remember_def)

lemma search_ok_found:
  "search_ok w cfg cache cs st \<Longrightarrow> c \<in> set cs \<Longrightarrow> verified_at w cfg cache c s \<Longrightarrow> search_ok w cfg cache cs (found s st)"
  by (auto simp: search_ok_def found_def)

lemma accepted_ok:
  assumes "search_ok w cfg cache cs st" and "c \<in> set cs" and "\<not> known_refused cache c" and "wd_dial w (sc_path c) = Connected"
    and "accepted w cfg (verdict_lookup cache c) c st = Inr st'"
  shows "search_ok w cfg cache cs st'"
proof -
  obtain s where s: "New (wd_host w) (socket_config cfg (sc_path c)) = Inr s"
    using assms(5) by (auto simp: accepted_def bind_res_Inr_iff)
  let ?v = "\<lparr>vd_file = sc_info c, vd_refused = False, vd_binary = cfg_Binary (srv_config s)\<rparr>"
  have probed: "search_ok w cfg cache cs (found s (remember (sc_path c) ?v st))" if "wd_probe w s = None"
  proof -
    have v: "verified_at w cfg cache c s" using that assms(3,4) s by (simp add: verified_at_def)
    then have "verdict_seen w cfg cache c ?v" by (auto simp: verdict_seen_def)
    with v assms(1,2) show ?thesis by (intro search_ok_found search_ok_remember)
  qed
  show ?thesis
  proof (cases "verdict_lookup cache c")
    case None
    with assms(5) s probed assms(1) show ?thesis by (auto simp: accepted_def Let_def split: if_split_asm)
  next
    case (Some v)
    have r: "\<not> vd_refused v" using assms(3) Some by (auto simp: known_refused_def)
    show ?thesis
    proof (cases "vd_binary v = cfg_Binary (srv_config s)")
      case True
      then have k: "verified_at w cfg cache c s"
        using Some r assms(3,4) s by (auto simp: verified_at_def known_binary_def)
      then have "verdict_seen w cfg cache c v" using r True verdict_lookup_same [OF Some] by (auto simp: verdict_seen_def)
      with k assms(1,2) have "search_ok w cfg cache cs (found s (remember (sc_path c) v st))"
        by (intro search_ok_found search_ok_remember)
      with assms(5) s Some True show ?thesis by (simp add: accepted_def)
    next
      case False
      with assms(5) s Some probed assms(1) show ?thesis by (auto simp: accepted_def Let_def split: if_split_asm)
    qed
  qed
qed

lemma visit_ok:
  assumes "search_ok w cfg cache cs st" and "c \<in> set cs" and "visit w cfg cache c st = Inr st'"
  shows "search_ok w cfg cache cs st'"
proof (cases "known_refused cache c")
  case True
  then obtain v where v: "verdict_lookup cache c = Some v" "vd_refused v" by (auto simp: known_refused_def)
  with True have "verdict_seen w cfg cache c v" using verdict_lookup_same by (auto simp: verdict_seen_def)
  with v assms show ?thesis by (auto simp: visit_def intro: search_ok_remember)
next
  case False
  let ?st = "st\<lparr>sr_dialled := sr_dialled st @ [sc_path c]\<rparr>"
  let ?no = "\<lparr>vd_file = sc_info c, vd_refused = True, vd_binary = []\<rparr>"
  have ok: "search_ok w cfg cache cs ?st" using assms(1,2) False by (auto simp: search_ok_def)
  have "visit w cfg cache c st =
      (case wd_dial w (sc_path c) of
         Refused \<Rightarrow> Inr (remember (sc_path c) ?no ?st) | Unreachable e \<Rightarrow> Inr ?st
       | Connected \<Rightarrow> accepted w cfg (verdict_lookup cache c) c ?st)"
    using False by (auto simp: visit_def known_refused_def Let_def split: option.split)
  with assms(3) ok assms(2) False show ?thesis
    by (auto simp: verdict_seen_def intro: search_ok_remember accepted_ok split: dialled.split_asm)
qed

lemma visit_all_ok:
  "search_ok w cfg cache cs st \<Longrightarrow> set ds \<subseteq> set cs \<Longrightarrow> visit_all w cfg cache ds st = Inr st' \<Longrightarrow> search_ok w cfg cache cs st'"
proof (induction ds arbitrary: st)
  case (Cons c ds)
  then show ?case by (auto simp: bind_res_Inr_iff intro: visit_ok)
qed simp

text \<open>C36: Every server that a search returns was dialled in this search and answered a probe, now or, with the same binary,
  when the same socket file was verified before; a file that is remembered to refuse connections is not dialled again
  while it is the same file; and each new verdict is about a file that was found, and tells what this search saw of it or
  already knew.\<close>

theorem discovery_is_sound:
  assumes "DiscoverServers dk w cfg cache = (Inr (servers, ds), cache')"
  shows "\<exists>cs. socketCandidates dk = Inr cs \<and>
    (\<forall>s \<in> set servers. \<exists>c \<in> set cs. verified_at w cfg cache c s) \<and>
    (\<forall>p \<in> set ds. \<exists>c \<in> set cs. sc_path c = p \<and> \<not> known_refused cache c) \<and>
    (\<forall>p v. cache' p = Some v \<longrightarrow> (\<exists>c \<in> set cs. sc_path c = p \<and> verdict_seen w cfg cache c v))"
proof -
  obtain cs st where cs: "socketCandidates dk = Inr cs"
      "visit_all w cfg cache cs \<lparr>sr_servers = [], sr_verdicts = (\<lambda>_. None), sr_dialled = []\<rparr> = Inr st"
      "servers = sr_servers st" "ds = sr_dialled st" "cache' = sr_verdicts st"
    using assms by (auto simp: DiscoverServers_def bind_res_Inr_iff split: sum.split_asm)
  have "search_ok w cfg cache cs \<lparr>sr_servers = [], sr_verdicts = (\<lambda>_. None), sr_dialled = []\<rparr>"
    by (simp add: search_ok_def)
  from visit_all_ok [OF this subset_refl cs(2)] cs show ?thesis by (auto simp: search_ok_def)
qed

definition tiny_disk :: disk where
  "tiny_disk = \<lparr>dk_uid = 1, dk_tmp = ''/tmp'', dk_TMUX_TMPDIR = [], dk_getwd = Inr ''/w'',
     dk_dir = (\<lambda>d. Inr [(''default'', Inr \<lparr>fi_id = 3, fi_time = 5, fi_socket = True\<rparr>)])\<rparr>"

definition tiny_world :: world where
  "tiny_world = \<lparr>wd_dial = (\<lambda>p. Connected), wd_host = tiny_host, wd_probe = (\<lambda>s. None)\<rparr>"

lemma discovery_is_sound_witness:
  "\<exists>s cache'. DiscoverServers tiny_disk tiny_world zero_config (\<lambda>_. None) = (Inr ([s], [''/tmp/tmux-1/default'']), cache') \<and>
     (\<exists>c. verified_at tiny_world zero_config (\<lambda>_. None) c s)"
proof -
  let ?d = "DiscoverServers tiny_disk tiny_world zero_config (\<lambda>_. None)"
  have "case fst ?d of Inl e \<Rightarrow> False | Inr (servers, ds) \<Rightarrow> length servers = 1 \<and> ds = [''/tmp/tmux-1/default'']"
    by code_simp
  then obtain s cache' where d: "?d = (Inr ([s], [''/tmp/tmux-1/default'']), cache')"
    by (cases ?d) (auto simp: length_Suc_conv split: sum.split_asm)
  from discovery_is_sound [OF d] have "\<exists>c. verified_at tiny_world zero_config (\<lambda>_. None) c s" by auto
  with d show ?thesis by blast
qed

end
