(* ===== verification/Tmux_Access.thy ===== *)
theory Tmux_Access
  imports Tmux_Coordination Tmux_Options Go_Text
begin

text \<open>
  \<open>tmux/access.go\<close>: who may use the socket of a server. tmux prints one line for each entry, the name and the permissions in
  parentheses.
\<close>

record access_entry =
  ae_Name :: bytes
  ae_IsGroup :: bool
  ae_ReadOnly :: bool

definition perm :: "bytes \<Rightarrow> bool option" where
  "perm p = (if p = ''R'' then Some True else if p = ''W'' then Some False else None)"

definition parsePerms :: "bytes \<Rightarrow> (bool \<times> bool) option" where
  "parsePerms perms =
     (case split_byte CHR '','' perms of
        [p0] \<Rightarrow> map_option (\<lambda>r. (False, r)) (perm (TrimSpace p0))
      | [p0, p1] \<Rightarrow>
          if TrimSpace p0 \<noteq> ''U'' \<and> TrimSpace p0 \<noteq> ''G'' then None
          else map_option (\<lambda>r. (TrimSpace p0 = ''G'', r)) (perm (TrimSpace p1))
      | _ \<Rightarrow> None)"

text \<open>\<open>strings.Trim(line, "\r\n")\<close>.\<close>

definition line_end :: "byte \<Rightarrow> bool" where "line_end c \<longleftrightarrow> c = CR \<or> c = LF"

definition trim_line_ends :: "bytes \<Rightarrow> bytes" where
  "trim_line_ends line = rev (dropWhile line_end (rev (dropWhile line_end line)))"

definition parseAccessLine :: "bytes \<Rightarrow> access_entry option" where
  "parseAccessLine line0 =
     (let line = trim_line_ends line0 in
      case (last_index line CHR ''('', last_index line CHR '')'') of
        (Some i, Some j) \<Rightarrow>
          if j \<le> i then None
          else map_option (\<lambda>(g, r). \<lparr>ae_Name = trim_suffix (take i line) '' '', ae_IsGroup = g, ae_ReadOnly = r\<rparr>)
            (parsePerms (drop (i + 1) (take j line)))
      | _ \<Rightarrow> None)"

definition AccessList ::
  "(nat \<Rightarrow> call_env) \<Rightarrow> (server \<Rightarrow> server_info) \<Rightarrow> server option \<Rightarrow> goerr + access_entry list" where
  "AccessList envs verified so =
     (case guarded_run envs verified so ''Server.AccessList''
         (plainPlan \<lparr>cmd_name = ''server-access'', cmd_args = [''-l'']\<rparr>) None of
        (r, Some e) \<Rightarrow> Inl e
      | (r, None) \<Rightarrow> Inr (List.map_filter parseAccessLine (output_lines (res_stdout r))))"

text \<open>\<open>IsGroup\<close> and \<open>ReadOnly\<close> of the options.\<close>

definition access_change ::
  "(nat \<Rightarrow> call_env) \<Rightarrow> (server \<Rightarrow> server_info) \<Rightarrow> server option \<Rightarrow> bytes \<Rightarrow> bytes \<Rightarrow> bytes list \<Rightarrow> goerr option" where
  "access_change envs verified so label name flags =
     (if so = None then opError label (Some (Sentinel ErrInvalidHandle))
      else if name = [] \<or> \<not> ValidString name then opError label (Some (invalid ''name''))
      else endpointAction envs verified so label ''server-access'' (flags @ [''--'', name]))"

definition GrantAccess where
  "GrantAccess envs verified so name isGroup readOnly =
     access_change envs verified so ''Server.GrantAccess'' name
       (flag_if isGroup ''-g'' @ [if readOnly then ''-r'' else ''-w''])"

definition RevokeAccess where
  "RevokeAccess envs verified so name isGroup =
     access_change envs verified so ''Server.RevokeAccess'' name ([''-d''] @ flag_if isGroup ''-g'')"

subsection \<open>Reading what is printed\<close>

definition print_access :: "access_entry \<Rightarrow> bytes" where
  "print_access e = ae_Name e @ '' ('' @ (if ae_IsGroup e then ''G,'' else ''U,'') @ (if ae_ReadOnly e then ''R'' else ''W'') @ '')''"

lemma perm_texts:
  "parsePerms ''U,R'' = Some (False, True)" "parsePerms ''U,W'' = Some (False, False)"
  "parsePerms ''G,R'' = Some (True, True)" "parsePerms ''G,W'' = Some (True, False)"
  by code_simp+

text \<open>A printed entry is read back, whatever the name holds, unless it begins with the end of a line.\<close>

lemma parseAccessLine_roundtrip:
  assumes "ae_Name e = [] \<or> \<not> line_end (hd (ae_Name e))"
  shows "parseAccessLine (print_access e) = Some e"
proof -
  let ?p = "(if ae_IsGroup e then ''G,'' else ''U,'') @ (if ae_ReadOnly e then ''R'' else ''W'')"
  let ?line = "(ae_Name e @ '' '') @ CHR ''('' # ?p @ '')''"
  have c: "\<not> line_end CHR '')''" "\<not> line_end CHR '' ''" by (simp_all add: line_end_def CR_def LF_def)
  have print: "print_access e = ?line" by (simp add: print_access_def)
  have "dropWhile line_end ?line = ?line" using assms c(2) by (cases "ae_Name e") auto
  moreover have "rev ?line = CHR '')'' # rev ((ae_Name e @ '' '') @ CHR ''('' # ?p)" by simp
  ultimately have t: "trim_line_ends ?line = ?line" using c(1) by (simp add: trim_line_ends_def)
  have i: "last_index ?line CHR ''('' = Some (length (ae_Name e) + 1)"
    using last_index_append [of "CHR ''(''" "?p @ '')''" "ae_Name e @ '' ''"] by simp
  have "last_index ((ae_Name e @ '' '' @ CHR ''('' # ?p) @ CHR '')'' # []) CHR '')'' = Some (length (ae_Name e @ '' '' @ CHR ''('' # ?p))"
    by (rule last_index_append) simp
  then have j: "last_index ?line CHR '')'' = Some (length (ae_Name e) + 2 + length ?p)" by simp
  have m: "drop (length (ae_Name e) + 1 + 1) (take (length (ae_Name e) + 2 + length ?p) ?line) = ?p"
    by (simp add: take_append)
  have "parsePerms ?p = Some (ae_IsGroup e, ae_ReadOnly e)" using perm_texts by simp
  moreover have "trim_suffix (take (length (ae_Name e) + 1) ?line) '' '' = ae_Name e"
    by (simp add: trim_suffix_def has_suffix_def)
  ultimately show ?thesis
    unfolding print parseAccessLine_def t i j Let_def using m by simp
qed

end
