(* ===== verification/Tmux_Process.thy ===== *)
theory Tmux_Process
  imports Tmux_Connection
begin

text \<open>
  What the library asks of the operating system: \<open>tmux/pty_linux.go\<close>, \<open>tmux/pty_darwin.go\<close>, \<open>tmux/pty_unix.go\<close> and
  \<open>tmux/pty_other.go\<close> (the terminal of a control client), the pipes of \<open>tmux/exec.go\<close>, and the signals of
  \<open>tmux/server.go\<close>. The answers of the system are parameters; what is modelled is which calls are made, in which order,
  and which descriptors are left open.
\<close>

subsection \<open>The terminal of a control client\<close>

text \<open>The calls, in order. The flags of \<open>open\<close> are constant. The four words are the rows, the columns, and two zeros.\<close>

datatype pty_call =
    OpenMaster
  | IoctlUnlock
  | IoctlGrant
  | IoctlNumber
  | IoctlName
  | OpenSlave bytes
  | IoctlSize "16 word list"
  | CloseMaster

record pty_answers =
  pa_master :: "goerr option"
  pa_unlock :: "goerr option"
  pa_grant :: "goerr option"
  pa_number :: "goerr + 32 word"
  pa_name :: "goerr + bytes"
  pa_slave :: "goerr option"

definition ptyIoctl :: "goerr option \<Rightarrow> goerr option" where
  "ptyIoctl errno = map_option (Wrapf ''PTY ioctl'') errno"

definition defaultPTYCols :: "16 word" where "defaultPTYCols = 80"
definition defaultPTYRows :: "16 word" where "defaultPTYRows = 24"

definition setTerminalDimensions :: "16 word \<Rightarrow> 16 word \<Rightarrow> pty_call" where
  "setTerminalDimensions cols rows = IoctlSize [rows, cols, 0, 0]"

text \<open>The end of both functions: the slave is opened by its path. An error of the last call is ignored.\<close>

definition open_slave :: "pty_answers \<Rightarrow> pty_call list \<Rightarrow> bytes \<Rightarrow> pty_call list \<times> goerr option" where
  "open_slave a calls path =
     (case pa_slave a of
        Some e \<Rightarrow> (calls @ [OpenSlave path, CloseMaster], Some e)
      | None \<Rightarrow> (calls @ [OpenSlave path, setTerminalDimensions defaultPTYCols defaultPTYRows], None))"

definition openPTY_linux :: "pty_answers \<Rightarrow> pty_call list \<times> goerr option" where
  "openPTY_linux a =
     (case pa_master a of Some e \<Rightarrow> ([OpenMaster], Some e)
      | None \<Rightarrow> (case ptyIoctl (pa_unlock a) of Some e \<Rightarrow> ([OpenMaster, IoctlUnlock, CloseMaster], Some e)
      | None \<Rightarrow> (case pa_number a of Inl e \<Rightarrow> ([OpenMaster, IoctlUnlock, IoctlNumber, CloseMaster], ptyIoctl (Some e))
      | Inr n \<Rightarrow> open_slave a [OpenMaster, IoctlUnlock, IoctlNumber] (''/dev/pts/'' @ itoa_nat (unat n)))))"

text \<open>The name is an array of 128 bytes that the kernel fills. \<open>IndexByte\<close> is -1 if there is no NUL.\<close>

definition ptyNameBytes :: nat where "ptyNameBytes = 128"

definition pty_name :: "bytes \<Rightarrow> bytes option" where
  "pty_name buf = (if NUL \<notin> set buf \<or> takeWhile (\<lambda>c. c \<noteq> NUL) buf = [] then None else Some (takeWhile (\<lambda>c. c \<noteq> NUL) buf))"

definition openPTY_darwin :: "pty_answers \<Rightarrow> pty_call list \<times> goerr option" where
  "openPTY_darwin a =
     (case pa_master a of Some e \<Rightarrow> ([OpenMaster], Some e)
      | None \<Rightarrow> (case ptyIoctl (pa_grant a) of Some e \<Rightarrow> ([OpenMaster, IoctlGrant, CloseMaster], Some e)
      | None \<Rightarrow> (case ptyIoctl (pa_unlock a) of Some e \<Rightarrow> ([OpenMaster, IoctlGrant, IoctlUnlock, CloseMaster], Some e)
      | None \<Rightarrow> (case pa_name a of Inl e \<Rightarrow> ([OpenMaster, IoctlGrant, IoctlUnlock, IoctlName, CloseMaster], ptyIoctl (Some e))
      | Inr buf \<Rightarrow> (case pty_name buf of
            None \<Rightarrow> ([OpenMaster, IoctlGrant, IoctlUnlock, IoctlName, CloseMaster], Some (invalid ''pty slave name''))
          | Some path \<Rightarrow> open_slave a [OpenMaster, IoctlGrant, IoctlUnlock, IoctlName] path)))))"

definition openPTY_other :: "pty_answers \<Rightarrow> pty_call list \<times> goerr option" where
  "openPTY_other a =
     ([], Some (unsupportedControl ''PTY allocation on this platform'' (Sentinel ErrTransportUnsupported)))"

text \<open>The descriptors that are open after some calls, of which those that open something succeeded, except perhaps the
  last one of its kind.\<close>

fun open_after :: "pty_answers \<Rightarrow> pty_call list \<Rightarrow> fd list" where
  "open_after a [] = []"
| "open_after a (OpenMaster # cs) = (if pa_master a = None \<and> CloseMaster \<notin> set cs then [Master] else []) @ open_after a cs"
| "open_after a (OpenSlave p # cs) = (if pa_slave a = None then [Slave] else []) @ open_after a cs"
| "open_after a (c # cs) = open_after a cs"

lemma ptyIoctl_None [simp]: "ptyIoctl e = None \<longleftrightarrow> e = None"
  by (simp add: ptyIoctl_def)

lemma open_slave_descriptors:
  assumes "pa_master a = None" and "open_slave a (OpenMaster # cs) path = (calls, e)"
    and "\<forall>c \<in> set cs. c \<in> {IoctlUnlock, IoctlGrant, IoctlNumber, IoctlName}"
  shows "open_after a calls = (if e = None then [Master, Slave] else [])"
proof -
  have "\<And>ds. open_after a (cs @ ds) = open_after a ds" using assms(3) by (induction cs) auto
  then show ?thesis using assms
    by (auto simp: open_slave_def setTerminalDimensions_def split: option.split_asm)
qed

lemma openPTY_leaks_nothing:
  assumes "open_fn \<in> {openPTY_linux, openPTY_darwin, openPTY_other}" and "open_fn a = (calls, e)"
  shows "open_after a calls = (if e = None then [Master, Slave] else [])"
  using assms
  by (auto simp: openPTY_linux_def openPTY_darwin_def openPTY_other_def open_slave_descriptors ptyIoctl_def
      split: option.split_asm sum.split_asm)

text \<open>The slave that is opened is the one the kernel named.\<close>

lemma openPTY_slave_path:
  assumes "OpenSlave path \<in> set (fst (openPTY_darwin a))"
  shows "path \<noteq> [] \<and> NUL \<notin> set path \<and> (\<exists>buf rest. pa_name a = Inr buf \<and> buf = path @ NUL # rest)"
proof -
  from assms obtain buf where b: "pa_name a = Inr buf" "pty_name buf = Some path"
    by (auto simp: openPTY_darwin_def open_slave_def setTerminalDimensions_def split: option.split_asm sum.split_asm)
  then have t: "path = takeWhile (\<lambda>c. c \<noteq> NUL) buf" "path \<noteq> []" "NUL \<in> set buf"
    by (auto simp: pty_name_def split: if_split_asm)
  then have "dropWhile (\<lambda>c. c \<noteq> NUL) buf \<noteq> []" by auto
  then have "hd (dropWhile (\<lambda>c. c \<noteq> NUL) buf) = NUL" using hd_dropWhile by blast
  then have "buf = path @ NUL # tl (dropWhile (\<lambda>c. c \<noteq> NUL) buf)"
    using t(1) \<open>dropWhile (\<lambda>c. c \<noteq> NUL) buf \<noteq> []\<close> by (metis list.collapse takeWhile_dropWhile_id)
  moreover have "NUL \<notin> set path" using t(1) by (auto dest: set_takeWhileD)
  ultimately show ?thesis using b t(2) by blast
qed

text \<open>The whole set-up of a control client without echo, with the terminal that is opened for it.\<close>

definition setup_with_terminal ::
  "(pty_answers \<Rightarrow> pty_call list \<times> goerr option) \<Rightarrow> pty_answers \<Rightarrow> setup_answers \<Rightarrow> control_process" where
  "setup_with_terminal open_fn a ans = setupControlProcess True (ans\<lparr>sa_pty := snd (open_fn a)\<rparr>)"

lemma setup_owns_the_terminal:
  assumes "open_fn \<in> {openPTY_linux, openPTY_darwin, openPTY_other}"
  shows "cp_opened (setup_with_terminal open_fn a ans) = [] \<and> open_after a (fst (open_fn a)) = [] \<or>
    set (open_after a (fst (open_fn a))) \<subseteq> set (cp_opened (setup_with_terminal open_fn a ans))"
proof -
  have "open_after a (fst (open_fn a)) = (if snd (open_fn a) = None then [Master, Slave] else [])"
    using openPTY_leaks_nothing [OF assms] by (metis prod.collapse)
  then show ?thesis
    by (auto simp: setup_with_terminal_def setupControlProcess_def setup_failed_def start_child_def split: option.split)
qed

subsection \<open>The pipes of a process\<close>

datatype pipe_end = PipeRead nat | PipeWrite nat

record command_output =
  co_readers :: "pipe_end list"
  co_writers :: "pipe_end list"
  co_closed :: "pipe_end list"

definition closeWriters :: "command_output \<Rightarrow> command_output" where
  "closeWriters o' = o'\<lparr>co_closed := co_closed o' @ co_writers o'\<rparr>"

definition closeReaders :: "command_output \<Rightarrow> command_output" where
  "closeReaders o' = o'\<lparr>co_closed := co_closed o' @ co_readers o'\<rparr>"

text \<open>One pipe per sink; \<open>k\<close> counts the pipes that are made.\<close>

fun open_pipes :: "goerr option list \<Rightarrow> nat \<Rightarrow> command_output \<Rightarrow> goerr option \<times> command_output" where
  "open_pipes [] k o' = (None, o')"
| "open_pipes (Some e # answers) k o' = (Some e, closeReaders (closeWriters o'))"
| "open_pipes (None # answers) k o' =
     open_pipes answers (Suc k) (o'\<lparr>co_readers := co_readers o' @ [PipeRead k], co_writers := co_writers o' @ [PipeWrite k]\<rparr>)"

definition openOutput :: "goerr option \<Rightarrow> goerr option \<Rightarrow> goerr option \<times> command_output" where
  "openOutput out err = open_pipes [out, err] 0 \<lparr>co_readers = [], co_writers = [], co_closed = []\<rparr>"

text \<open>\<open>ctx_done\<close>: the context had ended. \<open>in_time\<close>: the copying goroutines ended within the budget.\<close>

definition drain :: "bool \<Rightarrow> bool \<Rightarrow> command_output \<Rightarrow> goerr option \<times> command_output" where
  "drain ctx_done in_time o' =
     (if \<not> ctx_done \<and> \<not> in_time then Some (Sentinel ErrShutdownIncomplete) else None, closeReaders o')"

text \<open>The part of \<open>run\<close> around the process: the errors of opening and draining that \<open>runner_run\<close> takes as given, and the
  pipes at the end.\<close>

definition run_pipes :: "goerr option \<Rightarrow> goerr option \<Rightarrow> bool \<Rightarrow> bool \<Rightarrow> process_run \<Rightarrow> process_run \<times> command_output" where
  "run_pipes out err ctx_done in_time pr =
     (case openOutput out err of
        (Some e, o') \<Rightarrow> (pr\<lparr>pr_open := Some e\<rparr>, o')
      | (None, o') \<Rightarrow> (case drain ctx_done in_time (closeWriters o') of
            (e, o'') \<Rightarrow> (pr\<lparr>pr_open := None, pr_drain := e\<rparr>, o'')))"

lemmas pipe_defs = run_pipes_def openOutput_def drain_def closeWriters_def closeReaders_def

text \<open>Whatever happens, each end of each pipe is closed exactly once, and the error of the process is the one of the
  first pipe that could not be made.\<close>

lemma run_pipes_closes_all:
  assumes "run_pipes out err ctx_done in_time pr = (pr', o')"
  shows "distinct (co_closed o') \<and> set (co_closed o') = set (co_readers o' @ co_writers o') \<and>
    pr_open pr' = (case out of Some e \<Rightarrow> Some e | None \<Rightarrow> err)"
  using assms by (cases out; cases err) (auto simp: pipe_defs)

text \<open>A process whose output was not read to its end says so.\<close>

lemma undrained_output_is_reported:
  assumes "run_pipes out err False False pr = (pr', o')" and "pr_slot pr = None" and "pr_ctx pr = None"
    and "out = None" and "err = None"
  shows "snd (snd (runner_run pr' outMax errMax)) \<noteq> None"
proof -
  have p: "pr_open pr' = None" "pr_drain pr' = Some (Sentinel ErrShutdownIncomplete)" "pr_slot pr' = None" "pr_ctx pr' = None"
    using assms by (auto simp: pipe_defs)
  then show ?thesis
    by (simp add: runner_run_def Let_def del: not_None_eq split: prod.split option.split)
qed

subsection \<open>Signals to the daemon\<close>

text \<open>\<open>find_process\<close> and \<open>send\<close> are \<open>os.FindProcess\<close> and \<open>Signal\<close>. The first component is the signal that was sent.\<close>

definition signalDaemon ::
  "call_env \<Rightarrow> (server \<Rightarrow> server_info) \<Rightarrow> (int \<Rightarrow> goerr option) \<Rightarrow> (int \<Rightarrow> bytes \<Rightarrow> goerr option) \<Rightarrow> server option \<Rightarrow> bytes \<Rightarrow> bytes \<Rightarrow>
   (int \<times> bytes) option \<times> goerr option" where
  "signalDaemon env verified find_process send so label sig =
     (case begin_op env so of
        Inl e \<Rightarrow> (None, opError label (Some e))
      | Inr (s, op) \<Rightarrow>
          (case verifiedInfo env verified s op of
             (Inl e, op') \<Rightarrow> (None, opError label (Some e))
           | (Inr info, op') \<Rightarrow>
               let pid = id_pid (sv_Identity info) in
               if pid \<le> 0 then (None, opError label (Some (Sentinel ErrNoServer)))
               else (case find_process pid of
                   Some e \<Rightarrow> (None, opError label (Some e))
                 | None \<Rightarrow> (Some (pid, sig), opError label (send pid sig)))))"

definition RecreateSocket where
  "RecreateSocket env verified find_process send so =
     signalDaemon env verified find_process send so ''Server.RecreateSocket'' ''SIGUSR1''"

definition ToggleLogging where
  "ToggleLogging env verified find_process send so =
     signalDaemon env verified find_process send so ''Server.ToggleLogging'' ''SIGUSR2''"

text \<open>Success means that a signal was sent, to the process of the daemon that answered, and never to a process group.\<close>

lemma signalDaemon_sends: "signalDaemon env verified find_process send so label sig \<noteq> (None, None)"
proof
  assume "signalDaemon env verified find_process send so label sig = (None, None)"
  then show False
    by (auto simp: signalDaemon_def Let_def split: sum.split_asm prod.split_asm option.split_asm if_split_asm)
qed

lemma signalDaemon_hits_the_daemon:
  assumes "signalDaemon env verified find_process send so label sig = (Some (pid, sig'), e)"
  shows "0 < pid \<and> sig' = sig \<and>
    (\<exists>s op op' info. so = Some s \<and> verifiedInfo env verified s op = (Inr info, op') \<and> pid = id_pid (sv_Identity info))"
  using assms
  by (auto simp: signalDaemon_def begin_op_def Let_def
      split: sum.split_asm prod.split_asm option.split_asm if_split_asm)

subsection \<open>Accessors\<close>

definition Server_String :: "server option \<Rightarrow> bytes" where
  "Server_String so = (case so of None \<Rightarrow> ''tmux.Server(<invalid>)''
     | Some s \<Rightarrow> ''tmux.Server('' @ endpoint_String (srv_endpoint s) @ '')'')"

definition Server_Endpoint :: "server option \<Rightarrow> endpoint" where
  "Server_Endpoint so = (case so of None \<Rightarrow> zero_endpoint | Some s \<Rightarrow> srv_endpoint s)"

definition Server_Limits :: "server option \<Rightarrow> limits" where
  "Server_Limits so = (case so of
     None \<Rightarrow> \<lparr>lim_CommandTimeout = 0, lim_OutputBytes = 0, lim_InputBytes = 0, lim_Concurrent = 0\<rparr>
   | Some s \<Rightarrow> cfg_Limits (srv_config s))"

subsection \<open>Window links over a subprocess\<close>

definition WindowLink_ViaSubprocess ::
  "call_env \<Rightarrow> (nat \<Rightarrow> server \<times> server_identity) \<Rightarrow> window_link \<Rightarrow> goerr + window_link" where
  "WindowLink_ViaSubprocess env conns l =
     (case link_check env l of
        Some e \<Rightarrow> Inl (the (opError ''WindowLink.ViaSubprocess'' (Some e)))
      | None \<Rightarrow> (case usingSubprocess env conns (wl_h l) ''WindowLink.ViaSubprocess'' of
            Inl e \<Rightarrow> Inl e
          | Inr h \<Rightarrow> Inr (l\<lparr>wl_h := h\<rparr>)))"

lemma WindowLink_ViaSubprocess_same_slot:
  assumes "WindowLink_ViaSubprocess env conns l = Inr l'"
  shows "wl_session l' = wl_session l \<and> wl_index l' = wl_index l \<and> link_Valid l' \<and>
    h_origin (wl_h l') = h_origin (wl_h l) \<and> (\<exists>s. h_server (wl_h l') = Some s \<and> srv_conn s = None)"
proof -
  from assms obtain h where h: "link_check env l = None" "usingSubprocess env conns (wl_h l) ''WindowLink.ViaSubprocess'' = Inr h"
      "l' = l\<lparr>wl_h := h\<rparr>"
    by (auto simp: WindowLink_ViaSubprocess_def split: option.split_asm sum.split_asm)
  from usingSubprocess_keeps [OF h(2)]
  have k: "h_id h = h_id (wl_h l)" "h_kind h = h_kind (wl_h l)" "h_origin h = h_origin (wl_h l)" "\<exists>s. h_server h = Some s \<and> srv_conn s = None"
    by auto
  have "link_Valid l" using h(1) by (simp add: link_check_def split: if_split_asm)
  moreover have "handle_valid h" using h(2)
    by (auto simp: usingSubprocess_def ViaSubprocess_def SubprocessServer_def handle_check_def handle_valid_def
        split: option.split_asm sum.split_asm if_split_asm prod.split_asm)
  ultimately show ?thesis using h(3) k by (auto simp: link_Valid_def)
qed

end
