(* ===== verification/Spec2Isabelle.thy ===== *)
theory Spec2Isabelle
  imports Command_Line Control_Terminal Control_Streams Control_Requests Tmux_Operations Tmux_Snapshot Tmux_Environment Tmux_Typed_Options Tmux_Buffers Tmux_Hooks Tmux_Clients Tmux_Attach Tmux_Discovery Tmux_Access Tmux_Process
begin

text \<open>
  gotmux: a verification library for the Go client of tmux under \<open>src/tmux\<close> and \<open>src/internal/wire\<close>.

  The program. A \<open>Server\<close> is an endpoint with a configuration. Its operations build a \<open>plan\<close>, a tree of tmux commands, put
  it into the nest of a \<open>guard\<close> that checks the daemon, the window links and the clients the caller's handles came from, and
  run it: as the argument vector of a short-lived tmux process, or as one line of text over a control connection, a tmux
  client in control mode that the library keeps running. The answer is a text of length-prefixed records, of printed
  options, or of frames, which is decoded into typed values. A control connection also publishes notifications to bounded
  streams. Every failure carries an outcome that says whether the command was not sent, confirmed, or of unknown effect.

  How the model reads. A byte slice or a Go string is a list of 8-bit characters (\<open>bytes\<close>), a struct a record, an error a
  value of \<open>goerr\<close>, \<open>(T, error)\<close> a sum or a pair with an option where the code returns both, an \<open>int\<close> or \<open>int64\<close> an \<open>int\<close>
  with the wrap-around written out (\<open>i64\<close>) where it can happen, a Go map a function or an association list, a pointer that
  may be nil an option. A method has the name of its Go method, with its receiver in front where the bare name is taken
  (\<open>Session_NewWindow\<close>); a definition with a small name is a piece of one. What a method asks of its surroundings is an
  argument: \<open>call_env\<close> for one run of tmux (the deadlines, the lifetime of the connection, the process as a \<open>process_run\<close>, or
  the answer of the control connection), \<open>envs i\<close> for the i-th run of a method that runs tmux several times, \<open>verified\<close> for
  what a connection learned when it attached, \<open>host\<close> and \<open>world\<close> for the operating system, and the clock or random marks
  where they are used. None of these is assumed to behave; the theorems hold for all their values, except where a hypothesis is stated.

  Shared ground.
    \<^item> \<open>Go_Prelude\<close>, \<open>Go_Text\<close>: the functions of \<open>strings\<close>, \<open>bytes\<close> and \<open>strconv\<close> that are called, with the collections
      \<open>go_simps\<close> and \<open>render\<close> of their equations.
    \<^item> \<open>Tmux_Values\<close> (\<open>value.go\<close>, \<open>identity.go\<close> and the records of other files) and \<open>Go_Errors\<close> (\<open>errors.go\<close>): plain data, the
      error tree with the walks of \<open>errors.Is\<close> and \<open>errors.As\<close>, and the labels and outcomes of errors.

  The wire, \<open>internal/wire\<close>.
    \<^item> \<open>Wire_Argv\<close> (\<open>argv.go\<close>), \<open>Wire_Words\<close> (\<open>words.go\<close>): quoting and its inverse. The writer that quotes is polymorphic in the
      writer below it; the contract is the locale \<open>byte_sink\<close>, interpreted for the text builder and for the counter.
    \<^item> \<open>Wire_Records\<close>, \<open>Wire_Formats\<close> (\<open>records.go\<close>): records, formats and the octal dialect. The interface \<open>Reader\<close> is the
      locale \<open>byte_reader\<close>, interpreted for the plain reader, the recording one and the one that knows the end;
      \<open>reader_invariant\<close> and \<open>shrinking_reader\<close> state what the loops keep and why they end.

  From commands to processes.
    \<^item> \<open>Command_Plan\<close>, \<open>Command_Line\<close> (\<open>command.go\<close>): plans, their text, their argument vector and their size, and the parser
      of native command lines; the renderings parse back.
    \<^item> \<open>Tmux_Config\<close> (\<open>config.go\<close>, \<open>server.go\<close>), \<open>Tmux_Ids\<close> (\<open>handles.go\<close>, \<open>current.go\<close>), \<open>Tmux_Version\<close> (\<open>version.go\<close>).
    \<^item> \<open>Guard\<close> (\<open>identity.go\<close>): the nest of conditions, an evaluator of it, and the reading of its answer; the plan runs exactly
      when every check holds.
    \<^item> \<open>Execute\<close> (\<open>exec.go\<close>, \<open>executor.go\<close>): bounded buffers, one process, budgets, the execution of a plan by either
      transport, and what its error says.
    \<^item> \<open>Tmux_Process\<close> (\<open>pty_*.go\<close>, \<open>exec.go\<close>, \<open>server.go\<close>): terminals, pipes and signals; no descriptor is leaked.

  Control mode.
    \<^item> \<open>Control_Terminal\<close>, \<open>Control_Codec\<close> (\<open>control_codec.go\<close>): the reader that undoes the terminal, frames and bounded lines;
      the underlying reader is the locale \<open>raw_reader\<close>.
    \<^item> \<open>Control_Events\<close> (\<open>events.go\<close>): notifications and their decoding.
    \<^item> \<open>Control_Streams\<close> (\<open>event_stream.go\<close>) and \<open>Control_Requests\<close> (\<open>control_dispatch.go\<close>): the two concurrent parts, as
      inductive step relations on the shared state. A step is one critical section, atomic access or channel operation; any
      goroutine that can move may move next, so the theorems, by rule induction on reachability, hold for every schedule.
      \<open>Control_Dispatch\<close> holds the sequential parts of the same file.
    \<^item> \<open>Tmux_Connection\<close> (\<open>control.go\<close>): options, start, identity and end of a connection.
    \<^item> \<open>Tmux_Refresh\<close>, \<open>Tmux_Clients\<close> (\<open>clients.go\<close>): the output filter a connection keeps beside the one in tmux,
      subscriptions, and what is shown on a client.

  Reading.
    \<^item> \<open>Read_Decode\<close> (\<open>decode.go\<close>, \<open>records.go\<close>, \<open>schema/fields.go\<close>), \<open>Read_Query\<close> and \<open>Read_Objects\<close> (\<open>query.go\<close>, \<open>read.go\<close>):
      typed records, requests with one repetition, lists, look-ups and combined reads.
    \<^item> \<open>Tmux_Snapshot\<close> (\<open>snapshot.go\<close>, \<open>current.go\<close>): a whole server in one read, its cross references, and the place of a
      process in it.
    \<^item> \<open>Tmux_Discovery\<close> (\<open>discovery.go\<close>): the search for daemons.

  Changing.
    \<^item> \<open>Tmux_Handles\<close> (\<open>handles.go\<close>), \<open>Tmux_Program\<close> (\<open>program.go\<close>), \<open>Tmux_Create\<close> (\<open>create.go\<close>), \<open>Tmux_Operations\<close>
      (\<open>operations.go\<close>, \<open>layout.go\<close>), \<open>Tmux_Options\<close> (\<open>options.go\<close>), \<open>Tmux_Typed_Options\<close> (\<open>options_generated.go\<close>),
      \<open>Tmux_Environment\<close>, \<open>Tmux_Buffers\<close>, \<open>Tmux_Hooks\<close>, \<open>Tmux_Input\<close>, \<open>Tmux_Coordination\<close>, \<open>Tmux_Attach\<close>, \<open>Tmux_Access\<close>: the file
      of the same name each.

  What the theorems show. After this text stands the theorem that spans the control side: the rows tmux encodes are the rows
  the library parses, whatever the terminal between them does. Round trips: what is quoted, rendered or encoded parses back, for arguments, plans, command lines,
  records, frames, notifications, bindings, environments and typed options; for records and the octal dialect the parser
  accepts nothing else. Safety: an operation on an observed handle reaches only its daemon; a call that returned as not sent
  is never written; a program is never run as a shell line; a search dials no file that is known to refuse. Errors: outcomes
  are honest for a single command, an array update and a creation. Bounds and invariants: quotas, capacities and captures.
  Equivalence and refinement: the stream is a queue, the terminal reader does not depend on how its input is cut, the size
  of a plan is the length of its text, the filter of a connection publishes what was asked for. Liveness and termination of
  the concurrent parts: nobody is left waiting, and the goroutines that clean up end in a bounded number of steps.

  Bounds. No definition has fuel: the loops are recursive functions whose measure is proved, in most cases the bytes that
  are left. The limits are those of the code: 1024 fields of a record, 128 missing references kept by a snapshot, and
  lengths below \<open>2 ^ 63\<close>, the range of an \<open>int\<close>, which hypotheses name where a length is written or compared.

  Not modelled. The Go runtime: how goroutines are started and joined, timers, finalizers, the memory model beneath mutexes,
  atomics and channels; the sections that run in them are modelled. The kernel and tmux itself, except the evaluator of
  guard conditions and the printed forms that round trips are stated over, which repeat the documented formats. The text of
  error messages. \<open>internal/schema/generate\<close>, which renders \<open>options_generated.go\<close>, \<open>tmuxtest\<close>, and the tests.
\<close>

subsection \<open>The answer of a command, through the terminal to its rows\<close>

fun item_row :: "frame_item \<Rightarrow> bytes list list" where
  "item_row (RecordItem vs) = [vs]"
| "item_row _ = []"

definition item_rows :: "frame_item list \<Rightarrow> bytes list list" where
  "item_rows items = concat (map item_row items)"

fun no_marker :: "frame_item \<Rightarrow> bool" where
  "no_marker (MarkerItem m) \<longleftrightarrow> False"
| "no_marker _ \<longleftrightarrow> True"

lemma items_data_rows: "list_all no_marker items \<Longrightarrow> items_data items = concat (map EncodeRecord (item_rows items))"
proof (induction items)
  case (Cons x items)
  then show ?case by (cases x) (auto simp: items_data_def item_rows_def)
qed (simp add: items_data_def item_rows_def)

lemma item_rows_bounded: "list_all (item_ok M) items \<Longrightarrow> row \<in> set (item_rows items) \<Longrightarrow> length row \<le> 1024"
proof (induction items)
  case (Cons x items)
  then show ?case by (cases x) (auto simp: item_rows_def)
qed (simp add: item_rows_def)

text \<open>C2: The answer of a command reaches its caller whole. tmux encodes rows as records, puts them between the lines of a
  frame, with notifications in between, and writes that to a terminal, which turns line feeds into carriage return and line
  feed and hands the bytes over in pieces of any size, perhaps behind a device control string. What the library reads is that
  frame, with the notifications published in order and the input after it intact, and parsing its data gives the rows.\<close>

theorem answer_survives_the_terminal:
  assumes "frameID_ok i" and "list_all (item_ok maxBytes) items" and "list_all no_marker items"
    and "list_all (\<lambda>row. int (length row) = k) (item_rows items)"
    and "stamped clock items (frame_line ''end'' i @ tail)"
    and "int (length (frame_line ''begin'' i) + length (items_data items)) \<le> maxBytes" and "maxBytes \<le> (2 ^ 63 - 1) div 4"
    and "concat chunks = pre @ terminal_lines (frame_line ''begin'' i @ items_text items @ frame_line ''end'' i @ tail)"
    and "pre \<in> {[], ESC_DSC}"
    and "stream_reads pipe_read sizes newControlStreamReader (chunks, e) = ((out, err), c', u')"
    and "list_all (\<lambda>n. 0 < n) sizes" and "length (concat chunks) < length sizes"
  shows "\<exists>data. readControlUnit clock \<lparr>src_rest = out, src_end = e\<rparr> maxBytes =
      ((items_notices items, Inr (FrameUnit \<lparr>fr_id = i, fr_data = data, fr_failed = False\<rparr>)), \<lparr>src_rest = tail, src_end = e\<rparr>) \<and>
    ParseRecords data k = Inr (item_rows items)"
proof -
  let ?s = "frame_line ''begin'' i @ items_text items @ frame_line ''end'' i @ tail"
  have "\<not> has_prefix ?s [CHR 0x1b]" by (simp add: frame_line_def has_prefix_byte)
  then have "readControlUnit clock \<lparr>src_rest = out, src_end = e\<rparr> maxBytes = readControlUnit clock \<lparr>src_rest = ?s, src_end = e\<rparr> maxBytes"
    using assms(8-12) by (intro readControlUnit_through_terminal)
  moreover have "stamped clock items (frame_line (if False then ''error'' else ''end'') i @ tail)" using assms(5) by simp
  note readControlUnit_frame [OF assms(1,2) this assms(6,7), of e]
  moreover have "length (items_data items) < 2 ^ 63" using assms(6,7) by simp
  then have "ParseRecords (items_data items) k = Inr (item_rows items)"
    unfolding items_data_rows [OF assms(3)] using assms(4) item_rows_bounded [OF assms(2)]
    by (intro ParseRecords_concat) (auto simp: list_all_iff)
  ultimately show ?thesis by simp
qed

definition tiny_answer :: "frame_item list" where "tiny_answer = [RecordItem [''%end'' @ [LF], ''$1'']]"

lemma answer_survives_the_terminal_witness:
  "\<exists>out data. readControlUnit (\<lambda>_. 0) \<lparr>src_rest = out, src_end = Sentinel IoEOF\<rparr> 200 =
      (([], Inr (FrameUnit \<lparr>fr_id = tiny_id, fr_data = data, fr_failed = False\<rparr>)), \<lparr>src_rest = ''rest'', src_end = Sentinel IoEOF\<rparr>) \<and>
    ParseRecords data 2 = Inr [[''%end'' @ [LF], ''$1'']]"
proof -
  let ?t = "ESC_DSC @ terminal_lines (frame_line ''begin'' tiny_id @ items_text tiny_answer @ frame_line ''end'' tiny_id @ ''rest'')"
  obtain out err c' u' where r:
      "stream_reads pipe_read (replicate (Suc (length ?t)) 3) newControlStreamReader ([?t], Sentinel IoEOF) = ((out, err), c', u')"
    by (metis prod.collapse)
  have "int (length (frame_line ''begin'' tiny_id) + length (items_data tiny_answer)) \<le> 200"
    "list_all (item_ok 200) tiny_answer" "list_all no_marker tiny_answer" "list_all (\<lambda>row. int (length row) = 2) (item_rows tiny_answer)"
    "stamped (\<lambda>_. 0) tiny_answer (frame_line ''end'' tiny_id @ ''rest'')"
    by (simp_all add: tiny_id_def tiny_answer_def item_rows_def items_data_def frame_line_def itoa_nat_small EncodeRecord_def encode_field_def)
  from answer_survives_the_terminal [OF tiny_frame(1) this(2,3,4,5,1) _ _ _ r, of ESC_DSC]
  show ?thesis by (auto simp: tiny_answer_def items_notices_def item_rows_def list_all_iff)
qed

end
